(* ===== verification/Prelude.thy ===== *)
theory Prelude
  imports Main "HOL-Library.State_Monad" "HOL-Library.Sublist"
begin

text \<open>
  Shared vocabulary of the development: instants and durations of Go's package time, the error
  values of the program, the connection to PostgreSQL (a clock, a schedule of faults, and the
  tables that later theories add by record extension), statements and transactions on it as
  values of the state monad, and HTTP answers. The lemma collections \<open>sql_defs\<close>
  (definitions unfolded to run a statement) and \<open>io_intros\<close> (frame rules) carry the proofs of
  the components.
\<close>

named_theorems sql_defs \<open>definitions of statements, unfolded to run them\<close>
named_theorems io_intros \<open>compositional rules for relations between the states before and after\<close>

section \<open>Instants and durations\<close>

text \<open>
  A \<open>time.Time\<close> is the number of nanoseconds since the Unix epoch; Go's zero instant is
  midnight of 1 January of year 1. A \<open>time.Duration\<close> is a signed 64-bit count of nanoseconds,
  and \<open>Time.Sub\<close> saturates at its bounds.
\<close>

type_synonym instant = int
type_synonym duration = int

definition zero_time :: instant where
  "zero_time = - 62135596800000000000"

definition is_zero :: "instant \<Rightarrow> bool" where
  "is_zero t \<longleftrightarrow> t = zero_time"

definition max_duration :: duration where "max_duration = 9223372036854775807"
definition min_duration :: duration where "min_duration = - 9223372036854775808"

definition time_sub :: "instant \<Rightarrow> instant \<Rightarrow> duration" where
  "time_sub t u = max min_duration (min max_duration (t - u))"

definition millisecond :: duration where "millisecond = 1000000"
definition second :: duration where "second = 1000 * millisecond"
definition minute :: duration where "minute = 60 * second"
definition hour :: duration where "hour = 60 * minute"

lemmas duration_defs = millisecond_def second_def minute_def hour_def

definition truncate_ms :: "instant \<Rightarrow> instant" where
  "truncate_ms t = t - t mod millisecond"

lemma truncate_ms_idem [simp]: "truncate_ms (truncate_ms t) = truncate_ms t"
  by (simp add: truncate_ms_def duration_defs)

lemma truncate_ms_mono: "t \<le> u \<Longrightarrow> truncate_ms t \<le> truncate_ms u"
  by (simp add: truncate_ms_def duration_defs minus_mod_eq_mult_div zdiv_mono1)

lemma truncate_ms_le: "truncate_ms t \<le> t"
  by (simp add: truncate_ms_def duration_defs)

lemma time_sub_le_iff:
  assumes "0 \<le> w" "w < max_duration"
  shows "time_sub t u \<le> w \<longleftrightarrow> t - u \<le> w"
  using assms by (auto simp: time_sub_def max_duration_def min_duration_def)

lemma time_sub_gt_iff:
  assumes "0 \<le> w" "w < max_duration"
  shows "w < time_sub t u \<longleftrightarrow> w < t - u"
  using time_sub_le_iff [OF assms, of t u] by linarith

section \<open>Errors\<close>

text \<open>
  Go's \<open>error\<close> values: a statement that does not reach the server, \<open>sql.ErrNoRows\<close>, a
  violated constraint (unique, check, foreign key), and the errors the program builds from a
  message.
\<close>

datatype goerr =
    ConnError
  | NoRows
  | UniqueViolation
  | CheckViolation
  | ForeignKeyViolation
  | Errorf string

text \<open>\<open>err.Error()\<close>; the wording of the driver's own errors is not part of the model.\<close>

definition goerr_text :: "goerr \<Rightarrow> string" where
  "goerr_text e = (case e of Errorf s \<Rightarrow> s | NoRows \<Rightarrow> ''sql: no rows in result set'' | _ \<Rightarrow> ''pq'')"

section \<open>Statements on the connection\<close>

text \<open>
  \<open>clock\<close> is what \<open>NOW()\<close> and \<open>time.Now()\<close> return while a request is handled. \<open>faults\<close>
  schedules the failures of the connection: the next statement fails when the head is
  \<open>True\<close>; after the last entry every statement reaches the server.
\<close>

record conn =
  clock :: instant
  faults :: "bool list"

type_synonym ('m, 'a) stmt = "('m conn_scheme, goerr + 'a) state"

definition sql :: "('m conn_scheme \<Rightarrow> (goerr + 'a) \<times> 'm conn_scheme) \<Rightarrow> ('m, 'a) stmt" where
  "sql f = State (\<lambda>d. case faults d of
       [] \<Rightarrow> f d
     | b # bs \<Rightarrow> if b then (Inl ConnError, d\<lparr>faults := bs\<rparr>) else f (d\<lparr>faults := bs\<rparr>))"

text \<open>A statement that only reads, and one that rewrites the tables and cannot be refused.\<close>

definition query :: "('m conn_scheme \<Rightarrow> goerr + 'a) \<Rightarrow> ('m, 'a) stmt" where
  "query f = sql (\<lambda>d. (f d, d))"

definition exec :: "('m conn_scheme \<Rightarrow> 'm conn_scheme) \<Rightarrow> ('m, unit) stmt" where
  "exec f = sql (\<lambda>d. (Inr (), f d))"

text \<open>
  \<open>Beginx\<close>, a body, \<open>Commit\<close>: each reaches the server or fails; an error anywhere rolls the
  tables back to what they were at the beginning.
\<close>

definition tx :: "('m, 'a) stmt \<Rightarrow> ('m, 'a) stmt" where
  "tx body = State (\<lambda>d. case run_state (exec id) d of
       (Inl e, d1) \<Rightarrow> (Inl e, d1)
     | (Inr _, d1) \<Rightarrow> (case run_state body d1 of
           (Inl e, d2) \<Rightarrow> (Inl e, d1\<lparr>faults := faults d2\<rparr>)
         | (Inr x, d2) \<Rightarrow> (case run_state (exec id) d2 of
               (Inl e, d3) \<Rightarrow> (Inl e, d1\<lparr>faults := faults d3\<rparr>)
             | (Inr _, d3) \<Rightarrow> (Inr x, d3))))"

text \<open>\<open>if err != nil { return err }\<close>, the glue of the stores.\<close>

definition andThen :: "('m, 'a) stmt \<Rightarrow> ('a \<Rightarrow> ('m, 'b) stmt) \<Rightarrow> ('m, 'b) stmt" where
  "andThen m f = State_Monad.bind m (\<lambda>r. case r of Inl e \<Rightarrow> State_Monad.return (Inl e) | Inr x \<Rightarrow> f x)"

definition now :: "('m conn_scheme, instant) state" where
  "now = State (\<lambda>d. (clock d, d))"

lemma run_now [simp]: "run_state now d = (clock d, d)"
  by (simp add: now_def)

lemma run_sql_ok [simp]: "faults d = [] \<Longrightarrow> run_state (sql f) d = f d"
  by (simp add: sql_def)

lemma run_query_ok [simp]: "faults d = [] \<Longrightarrow> run_state (query f) d = (f d, d)"
  by (simp add: query_def)

lemma run_exec_ok [simp]: "faults d = [] \<Longrightarrow> run_state (exec f) d = (Inr (), f d)"
  by (simp add: exec_def)

lemma run_andThen [simp]:
  "run_state (andThen m f) d = (case run_state m d of
      (Inl e, d1) \<Rightarrow> (Inl e, d1) | (Inr x, d1) \<Rightarrow> run_state (f x) d1)"
  by (auto simp: andThen_def split: prod.splits sum.splits)

lemma run_tx_ok:
  assumes "faults d = []" "run_state body d = (Inr x, d')" "faults d' = []"
  shows "run_state (tx body) d = (Inr x, d')"
  using assms by (simp add: tx_def)

lemma faults_update_same: "faults d = bs \<Longrightarrow> d\<lparr>faults := bs\<rparr> = d"
  by (cases d) simp

text \<open>A statement that fails for the connection's sake leaves the tables alone.\<close>

lemma sql_cases:
  assumes "run_state (sql f) d = (r, d')"
  obtains (conn) bs where "r = Inl ConnError" "d' = d\<lparr>faults := bs\<rparr>"
        | (ran) bs where "(r, d') = f (d\<lparr>faults := bs\<rparr>)"
proof (cases "faults d")
  case Nil
  then have "(r, d') = f (d\<lparr>faults := []\<rparr>)" using assms by (simp add: faults_update_same)
  then show thesis by (rule ran)
next
  case (Cons b bs)
  show thesis
  proof (cases b)
    case True
    then show thesis using assms Cons conn by (auto simp: sql_def)
  next
    case False
    then have "(r, d') = f (d\<lparr>faults := bs\<rparr>)" using assms Cons by (simp add: sql_def)
    then show thesis by (rule ran)
  qed
qed

lemma query_cases:
  assumes "run_state (query f) d = (r, d')"
  obtains bs where "d' = d\<lparr>faults := bs\<rparr>" "r = Inl ConnError \<or> r = f (d\<lparr>faults := bs\<rparr>)"
  using assms unfolding query_def by (cases rule: sql_cases) auto

lemma exec_cases:
  assumes "run_state (exec f) d = (r, d')"
  obtains (conn) bs where "r = Inl ConnError" "d' = d\<lparr>faults := bs\<rparr>"
        | (ran) bs where "r = Inr ()" "d' = f (d\<lparr>faults := bs\<rparr>)"
  using assms unfolding exec_def by (cases rule: sql_cases) auto

lemma tx_cases:
  assumes "run_state (tx body) d = (r, d')"
  obtains (failed) e bs where "r = Inl e" "d' = d\<lparr>faults := bs\<rparr>"
        | (committed) x bs bs' d2 where "r = Inr x" "run_state body (d\<lparr>faults := bs\<rparr>) = (Inr x, d2)"
            "d' = d2\<lparr>faults := bs'\<rparr>"
proof -
  obtain r1 d1 where b: "run_state (exec id) d = (r1, d1)" by fastforce
  obtain r2 d2 where m: "run_state body d1 = (r2, d2)" by fastforce
  obtain r3 d3 where c: "run_state (exec id) d2 = (r3, d3)" by fastforce
  from b obtain bs where d1: "d1 = d\<lparr>faults := bs\<rparr>" by (cases rule: exec_cases) auto
  from c obtain bs' where d3: "d3 = d2\<lparr>faults := bs'\<rparr>" by (cases rule: exec_cases) auto
  show thesis
  proof (cases r1)
    case (Inl e)
    then show thesis using assms b d1 failed by (auto simp: tx_def)
  next
    case r1: (Inr u)
    show thesis
    proof (cases r2)
      case (Inl e)
      then show thesis using assms b m d1 r1 failed by (auto simp: tx_def)
    next
      case r2: (Inr x)
      then show thesis using assms b m c d1 d3 r1 failed committed
        by (cases r3) (auto simp: tx_def)
    qed
  qed
qed

text \<open>What a successful statement tells about the state it leaves.\<close>

lemma andThen_Inr:
  assumes "run_state (andThen m f) d = (Inr y, d')"
  obtains x d1 where "run_state m d = (Inr x, d1)" "run_state (f x) d1 = (Inr y, d')"
  using assms by (auto split: prod.splits sum.splits)

lemma sql_Inr:
  assumes "run_state (sql f) d = (Inr x, d')"
  obtains bs where "f (d\<lparr>faults := bs\<rparr>) = (Inr x, d')"
  using assms by (cases rule: sql_cases) auto

lemma exec_Inr:
  assumes "run_state (exec f) d = (Inr x, d')"
  obtains bs where "d' = f (d\<lparr>faults := bs\<rparr>)"
  using assms by (cases rule: exec_cases) auto

lemma query_Inr:
  assumes "run_state (query f) d = (Inr x, d')"
  obtains bs where "d' = d\<lparr>faults := bs\<rparr>" "f (d\<lparr>faults := bs\<rparr>) = Inr x"
  using assms by (cases rule: query_cases) auto

section \<open>Relations between the states before and after\<close>

text \<open>
  \<open>state_io_rel R m\<close> of the library says that \<open>m\<close> moves the state along \<open>R\<close>. For a
  reflexive and transitive \<open>R\<close> that forgets the fault schedule it is compositional.
\<close>

definition preorder_rel :: "('m conn_scheme \<Rightarrow> 'm conn_scheme \<Rightarrow> bool) \<Rightarrow> bool" where
  "preorder_rel R \<longleftrightarrow> (\<forall>d. R d d) \<and> (\<forall>d1 d2 d3. R d1 d2 \<longrightarrow> R d2 d3 \<longrightarrow> R d1 d3)
     \<and> (\<forall>d bs. R d (d\<lparr>faults := bs\<rparr>))"

lemma preorder_relI [intro?]:
  assumes "\<And>d. R d d" "\<And>d1 d2 d3. R d1 d2 \<Longrightarrow> R d2 d3 \<Longrightarrow> R d1 d3" "\<And>d bs. R d (d\<lparr>faults := bs\<rparr>)"
  shows "preorder_rel R"
  using assms unfolding preorder_rel_def by blast

lemma io_return [io_intros]: "preorder_rel R \<Longrightarrow> state_io_rel R (State_Monad.return x)"
  by (auto simp: preorder_rel_def)

lemma io_now [io_intros]: "preorder_rel R \<Longrightarrow> state_io_rel R now"
  by (auto simp: preorder_rel_def)

lemma io_bind [io_intros]:
  assumes R: "preorder_rel R" and m: "state_io_rel R m" and f: "\<And>x. state_io_rel R (f x)"
  shows "state_io_rel R (State_Monad.bind m f)"
proof
  fix a s s'
  assume "run_state (State_Monad.bind m f) s = (a, s')"
  then obtain b t where t: "run_state m s = (b, t)" "run_state (f b) t = (a, s')"
    by (auto split: prod.splits)
  have "R s t" "R t s'" using m f t by blast+
  then show "R s s'" using R unfolding preorder_rel_def by blast
qed

lemma io_query [io_intros]: "preorder_rel R \<Longrightarrow> state_io_rel R (query f)"
  by (auto simp: preorder_rel_def elim!: query_cases)

lemma io_sql [io_intros]:
  assumes R: "preorder_rel R" and f: "\<And>d. R d (snd (f d))"
  shows "state_io_rel R (sql f)"
proof
  fix r d d'
  assume run: "run_state (sql f) d = (r, d')"
  then show "R d d'"
  proof (cases rule: sql_cases)
    case (conn bs)
    then show ?thesis using R unfolding preorder_rel_def by simp
  next
    case (ran bs)
    then have "R (d\<lparr>faults := bs\<rparr>) d'" using f [of "d\<lparr>faults := bs\<rparr>"] by (metis snd_conv)
    then show ?thesis using R unfolding preorder_rel_def by blast
  qed
qed

lemma io_exec [io_intros]:
  assumes "preorder_rel R" "\<And>d. R d (f d)"
  shows "state_io_rel R (exec f)"
  unfolding exec_def by (rule io_sql) (use assms in auto)

lemma io_tx [io_intros]:
  assumes R: "preorder_rel R" and m: "state_io_rel R m"
  shows "state_io_rel R (tx m)"
proof
  fix r d d'
  assume "run_state (tx m) d = (r, d')"
  then show "R d d'"
  proof (cases rule: tx_cases)
    case (failed e bs)
    then show ?thesis using R unfolding preorder_rel_def by simp
  next
    case (committed x bs bs' d2)
    then have "R (d\<lparr>faults := bs\<rparr>) d2" using m by blast
    then show ?thesis using R committed unfolding preorder_rel_def by blast
  qed
qed

lemma io_andThen [io_intros]:
  assumes "preorder_rel R" "state_io_rel R m" "\<And>x. state_io_rel R (f x)"
  shows "state_io_rel R (andThen m f)"
  unfolding andThen_def
  by (rule io_bind [OF assms(1,2)]) (use assms in \<open>auto split: sum.splits intro: io_return\<close>)

lemma io_if [io_intros]:
  "(b \<Longrightarrow> state_io_rel R m) \<Longrightarrow> (\<not> b \<Longrightarrow> state_io_rel R n) \<Longrightarrow> state_io_rel R (if b then m else n)"
  by simp

lemma io_sum [io_intros]:
  assumes "\<And>e. r = Inl e \<Longrightarrow> state_io_rel R (f e)" "\<And>x. r = Inr x \<Longrightarrow> state_io_rel R (g x)"
  shows "state_io_rel R (case r of Inl e \<Rightarrow> f e | Inr x \<Rightarrow> g x)"
  using assms by (cases r) auto

lemma io_option [io_intros]:
  assumes "r = None \<Longrightarrow> state_io_rel R m" "\<And>x. r = Some x \<Longrightarrow> state_io_rel R (g x)"
  shows "state_io_rel R (case r of None \<Rightarrow> m | Some x \<Rightarrow> g x)"
  using assms by (cases r) auto

lemma io_prod [io_intros]:
  assumes "\<And>x y. r = (x, y) \<Longrightarrow> state_io_rel R (g x y)"
  shows "state_io_rel R (case r of (x, y) \<Rightarrow> g x y)"
  using assms by (cases r) auto

text \<open>The relation that keeps one projection of the state is the case most frames need.\<close>

definition keeps :: "('m conn_scheme \<Rightarrow> 'b) \<Rightarrow> ('m conn_scheme, 'a) state \<Rightarrow> bool" where
  "keeps p m \<longleftrightarrow> state_io_rel (\<lambda>d d'. p d' = p d) m"

lemma keepsD: "keeps p m \<Longrightarrow> run_state m d = (r, d') \<Longrightarrow> p d' = p d"
  unfolding keeps_def by blast

lemma keepsD_snd: "keeps p m \<Longrightarrow> p (snd (run_state m d)) = p d"
  unfolding keeps_def state_io_rel_def by blast

lemma keeps_preorder:
  assumes "\<And>d bs. p (d\<lparr>faults := bs\<rparr>) = p d"
  shows "preorder_rel (\<lambda>d d'. p d' = p d)"
  using assms by (auto intro: preorder_relI)

lemma keepsI:
  assumes "state_io_rel (\<lambda>d d'. p d' = p d) m"
  shows "keeps p m"
  using assms by (simp add: keeps_def)

section \<open>Transition systems\<close>

text \<open>
  The contract of a component whose state changes only by its own steps: an invariant that the
  steps keep and, in the second locale, an order along which they move.
\<close>

locale transition_system =
  fixes init :: "'s \<Rightarrow> bool"
    and step :: "'s \<Rightarrow> 's \<Rightarrow> bool"
    and inv :: "'s \<Rightarrow> bool"
  assumes inv_init: "init s \<Longrightarrow> inv s"
    and inv_step: "inv s \<Longrightarrow> step s t \<Longrightarrow> inv t"
begin

lemma inv_steps:
  assumes "step\<^sup>*\<^sup>* s t" "inv s"
  shows "inv t"
  using assms by (induction rule: rtranclp_induct) (auto intro: inv_step)

lemma inv_reachable: "init s \<Longrightarrow> step\<^sup>*\<^sup>* s t \<Longrightarrow> inv t"
  by (blast intro: inv_steps inv_init)

end

locale monotone_system = transition_system +
  fixes le :: "'s \<Rightarrow> 's \<Rightarrow> bool"
  assumes le_refl: "le s s"
    and le_trans: "le s t \<Longrightarrow> le t u \<Longrightarrow> le s u"
    and le_step: "inv s \<Longrightarrow> step s t \<Longrightarrow> le s t"
begin

lemma le_steps:
  assumes "step\<^sup>*\<^sup>* s t" "inv s"
  shows "le s t"
  using assms
proof (induction rule: rtranclp_induct)
  case (step t u)
  then have "inv t" by (blast intro: inv_steps)
  then show ?case using step le_trans le_step by blast
qed (simp add: le_refl)

end

section \<open>HTTP answers\<close>

text \<open>
  \<open>http.Error\<close> writes a status and a line of text, \<open>writeJSON\<close> a status and an object: the
  error objects carry an error name, the others the answer proper.
\<close>

datatype 'b answer =
    HttpError nat string
  | ErrorJson nat string
  | Answer nat 'b

fun status :: "'b answer \<Rightarrow> nat" where
  "status (HttpError c _) = c"
| "status (ErrorJson c _) = c"
| "status (Answer c _) = c"

section \<open>Lists\<close>

text \<open>\<open>SELECT ... LIMIT 1\<close> on the rows that satisfy a condition, in table order.\<close>

definition first_row :: "('r \<Rightarrow> bool) \<Rightarrow> 'r list \<Rightarrow> goerr + 'r" where
  "first_row p rs = (case find p rs of None \<Rightarrow> Inl NoRows | Some r \<Rightarrow> Inr r)"

definition update_rows :: "('r \<Rightarrow> bool) \<Rightarrow> ('r \<Rightarrow> 'r) \<Rightarrow> 'r list \<Rightarrow> 'r list" where
  "update_rows p f rs = map (\<lambda>r. if p r then f r else r) rs"

lemma update_rows_simps [simp]:
  "update_rows p f [] = []"
  "update_rows p f (r # rs) = (if p r then f r else r) # update_rows p f rs"
  by (simp_all add: update_rows_def)

lemma length_update_rows [simp]: "length (update_rows p f rs) = length rs"
  by (simp add: update_rows_def)

lemma map_update_rows: "(\<And>r. p r \<Longrightarrow> g (f r) = g r) \<Longrightarrow> map g (update_rows p f rs) = map g rs"
  by (simp add: update_rows_def)

lemma in_set_update_rows:
  "r \<in> set (update_rows p f rs) \<longleftrightarrow> (\<exists>s \<in> set rs. r = (if p s then f s else s))"
  by (auto simp: update_rows_def)

lemma filter_update_rows:
  assumes "\<And>r. r \<in> set rs \<Longrightarrow> p r \<Longrightarrow> \<not> q r \<and> \<not> q (f r)"
  shows "filter q (update_rows p f rs) = filter q rs"
  using assms by (induction rs) auto

lemma find_update_rows:
  assumes "\<And>r. p r \<Longrightarrow> q (f r) = q r"
  shows "find q (update_rows p f rs) = map_option (\<lambda>r. if p r then f r else r) (find q rs)"
  using assms by (induction rs) auto

lemma find_append: "find p (xs @ ys) = (case find p xs of None \<Rightarrow> find p ys | Some x \<Rightarrow> Some x)"
  by (induction xs) auto

lemma find_SomeD: "find p rs = Some r \<Longrightarrow> r \<in> set rs \<and> p r"
  by (auto simp: find_Some_iff)

lemma first_row_Inr: "first_row p rs = Inr r \<Longrightarrow> r \<in> set rs \<and> p r"
  by (auto simp: first_row_def find_Some_iff split: option.splits)

lemma first_row_Inl: "first_row p rs = Inl e \<longleftrightarrow> e = NoRows \<and> (\<forall>r \<in> set rs. \<not> p r)"
  by (auto simp: first_row_def find_None_iff find_Some_iff split: option.splits)

end
