(* ===== verification/GoText.thy ===== *)
theory GoText
  imports Prelude "HOL-Library.Char_ord" "HOL-Library.List_Lexorder"
begin

text \<open>
  What the program uses of Go's packages strings, bytes, utf8, strconv and fmt. A Go string
  is a sequence of bytes, so it is a HOL string here, one \<open>char\<close> per byte; runes are code
  points. Decoding follows package utf8: an ill-formed sequence is the replacement rune of width
  one. \<open>to_lower\<close> maps the ASCII letters; of the other code points Go maps only U+0130 and
  U+212A into ASCII (to i and k), and no comparison of this program depends on an i or a k.
\<close>

section \<open>Bytes and runes\<close>

definition byte :: "char \<Rightarrow> nat" where
  "byte c = of_char c"

definition rune_error :: nat where
  "rune_error = 65533"

definition cont_byte :: "char \<Rightarrow> bool" where
  "cont_byte c \<longleftrightarrow> 128 \<le> byte c \<and> byte c \<le> 191"

definition in_range :: "nat \<Rightarrow> nat \<Rightarrow> char \<Rightarrow> bool" where
  "in_range lo hi c \<longleftrightarrow> lo \<le> byte c \<and> byte c \<le> hi"

text \<open>\<open>utf8.DecodeRuneInString\<close>: the first rune and its width in bytes.\<close>

fun decode_rune :: "string \<Rightarrow> nat \<times> nat" where
  "decode_rune [] = (rune_error, 0)"
| "decode_rune (a # s) =
     (let b0 = byte a in
      if b0 < 128 then (b0, 1)
      else if 194 \<le> b0 \<and> b0 \<le> 223 then
        (case s of
           b # _ \<Rightarrow> if cont_byte b then ((b0 - 192) * 64 + (byte b - 128), 2) else (rune_error, 1)
         | _ \<Rightarrow> (rune_error, 1))
      else if 224 \<le> b0 \<and> b0 \<le> 239 then
        (case s of
           b # c # _ \<Rightarrow>
             if in_range (if b0 = 224 then 160 else 128) (if b0 = 237 then 159 else 191) b \<and> cont_byte c
             then ((b0 - 224) * 4096 + (byte b - 128) * 64 + (byte c - 128), 3) else (rune_error, 1)
         | _ \<Rightarrow> (rune_error, 1))
      else if 240 \<le> b0 \<and> b0 \<le> 244 then
        (case s of
           b # c # e # _ \<Rightarrow>
             if in_range (if b0 = 240 then 144 else 128) (if b0 = 244 then 143 else 191) b
                \<and> cont_byte c \<and> cont_byte e
             then ((b0 - 240) * 262144 + (byte b - 128) * 4096 + (byte c - 128) * 64 + (byte e - 128), 4)
             else (rune_error, 1)
         | _ \<Rightarrow> (rune_error, 1))
      else (rune_error, 1))"

definition width :: "string \<Rightarrow> nat" where
  "width s = snd (decode_rune s)"

lemma width_pos: "s \<noteq> [] \<Longrightarrow> 0 < width s"
  by (cases s) (auto simp: width_def Let_def split: list.splits)

lemma width_le: "width s \<le> length s"
  by (cases s) (auto simp: width_def Let_def split: list.splits)

text \<open>The runes a \<open>for range\<close> loop visits, each with its width.\<close>

function runes :: "string \<Rightarrow> (nat \<times> nat) list" where
  "runes s = (if s = [] then [] else decode_rune s # runes (drop (width s) s))"
  by pat_completeness auto
termination
  by (relation "measure length") (use width_pos in \<open>auto simp: diff_less\<close>)

declare runes.simps [simp del]

lemma runes_Nil [simp]: "runes [] = []"
  by (simp add: runes.simps)

lemma runes_nonempty: "s \<noteq> [] \<Longrightarrow> runes s = decode_rune s # runes (drop (width s) s)"
  by (subst runes.simps) simp

definition rune_count :: "string \<Rightarrow> nat" where
  "rune_count s = length (runes s)"

text \<open>\<open>utf8.ValidString\<close>: no position decodes to the replacement rune of width one.\<close>

definition valid_string :: "string \<Rightarrow> bool" where
  "valid_string s \<longleftrightarrow> list_all (\<lambda>(r, n). if n = 1 then r < 128 else True) (runes s)"

text \<open>A rune of one byte beyond ASCII is the replacement rune of an ill-formed sequence.\<close>

lemma decode_rune_width1: "decode_rune s = (r, 1) \<Longrightarrow> r < 128 \<or> r = rune_error"
  by (cases s) (auto simp: Let_def split: list.splits if_splits)

lemma rune_count_le_length: "rune_count s \<le> length s"
proof (induction s rule: runes.induct)
  case (1 s)
  show ?case
  proof (cases "s = []")
    case False
    then have "rune_count (drop (width s) s) \<le> length s - width s" using 1 by simp
    then show ?thesis using width_pos [OF False] width_le [of s]
      by (simp add: rune_count_def runes_nonempty [OF False])
  qed (simp add: rune_count_def)
qed

lemma rune_count_pos: "s \<noteq> [] \<Longrightarrow> 0 < rune_count s"
  by (simp add: rune_count_def runes_nonempty)

section \<open>Spaces\<close>

text \<open>\<open>unicode.IsSpace\<close>.\<close>

definition is_space :: "nat \<Rightarrow> bool" where
  "is_space r \<longleftrightarrow>
     (if r \<le> 255 then r = 9 \<or> r = 10 \<or> r = 11 \<or> r = 12 \<or> r = 13 \<or> r = 32 \<or> r = 133 \<or> r = 160
      else r = 5760 \<or> 8192 \<le> r \<and> r \<le> 8202 \<or> r = 8232 \<or> r = 8233 \<or> r = 8239 \<or> r = 8287
        \<or> r = 12288)"

lemma rune_error_not_space [simp]: "\<not> is_space rune_error"
  by (simp add: is_space_def rune_error_def)

text \<open>
  \<open>utf8.DecodeLastRuneInString\<close> on the reversed string: step back over at most three
  continuation bytes to the start of a rune, which must end where the string ends.
\<close>

fun back_to_start :: "nat \<Rightarrow> string \<Rightarrow> string \<Rightarrow> string" where
  "back_to_start n [] acc = acc"
| "back_to_start 0 (c # rs) acc = acc"
| "back_to_start (Suc n) (c # rs) acc =
     (if cont_byte c then back_to_start n rs (c # acc) else c # acc)"

definition decode_last_rev :: "string \<Rightarrow> nat \<times> nat" where
  "decode_last_rev rs =
     (case rs of
        [] \<Rightarrow> (rune_error, 0)
      | c # cs \<Rightarrow>
          if byte c < 128 then (byte c, 1)
          else (let t = back_to_start 3 cs [c]; (r, n) = decode_rune t
                in if n = length t then (r, n) else (rune_error, 1)))"

lemma decode_last_rev_pos: "rs \<noteq> [] \<Longrightarrow> 0 < snd (decode_last_rev rs)"
proof -
  have "t \<noteq> [] \<Longrightarrow> 0 < snd (decode_rune t)" for t using width_pos by (simp add: width_def)
  moreover have "acc \<noteq> [] \<Longrightarrow> back_to_start n cs acc \<noteq> []" for n cs acc
    by (induction n cs acc rule: back_to_start.induct) auto
  ultimately show "rs \<noteq> [] \<Longrightarrow> ?thesis"
    by (auto simp: decode_last_rev_def Let_def split: list.splits prod.splits)
qed

function trim_left :: "string \<Rightarrow> string" where
  "trim_left s = (if s \<noteq> [] \<and> is_space (fst (decode_rune s)) then trim_left (drop (width s) s) else s)"
  by pat_completeness auto
termination
  by (relation "measure length") (use width_pos in \<open>auto simp: diff_less\<close>)

function trim_right_rev :: "string \<Rightarrow> string" where
  "trim_right_rev rs =
     (if rs \<noteq> [] \<and> is_space (fst (decode_last_rev rs))
      then trim_right_rev (drop (snd (decode_last_rev rs)) rs) else rs)"
  by pat_completeness auto
termination
  by (relation "measure length") (use decode_last_rev_pos in \<open>auto simp: diff_less\<close>)

declare trim_left.simps [simp del] trim_right_rev.simps [simp del]

text \<open>\<open>strings.TrimSpace\<close> and \<open>bytes.TrimSpace\<close>.\<close>

definition trim_space :: "string \<Rightarrow> string" where
  "trim_space s = rev (trim_right_rev (rev (trim_left s)))"

lemma trim_left_suffix: "suffix (trim_left s) s"
proof (induction s rule: trim_left.induct)
  case (1 s)
  then show ?case
    by (subst trim_left.simps) (auto intro: suffix_order.trans [OF _ suffix_drop])
qed

lemma trim_right_rev_suffix: "suffix (trim_right_rev rs) rs"
proof (induction rs rule: trim_right_rev.induct)
  case (1 rs)
  then show ?case
    by (subst trim_right_rev.simps) (auto intro: suffix_order.trans [OF _ suffix_drop])
qed

lemma trim_space_length: "length (trim_space s) \<le> length s"
  using suffix_length_le [OF trim_left_suffix [of s]]
    suffix_length_le [OF trim_right_rev_suffix [of "rev (trim_left s)"]]
  by (simp add: trim_space_def)

lemma set_trim_space: "set (trim_space s) \<subseteq> set s"
  using set_mono_suffix [OF trim_left_suffix [of s]]
    set_mono_suffix [OF trim_right_rev_suffix [of "rev (trim_left s)"]]
  by (auto simp: trim_space_def)

lemma trim_space_Nil [simp]: "trim_space [] = []"
  using trim_space_length [of "[]"] by simp

text \<open>A string of printable ASCII bytes with no space in it is its own trim.\<close>

definition solid :: "string \<Rightarrow> bool" where
  "solid s \<longleftrightarrow> list_all (\<lambda>c. 32 < byte c \<and> byte c < 128) s"

lemma trim_space_solid:
  assumes "solid s"
  shows "trim_space s = s"
proof -
  have l: "trim_left s = s"
    using assms by (subst trim_left.simps) (cases s; auto simp: solid_def is_space_def)
  have "list_all (\<lambda>c. 32 < byte c \<and> byte c < 128) (rev s)"
    using assms by (simp add: solid_def list_all_iff)
  then have "trim_right_rev (rev s) = rev s"
    by (subst trim_right_rev.simps) (cases "rev s"; auto simp: decode_last_rev_def is_space_def)
  then show ?thesis by (simp add: trim_space_def l)
qed

section \<open>Case, splitting and joining\<close>

definition lower_char :: "char \<Rightarrow> char" where
  "lower_char c = (if 65 \<le> byte c \<and> byte c \<le> 90 then char_of (byte c + 32) else c)"

definition to_lower :: "string \<Rightarrow> string" where
  "to_lower s = map lower_char s"

lemma byte_char_of [simp]: "n < 256 \<Longrightarrow> byte (char_of n) = n"
  by (simp add: byte_def)

lemma byte_inject [simp]: "byte c = byte e \<longleftrightarrow> c = e"
  by (simp add: byte_def)

lemma byte_lt: "byte c < 256"
  by (simp add: byte_def)

lemma lower_char_idem [simp]: "lower_char (lower_char c) = lower_char c"
  by (auto simp: lower_char_def)

lemma to_lower_idem [simp]: "to_lower (to_lower s) = to_lower s"
  by (simp add: to_lower_def)

lemma length_to_lower [simp]: "length (to_lower s) = length s"
  by (simp add: to_lower_def)

text \<open>\<open>strings.Split\<close> on a one-byte separator, \<open>strings.Join\<close>, \<open>strings.ReplaceAll\<close> of one byte.\<close>

fun split_on :: "char \<Rightarrow> string \<Rightarrow> string list" where
  "split_on c [] = [[]]"
| "split_on c (x # xs) =
     (if x = c then [] # split_on c xs
      else (case split_on c xs of [] \<Rightarrow> [[x]] | p # ps \<Rightarrow> (x # p) # ps))"

fun join :: "string \<Rightarrow> string list \<Rightarrow> string" where
  "join sep [] = []"
| "join sep [p] = p"
| "join sep (p # q # ps) = p @ sep @ join sep (q # ps)"

definition replace_char :: "char \<Rightarrow> string \<Rightarrow> string \<Rightarrow> string" where
  "replace_char c r s = concat (map (\<lambda>x. if x = c then r else [x]) s)"

definition trim_prefix :: "string \<Rightarrow> string \<Rightarrow> string" where
  "trim_prefix p s = (if prefix p s then drop (length p) s else s)"

lemma split_on_nonempty [simp]: "split_on c s \<noteq> []"
  by (induction s) (auto split: list.splits)

lemma join_split: "join [c] (split_on c s) = s"
proof (induction s)
  case (Cons x xs)
  then show ?case
    by (cases "split_on c xs"; cases "tl (split_on c xs)") auto
qed simp

lemma split_on_parts: "p \<in> set (split_on c s) \<Longrightarrow> c \<notin> set p"
proof (induction s arbitrary: p)
  case (Cons x xs)
  then show ?case by (cases "split_on c xs") (auto split: if_splits)
qed auto

lemma split_on_no_sep: "c \<notin> set s \<Longrightarrow> split_on c s = [s]"
  by (induction s) auto

lemma split_on_append: "c \<notin> set p \<Longrightarrow> split_on c (p @ c # s) = p # split_on c s"
  by (induction p) auto

lemma split_join:
  assumes "ps \<noteq> []" "\<forall>p \<in> set ps. c \<notin> set p"
  shows "split_on c (join [c] ps) = ps"
  using assms
proof (induction "[c]" ps rule: join.induct)
  case (3 p q ps)
  then show ?case by (simp add: split_on_append)
qed (auto simp: split_on_no_sep)

section \<open>Decimal numbers\<close>

definition digit :: "char \<Rightarrow> bool" where
  "digit c \<longleftrightarrow> 48 \<le> byte c \<and> byte c \<le> 57"

definition digit_val :: "char \<Rightarrow> int" where
  "digit_val c = int (byte c) - 48"

definition dec_val :: "string \<Rightarrow> int" where
  "dec_val s = foldl (\<lambda>n c. 10 * n + digit_val c) 0 s"

definition in_int64 :: "int \<Rightarrow> bool" where
  "in_int64 n \<longleftrightarrow> - 9223372036854775808 \<le> n \<and> n \<le> 9223372036854775807"

text \<open>\<open>strconv.Atoi\<close> (\<open>int\<close> has 64 bits): an optional sign, one digit or more, in range.\<close>

definition parse_digits :: "int \<Rightarrow> string \<Rightarrow> int option" where
  "parse_digits sg s =
     (if s \<noteq> [] \<and> list_all digit s \<and> in_int64 (sg * dec_val s) then Some (sg * dec_val s) else None)"

definition atoi :: "string \<Rightarrow> int option" where
  "atoi s = (case s of
       [] \<Rightarrow> None
     | c # r \<Rightarrow> if c = CHR ''-'' then parse_digits (- 1) r
               else if c = CHR ''+'' then parse_digits 1 r else parse_digits 1 s)"

fun digits :: "nat \<Rightarrow> string" where
  "digits n = (if n < 10 then [char_of (48 + n)] else digits (n div 10) @ [char_of (48 + n mod 10)])"

declare digits.simps [simp del]

text \<open>\<open>strconv.Itoa\<close>.\<close>

definition itoa :: "int \<Rightarrow> string" where
  "itoa n = (if n < 0 then CHR ''-'' # digits (nat (- n)) else digits (nat n))"

lemma digit_char_of [simp]: "(n::nat) < 10 \<Longrightarrow> digit (char_of (48 + n))"
  by (simp add: digit_def)

lemma digits_digit: "list_all digit (digits n)"
proof (induction n rule: digits.induct)
  case (1 n)
  then show ?case by (subst digits.simps) (auto simp: list_all_append)
qed

lemma digits_nonempty [simp]: "digits n \<noteq> []"
  by (subst digits.simps) simp

lemma dec_val_snoc: "dec_val (s @ [c]) = 10 * dec_val s + digit_val c"
  by (simp add: dec_val_def)

lemma dec_val_digits: "dec_val (digits n) = int n"
proof (induction n rule: digits.induct)
  case (1 n)
  show ?case
  proof (cases "n < 10")
    case True
    then show ?thesis by (subst digits.simps) (simp add: dec_val_def digit_val_def)
  next
    case False
    then have "dec_val (digits (n div 10)) = int (n div 10)" using 1 by simp
    moreover have "10 * int (n div 10) + int (n mod 10) = int n"
      by (metis mult_div_mod_eq of_nat_add of_nat_mult of_nat_numeral)
    ultimately show ?thesis using False
      by (subst digits.simps) (simp add: dec_val_snoc digit_val_def)
  qed
qed

lemma digit_not_sign: "digit c \<Longrightarrow> c \<noteq> CHR ''-'' \<and> c \<noteq> CHR ''+''"
  by (auto simp: digit_def byte_def)

lemma atoi_itoa: "in_int64 n \<Longrightarrow> atoi (itoa n) = Some n"
proof (cases "n < 0")
  case True
  then show "in_int64 n \<Longrightarrow> ?thesis"
    by (simp add: itoa_def atoi_def parse_digits_def digits_digit dec_val_digits)
next
  case False
  obtain c cs where d: "digits (nat n) = c # cs" using digits_nonempty neq_Nil_conv by metis
  then have "digit c" using digits_digit [of "nat n"] by simp
  then have "atoi (digits (nat n)) = parse_digits 1 (digits (nat n))"
    using digit_not_sign d by (auto simp: atoi_def)
  then show "in_int64 n \<Longrightarrow> ?thesis" using False
    by (simp add: itoa_def parse_digits_def digits_digit dec_val_digits)
qed

lemma itoa_inj: "in_int64 m \<Longrightarrow> in_int64 n \<Longrightarrow> itoa m = itoa n \<longleftrightarrow> m = n"
  by (metis atoi_itoa option.inject)

lemma atoi_range: "atoi s = Some n \<Longrightarrow> in_int64 n"
  by (auto simp: atoi_def parse_digits_def split: list.splits if_splits)

lemma dec_val_nonneg: "list_all digit s \<Longrightarrow> 0 \<le> dec_val s"
proof (induction s rule: rev_induct)
  case (snoc c s)
  then show ?case by (auto simp: dec_val_snoc digit_val_def digit_def)
qed (simp add: dec_val_def)

lemma dec_val_bound: "list_all digit s \<Longrightarrow> dec_val s < 10 ^ length s"
proof (induction s rule: rev_induct)
  case (snoc c s)
  then have "dec_val s < 10 ^ length s" "digit_val c \<le> 9"
    by (auto simp: digit_def digit_val_def)
  then show ?case by (simp add: dec_val_snoc)
qed (simp add: dec_val_def)

text \<open>
  \<open>fmt.Sscanf(s, "%d", &n)\<close>: leading spaces are skipped, a line break among them is an error,
  then an optional sign and the longest run of digits; what follows is ignored.
\<close>

function skip_space :: "string \<Rightarrow> string option" where
  "skip_space s =
     (if s = [] then Some []
      else if hd s = CHR 0x0A then None
      else if is_space (fst (decode_rune s)) then skip_space (drop (width s) s)
      else Some s)"
  by pat_completeness auto
termination
  by (relation "measure length") (use width_pos in \<open>auto simp: diff_less\<close>)

declare skip_space.simps [simp del]

definition sscanf_d :: "string \<Rightarrow> int option" where
  "sscanf_d s = (case skip_space s of
       None \<Rightarrow> None
     | Some [] \<Rightarrow> None
     | Some (c # r) \<Rightarrow>
         if c = CHR ''-'' then parse_digits (- 1) (takeWhile digit r)
         else if c = CHR ''+'' then parse_digits 1 (takeWhile digit r)
         else parse_digits 1 (takeWhile digit (c # r)))"

lemma skip_space_digit: "digit c \<Longrightarrow> skip_space (c # s) = Some (c # s)"
proof -
  assume "digit c"
  then have "48 \<le> byte c" "byte c \<le> 57" "c \<noteq> CHR 0x0A" by (auto simp: digit_def byte_def)
  then show ?thesis by (subst skip_space.simps) (simp add: is_space_def)
qed

lemma sscanf_d_itoa:
  assumes "0 \<le> n" "in_int64 n"
  shows "sscanf_d (itoa n) = Some n"
proof -
  obtain c cs where d: "digits (nat n) = c # cs" using digits_nonempty neq_Nil_conv by metis
  have all: "list_all digit (c # cs)" using digits_digit [of "nat n"] d by simp
  have tw: "takeWhile digit (c # cs) = c # cs"
    using all by (intro takeWhile_eq_all_conv [THEN iffD2]) (auto simp: list_all_iff)
  have "dec_val (c # cs) = n" using dec_val_digits [of "nat n"] d assms(1) by simp
  moreover have "sscanf_d (c # cs) = parse_digits 1 (takeWhile digit (c # cs))"
  proof -
    have c: "digit c" using all by simp
    then have ns: "(c = CHR ''-'') = False" "(c = CHR ''+'') = False"
      using digit_not_sign by blast+
    show ?thesis
      unfolding sscanf_d_def by (simp only: skip_space_digit [OF c] option.case list.case ns if_False)
  qed
  ultimately have "sscanf_d (c # cs) = Some n" using assms all unfolding tw by (simp add: parse_digits_def)
  then show ?thesis using assms(1) d by (simp add: itoa_def)
qed

section \<open>Replacement\<close>

text \<open>
  \<open>strings.ReplaceAll\<close> of a text that is not empty, and \<open>ReplaceAllString\<close> of an expression
  without operators: the leftmost matches that do not overlap.
\<close>

function replace_all :: "string \<Rightarrow> string \<Rightarrow> string \<Rightarrow> string" where
  "replace_all old new s =
     (if s = [] then []
      else if old \<noteq> [] \<and> prefix old s then new @ replace_all old new (drop (length old) s)
      else hd s # replace_all old new (tl s))"
  by pat_completeness auto
termination
  by (relation "measure (\<lambda>(_, _, s). length s)") (auto simp: prefix_def)

declare replace_all.simps [simp del]

lemma replace_all_Nil [simp]: "replace_all old new [] = []"
  by (simp add: replace_all.simps)

lemma replace_all_match: "old \<noteq> [] \<Longrightarrow> replace_all old new (old @ s) = new @ replace_all old new s"
  by (subst replace_all.simps) simp

lemma replace_all_skip: "\<not> prefix old (c # s) \<Longrightarrow> replace_all old new (c # s) = c # replace_all old new s"
  by (subst replace_all.simps) simp

text \<open>What cannot start a match is copied.\<close>

lemma replace_all_plain:
  assumes "old \<noteq> []" "hd old \<notin> set p"
  shows "replace_all old new (p @ s) = p @ replace_all old new s"
  using assms(2)
proof (induction p)
  case (Cons c p)
  then have "\<not> prefix old (c # p @ s)" using assms(1) by (cases old) auto
  then show ?case using Cons by (simp add: replace_all_skip)
qed simp

end
