(* ===== verification/Exchange.thy ===== *)
theory Exchange
  imports GoText
begin

text \<open>
  The exchange table of a cabinet and the commands written to it (internal/domain:
  order_expansion.go, action_chunk.go, merge_params.go): the completion of a light or shutter
  command to its whole block, the split of a long write into firmware sized actions, and the
  merge of several pending blocks into one. The last section gives the effect of a list of
  writes on the lamps and shutters, the reference the merge is compared with.
\<close>

unbundle bit_operations_syntax

section \<open>Order expansion\<close>

record exchange_kv =
  k_of :: int
  v_of :: string

abbreviation kv :: "int \<Rightarrow> string \<Rightarrow> exchange_kv" where
  "kv k v \<equiv> \<lparr>k_of = k, v_of = v\<rparr>"

definition index_scenario :: int where "index_scenario = 590"
definition index_light_start :: int where "index_light_start = 605"
definition index_light_end :: int where "index_light_end = 622"
definition index_security_outlets :: int where "index_security_outlets = 623"

lemmas index_defs = index_scenario_def index_light_start_def index_light_end_def
  index_security_outlets_def

text \<open>A Go \<open>map[int]string\<close> filled by a loop over the pairs: the last write of a key stays.\<close>

definition kv_map :: "exchange_kv list \<Rightarrow> int \<rightharpoonup> string" where
  "kv_map ps = foldl (\<lambda>m p. m(k_of p \<mapsto> v_of p)) Map.empty ps"

definition by_index :: "exchange_kv list \<Rightarrow> int \<rightharpoonup> string" where
  "by_index params =
     (let m = kv_map params;
          m = (if m index_scenario = None then m(index_scenario \<mapsto> ''1'') else m)
      in foldl (\<lambda>m i. if m i = None then m(i \<mapsto> ''0'') else m) m
           [index_light_start..index_security_outlets])"

text \<open>
  The keys of \<open>byIndex\<close>, in the order of the final sort: a range over a Go map has no order of
  its own, and the keys are distinct.
\<close>

definition block_keys :: "exchange_kv list \<Rightarrow> int list" where
  "block_keys params =
     sort (remdups (map k_of params @ index_scenario # [index_light_start..index_security_outlets]))"

definition has_light_shutter :: "exchange_kv list \<Rightarrow> bool" where
  "has_light_shutter params \<longleftrightarrow>
     list_ex (\<lambda>p. index_light_start \<le> k_of p \<and> k_of p \<le> index_security_outlets) params"

definition expand_legacy_scenario_block :: "exchange_kv list \<Rightarrow> exchange_kv list" where
  "expand_legacy_scenario_block params =
     (if \<not> has_light_shutter params then params
      else map (\<lambda>k. kv k (the (by_index params k))) (block_keys params))"

section \<open>Chunks\<close>

definition max_firmware_params_per_action :: int where
  "max_firmware_params_per_action = 30"

function chunks_from :: "exchange_kv list \<Rightarrow> nat \<Rightarrow> nat \<Rightarrow> exchange_kv list list" where
  "chunks_from params m i =
     (if i < length params \<and> 0 < m
      then take (min (i + m) (length params) - i) (drop i params) # chunks_from params m (i + m)
      else [])"
  by pat_completeness auto
termination
  by (relation "measure (\<lambda>(ps, m, i). length ps - i)") auto

declare chunks_from.simps [simp del]

definition chunk_exchange_params :: "exchange_kv list \<Rightarrow> int \<Rightarrow> exchange_kv list list" where
  "chunk_exchange_params params mx =
     (if mx \<le> 0 \<or> int (length params) \<le> mx
      then (if params = [] then [] else [params])
      else chunks_from params (nat mx) 0)"

section \<open>Merge of light and shutter blocks\<close>

definition pair_indices :: "(int \<rightharpoonup> int) \<Rightarrow> int \<Rightarrow> int \<Rightarrow> (int \<rightharpoonup> int)" where
  "pair_indices m a b = m(a \<mapsto> b, b \<mapsto> a)"

definition block_opposite :: "int \<rightharpoonup> int" where
  "block_opposite =
     (let m = foldl (\<lambda>m i. pair_indices m (605 + i) (611 + i)) Map.empty [0..5]
      in foldl (\<lambda>m i. pair_indices m (617 + i) (620 + i)) m [0..2])"

definition opposite_block_index :: "int \<Rightarrow> int option" where
  "opposite_block_index k = block_opposite k"

definition is_block_index :: "int \<Rightarrow> bool" where
  "is_block_index k \<longleftrightarrow> index_light_start \<le> k \<and> k \<le> index_light_end"

fun pure_loop :: "bool \<Rightarrow> exchange_kv list \<Rightarrow> bool" where
  "pure_loop has_block [] = has_block"
| "pure_loop has_block (p # ps) =
     (if is_block_index (k_of p) then pure_loop True ps
      else if k_of p = index_scenario then pure_loop has_block ps
      else if k_of p = index_security_outlets \<and> v_of p = ''0'' then pure_loop has_block ps
      else False)"

definition is_pure_block_action :: "exchange_kv list \<Rightarrow> bool" where
  "is_pure_block_action params = pure_loop False params"

text \<open>
  \<open>masks\<close> is a Go \<open>map[int]int\<close> that is only read and written through its values, so a
  missing entry is the value 0. The bitwise operators of Go's 64-bit integers agree with those
  of HOL's integers, which extend the sign for ever.
\<close>

type_synonym merge_state = "(int \<Rightarrow> int) \<times> (int \<rightharpoonup> string)"

definition merge_step :: "merge_state \<Rightarrow> exchange_kv \<Rightarrow> merge_state" where
  "merge_step s p =
     (let (masks, raw) = s; k = k_of p in
      if \<not> is_block_index k then (masks, raw)
      else (case atoi (v_of p) of
          None \<Rightarrow> (masks(k := 0), raw(k \<mapsto> v_of p))
        | Some m \<Rightarrow>
            if m = 0 then (masks, raw)
            else (let raw = raw(k := None); masks = masks(k := masks k OR m) in
                  case block_opposite k of
                    None \<Rightarrow> (masks, raw)
                  | Some j \<Rightarrow> if raw j = None then (masks(j := masks j AND NOT m), raw)
                             else (masks, raw))))"

definition merge_init :: merge_state where
  "merge_init = (\<lambda>_. 0, Map.empty)"

definition merge_block_actions :: "exchange_kv list list \<Rightarrow> exchange_kv list" where
  "merge_block_actions chunks =
     (let (masks, raw) = foldl merge_step merge_init (concat chunks) in
      sort_key k_of
        (kv index_scenario ''1''
         # map (\<lambda>k. kv k (case raw k of Some v \<Rightarrow> v | None \<Rightarrow> itoa (masks k)))
             [index_light_start..index_light_end]
         @ [kv index_security_outlets ''0'']))"

section \<open>Library\<close>

lemma kv_map_snoc [simp]: "kv_map (ps @ [p]) = (kv_map ps)(k_of p \<mapsto> v_of p)"
  by (simp add: kv_map_def)

lemma kv_map_Nil [simp]: "kv_map [] = Map.empty"
  by (simp add: kv_map_def)

lemma kv_map_single [simp]: "kv_map [p] = [k_of p \<mapsto> v_of p]"
  by (simp add: kv_map_def)

lemma kv_map_None: "kv_map ps k = None \<longleftrightarrow> k \<notin> k_of ` set ps"
  by (induction ps rule: rev_induct) auto

lemma kv_map_append: "kv_map (ps @ qs) = kv_map ps ++ kv_map qs"
proof (induction qs rule: rev_induct)
  case (snoc q qs)
  have "kv_map (ps @ qs @ [q]) = (kv_map (ps @ qs))(k_of q \<mapsto> v_of q)"
    using kv_map_snoc [of "ps @ qs" q] by simp
  then show ?case using snoc by (simp only: kv_map_snoc map_add_upd)
qed simp

lemma kv_map_in_set: "kv_map ps k = Some v \<Longrightarrow> kv k v \<in> set ps"
proof (induction ps rule: rev_induct)
  case (snoc p ps)
  then show ?case by (cases p) (auto split: if_splits)
qed simp

lemma kv_map_distinct:
  assumes "distinct (map k_of ps)" "p \<in> set ps"
  shows "kv_map ps (k_of p) = Some (v_of p)"
  using assms
proof (induction ps rule: rev_induct)
  case (snoc q qs)
  have "p \<in> set qs \<Longrightarrow> k_of p \<noteq> k_of q" using snoc.prems(1) by (auto simp: image_iff)
  then show ?case using snoc by auto
qed simp

lemma kv_map_of_fun: "kv_map (map (\<lambda>k. kv k (f k)) ks) k = (if k \<in> set ks then Some (f k) else None)"
  by (induction ks rule: rev_induct) auto

lemma fold_default:
  "foldl (\<lambda>m i. if m i = None then m(i \<mapsto> z) else m) m is k
     = (if m k = None \<and> k \<in> set is then Some z else m k)"
  by (induction "is" arbitrary: m) auto

lemma by_index_eq:
  "by_index ps k = (case kv_map ps k of
      Some v \<Rightarrow> Some v
    | None \<Rightarrow> if k = 590 then Some ''1'' else if 605 \<le> k \<and> k \<le> 623 then Some ''0'' else None)"
  unfolding by_index_def Let_def fold_default set_upto
  by (auto simp: index_defs split: option.splits)

lemma set_block_keys:
  "set (block_keys ps) = k_of ` set ps \<union> {590} \<union> {605..623}"
  unfolding block_keys_def set_sort set_remdups set_append list.set set_upto list.set_map
  by (simp add: index_defs)

lemma sorted_block_keys: "sorted (block_keys ps)" "distinct (block_keys ps)"
  by (simp_all add: block_keys_def)

lemma expand_keys:
  "has_light_shutter ps \<Longrightarrow> map k_of (expand_legacy_scenario_block ps) = block_keys ps"
  by (simp add: expand_legacy_scenario_block_def o_def)

lemma kv_map_expand:
  assumes "has_light_shutter ps"
  shows "kv_map (expand_legacy_scenario_block ps) = by_index ps"
proof
  fix k
  have "k \<in> set (block_keys ps) \<longleftrightarrow> by_index ps k \<noteq> None"
    using kv_map_None [of ps k] by (auto simp: set_block_keys by_index_eq split: option.splits)
  then show "kv_map (expand_legacy_scenario_block ps) k = by_index ps k"
    using assms by (auto simp: expand_legacy_scenario_block_def kv_map_of_fun)
qed

lemma has_light_shutter_expand:
  assumes "has_light_shutter ps"
  shows "has_light_shutter (expand_legacy_scenario_block ps)"
proof -
  have "605 \<in> set (block_keys ps)" by (simp add: set_block_keys)
  then have "605 \<in> k_of ` set (expand_legacy_scenario_block ps)"
    using expand_keys [OF assms] by (metis list.set_map)
  then show ?thesis by (force simp: has_light_shutter_def list_ex_iff index_defs)
qed

text \<open>A list of pairs with distinct sorted keys is determined by its map.\<close>

lemma kv_list_eqI:
  assumes "map k_of ps = map k_of qs" "distinct (map k_of ps)" "kv_map ps = kv_map qs"
  shows "ps = qs"
proof (rule nth_equalityI)
  show len: "length ps = length qs" using assms(1) map_eq_imp_length_eq by blast
  fix i assume i: "i < length ps"
  then have k: "k_of (ps ! i) = k_of (qs ! i)"
    using assms(1) len by (metis nth_map)
  have "kv_map ps (k_of (ps ! i)) = Some (v_of (ps ! i))"
    using assms(2) i by (intro kv_map_distinct) auto
  moreover have "kv_map qs (k_of (qs ! i)) = Some (v_of (qs ! i))"
    using assms(1,2) i len by (intro kv_map_distinct) auto
  ultimately have "v_of (ps ! i) = v_of (qs ! i)" using assms(3) k by simp
  then show "ps ! i = qs ! i" using k by simp
qed

lemma chunks_from_props:
  assumes "0 < m"
  shows "concat (chunks_from ps m i) = drop i ps
    \<and> (\<forall>c \<in> set (chunks_from ps m i). c \<noteq> [] \<and> length c \<le> m)
    \<and> length (chunks_from ps m i) = (length ps - i + m - 1) div m"
  using assms
proof (induction ps m i rule: chunks_from.induct)
  case (1 ps m i)
  show ?case
  proof (cases "i < length ps")
    case False
    then show ?thesis using 1 by (subst (1 2 3) chunks_from.simps) (simp add: div_eq_0_iff)
  next
    case True
    let ?h = "take (min (i + m) (length ps) - i) (drop i ps)"
    have IH: "concat (chunks_from ps m (i + m)) = drop (i + m) ps"
      "\<forall>c \<in> set (chunks_from ps m (i + m)). c \<noteq> [] \<and> length c \<le> m"
      "length (chunks_from ps m (i + m)) = (length ps - (i + m) + m - 1) div m"
      using 1 True by auto
    have h: "?h = take m (drop i ps)" by (cases "i + m \<le> length ps") auto
    have "?h @ drop (i + m) ps = drop i ps"
      unfolding h using append_take_drop_id [of m "drop i ps"] by (simp add: add.commute)
    moreover have "?h \<noteq> []" "length ?h \<le> m" using True 1 by (auto simp: h)
    moreover have "Suc ((length ps - (i + m) + m - 1) div m) = (length ps - i + m - 1) div m"
      using 1(2) True div_add_self1 [of m "length ps - i - 1"]
      by (cases "i + m \<le> length ps") (auto simp: algebra_simps div_eq_0_iff)
    moreover have "chunks_from ps m i = ?h # chunks_from ps m (i + m)"
      using True 1(2) by (subst chunks_from.simps) simp
    ultimately show ?thesis using IH by (simp del: take_drop length_take)
  qed
qed

section \<open>Opposites and masks\<close>

lemma block_opposite_eq:
  "block_opposite k =
     (if 605 \<le> k \<and> k \<le> 610 then Some (k + 6)
      else if 611 \<le> k \<and> k \<le> 616 then Some (k - 6)
      else if 617 \<le> k \<and> k \<le> 619 then Some (k + 3)
      else if 620 \<le> k \<and> k \<le> 622 then Some (k - 3) else None)"
proof -
  have e: "[0..5::int] = [0,1,2,3,4,5]" "[0..2::int] = [0,1,2]" by (simp_all add: upto_rec1)
  show ?thesis
  proof (cases "605 \<le> k \<and> k \<le> 622")
    case True
    then have "k \<in> set [605..622]" by (simp only: set_upto) simp
    then show ?thesis
      unfolding block_opposite_def Let_def pair_indices_def e
      by (simp add: upto_rec1) (elim disjE; simp)
  next
    case False
    then have "k < 605 \<or> 622 < k" by linarith
    then show ?thesis unfolding block_opposite_def Let_def pair_indices_def e
      by (elim disjE) simp_all
  qed
qed

lemma block_opposite_invol: "block_opposite k = Some j \<Longrightarrow> block_opposite j = Some k"
  by (auto simp: block_opposite_eq split: if_splits)

lemma block_opposite_neq: "block_opposite k = Some j \<Longrightarrow> j \<noteq> k"
  by (auto simp: block_opposite_eq split: if_splits)

lemma block_opposite_None: "block_opposite k = None \<longleftrightarrow> \<not> is_block_index k"
  by (auto simp: block_opposite_eq is_block_index_def index_defs)

lemma in_int64_iff: "in_int64 n \<longleftrightarrow> signed_take_bit 63 n = n"
  unfolding in_int64_def signed_take_bit_int_eq_self_iff by simp linarith

lemma in_int64_bit: "in_int64 n \<longleftrightarrow> (\<forall>i > 63. bit n i = bit n 63)"
proof
  assume "in_int64 n"
  then have "bit n i = bit n (min 63 i)" for i
    using bit_signed_take_bit_iff [of 63 n i] in_int64_iff [of n] by simp
  from this have "i > 63 \<Longrightarrow> bit n i = bit n 63" for i using min.absorb3 [of 63 i] by metis
  then show "\<forall>i > 63. bit n i = bit n 63" by blast
next
  assume "\<forall>i > 63. bit n i = bit n 63"
  then have "signed_take_bit 63 n = n"
    by (intro bit_eqI) (auto simp: bit_signed_take_bit_iff min_def le_less)
  then show "in_int64 n" by (simp add: in_int64_iff)
qed

lemma in_int64_or: "in_int64 m \<Longrightarrow> in_int64 n \<Longrightarrow> in_int64 (m OR n)"
  by (simp add: in_int64_bit bit_or_iff)

lemma in_int64_andnot: "in_int64 m \<Longrightarrow> in_int64 n \<Longrightarrow> in_int64 (m AND NOT n)"
  by (simp add: in_int64_bit bit_and_iff bit_not_iff)

section \<open>Effect of a list of writes\<close>

text \<open>
  What a cabinet does with the block, as the comment of \<open>MergeBlockActions\<close> describes it: a bit
  set at an index is an order for one lamp or shutter, which cancels the order of the same bit
  at the opposite index. \<open>orders k i\<close> says that the standing order for lamp \<open>i\<close> is the one of
  index \<open>k\<close>.
\<close>

type_synonym orders = "int \<Rightarrow> nat \<Rightarrow> bool"

definition apply_kv :: "orders \<Rightarrow> exchange_kv \<Rightarrow> orders" where
  "apply_kv st p =
     (case (block_opposite (k_of p), atoi (v_of p)) of
        (Some j, Some m) \<Rightarrow>
          st(k_of p := (\<lambda>i. bit m i \<or> st (k_of p) i), j := (\<lambda>i. \<not> bit m i \<and> st j i))
      | _ \<Rightarrow> st)"

definition replay :: "exchange_kv list \<Rightarrow> orders \<Rightarrow> orders" where
  "replay ps st = foldl apply_kv st ps"

definition numeric_kv :: "exchange_kv \<Rightarrow> bool" where
  "numeric_kv p \<longleftrightarrow> (is_block_index (k_of p) \<longrightarrow> atoi (v_of p) \<noteq> None)"

text \<open>What a table of masks does to the standing orders, all indices at once.\<close>

definition mask_effect :: "(int \<Rightarrow> int) \<Rightarrow> orders \<Rightarrow> orders" where
  "mask_effect masks st = (\<lambda>k. case block_opposite k of
       None \<Rightarrow> st k
     | Some j \<Rightarrow> (\<lambda>i. bit (masks k) i \<or> (st k i \<and> \<not> bit (masks j) i)))"

definition masks_ok :: "(int \<Rightarrow> int) \<Rightarrow> bool" where
  "masks_ok masks \<longleftrightarrow> (\<forall>k. in_int64 (masks k))
     \<and> (\<forall>k j. block_opposite k = Some j \<longrightarrow> masks k AND masks j = 0)"

lemma masks_okD:
  "masks_ok masks \<Longrightarrow> block_opposite k = Some j \<Longrightarrow> bit (masks k) i \<Longrightarrow> \<not> bit (masks j) i"
  unfolding masks_ok_def by (metis bit_and_iff bit_0_eq bot_apply bot_bool_def)

text \<open>One step of the merge loop on a numeric value, in closed form.\<close>

lemma merge_step_numeric:
  assumes "numeric_kv p" and raw: "raw = Map.empty"
  shows "merge_step (masks, raw) p =
    (case (block_opposite (k_of p), atoi (v_of p)) of
       (Some j, Some m) \<Rightarrow> (masks(k_of p := masks (k_of p) OR m, j := masks j AND NOT m), raw)
     | _ \<Rightarrow> (masks, raw))"
proof (cases "is_block_index (k_of p)")
  case False
  then have "block_opposite (k_of p) = None" by (simp add: block_opposite_None)
  then show ?thesis using False by (simp add: merge_step_def Let_def)
next
  case True
  then obtain m where m: "atoi (v_of p) = Some m" using assms by (auto simp: numeric_kv_def)
  obtain j where j: "block_opposite (k_of p) = Some j"
    using True block_opposite_None by blast
  have "j \<noteq> k_of p" using block_opposite_neq [OF j] .
  then show ?thesis using True m j raw
    by (auto simp: merge_step_def Let_def fun_eq_iff)
qed

lemma masks_ok_step:
  assumes ok: "masks_ok masks" and j: "block_opposite k = Some j" and m: "in_int64 m"
  shows "masks_ok (masks(k := masks k OR m, j := masks j AND NOT m))"
  (is "masks_ok ?ms")
  unfolding masks_ok_def
proof (intro conjI allI impI)
  fix l
  show "in_int64 (?ms l)"
    using ok m by (simp add: masks_ok_def in_int64_or in_int64_andnot)
next
  fix l l'
  assume l: "block_opposite l = Some l'"
  have jk: "block_opposite j = Some k" "j \<noteq> k"
    using block_opposite_invol [OF j] block_opposite_neq [OF j] by auto
  have l'l: "block_opposite l' = Some l" using block_opposite_invol [OF l] .
  have *: "\<not> bit (masks l) i \<or> \<not> bit (masks l') i" for i using masks_okD [OF ok l] by blast
  have "l = k \<longleftrightarrow> l' = j" "l = j \<longleftrightarrow> l' = k" using l l'l j jk by auto
  then show "?ms l AND ?ms l' = 0"
    using * jk(2) by (intro bit_eqI) (auto simp: bit_and_iff bit_or_iff bit_not_iff)
qed

lemma mask_effect_step:
  assumes j: "block_opposite k = Some j"
  shows "mask_effect (masks(k := masks k OR m, j := masks j AND NOT m)) st
    = (mask_effect masks st)(k := (\<lambda>i. bit m i \<or> mask_effect masks st k i),
                             j := (\<lambda>i. \<not> bit m i \<and> mask_effect masks st j i))"
proof (intro ext)
  fix l i
  have jk: "block_opposite j = Some k" "j \<noteq> k"
    using block_opposite_invol [OF j] block_opposite_neq [OF j] by auto
  show "mask_effect (masks(k := masks k OR m, j := masks j AND NOT m)) st l i
    = ((mask_effect masks st)(k := (\<lambda>i. bit m i \<or> mask_effect masks st k i),
                             j := (\<lambda>i. \<not> bit m i \<and> mask_effect masks st j i))) l i"
  proof (cases "block_opposite l")
    case None
    then show ?thesis using j jk by (auto simp: mask_effect_def)
  next
    case (Some l')
    have "block_opposite l' = Some l" using block_opposite_invol [OF Some] .
    then have "l = k \<longleftrightarrow> l' = j" "l = j \<longleftrightarrow> l' = k" using Some j jk by auto
    then show ?thesis using Some j jk
      by (auto simp: mask_effect_def bit_or_iff bit_and_iff bit_not_iff)
  qed
qed

text \<open>The masks summarise the writes: simulation of the replay by the merge loop.\<close>

lemma merge_simulates_replay:
  assumes "list_all numeric_kv ps"
  shows "\<exists>masks. foldl merge_step merge_init ps = (masks, Map.empty) \<and> masks_ok masks
    \<and> replay ps st = mask_effect masks st"
  using assms
proof (induction ps rule: rev_induct)
  case Nil
  show ?case
    by (auto simp: merge_init_def masks_ok_def in_int64_def replay_def mask_effect_def fun_eq_iff
        split: option.splits)
next
  case (snoc p ps)
  then obtain masks where IH: "foldl merge_step merge_init ps = (masks, Map.empty)"
      "masks_ok masks" "replay ps st = mask_effect masks st" by auto
  have p: "numeric_kv p" using snoc.prems by simp
  show ?case
  proof (cases "block_opposite (k_of p)")
    case None
    then show ?thesis using IH p
      by (simp add: merge_step_numeric replay_def apply_kv_def)
  next
    case (Some j)
    then obtain m where m: "atoi (v_of p) = Some m"
      using p block_opposite_None [of "k_of p"] by (auto simp: numeric_kv_def)
    let ?ms = "masks(k_of p := masks (k_of p) OR m, j := masks j AND NOT m)"
    have "foldl merge_step merge_init (ps @ [p]) = (?ms, Map.empty)"
      using IH(1) p Some m by (simp add: merge_step_numeric)
    moreover have "masks_ok ?ms" using masks_ok_step [OF IH(2) Some atoi_range [OF m]] .
    moreover have "replay (ps @ [p]) st = mask_effect ?ms st"
    proof -
      have "replay (ps @ [p]) st = apply_kv (mask_effect masks st) p"
        using IH(3) by (simp add: replay_def)
      also have "\<dots> = mask_effect ?ms st"
        unfolding mask_effect_step [OF Some] by (simp add: apply_kv_def Some m)
      finally show ?thesis .
    qed
    ultimately show ?thesis by blast
  qed
qed

text \<open>Writing a table of masks index by index has the effect of the table.\<close>

lemma replay_masks_prefix:
  assumes ok: "masks_ok masks" and "distinct ks"
  shows "replay (map (\<lambda>k. kv k (itoa (masks k))) ks) st l i =
    (case block_opposite l of
       None \<Rightarrow> st l i
     | Some j \<Rightarrow> (l \<in> set ks \<and> bit (masks l) i) \<or> (st l i \<and> \<not> (j \<in> set ks \<and> bit (masks j) i)))"
  using assms(2)
proof (induction ks arbitrary: l rule: rev_induct)
  case Nil
  show ?case by (simp add: replay_def split: option.splits)
next
  case (snoc k ks)
  let ?st = "replay (map (\<lambda>k. kv k (itoa (masks k))) ks) st"
  have a: "atoi (itoa (masks k)) = Some (masks k)"
    using ok by (simp add: masks_ok_def atoi_itoa)
  have step: "replay (map (\<lambda>k. kv k (itoa (masks k))) (ks @ [k])) st = apply_kv ?st (kv k (itoa (masks k)))"
    by (simp add: replay_def)
  note IH = snoc.IH
  show ?case
  proof (cases "block_opposite k")
    case None
    then have "block_opposite l = Some j \<Longrightarrow> l \<noteq> k \<and> j \<noteq> k" for j
      using block_opposite_invol [of l j] None by (cases "l = k") auto
    then show ?thesis unfolding step using None snoc by (auto simp: apply_kv_def split: option.splits)
  next
    case (Some j)
    have jk: "block_opposite j = Some k" "j \<noteq> k"
      using block_opposite_invol [OF Some] block_opposite_neq [OF Some] by auto
    have step': "apply_kv ?st (kv k (itoa (masks k))) l i =
        (if l = j then \<not> bit (masks k) i \<and> ?st j i
         else if l = k then bit (masks k) i \<or> ?st k i else ?st l i)"
      using Some a jk(2) by (simp add: apply_kv_def)
    have IHl: "?st l i = (case block_opposite l of None \<Rightarrow> st l i | Some j \<Rightarrow>
        (l \<in> set ks \<and> bit (masks l) i) \<or> (st l i \<and> \<not> (j \<in> set ks \<and> bit (masks j) i)))" for l
      using snoc by simp
    show ?thesis
    proof (cases "block_opposite l")
      case None
      then show ?thesis unfolding step step' using IHl [of l] Some jk by auto
    next
      case l': (Some l')
      have "l = k \<longleftrightarrow> l' = j" "l = j \<longleftrightarrow> l' = k"
        using block_opposite_invol [OF l'] l' Some jk by auto
      then show ?thesis unfolding step step'
        using IHl [of l] l' Some jk masks_okD [OF ok Some, of i] by auto
    qed
  qed
qed

lemma replay_masks:
  assumes "masks_ok masks"
  shows "replay (map (\<lambda>k. kv k (itoa (masks k))) [index_light_start..index_light_end]) st
    = mask_effect masks st"
proof (intro ext)
  fix l i
  have mem: "block_opposite l = Some j \<Longrightarrow> l \<in> set [index_light_start..index_light_end]
      \<and> j \<in> set [index_light_start..index_light_end]" for j
    unfolding set_upto using block_opposite_None [of l] block_opposite_None [of j]
      block_opposite_invol [of l j] by (simp add: is_block_index_def)
  show "replay (map (\<lambda>k. kv k (itoa (masks k))) [index_light_start..index_light_end]) st l i
    = mask_effect masks st l i"
    unfolding replay_masks_prefix [OF assms distinct_upto] mask_effect_def
    using mem by (auto split: option.splits simp del: set_upto)
qed

text \<open>The merged block before its sort is already sorted.\<close>

lemma sorted_block: "sorted (index_scenario # [index_light_start..index_light_end] @ [index_security_outlets])"
  by (simp add: index_defs sorted_append)

lemma merge_unsorted:
  "merge_block_actions chunks =
     (let (masks, raw) = foldl merge_step merge_init (concat chunks) in
      kv index_scenario ''1''
      # map (\<lambda>k. kv k (case raw k of Some v \<Rightarrow> v | None \<Rightarrow> itoa (masks k)))
          [index_light_start..index_light_end]
      @ [kv index_security_outlets ''0''])"
proof -
  obtain masks raw where f: "foldl merge_step merge_init (concat chunks) = (masks, raw)" by fastforce
  let ?ps = "kv index_scenario ''1''
      # map (\<lambda>k. kv k (case raw k of Some v \<Rightarrow> v | None \<Rightarrow> itoa (masks k)))
          [index_light_start..index_light_end]
      @ [kv index_security_outlets ''0'']"
  have "map k_of ?ps = index_scenario # [index_light_start..index_light_end] @ [index_security_outlets]"
    by (simp add: o_def)
  then have "sort_key k_of ?ps = ?ps"
    by (intro sort_key_id_if_sorted) (simp only: sorted_block)
  then show ?thesis unfolding merge_block_actions_def f Let_def prod.case .
qed

lemma replay_frame:
  "replay (p # ps @ [q]) st = apply_kv (replay ps (apply_kv st p)) q"
  by (simp add: replay_def)

lemma apply_kv_outside: "block_opposite (k_of p) = None \<Longrightarrow> apply_kv st p = st"
  by (simp add: apply_kv_def)

lemma expand_idem:
  "expand_legacy_scenario_block (expand_legacy_scenario_block ps) = expand_legacy_scenario_block ps"
proof (cases "has_light_shutter ps")
  case True
  let ?e = "expand_legacy_scenario_block ps"
  have h: "has_light_shutter ?e" by (rule has_light_shutter_expand [OF True])
  have same: "set (block_keys ?e) = set (block_keys ps)"
    unfolding set_block_keys [of ?e] using expand_keys [OF True] set_block_keys [of ps]
    by (metis (no_types, lifting) Un_assoc list.set_map sup.idem sup_left_idem)
  have keys: "block_keys ?e = block_keys ps"
    using same sorted_block_keys by (metis sorted_distinct_set_unique)
  have "by_index ?e = by_index ps"
    using kv_map_expand [OF True] by (auto simp: by_index_eq fun_eq_iff split: option.splits)
  then show ?thesis
    using h True keys by (simp add: expand_legacy_scenario_block_def)
qed (simp add: expand_legacy_scenario_block_def)

lemma pure_loop_iff:
  "pure_loop b ps \<longleftrightarrow> (b \<or> list_ex (\<lambda>p. is_block_index (k_of p)) ps)
     \<and> list_all (\<lambda>p. is_block_index (k_of p) \<or> k_of p = index_scenario
         \<or> k_of p = index_security_outlets \<and> v_of p = ''0'') ps"
  by (induction b ps rule: pure_loop.induct) auto

lemma pure_block_iff:
  "is_pure_block_action ps \<longleftrightarrow> (\<exists>p \<in> set ps. is_block_index (k_of p))
     \<and> (\<forall>p \<in> set ps. is_block_index (k_of p) \<or> k_of p = 590 \<or> k_of p = 623 \<and> v_of p = ''0'')"
  by (simp add: is_pure_block_action_def pure_loop_iff list_ex_iff list_all_iff index_defs)

text \<open>A complete block is a fixed point of the expansion.\<close>

lemma upto_623: "[605..622] @ [623] = [605..623::int]"
  using upto_rec2 [of 605 "623::int"] by (simp del: upto_rec_numeral)

lemma distinct_block: "distinct (590 # [605..623::int])"
  using distinct_upto [of 605 623] by (simp only: distinct.simps set_upto) simp

lemma expand_complete:
  assumes "map k_of ps = 590 # [605..623]"
  shows "expand_legacy_scenario_block ps = ps"
proof (rule kv_list_eqI)
  have ks: "k_of ` set ps = {590} \<union> {605..623}"
    using assms by (metis insert_is_Un list.set(2) list.set_map set_upto)
  then have "605 \<in> k_of ` set ps" by simp
  then have h: "has_light_shutter ps"
    by (force simp: has_light_shutter_def list_ex_iff index_defs)
  have "set (block_keys ps) = set (590 # [605..623])"
    unfolding set_block_keys ks list.set set_upto by auto
  moreover have "sorted (590 # [605..623::int])" using sorted_upto [of 605 623]
    by (simp only: sorted_simps set_upto) simp
  ultimately have "block_keys ps = 590 # [605..623]"
    using sorted_block_keys distinct_block by (metis sorted_distinct_set_unique)
  then show keys: "map k_of (expand_legacy_scenario_block ps) = map k_of ps"
    using expand_keys [OF h] assms by simp
  then show "distinct (map k_of (expand_legacy_scenario_block ps))"
    using assms distinct_block by (simp only:)
  have "kv_map ps k = None \<Longrightarrow> k \<noteq> 590 \<and> \<not> (605 \<le> k \<and> k \<le> 623)" for k
    using ks by (auto simp: kv_map_None)
  then show "kv_map (expand_legacy_scenario_block ps) = kv_map ps"
    unfolding kv_map_expand [OF h] by (auto simp: fun_eq_iff by_index_eq split: option.splits)
qed

lemma merge_keys: "map k_of (merge_block_actions chunks) = 590 # [605..623]"
proof -
  obtain masks raw where f: "foldl merge_step merge_init (concat chunks) = (masks, raw)" by fastforce
  have "map k_of (merge_block_actions chunks)
      = index_scenario # [index_light_start..index_light_end] @ [index_security_outlets]"
    unfolding merge_unsorted f by (simp add: o_def)
  then show ?thesis unfolding index_defs upto_623 .
qed

lemma merge_ends:
  "kv 590 ''1'' \<in> set (merge_block_actions chunks)" "kv 623 ''0'' \<in> set (merge_block_actions chunks)"
proof -
  obtain masks raw where f: "foldl merge_step merge_init (concat chunks) = (masks, raw)" by fastforce
  show "kv 590 ''1'' \<in> set (merge_block_actions chunks)" "kv 623 ''0'' \<in> set (merge_block_actions chunks)"
    unfolding merge_unsorted f by (simp_all add: index_defs)
qed

lemma merge_value_ends:
  "kv_map (merge_block_actions chunks) 590 = Some ''1''"
  "kv_map (merge_block_actions chunks) 623 = Some ''0''"
proof -
  have d: "distinct (map k_of (merge_block_actions chunks))"
    unfolding merge_keys by (rule distinct_block)
  show "kv_map (merge_block_actions chunks) 590 = Some ''1''"
    "kv_map (merge_block_actions chunks) 623 = Some ''0''"
    using kv_map_distinct [OF d merge_ends(1)] kv_map_distinct [OF d merge_ends(2)] by simp_all
qed

lemma merge_pure: "is_pure_block_action (merge_block_actions chunks)"
proof -
  let ?m = "merge_block_actions chunks"
  have ks: "k_of ` set ?m = {590} \<union> {605..623}"
    using merge_keys [of chunks] by (metis insert_is_Un list.set(2) list.set_map set_upto)
  have d: "distinct (map k_of ?m)" unfolding merge_keys by (rule distinct_block)
  have "k_of p = 623 \<Longrightarrow> p \<in> set ?m \<Longrightarrow> v_of p = ''0''" for p
    using kv_map_distinct [OF d, of p] merge_value_ends(2) [of chunks] by simp
  moreover have "605 \<in> k_of ` set ?m" using ks by simp
  moreover have "p \<in> set ?m \<Longrightarrow> k_of p = 590 \<or> k_of p = 623 \<or> is_block_index (k_of p)" for p
  proof -
    assume "p \<in> set ?m"
    then have "k_of p \<in> {590} \<union> {605..623}" using ks by blast
    then show ?thesis by (auto simp: is_block_index_def index_defs)
  qed
  ultimately show ?thesis unfolding pure_block_iff by (force simp: is_block_index_def index_defs)
qed

lemma merge_effect:
  assumes "list_all numeric_kv (concat chunks)"
  shows "replay (merge_block_actions chunks) st = replay (concat chunks) st"
proof -
  obtain masks where m: "foldl merge_step merge_init (concat chunks) = (masks, Map.empty)"
      "masks_ok masks" "replay (concat chunks) st = mask_effect masks st"
    using merge_simulates_replay [OF assms] by blast
  have outside: "block_opposite index_scenario = None" "block_opposite index_security_outlets = None"
    by (simp_all add: block_opposite_None is_block_index_def index_defs)
  have "replay (merge_block_actions chunks) st =
      replay (map (\<lambda>k. kv k (itoa (masks k))) [index_light_start..index_light_end]) st"
    unfolding merge_unsorted m(1) Let_def prod.case option.case replay_frame
    by (simp add: apply_kv_outside outside)
  then show ?thesis unfolding replay_masks [OF m(2)] m(3) .
qed

lemma chunk_partition:
  "concat (chunk_exchange_params ps mx) = ps
   \<and> (\<forall>c. c \<in> set (chunk_exchange_params ps mx) \<longrightarrow> c \<noteq> [] \<and> (0 < mx \<longrightarrow> int (length c) \<le> mx))
   \<and> (0 < mx \<longrightarrow> int (length (chunk_exchange_params ps mx)) = (int (length ps) + mx - 1) div mx)"
proof (cases "mx \<le> 0 \<or> int (length ps) \<le> mx")
  case True
  have one: "(int (length ps) + mx - 1) div mx = 1" if "0 < mx" "ps \<noteq> []"
  proof -
    have "(int (length ps) - 1 + mx) div mx = (int (length ps) - 1) div mx + 1"
      using that by (intro div_add_self2) simp
    moreover have "(int (length ps) - 1) div mx = 0"
      using that True by (intro div_pos_pos_trivial) (auto simp: Suc_le_eq)
    ultimately show ?thesis by (simp add: algebra_simps)
  qed
  show ?thesis using True one by (auto simp: chunk_exchange_params_def)
next
  case False
  then have m: "0 < nat mx" "mx = int (nat mx)" by auto
  note p = chunks_from_props [OF m(1), of ps 0]
  have "int ((length ps + nat mx - 1) div nat mx) = (int (length ps) + mx - 1) div mx"
    using m by (simp add: zdiv_int of_nat_diff)
  then show ?thesis using False p m by (auto simp: chunk_exchange_params_def nat_le_iff)
qed

section \<open>Properties\<close>

text \<open>C4. The block \<open>MergeBlockActions\<close> builds from numeric commands has the effect of replaying
  the commands one after the other, whatever orders stand before: on then off is off.\<close>

theorem merge_same_effect:
  assumes "list_all numeric_kv (concat chunks)"
  shows "replay (merge_block_actions chunks) st = replay (concat chunks) st"
  using merge_effect [OF assms] .

theorem merge_same_effect_witness:
  "replay (merge_block_actions [[kv 611 ''4'', kv 590 ''1''], [kv 605 ''4''], [kv 617 ''1'']]) (\<lambda>_ _. False)
   = replay [kv 611 ''4'', kv 590 ''1'', kv 605 ''4'', kv 617 ''1''] (\<lambda>_ _. False)"
proof -
  have "list_all numeric_kv (concat [[kv 611 ''4'', kv 590 ''1''], [kv 605 ''4''], [kv 617 ''1'']])"
    by code_simp
  from merge_same_effect [OF this] show ?thesis by simp
qed

text \<open>Every merged block is complete and can be merged again: its indices are 590, 605 to 622
  and 623 in this order, 590 is \<open>1\<close>, 623 is \<open>0\<close>, so that it is a pure block action and the
  expansion leaves it alone.\<close>

theorem merge_block_shape:
  "map k_of (merge_block_actions chunks) = 590 # [605..623]
   \<and> kv_map (merge_block_actions chunks) 590 = Some ''1''
   \<and> kv_map (merge_block_actions chunks) 623 = Some ''0''
   \<and> is_pure_block_action (merge_block_actions chunks)
   \<and> expand_legacy_scenario_block (merge_block_actions chunks) = merge_block_actions chunks"
  using merge_keys merge_value_ends merge_pure expand_complete [OF merge_keys] by blast

text \<open>Order expansion: a command that touches 605 to 623 is completed to the whole block, sorted
  and without repeated index; the last value written for an index stays, a missing 590 is \<open>1\<close>
  and any other missing index \<open>0\<close>. A second expansion changes nothing.\<close>

theorem expand_completes_block:
  assumes "has_light_shutter ps"
  shows "sorted (map k_of (expand_legacy_scenario_block ps))
    \<and> distinct (map k_of (expand_legacy_scenario_block ps))
    \<and> k_of ` set (expand_legacy_scenario_block ps) = k_of ` set ps \<union> {590} \<union> {605..623}
    \<and> (\<forall>k. kv_map (expand_legacy_scenario_block ps) k =
        (case kv_map ps k of
           Some v \<Rightarrow> Some v
         | None \<Rightarrow> if k = 590 then Some ''1'' else if 605 \<le> k \<and> k \<le> 623 then Some ''0'' else None))
    \<and> expand_legacy_scenario_block (expand_legacy_scenario_block ps) = expand_legacy_scenario_block ps"
proof (intro conjI allI)
  show "k_of ` set (expand_legacy_scenario_block ps) = k_of ` set ps \<union> {590} \<union> {605..623}"
    using expand_keys [OF assms] set_block_keys [of ps] by (metis list.set_map)
qed (simp_all add: expand_keys [OF assms] sorted_block_keys kv_map_expand [OF assms] by_index_eq expand_idem)

theorem expand_completes_block_witness:
  "k_of ` set (expand_legacy_scenario_block [kv 611 ''4'']) = {611, 590} \<union> {605..623}"
  using expand_completes_block [of "[kv 611 ''4'']"]
  by (auto simp: has_light_shutter_def index_defs)

text \<open>\<open>ChunkExchangeParams\<close> loses and reorders nothing: the chunks in order are the parameters,
  none is empty, and with a positive limit none is longer than the limit and there are no more
  of them than needed.\<close>

theorem chunk_exchange_params_partition:
  "concat (chunk_exchange_params ps mx) = ps
   \<and> (\<forall>c. c \<in> set (chunk_exchange_params ps mx) \<longrightarrow> c \<noteq> [] \<and> (0 < mx \<longrightarrow> int (length c) \<le> mx))
   \<and> (0 < mx \<longrightarrow> int (length (chunk_exchange_params ps mx)) = (int (length ps) + mx - 1) div mx)"
  by (rule chunk_partition)

theorem chunk_exchange_params_partition_witness:
  "length (chunk_exchange_params (replicate 41 (kv 605 ''0'')) 30) = 2"
  using chunk_exchange_params_partition [of "replicate 41 (kv 605 ''0'')" 30] by simp

end
