(* ===== verification/Lights.thy ===== *)
theory Lights
  imports Exchange "HOL-Library.Char_ord" "HOL-Library.List_Lexorder" "HOL-Library.Product_Lexorder"
begin

text \<open>
  Light timers and light names (internal/domain: lights_timers.go, lights_names.go): the two
  catalogues, the parser of a timer value, the normalisation of a name, who may write, and the
  order that decides which of two states of a name is newer.
\<close>

section \<open>Light timers\<close>

record light_timer =
  lt_id :: string
  lt_label :: string
  lt_key :: int

definition light_timer_min_minutes :: int where "light_timer_min_minutes = 0"
definition light_timer_max_minutes :: int where "light_timer_max_minutes = 255"

abbreviation mk_timer :: "string \<Rightarrow> string \<Rightarrow> int \<Rightarrow> light_timer" where
  "mk_timer i l k \<equiv> \<lparr>lt_id = i, lt_label = l, lt_key = k\<rparr>"

definition light_timers :: "light_timer list" where
  "light_timers =
    [mk_timer ''dressing'' ''Dressing'' 521,
     mk_timer ''wc1'' ''WC 1'' 555,
     mk_timer ''wc2'' ''WC 2'' 556,
     mk_timer ''pieceserv'' ''Service'' 557,
     mk_timer ''ann1'' ''Annexe 1'' 561,
     mk_timer ''ann2'' ''Annexe 2'' 562]"

definition light_timer_by_id :: "string \<Rightarrow> light_timer option" where
  "light_timer_by_id i = find (\<lambda>lt. lt_id lt = i) light_timers"

text \<open>The only error is \<open>ErrLightTimerMinutes\<close>: \<open>None\<close>.\<close>

definition parse_light_timer_minutes :: "string \<Rightarrow> int option" where
  "parse_light_timer_minutes raw =
     (let s = trim_space raw in
      if length s = 0 \<or> length s > 3 then None
      else if list_ex (\<lambda>c. c < CHR ''0'' \<or> c > CHR ''9'') s then None
      else (case atoi s of
          None \<Rightarrow> None
        | Some n \<Rightarrow> if n < light_timer_min_minutes \<or> n > light_timer_max_minutes then None else Some n))"

definition role_admin_global :: string where "role_admin_global = ''admin_global''"
definition role_admin_local :: string where "role_admin_local = ''admin_local''"
definition role_user :: string where "role_user = ''user''"
definition role_guest_local :: string where "role_guest_local = ''guest_local''"
definition role_support :: string where "role_support = ''support''"

lemmas role_defs = role_admin_global_def role_admin_local_def role_user_def role_guest_local_def
  role_support_def

definition can_write_light_timers :: "string \<Rightarrow> int option \<Rightarrow> bool" where
  "can_write_light_timers role linked_machine_id =
     (if linked_machine_id = None then False
      else role = role_admin_local \<or> role = role_admin_global)"

fun light_timer_minutes_from_cache :: "exchange_kv list \<Rightarrow> int \<Rightarrow> int option" where
  "light_timer_minutes_from_cache [] key = None"
| "light_timer_minutes_from_cache (p # cache) key =
     (if k_of p \<noteq> key then light_timer_minutes_from_cache cache key
      else (case parse_light_timer_minutes (v_of p) of None \<Rightarrow> None | Some n \<Rightarrow> Some n))"

section \<open>Light names\<close>

record light_name_entry =
  ln_id :: string
  ln_default :: string

definition light_name_max_runes :: nat where "light_name_max_runes = 40"
definition light_name_max_future :: duration where "light_name_max_future = 5 * minute"

abbreviation mk_light :: "string \<Rightarrow> string \<Rightarrow> light_name_entry" where
  "mk_light i d \<equiv> \<lparr>ln_id = i, ln_default = d\<rparr>"

text \<open>The accented letters are written as their UTF-8 bytes.\<close>

definition light_name_catalog :: "light_name_entry list" where
  "light_name_catalog =
    [mk_light ''terrasse'' ''Terrasse'',
     mk_light ''entree'' (''Entr'' @ [CHR 0xC3, CHR 0xA9] @ ''e''),
     mk_light ''escalier'' ''Escalier'',
     mk_light ''deg1'' (''D'' @ [CHR 0xC3, CHR 0xA9] @ ''gagement 1''),
     mk_light ''deg2'' (''D'' @ [CHR 0xC3, CHR 0xA9] @ ''gagement 2''),
     mk_light ''pieceserv'' (''Pi'' @ [CHR 0xC3, CHR 0xA8] @ ''ce de service''),
     mk_light ''ann1'' ''Annexe 1'',
     mk_light ''ann2'' ''Annexe 2'',
     mk_light ''salon'' ''Salon'',
     mk_light ''sam'' (''Salle '' @ [CHR 0xC3, CHR 0xA0] @ '' Manger''),
     mk_light ''cuisine'' ''Cuisine'',
     mk_light ''sdb1'' ''Salle de Bain 1'',
     mk_light ''sdb2'' ''Salle de Bain 2'',
     mk_light ''wc1'' ''WC 1'',
     mk_light ''wc2'' ''WC 2'',
     mk_light ''bureau'' ''Bureau'',
     mk_light ''gdchamb'' ''Grande Chambre'',
     mk_light ''ptchamb1'' ''Petite Chambre 1'',
     mk_light ''ptchamb2'' ''Petite Chambre 2'',
     mk_light ''ptchamb3'' ''Petite Chambre 3'',
     mk_light ''dressing'' ''Dressing'',
     mk_light ''isalonind'' ''Salon (indirect 1)'',
     mk_light ''isalonind2'' ''Salon (indirect 2)'',
     mk_light ''icuisine'' ''Cuisine (plans de travail)'',
     mk_light ''isdb1'' ''Salle de Bain 1 (miroir)'',
     mk_light ''isdb2'' ''Salle de Bain 2 (miroir)'',
     mk_light ''igdchamb1'' ''Grande Chambre (chevet 1)'',
     mk_light ''igdchamb2'' ''Grande Chambre (chevet 2)'',
     mk_light ''iptchamb1'' ''Petite Chambre 1 (chevet 1)'',
     mk_light ''iptchamb2'' ''Petite Chambre 1 (chevet 2)'',
     mk_light ''iptchamb22'' ''Petite Chambre 2 (chevet)'',
     mk_light ''iptchamb3'' ''Petite Chambre 3 (chevet)'',
     mk_light ''idressing'' ''Dressing (placards)'']"

definition light_name_by_id :: "string \<Rightarrow> light_name_entry option" where
  "light_name_by_id i = find (\<lambda>l. ln_id l = i) light_name_catalog"

definition err_light_name :: goerr where
  "err_light_name =
     Errorf (''light name must be 1 to 40 characters, without control characters, '<' or '>'' @ [CHR 0x27])"

definition bad_name_rune :: "nat \<Rightarrow> bool" where
  "bad_name_rune r \<longleftrightarrow> r < 0x20 \<or> r = 0x7f \<or> r = 60 \<or> r = 62"

definition normalize_light_name :: "string \<Rightarrow> goerr + string option" where
  "normalize_light_name raw =
     (let s = trim_space raw in
      if s = [] then Inr None
      else if rune_count s > light_name_max_runes \<or> \<not> valid_string s then Inl err_light_name
      else if list_ex (\<lambda>(r, _). bad_name_rune r) (runes s) then Inl err_light_name
      else Inr (Some s))"

definition can_write_light_names :: "string \<Rightarrow> int option \<Rightarrow> bool" where
  "can_write_light_names role linked_machine_id = can_write_light_timers role linked_machine_id"

record light_name_state =
  ls_name :: "string option"
  ls_version :: int
  ls_updated_at :: instant
  ls_updated_by :: string

definition light_name_newer :: "light_name_state \<Rightarrow> light_name_state \<Rightarrow> bool" where
  "light_name_newer a b =
     (let at = truncate_ms (ls_updated_at a); bt = truncate_ms (ls_updated_at b) in
      if at \<noteq> bt then at > bt
      else if ls_version a \<noteq> ls_version b then ls_version a > ls_version b
      else ls_updated_by a > ls_updated_by b)"

definition clamp_light_name_time :: "instant \<Rightarrow> instant \<Rightarrow> instant" where
  "clamp_light_name_time t nw = (if t > nw + light_name_max_future then nw else t)"

section \<open>Library\<close>

text \<open>\<open>LightNameNewer\<close> compares keys in lexicographic order.\<close>

definition name_key :: "light_name_state \<Rightarrow> int \<times> int \<times> string" where
  "name_key a = (truncate_ms (ls_updated_at a), ls_version a, ls_updated_by a)"

lemma light_name_newer_key: "light_name_newer a b \<longleftrightarrow> name_key b < name_key a"
  by (auto simp: light_name_newer_def name_key_def Let_def)

lemma clamp_le: "clamp_light_name_time t nw \<le> nw + light_name_max_future"
  by (simp add: clamp_light_name_time_def light_name_max_future_def duration_defs)

lemma clamp_idem [simp]:
  "clamp_light_name_time (clamp_light_name_time t nw) nw = clamp_light_name_time t nw"
  by (simp add: clamp_light_name_time_def light_name_max_future_def duration_defs)

lemma digit_iff: "digit c \<longleftrightarrow> CHR ''0'' \<le> c \<and> c \<le> CHR ''9''"
  by (simp add: digit_def byte_def less_eq_char_def)

lemma parse_minutes_range: "parse_light_timer_minutes raw = Some n \<Longrightarrow> 0 \<le> n \<and> n \<le> 255"
  by (auto simp: parse_light_timer_minutes_def Let_def light_timer_min_minutes_def
      light_timer_max_minutes_def split: if_splits option.splits)

lemma solid_digits: "list_all digit s \<Longrightarrow> solid s"
  by (auto simp: solid_def list_all_iff digit_def)

lemma length_digits_byte: "n \<le> 255 \<Longrightarrow> length (digits n) \<le> 3"
  by (simp add: digits.simps)

lemma parse_minutes_itoa:
  assumes "0 \<le> n" "n \<le> 255"
  shows "parse_light_timer_minutes (itoa n) = Some n"
proof -
  have d: "list_all digit (itoa n)" "itoa n \<noteq> []" "length (itoa n) \<le> 3"
    using assms by (simp_all add: itoa_def digits_digit length_digits_byte)
  have "trim_space (itoa n) = itoa n"
    using solid_digits [OF d(1)] by (rule trim_space_solid)
  moreover have "atoi (itoa n) = Some n" using assms by (simp add: atoi_itoa in_int64_def)
  moreover have "\<not> list_ex (\<lambda>c. c < CHR ''0'' \<or> c > CHR ''9'') (itoa n)"
    using d(1) by (auto simp: list_ex_iff list_all_iff digit_iff)
  ultimately show ?thesis using assms d
    by (simp add: parse_light_timer_minutes_def light_timer_min_minutes_def light_timer_max_minutes_def)
qed

section \<open>Properties\<close>

text \<open>A timer value is accepted exactly when it denotes a byte: every accepted value lies in
  0 to 255 and is written with digits only, and every number of that range, printed in decimal,
  is read back. The catalogue names six distinct lights with distinct keys.\<close>

theorem parse_light_timer_minutes_spec:
  "(parse_light_timer_minutes raw = Some n \<longrightarrow>
      0 \<le> n \<and> n \<le> 255 \<and> list_all digit (trim_space raw) \<and> dec_val (trim_space raw) = n)
   \<and> (parse_light_timer_minutes (itoa m) = Some m \<longleftrightarrow> 0 \<le> m \<and> m \<le> 255)"
proof (intro conjI impI)
  assume p: "parse_light_timer_minutes raw = Some n"
  then show "0 \<le> n" "n \<le> 255" using parse_minutes_range by auto
  let ?s = "trim_space raw"
  have d: "list_all digit ?s" "?s \<noteq> []" "atoi ?s = Some n"
    using p by (auto simp: parse_light_timer_minutes_def Let_def list_ex_iff list_all_iff digit_iff not_less
        split: if_splits option.splits)
  then show "list_all digit ?s" "dec_val ?s = n"
    by (auto simp: atoi_def parse_digits_def dest: digit_not_sign split: list.splits if_splits)
next
  show "parse_light_timer_minutes (itoa m) = Some m \<longleftrightarrow> 0 \<le> m \<and> m \<le> 255"
    using parse_minutes_itoa parse_minutes_range by blast
qed

theorem parse_light_timer_minutes_spec_witness:
  "parse_light_timer_minutes '' 15'' = Some 15 \<and> dec_val (trim_space '' 15'') = 15"
proof -
  have "parse_light_timer_minutes '' 15'' = Some 15" by code_simp
  then show ?thesis using parse_light_timer_minutes_spec [of "'' 15''" 15 0] by simp
qed

text \<open>\<open>LightNameNewer\<close> is a strict total order on the triples (time in milliseconds, version,
  author): irreflexive, transitive, and of two states with different triples exactly one is newer,
  so that two sites that exchange their states agree on the winner.\<close>

theorem light_name_newer_strict_order:
  "\<not> light_name_newer a a
   \<and> (light_name_newer a b \<longrightarrow> light_name_newer b c \<longrightarrow> light_name_newer a c)
   \<and> (light_name_newer a b \<longrightarrow> \<not> light_name_newer b a)
   \<and> (\<not> light_name_newer a b \<and> \<not> light_name_newer b a
       \<longleftrightarrow> truncate_ms (ls_updated_at a) = truncate_ms (ls_updated_at b)
         \<and> ls_version a = ls_version b \<and> ls_updated_by a = ls_updated_by b)"
  unfolding light_name_newer_key
  by (intro conjI impI) (auto simp: name_key_def intro: less_trans)

theorem light_name_newer_strict_order_witness:
  "light_name_newer \<lparr>ls_name = None, ls_version = 2, ls_updated_at = 1000000, ls_updated_by = ''b''\<rparr>
     \<lparr>ls_name = None, ls_version = 0, ls_updated_at = 0, ls_updated_by = ''a''\<rparr>"
proof -
  let ?a = "\<lparr>ls_name = None, ls_version = 2, ls_updated_at = 1000000, ls_updated_by = ''b''\<rparr>"
  let ?b = "\<lparr>ls_name = None, ls_version = 1, ls_updated_at = 1999999, ls_updated_by = ''c''\<rparr>"
  let ?c = "\<lparr>ls_name = None, ls_version = 0, ls_updated_at = 0, ls_updated_by = ''a''\<rparr>"
  have "light_name_newer ?a ?b" "light_name_newer ?b ?c" by code_simp+
  then show ?thesis using light_name_newer_strict_order [of ?a ?b ?c] by blast
qed

text \<open>A name that is accepted is trimmed, not empty, at most 40 characters of valid UTF-8
  without control characters, \<open><\<close> or \<open>>\<close>; a name of blanks asks for the original name; every
  other name is refused.\<close>

theorem normalize_light_name_spec:
  "normalize_light_name raw =
     (if trim_space raw = [] then Inr None
      else if rune_count (trim_space raw) \<le> 40 \<and> valid_string (trim_space raw)
          \<and> (\<forall>r. r \<in> set (map fst (runes (trim_space raw))) \<longrightarrow> 32 \<le> r \<and> r \<notin> {127, 60, 62})
        then Inr (Some (trim_space raw))
      else Inl err_light_name)"
  by (auto simp: normalize_light_name_def Let_def light_name_max_runes_def list_ex_iff bad_name_rune_def)

theorem normalize_light_name_spec_witness:
  "normalize_light_name ''a<b'' = Inl err_light_name \<and> normalize_light_name '' ab '' = Inr (Some ''ab'')"
proof -
  have t: "trim_space ''a<b'' = ''a<b''" "60 \<in> set (map fst (runes ''a<b''))" by code_simp+
  then have "\<not> (\<forall>r. r \<in> set (map fst (runes ''a<b'')) \<longrightarrow> 32 \<le> r \<and> r \<notin> {127, 60, 62})" by blast
  then have "normalize_light_name ''a<b'' = Inl err_light_name"
    unfolding normalize_light_name_spec [of "''a<b''"] t(1) by simp
  moreover have "normalize_light_name '' ab '' = Inr (Some ''ab'')" by code_simp
  ultimately show ?thesis by simp
qed

end
