(* ===== verification/Accounts.thy ===== *)
theory Accounts
  imports Lights
begin

text \<open>
  The records of accounts, gateways and portal sessions (internal/domain: user.go, auth.go,
  models.go, gateway.go, user_links.go, password_reset.go, remember_session.go,
  portal_session.go, admin.go) and the decisions taken on them alone: which gateway may be used
  from the remote portal, which link mode a user has and whether it opens the portal, whether an
  account is locked, and whether a token or a session is usable.
\<close>

section \<open>Users\<close>

record user =
  u_id :: int
  u_email :: string
  u_password_hash :: string
  u_role :: string
  u_first_name :: string
  u_last_name :: string
  u_provider :: string
  u_provider_id :: string
  u_created_at :: instant
  u_last_login :: instant
  u_forbidden_at :: "instant option"
  u_machine :: "int option"
  u_gateway :: "string option"
  u_armoire :: "int option"
  u_pw_change_required_at :: "instant option"
  u_temp_expires_at :: "instant option"
  u_temp_issued_by :: "int option"

definition provider_email :: string where "provider_email = ''email''"
definition provider_google :: string where "provider_google = ''google''"
definition provider_apple :: string where "provider_apple = ''apple''"

record user_response =
  ur_id :: int
  ur_email :: string
  ur_role :: string
  ur_first_name :: string
  ur_last_name :: string
  ur_provider :: string
  ur_machine :: "int option"
  ur_gateway :: "string option"
  ur_armoire :: "int option"

definition user_to_response :: "user option \<Rightarrow> user_response" where
  "user_to_response uo = (case uo of
       None \<Rightarrow> \<lparr>ur_id = 0, ur_email = [], ur_role = [], ur_first_name = [], ur_last_name = [],
               ur_provider = [], ur_machine = None, ur_gateway = None, ur_armoire = None\<rparr>
     | Some u \<Rightarrow> \<lparr>ur_id = u_id u, ur_email = u_email u, ur_role = u_role u,
               ur_first_name = u_first_name u, ur_last_name = u_last_name u,
               ur_provider = u_provider u, ur_machine = u_machine u, ur_gateway = u_gateway u,
               ur_armoire = u_armoire u\<rparr>)"

record register_request =
  rr_email :: string
  rr_password :: string
  rr_first_name :: string
  rr_last_name :: string
  rr_turnstile_token :: string
  rr_website :: string

record login_request =
  lo_email :: string
  lo_password :: string
  lo_remember_me :: bool

definition is_user_forbidden :: "user option \<Rightarrow> bool" where
  "is_user_forbidden uo = (case uo of None \<Rightarrow> False | Some u \<Rightarrow> u_forbidden_at u \<noteq> None)"

definition password_change_required :: "user option \<Rightarrow> bool" where
  "password_change_required uo = (case uo of None \<Rightarrow> False | Some u \<Rightarrow> u_pw_change_required_at u \<noteq> None)"

definition temp_password_expired :: "user option \<Rightarrow> instant \<Rightarrow> bool" where
  "temp_password_expired uo nw = (case uo of
       None \<Rightarrow> False
     | Some u \<Rightarrow> (case u_temp_expires_at u of None \<Rightarrow> False | Some t \<Rightarrow> nw > t))"

definition account_forbidden :: "'b answer" where
  "account_forbidden = ErrorJson 403 ''account_forbidden''"

definition password_change_required_answer :: "'b answer" where
  "password_change_required_answer = ErrorJson 409 ''password_change_required''"

section \<open>Gateways and links\<close>

definition remote_ineligible_gateway_host :: string where
  "remote_ineligible_gateway_host = ''essensys-server''"

definition normalize_gateway_host :: "string \<Rightarrow> string" where
  "normalize_gateway_host gateway_id = trim_prefix ''gw-'' (trim_space (to_lower gateway_id))"

definition is_remote_eligible_gateway :: "string option \<Rightarrow> bool" where
  "is_remote_eligible_gateway gateway_id = (case gateway_id of
       None \<Rightarrow> False
     | Some g \<Rightarrow> if g = [] then False else normalize_gateway_host g \<noteq> remote_ineligible_gateway_host)"

definition link_mode_armoire_direct :: string where "link_mode_armoire_direct = ''armoire''"
definition link_mode_gateway :: string where "link_mode_gateway = ''gateway''"
definition link_mode_server_legacy :: string where "link_mode_server_legacy = ''server''"

lemmas link_mode_defs = link_mode_armoire_direct_def link_mode_gateway_def link_mode_server_legacy_def

definition names_gateway :: "string option \<Rightarrow> bool" where
  "names_gateway gateway_id = (case gateway_id of None \<Rightarrow> False | Some g \<Rightarrow> trim_space g \<noteq> [])"

definition resolve_user_link_mode :: "int option \<Rightarrow> string option \<Rightarrow> int option \<Rightarrow> string" where
  "resolve_user_link_mode machine_id gateway_id armoire_id =
     (if names_gateway gateway_id
      then (if \<not> is_remote_eligible_gateway gateway_id then link_mode_server_legacy else link_mode_gateway)
      else if machine_id \<noteq> None \<or> armoire_id \<noteq> None then link_mode_armoire_direct
      else [])"

definition user_portal_access_eligible :: "int option \<Rightarrow> string option \<Rightarrow> int option \<Rightarrow> bool" where
  "user_portal_access_eligible machine_id gateway_id armoire_id =
     (let mode = resolve_user_link_mode machine_id gateway_id armoire_id in
      if mode = link_mode_server_legacy then False
      else if mode = link_mode_gateway \<or> mode = link_mode_armoire_direct then machine_id \<noteq> None
      else False)"

definition remote_blocked_message :: string where
  "remote_blocked_message = ''essensys-server ne supporte pas le portail distant mon.essensys.fr ''
     @ [CHR 0xE2, CHR 0x80, CHR 0x94] @ '' liaison armoire et serveur cloud interdites''"

definition validate_admin_user_links :: "int option \<Rightarrow> string option \<Rightarrow> int option \<Rightarrow> goerr option" where
  "validate_admin_user_links machine_id gateway_id armoire_id =
     (let has_gw = names_gateway gateway_id; has_machine = machine_id \<noteq> None;
          has_armoire = armoire_id \<noteq> None in
      if \<not> has_gw \<and> \<not> has_machine \<and> \<not> has_armoire then None
      else if has_gw \<and> \<not> is_remote_eligible_gateway gateway_id then
        (if has_machine \<or> has_armoire then Some (Errorf remote_blocked_message) else None)
      else if has_gw then
        (if \<not> has_machine then Some (Errorf ''serveur cloud (machine_id) requis avec une gateway CM5'')
         else None)
      else if \<not> has_armoire \<and> \<not> has_machine then
        Some (Errorf (''s'' @ [CHR 0xC3, CHR 0xA9] @ ''lectionnez une armoire (inventaire OVH) pour le mode armoire seule''))
      else None)"

section \<open>Reset tokens and remembered sessions\<close>

datatype reset_state = TokenValid | TokenExpired | TokenUsed | TokenInvalidated

record reset_token =
  rt_id :: int
  rt_user :: int
  rt_hash :: string
  rt_expires_at :: instant
  rt_consumed_at :: "instant option"
  rt_invalidated_at :: "instant option"
  rt_request_ip :: "string option"
  rt_consumed_ip :: "string option"
  rt_created_at :: instant

definition reset_token_state :: "reset_token option \<Rightarrow> instant \<Rightarrow> reset_state" where
  "reset_token_state tok nw = (case tok of
       None \<Rightarrow> TokenInvalidated
     | Some t \<Rightarrow>
         if rt_consumed_at t \<noteq> None then TokenUsed
         else if rt_invalidated_at t \<noteq> None then TokenInvalidated
         else if \<not> rt_expires_at t > nw then TokenExpired
         else TokenValid)"

definition reset_token_usable :: "reset_token option \<Rightarrow> instant \<Rightarrow> bool" where
  "reset_token_usable tok nw \<longleftrightarrow> reset_token_state tok nw = TokenValid"

record remember_session =
  rs_id :: int
  rs_user :: int
  rs_hash :: string
  rs_created_at :: instant
  rs_expires_at :: instant
  rs_last_used_at :: "instant option"
  rs_revoked_at :: "instant option"
  rs_user_agent :: "string option"

definition remember_session_usable :: "remember_session option \<Rightarrow> instant \<Rightarrow> bool" where
  "remember_session_usable so nw = (case so of
       None \<Rightarrow> False
     | Some s \<Rightarrow> rs_revoked_at s = None \<and> nw < rs_expires_at s)"

section \<open>Portal sessions\<close>

definition online_timeout :: duration where "online_timeout = 2 * minute"

definition is_online :: "instant \<Rightarrow> instant \<Rightarrow> duration \<Rightarrow> bool" where
  "is_online last_seen nw timeout =
     (if is_zero last_seen then False else time_sub nw last_seen \<le> timeout)"

record user_profile =
  up_id :: int
  up_email :: string
  up_role :: string
  up_first_name :: string
  up_last_name :: string
  up_machine :: "int option"
  up_gateway :: "string option"
  up_armoire :: "int option"

record portal_gateway_info =
  pg_id :: string
  pg_hostname :: string
  pg_ip :: string
  pg_online :: bool
  pg_last_seen :: instant

text \<open>Coordinates of a machine are copied and never computed with; they are left out.\<close>

record machine_detail =
  md_id :: int
  md_no_serie :: string
  md_mac_address :: string
  md_ip :: string
  md_last_seen :: instant
  md_raw_auth :: string
  md_raw_decoded :: string
  md_geo_location :: string

record portal_armoire_info =
  pa_id :: int
  pa_no_serie :: string
  pa_ip :: string
  pa_last_seen :: instant
  pa_geo_location :: string
  pa_remote :: bool
  pa_online :: bool

record portal_session_response =
  ps_user :: user_profile
  ps_portal_access :: bool
  ps_gateway :: "portal_gateway_info option"
  ps_armoire :: "portal_armoire_info option"

definition new_portal_session_response ::
  "user_profile \<Rightarrow> bool \<Rightarrow> portal_gateway_info option \<Rightarrow> machine_detail option \<Rightarrow> instant
   \<Rightarrow> portal_session_response" where
  "new_portal_session_response usr access gateway armoire nw =
     \<lparr>ps_user = usr, ps_portal_access = access, ps_gateway = gateway,
      ps_armoire = (case armoire of
          None \<Rightarrow> None
        | Some a \<Rightarrow> if access then
            Some \<lparr>pa_id = md_id a, pa_no_serie = md_no_serie a, pa_ip = md_ip a,
                  pa_last_seen = md_last_seen a, pa_geo_location = md_geo_location a,
                  pa_remote = True, pa_online = is_online (md_last_seen a) nw online_timeout\<rparr>
          else None)\<rparr>"

section \<open>Requests and actions\<close>

definition link_status_pending :: string where "link_status_pending = ''pending''"
definition link_status_approved :: string where "link_status_approved = ''approved''"
definition link_status_rejected :: string where "link_status_rejected = ''rejected''"

lemmas link_status_defs = link_status_pending_def link_status_approved_def link_status_rejected_def

record link_request =
  lr_id :: int
  lr_user :: int
  lr_serial :: string
  lr_message :: "string option"
  lr_status :: string
  lr_reviewed_by :: "string option"
  lr_reviewed_at :: "instant option"
  lr_created_at :: instant

text \<open>
  An action is pending until a poll delivers it and delivered until it is acknowledged. The
  order of the constructors is the order of the life cycle.
\<close>

datatype action_status = ActionPending | ActionDelivered | ActionDone

instantiation action_status :: linorder
begin

definition rank_of :: "action_status \<Rightarrow> nat" where
  "rank_of s = (case s of ActionPending \<Rightarrow> 0 | ActionDelivered \<Rightarrow> 1 | ActionDone \<Rightarrow> 2)"

definition less_eq_action_status :: "action_status \<Rightarrow> action_status \<Rightarrow> bool" where
  "less_eq_action_status a b \<longleftrightarrow> rank_of a \<le> rank_of b"

definition less_action_status :: "action_status \<Rightarrow> action_status \<Rightarrow> bool" where
  "less_action_status a b \<longleftrightarrow> rank_of a < rank_of b"

instance
  by standard
    (auto simp: less_eq_action_status_def less_action_status_def rank_of_def split: action_status.splits)

end

record cloud_action =
  ca_guid :: string
  ca_user :: int
  ca_machine :: "int option"
  ca_params :: "exchange_kv list"
  ca_status :: action_status
  ca_created_at :: instant
  ca_delivered_at :: "instant option"
  ca_done_at :: "instant option"

record gateway_session =
  gs_id :: string
  gs_token_hash :: string
  gs_machine :: "int option"
  gs_eth0 :: "string option"
  gs_eth1 :: "string option"
  gs_last_seen :: "instant option"

section \<open>Library\<close>

lemma reset_token_usable_iff:
  "reset_token_usable (Some t) nw \<longleftrightarrow>
     rt_consumed_at t = None \<and> rt_invalidated_at t = None \<and> nw < rt_expires_at t"
  by (auto simp: reset_token_usable_def reset_token_state_def)

lemma reset_token_usable_None [simp]: "\<not> reset_token_usable None nw"
  by (simp add: reset_token_usable_def reset_token_state_def)

lemma remember_session_usable_Some [simp]:
  "remember_session_usable (Some s) nw \<longleftrightarrow> rs_revoked_at s = None \<and> nw < rs_expires_at s"
  by (simp add: remember_session_usable_def)

lemma portal_access_iff:
  "user_portal_access_eligible m g a \<longleftrightarrow>
     m \<noteq> None \<and> (names_gateway g \<longrightarrow> is_remote_eligible_gateway g)"
  by (auto simp: user_portal_access_eligible_def resolve_user_link_mode_def Let_def link_mode_defs)

lemma ActionPending_le [simp]: "ActionPending \<le> s"
  by (cases s) (simp_all add: less_eq_action_status_def rank_of_def)

lemma ActionDone_ge [simp]: "s \<le> ActionDone"
  by (cases s) (simp_all add: less_eq_action_status_def rank_of_def)

section \<open>Properties\<close>

text \<open>Links an administrator may store and links that open the portal agree: links that pass
  \<open>ValidateAdminUserLinks\<close> open the portal exactly when they name a machine, and every
  link that names a machine and opens the portal passes the validation. The refusal of the
  legacy server does not depend on case, blanks around the name or the \<open>gw-\<close> prefix.\<close>

theorem admin_links_match_portal_access:
  "(validate_admin_user_links m g a = None \<longrightarrow> (user_portal_access_eligible m g a \<longleftrightarrow> m \<noteq> None))
   \<and> (user_portal_access_eligible m g a \<longrightarrow> validate_admin_user_links m g a = None)
   \<and> (names_gateway g \<and> normalize_gateway_host (the g) = ''essensys-server''
        \<longrightarrow> \<not> user_portal_access_eligible m g a \<and> (m \<noteq> None \<longrightarrow> validate_admin_user_links m g a \<noteq> None))"
  by (auto simp: portal_access_iff validate_admin_user_links_def Let_def names_gateway_def
      is_remote_eligible_gateway_def remote_ineligible_gateway_host_def split: option.splits)

theorem admin_links_match_portal_access_witness:
  "\<not> user_portal_access_eligible (Some 1) (Some ''GW-Essensys-Server '') None
   \<and> validate_admin_user_links (Some 1) (Some ''GW-Essensys-Server '') None \<noteq> None
   \<and> user_portal_access_eligible (Some 1) (Some ''gw-88a29e342761'') None"
proof -
  have "names_gateway (Some ''GW-Essensys-Server '')"
    "normalize_gateway_host ''GW-Essensys-Server '' = ''essensys-server''"
    "validate_admin_user_links (Some 1) (Some ''gw-88a29e342761'') None = None"
    by code_simp+
  then show ?thesis
    using admin_links_match_portal_access [of "Some 1" "Some ''GW-Essensys-Server ''" None]
      admin_links_match_portal_access [of "Some 1" "Some ''gw-88a29e342761''" None] by simp
qed

text \<open>The portal session shows the cabinet only to a user with portal access, and shows it
  online exactly when its last contact is known and at most two minutes old.\<close>

theorem portal_session_armoire:
  "(ps_armoire (new_portal_session_response usr access gw arm nw) = None \<longleftrightarrow> \<not> access \<or> arm = None)
   \<and> (ps_armoire (new_portal_session_response usr access gw arm nw) = Some info \<longrightarrow>
       (\<exists>a. arm = Some a \<and> pa_id info = md_id a \<and> pa_no_serie info = md_no_serie a
          \<and> (pa_online info \<longleftrightarrow> \<not> is_zero (md_last_seen a) \<and> nw - md_last_seen a \<le> 120 * 10 ^ 9)))"
proof -
  have "(time_sub t u \<le> online_timeout) = (t - u \<le> 120 * 10 ^ 9)" for t u
    using time_sub_le_iff [of online_timeout t u]
    by (simp add: online_timeout_def duration_defs max_duration_def)
  then show ?thesis
    by (auto simp: new_portal_session_response_def is_online_def split: option.splits if_splits)
qed

theorem portal_session_armoire_witness:
  "\<exists>info. ps_armoire (new_portal_session_response
      \<lparr>up_id = 1, up_email = ''a'', up_role = ''user'', up_first_name = [], up_last_name = [],
       up_machine = Some 1, up_gateway = None, up_armoire = None\<rparr> True None
      (Some \<lparr>md_id = 1, md_no_serie = ''s'', md_mac_address = [], md_ip = [], md_last_seen = 5,
             md_raw_auth = [], md_raw_decoded = [], md_geo_location = []\<rparr>) (120 * 10 ^ 9 + 5))
      = Some info \<and> pa_online info"
proof -
  let ?u = "\<lparr>up_id = 1, up_email = ''a'', up_role = ''user'', up_first_name = [], up_last_name = [],
       up_machine = Some 1, up_gateway = None, up_armoire = None\<rparr>"
  let ?a = "\<lparr>md_id = 1, md_no_serie = ''s'', md_mac_address = [], md_ip = [], md_last_seen = 5,
             md_raw_auth = [], md_raw_decoded = [], md_geo_location = []\<rparr>"
  have "ps_armoire (new_portal_session_response ?u True None (Some ?a) (120 * 10 ^ 9 + 5)) \<noteq> None"
    by (simp add: new_portal_session_response_def)
  then obtain info where
    i: "ps_armoire (new_portal_session_response ?u True None (Some ?a) (120 * 10 ^ 9 + 5)) = Some info"
    by blast
  then have "pa_online info"
    using portal_session_armoire [of ?u True None "Some ?a" "120 * 10 ^ 9 + 5" info]
    by (simp add: is_zero_def zero_time_def)
  with i show ?thesis by blast
qed

end
