(* ===== verification/Database.thy ===== *)
theory Database
  imports Accounts
begin

text \<open>
  The PostgreSQL database of the portal (migrations/*.sql and the \<open>EnsureTableExists\<close> methods):
  one list of rows per table, in insertion order, added to the connection of the prelude.
  A statement sees the rows in table order; \<open>ORDER BY\<close> is a stable sort. Serial columns draw from
  one sequence per table; random identifiers (UUIDs of PostgreSQL, GUIDs and tokens of
  crypto/rand) are drawn from a stream that is part of the state, about which nothing is known.
  Limits on the length of text columns are not part of the model.
\<close>

section \<open>Rows\<close>

text \<open>
  Where an address was located: the coordinates are the texts of the JSON numbers, empty when the
  document has none.
\<close>

record geo_doc =
  geo_location :: string
  geo_lat :: string
  geo_lon :: string

definition no_geo :: geo_doc where
  "no_geo = \<lparr>geo_location = [], geo_lat = [], geo_lon = []\<rparr>"

text \<open>A lookup that runs in the background: the key of the row to complete and the address.\<close>

datatype geo_job = MachineGeo string string | GatewayGeo string string

record machine_row =
  m_hashed_pkey :: string
  m_client_id :: "string option"
  m_ip :: "string option"
  m_last_seen :: "instant option"
  m_auth :: "(string \<times> string) option"
  m_active :: bool
  m_geo :: "geo_doc option"
  m_id :: int
  m_mac :: "string option"

text \<open>
  A status pushed by a gateway: of its JSON payload only the address, the time and the place it carries are
  read again.
\<close>

record push_status_row =
  gp_hostname :: string
  gp_ip :: string
  gp_last_seen :: "instant option"
  gp_updated_at :: instant
  gp_geo :: geo_doc

record telemetry_row =
  tel_client_id :: string
  tel_version :: string
  tel_ek :: "exchange_kv list"
  tel_updated_at :: instant

record exchange_cache =
  ec_machine :: int
  ec_keys :: "exchange_kv list"
  ec_updated_at :: instant

record light_name_row =
  lnr_machine :: int
  lnr_light :: string
  lnr_state :: light_name_state

record sync_profile_row =
  sp_id :: string
  sp_gateway :: string
  sp_name :: string
  sp_ranges :: "(int \<times> int) list"
  sp_interval :: int
  sp_cron :: "string option"
  sp_pull :: bool
  sp_push :: bool
  sp_enabled :: bool
  sp_exclude :: "int list"
  sp_last_run_at :: "instant option"
  sp_created_at :: instant
  sp_updated_at :: instant

record sync_log_line =
  sl_time :: instant
  sl_level :: string
  sl_message :: string

record sync_run =
  sr_id :: string
  sr_profile :: string
  sr_gateway :: string
  sr_status :: string
  sr_expected :: int
  sr_received :: int
  sr_pushed :: int
  sr_error :: "string option"
  sr_log :: "sync_log_line list"
  sr_started_at :: "instant option"
  sr_finished_at :: "instant option"
  sr_created_at :: instant

record audit_log =
  al_id :: int
  al_user_id :: int
  al_username :: string
  al_action :: string
  al_resource_type :: string
  al_resource_id :: string
  al_ip :: string
  al_details :: string
  al_created_at :: instant

text \<open>The portal's own audit trail keeps who did what; the JSON details are not kept apart.\<close>

record portal_audit_row =
  pal_email :: string
  pal_action :: string
  pal_created_at :: instant

text \<open>Templates of the mails, the log of what was sent, and the newsletters.\<close>

record email_template =
  et_slug :: string
  et_name :: string
  et_subject :: string
  et_body_html :: string
  et_body_text :: string
  et_enabled :: bool
  et_auto_send :: bool
  et_created_at :: instant
  et_updated_at :: instant

record email_send_row =
  es_id :: int
  es_recipient :: string
  es_slug :: string
  es_status :: string
  es_error :: "string option"
  es_admin :: "int option"
  es_created_at :: instant

record subscriber =
  sub_email :: string
  sub_joined :: instant

record newsletter =
  nl_id :: string
  nl_subject :: string
  nl_content :: string
  nl_status :: string
  nl_version :: int
  nl_created_at :: instant
  nl_updated_at :: instant
  nl_sent_at :: "instant option"

text \<open>
  The form of a support report, as its JSON column holds it: emptied to \<open>{}\<close> once it is published, or something that
  does not decode into the form.
\<close>

record report_fields =
  rf_app :: string
  rf_version :: string
  rf_mode :: string
  rf_since :: string
  rf_impact :: string
  rf_actual :: string
  rf_expected :: string
  rf_steps :: string
  rf_tried :: string

datatype payload = Cleared | Form report_fields | OtherJson

record support_report =
  rp_id :: int
  rp_ref :: string
  rp_user :: int
  rp_kind :: string
  rp_title :: string
  rp_payload :: payload
  rp_status :: string
  rp_repo :: "string option"
  rp_issue_number :: "int option"
  rp_issue_url :: "string option"
  rp_attempts :: int
  rp_last_error :: "string option"
  rp_created_at :: instant
  rp_updated_at :: instant
  rp_synced_at :: "instant option"

text \<open>What the process sends to the API of GitHub.\<close>

record issue_input =
  ii_title :: string
  ii_body :: string
  ii_labels :: "string list"
  ii_type :: string

datatype call_body = NoCallBody | IssueCall issue_input | GraphCall string string

record api_call =
  ac_method :: string
  ac_path :: string
  ac_bearer :: string
  ac_body :: call_body

section \<open>The database\<close>

text \<open>
  Beside the tables: the sequences and the random draws; whether another instance holds the advisory lock of the
  synchronisation of reports; the calls made to GitHub, oldest first, and the installation token kept in memory;
  the lookups of addresses started and not yet run; the hits that each rate limiter remembers per key; the
  turn of the rotating list of indices that cabinets are asked for.
\<close>

record db = conn +
  users :: "user list"
  link_requests :: "link_request list"
  cloud_actions :: "cloud_action list"
  gateway_sessions :: "gateway_session list"
  exchange_caches :: "exchange_cache list"
  machines :: "machine_row list"
  telemetry :: "telemetry_row list"
  light_names :: "light_name_row list"
  reset_tokens :: "reset_token list"
  remember_sessions :: "remember_session list"
  sync_profiles :: "sync_profile_row list"
  sync_runs :: "sync_run list"
  audit_logs :: "audit_log list"
  portal_audit :: "portal_audit_row list"
  push_status :: "push_status_row list"
  email_templates :: "email_template list"
  email_send_log :: "email_send_row list"
  subscribers :: "subscriber list"
  newsletters :: "newsletter list"
  support_reports :: "support_report list"
  sync_lock_held :: bool
  api_calls :: "api_call list"
  app_token :: string
  app_token_exp :: instant
  geo_jobs :: "geo_job list"
  limiter_hits :: "string \<Rightarrow> string \<Rightarrow> instant list"
  rotor :: nat
  serials :: "string \<Rightarrow> int"
  random :: "nat \<Rightarrow> string"
  draws :: nat

type_synonym 'a io = "(db, 'a) state"
type_synonym 'a dbop = "(db, goerr + 'a) state"

definition empty_db :: db where
  "empty_db = \<lparr>clock = 0, faults = [], users = [], link_requests = [], cloud_actions = [],
     gateway_sessions = [], exchange_caches = [], machines = [], telemetry = [], light_names = [],
     reset_tokens = [], remember_sessions = [], sync_profiles = [], sync_runs = [], audit_logs = [],
     portal_audit = [], push_status = [], email_templates = [], email_send_log = [],
     subscribers = [], newsletters = [], support_reports = [], sync_lock_held = False,
     api_calls = [], app_token = [], app_token_exp = 0, geo_jobs = [],
     limiter_hits = (\<lambda>_ _. []), rotor = 0, serials = (\<lambda>_. 0), random = (\<lambda>n. ''r'' @ itoa (int n)), draws = 0\<rparr>"

definition nextval :: "string \<Rightarrow> db \<Rightarrow> int" where
  "nextval t d = serials d t + 1"

definition bump :: "string \<Rightarrow> db \<Rightarrow> db" where
  "bump t d = d\<lparr>serials := (serials d)(t := nextval t d)\<rparr>"

text \<open>One draw from the stream of random identifiers.\<close>

definition draw :: "string io" where
  "draw = State (\<lambda>d. (random d (draws d), d\<lparr>draws := Suc (draws d)\<rparr>))"

text \<open>An error that the code logs and then ignores.\<close>

definition ignore :: "'a dbop \<Rightarrow> unit io" where
  "ignore m = State_Monad.bind m (\<lambda>_. State_Monad.return ())"

text \<open>\<open>ORDER BY f ASC\<close>, \<open>ORDER BY f DESC\<close>, \<open>LIMIT n\<close>.\<close>

definition order_asc :: "('r \<Rightarrow> int) \<Rightarrow> 'r list \<Rightarrow> 'r list" where
  "order_asc f rs = sort_key f rs"

definition order_desc :: "('r \<Rightarrow> int) \<Rightarrow> 'r list \<Rightarrow> 'r list" where
  "order_desc f rs = sort_key (\<lambda>r. - f r) rs"

definition limit_rows :: "int \<Rightarrow> 'r list \<Rightarrow> 'r list" where
  "limit_rows n rs = take (nat n) rs"

definition top_row :: "'r list \<Rightarrow> goerr + 'r" where
  "top_row rs = (case rs of [] \<Rightarrow> Inl NoRows | r # _ \<Rightarrow> Inr r)"

text \<open>
  \<open>INSERT ... ON CONFLICT (key) DO UPDATE\<close>: the rows of the key are rewritten, or the new row is
  added when there is none.
\<close>

definition upsert_row :: "('r \<Rightarrow> bool) \<Rightarrow> ('r \<Rightarrow> 'r) \<Rightarrow> 'r \<Rightarrow> 'r list \<Rightarrow> 'r list" where
  "upsert_row mine f row rs = (if list_ex mine rs then update_rows mine f rs else rs @ [row])"

text \<open>An \<open>UPDATE\<close> whose number of affected rows the caller looks at.\<close>

definition exec_count :: "(db \<Rightarrow> db \<times> nat) \<Rightarrow> nat dbop" where
  "exec_count f = sql (\<lambda>d. let (d', n) = f d in (Inr n, d'))"

definition null_if_empty :: "string \<Rightarrow> string option" where
  "null_if_empty s = (if s = [] then None else Some s)"

section \<open>Library\<close>

lemma run_draw [simp]: "run_state draw d = (random d (draws d), d\<lparr>draws := Suc (draws d)\<rparr>)"
  by (simp add: draw_def)

lemma run_ignore [simp]: "run_state (ignore m) d = ((), snd (run_state m d))"
  by (simp add: ignore_def split: prod.splits)

lemma io_draw [io_intros]:
  assumes "preorder_rel R" "\<And>d n. R d (d\<lparr>draws := n\<rparr>)"
  shows "state_io_rel R draw"
  using assms by (auto simp: draw_def)

lemma io_ignore [io_intros]: "preorder_rel R \<Longrightarrow> state_io_rel R m \<Longrightarrow> state_io_rel R (ignore m)"
  unfolding ignore_def by (intro io_intros)

lemma io_exec_count [io_intros]:
  assumes "preorder_rel R" "\<And>d. R d (fst (f d))"
  shows "state_io_rel R (exec_count f)"
  unfolding exec_count_def
  by (rule io_sql [OF assms(1)]) (use assms(2) in \<open>auto simp: case_prod_beta Let_def\<close>)

lemma run_exec_count_ok [simp]:
  "faults d = [] \<Longrightarrow> run_state (exec_count f) d = (Inr (snd (f d)), fst (f d))"
  by (simp add: exec_count_def case_prod_beta Let_def)

lemma set_order_asc [simp]: "set (order_asc f rs) = set rs"
  by (simp add: order_asc_def)

lemma set_order_desc [simp]: "set (order_desc f rs) = set rs"
  by (simp add: order_desc_def)

lemma top_row_Inr: "top_row rs = Inr r \<Longrightarrow> r \<in> set rs"
  by (auto simp: top_row_def split: list.splits)

lemma top_row_eq_Inr: "(\<exists>r. top_row rs = Inr r) \<longleftrightarrow> rs \<noteq> []"
  by (auto simp: top_row_def split: list.splits)

lemma find_upsert_same:
  assumes "\<And>r. mine r \<Longrightarrow> mine (f r)" "mine row"
  shows "find mine (upsert_row mine f row rs) =
    Some (case find mine rs of None \<Rightarrow> row | Some r \<Rightarrow> f r)"
proof (cases "list_ex mine rs")
  case True
  then obtain r where "find mine rs = Some r"
    by (metis find_None_iff list_ex_iff not_Some_eq)
  moreover have "mine r" if "find mine rs = Some r" for r using that by (auto simp: find_Some_iff)
  ultimately show ?thesis using True assms find_update_rows [of mine mine f rs]
    by (simp add: upsert_row_def)
next
  case False
  then have "find mine rs = None" by (simp add: find_None_iff list_ex_iff)
  moreover have "find mine (rs @ [row]) = Some row"
    using False assms(2) by (induction rs) auto
  ultimately show ?thesis using False by (simp add: upsert_row_def)
qed

lemma find_upsert_other:
  assumes "\<And>r. mine r \<Longrightarrow> \<not> q r \<and> \<not> q (f r)" "\<not> q row"
  shows "find q (upsert_row mine f row rs) = find q rs"
proof -
  have "find q (rs @ [row]) = find q rs" using assms(2) by (induction rs) auto
  moreover have "find q (update_rows mine f rs) = find q rs" using assms(1) by (induction rs) auto
  ultimately show ?thesis by (simp add: upsert_row_def)
qed

section \<open>Keyed tables\<close>

text \<open>
  The contract of a table that is written by upserts of one key: what a lookup returns after
  an upsert. A sequence of upserts then acts as the override of a finite map.
\<close>

locale keyed_table =
  fixes look :: "'t \<Rightarrow> 'k \<Rightarrow> 'v option"
    and put :: "'k \<Rightarrow> 'v \<Rightarrow> 't \<Rightarrow> 't"
  assumes look_put: "look (put k v t) k' = (if k' = k then Some v else look t k')"
begin

lemma look_put_same: "look (put k v t) k = Some v"
  by (simp add: look_put)

lemma look_put_twice: "look (put k v (put k w t)) = look (put k v t)"
  by (auto simp: look_put)

lemma look_put_commute: "k \<noteq> k' \<Longrightarrow> look (put k v (put k' w t)) = look (put k' w (put k v t))"
  by (auto simp: look_put)

lemma look_fold: "look (fold (\<lambda>(k, v). put k v) kvs t) = look t ++ map_of (rev kvs)"
proof (induction kvs arbitrary: t)
  case (Cons p kvs)
  then show ?case by (cases p) (auto simp: look_put map_add_def fun_eq_iff split: option.splits)
qed simp

end

end
