(* ===== verification/UserStore.thy ===== *)
theory UserStore
  imports Database
begin

text \<open>
  The stores behind accounts (internal/data: user_store.go, password_reset_store.go,
  remember_session_store.go, audit_store.go) and the constants of packages pwreset and remember.
  A credential is written in a transaction that also ends the remembered sessions of the account.
  \<open>digest\<close>, the SHA-256 digest of a token, is a parameter.
\<close>

section \<open>Users\<close>

text \<open>\<open>nil, nil\<close> for an unknown row: the value \<open>Inr None\<close>.\<close>

definition get_user_by_email :: "string \<Rightarrow> user option dbop" where
  "get_user_by_email email = query (\<lambda>d. Inr (find (\<lambda>u. u_email u = email) (users d)))"

definition get_user_by_id :: "int \<Rightarrow> user option dbop" where
  "get_user_by_id i = query (\<lambda>d. Inr (find (\<lambda>u. u_id u = i) (users d)))"

text \<open>The columns that the insert does not name are null; the e-mail address is unique.\<close>

definition create_user :: "user \<Rightarrow> int dbop" where
  "create_user u = sql (\<lambda>d.
     if list_ex (\<lambda>v. u_email v = u_email u) (users d) then (Inl UniqueViolation, d)
     else (let i = nextval ''users'' d in
       (Inr i, (bump ''users'' d)\<lparr>users := users d @
          [u\<lparr>u_id := i, u_forbidden_at := None, u_machine := None, u_gateway := None,
             u_armoire := None, u_pw_change_required_at := None, u_temp_expires_at := None,
             u_temp_issued_by := None\<rparr>]\<rparr>)))"

definition update_user_row :: "int \<Rightarrow> (user \<Rightarrow> user) \<Rightarrow> db \<Rightarrow> db" where
  "update_user_row i f d = d\<lparr>users := update_rows (\<lambda>u. u_id u = i) f (users d)\<rparr>"

definition update_last_login :: "int \<Rightarrow> unit dbop" where
  "update_last_login i = exec (\<lambda>d. update_user_row i (\<lambda>u. u\<lparr>u_last_login := clock d\<rparr>) d)"

definition revoke_all_remember :: "int \<Rightarrow> db \<Rightarrow> db" where
  "revoke_all_remember i d = d\<lparr>remember_sessions :=
     update_rows (\<lambda>s. rs_user s = i \<and> rs_revoked_at s = None)
       (\<lambda>s. s\<lparr>rs_revoked_at := Some (clock d)\<rparr>) (remember_sessions d)\<rparr>"

definition write_credential :: "int \<Rightarrow> (instant \<Rightarrow> user \<Rightarrow> user) \<Rightarrow> unit dbop" where
  "write_credential i f = tx (andThen (exec (\<lambda>d. update_user_row i (f (clock d)) d))
     (\<lambda>_. exec (revoke_all_remember i)))"

definition update_user :: "int \<Rightarrow> string \<Rightarrow> string \<Rightarrow> string \<Rightarrow> unit dbop" where
  "update_user i first_name last_name password_hash =
     (if password_hash \<noteq> [] then
        write_credential i (\<lambda>_ u. u\<lparr>u_first_name := first_name, u_last_name := last_name,
                                    u_password_hash := password_hash\<rparr>)
      else exec (update_user_row i (\<lambda>u. u\<lparr>u_first_name := first_name, u_last_name := last_name\<rparr>)))"

definition update_password_hash :: "int \<Rightarrow> string \<Rightarrow> unit dbop" where
  "update_password_hash i password_hash = write_credential i (\<lambda>_ u. u\<lparr>u_password_hash := password_hash\<rparr>)"

text \<open>
  The foreign keys of other tables: tokens, sessions and support reports of the account go with it, and accounts
  it issued a temporary password to forget the issuer.
\<close>

definition delete_user :: "int \<Rightarrow> unit dbop" where
  "delete_user i = exec (\<lambda>d. d\<lparr>
     users := update_rows (\<lambda>u. u_temp_issued_by u = Some i) (\<lambda>u. u\<lparr>u_temp_issued_by := None\<rparr>)
                (filter (\<lambda>u. u_id u \<noteq> i) (users d)),
     reset_tokens := filter (\<lambda>t. rt_user t \<noteq> i) (reset_tokens d),
     remember_sessions := filter (\<lambda>s. rs_user s \<noteq> i) (remember_sessions d),
     support_reports := filter (\<lambda>s. rp_user s \<noteq> i) (support_reports d)\<rparr>)"

definition forbid_user :: "int \<Rightarrow> unit dbop" where
  "forbid_user i = exec (\<lambda>d. update_user_row i (\<lambda>u. u\<lparr>u_forbidden_at := Some (clock d)\<rparr>) d)"

definition unforbid_user :: "int \<Rightarrow> unit dbop" where
  "unforbid_user i = exec (update_user_row i (\<lambda>u. u\<lparr>u_forbidden_at := None\<rparr>))"

definition count_admin_global :: "int dbop" where
  "count_admin_global = query (\<lambda>d.
     Inr (int (length (filter (\<lambda>u. u_role u = role_admin_global) (users d)))))"

definition update_user_links :: "int \<Rightarrow> int option \<Rightarrow> string option \<Rightarrow> int option \<Rightarrow> unit dbop" where
  "update_user_links i machine_id gateway_id armoire_id = exec (update_user_row i
     (\<lambda>u. u\<lparr>u_machine := machine_id, u_gateway := gateway_id, u_armoire := armoire_id\<rparr>))"

definition set_temporary_password :: "int \<Rightarrow> string \<Rightarrow> instant \<Rightarrow> int \<Rightarrow> unit dbop" where
  "set_temporary_password i hash expires_at issued_by = write_credential i
     (\<lambda>nw u. u\<lparr>u_password_hash := hash, u_pw_change_required_at := Some nw,
               u_temp_expires_at := Some expires_at, u_temp_issued_by := Some issued_by\<rparr>)"

definition clear_password_change_required :: "int \<Rightarrow> string \<Rightarrow> unit dbop" where
  "clear_password_change_required i hash = write_credential i
     (\<lambda>_ u. u\<lparr>u_password_hash := hash, u_pw_change_required_at := None,
              u_temp_expires_at := None, u_temp_issued_by := None\<rparr>)"

text \<open>The list of users leaves out the password hash and the provider's identifier.\<close>

definition listed_user :: "user \<Rightarrow> user" where
  "listed_user u = u\<lparr>u_password_hash := [], u_provider_id := [], u_temp_issued_by := None\<rparr>"

definition get_all_users :: "user list dbop" where
  "get_all_users = query (\<lambda>d. Inr (map listed_user (order_desc u_created_at (users d))))"

definition get_users_by_machine_id :: "int \<Rightarrow> user list dbop" where
  "get_users_by_machine_id m = query (\<lambda>d.
     Inr (map listed_user (order_desc u_created_at (filter (\<lambda>u. u_machine u = Some m) (users d)))))"

definition update_user_role :: "int \<Rightarrow> string \<Rightarrow> unit dbop" where
  "update_user_role i role = exec (update_user_row i (\<lambda>u. u\<lparr>u_role := role\<rparr>))"

section \<open>Password reset tokens\<close>

definition pwreset_ttl :: duration where "pwreset_ttl = 60 * minute"
definition min_password_length :: nat where "min_password_length = 8"
definition retention :: duration where "retention = 30 * 24 * hour"

definition err_token_not_consumable :: goerr where
  "err_token_not_consumable = Errorf ''password reset token is not consumable''"

definition create_reset_token :: "int \<Rightarrow> string \<Rightarrow> instant \<Rightarrow> string \<Rightarrow> unit dbop" where
  "create_reset_token i th expires_at ip = sql (\<lambda>d.
     if list_ex (\<lambda>t. rt_hash t = th) (reset_tokens d) then (Inl UniqueViolation, d)
     else if \<not> list_ex (\<lambda>u. u_id u = i) (users d) then (Inl ForeignKeyViolation, d)
     else (Inr (), (bump ''password_reset_tokens'' d)\<lparr>reset_tokens := reset_tokens d @
        [\<lparr>rt_id = nextval ''password_reset_tokens'' d, rt_user = i, rt_hash = th,
          rt_expires_at = expires_at, rt_consumed_at = None, rt_invalidated_at = None,
          rt_request_ip = null_if_empty ip, rt_consumed_ip = None, rt_created_at = clock d\<rparr>]\<rparr>))"

definition outstanding :: "int \<Rightarrow> reset_token \<Rightarrow> bool" where
  "outstanding i t \<longleftrightarrow> rt_user t = i \<and> rt_consumed_at t = None \<and> rt_invalidated_at t = None"

definition invalidate_tokens :: "int \<Rightarrow> db \<Rightarrow> db" where
  "invalidate_tokens i d = d\<lparr>reset_tokens :=
     update_rows (outstanding i) (\<lambda>t. t\<lparr>rt_invalidated_at := Some (clock d)\<rparr>) (reset_tokens d)\<rparr>"

definition invalidate_for_user :: "int \<Rightarrow> unit dbop" where
  "invalidate_for_user i = exec (invalidate_tokens i)"

definition purge_older_than :: "duration \<Rightarrow> unit dbop" where
  "purge_older_than age = exec (\<lambda>d. d\<lparr>reset_tokens :=
     filter (\<lambda>t. \<not> rt_created_at t < clock d - age) (reset_tokens d)\<rparr>)"

definition issue_reset_token :: "(string \<Rightarrow> string) \<Rightarrow> int \<Rightarrow> string \<Rightarrow> (string \<times> instant) dbop" where
  "issue_reset_token digest i ip = do {
     plain \<leftarrow> draw;
     andThen (invalidate_for_user i) (\<lambda>_. do {
       nw \<leftarrow> now;
       let expires_at = nw + pwreset_ttl;
       andThen (create_reset_token i (digest plain) expires_at ip) (\<lambda>_. do {
         ignore (purge_older_than retention);
         State_Monad.return (Inr (plain, expires_at)) }) }) }"

definition get_reset_token_by_hash :: "string \<Rightarrow> reset_token option dbop" where
  "get_reset_token_by_hash th = query (\<lambda>d. Inr (find (\<lambda>t. rt_hash t = th) (reset_tokens d)))"

definition count_recent_for_user :: "int \<Rightarrow> duration \<Rightarrow> int dbop" where
  "count_recent_for_user i window = query (\<lambda>d.
     Inr (int (length (filter (\<lambda>t. rt_user t = i \<and> rt_created_at t > clock d - window) (reset_tokens d)))))"

definition consumable :: "string \<Rightarrow> instant \<Rightarrow> reset_token \<Rightarrow> bool" where
  "consumable th nw t \<longleftrightarrow> rt_hash t = th \<and> rt_consumed_at t = None \<and> rt_invalidated_at t = None
     \<and> rt_expires_at t > nw"

definition consume_token :: "string \<Rightarrow> string \<Rightarrow> db \<Rightarrow> (goerr + int) \<times> db" where
  "consume_token th ip d =
     (case find (consumable th (clock d)) (reset_tokens d) of
        None \<Rightarrow> (Inl err_token_not_consumable, d)
      | Some t \<Rightarrow> (Inr (rt_user t), d\<lparr>reset_tokens := update_rows (consumable th (clock d))
          (\<lambda>t. t\<lparr>rt_consumed_at := Some (clock d), rt_consumed_ip := null_if_empty ip\<rparr>) (reset_tokens d)\<rparr>))"

definition consume_and_set_password :: "string \<Rightarrow> string \<Rightarrow> string \<Rightarrow> int dbop" where
  "consume_and_set_password th new_hash ip = tx (
     andThen (sql (consume_token th ip)) (\<lambda>i.
     andThen (exec (update_user_row i (\<lambda>u. u\<lparr>u_password_hash := new_hash\<rparr>))) (\<lambda>_.
     andThen (exec (invalidate_tokens i)) (\<lambda>_.
     andThen (exec (revoke_all_remember i)) (\<lambda>_.
     State_Monad.return (Inr i))))))"

section \<open>Remembered sessions\<close>

definition remember_lifetime :: duration where "remember_lifetime = 30 * 24 * hour"
definition max_sessions_per_user :: nat where "max_sessions_per_user = 10"

definition insert_session :: "int \<Rightarrow> string \<Rightarrow> instant \<Rightarrow> string \<Rightarrow> db \<Rightarrow> (goerr + unit) \<times> db" where
  "insert_session i th expires_at user_agent d =
     (if list_ex (\<lambda>s. rs_hash s = th) (remember_sessions d) then (Inl UniqueViolation, d)
      else if \<not> list_ex (\<lambda>u. u_id u = i) (users d) then (Inl ForeignKeyViolation, d)
      else (Inr (), (bump ''remember_sessions'' d)\<lparr>remember_sessions := remember_sessions d @
         [\<lparr>rs_id = nextval ''remember_sessions'' d, rs_user = i, rs_hash = th,
           rs_created_at = clock d, rs_expires_at = expires_at, rs_last_used_at = None,
           rs_revoked_at = None, rs_user_agent = null_if_empty user_agent\<rparr>]\<rparr>))"

definition active_session :: "int \<Rightarrow> instant \<Rightarrow> remember_session \<Rightarrow> bool" where
  "active_session i nw s \<longleftrightarrow> rs_user s = i \<and> rs_revoked_at s = None \<and> rs_expires_at s > nw"

text \<open>\<open>ORDER BY created_at DESC, id DESC OFFSET 10\<close>.\<close>

definition excess_sessions :: "int \<Rightarrow> instant \<Rightarrow> remember_session list \<Rightarrow> remember_session list" where
  "excess_sessions i nw ss = drop max_sessions_per_user
     (sort_key (\<lambda>s. (- rs_created_at s, - rs_id s)) (filter (active_session i nw) ss))"

definition revoke_excess :: "int \<Rightarrow> instant \<Rightarrow> db \<Rightarrow> db" where
  "revoke_excess i nw d = d\<lparr>remember_sessions :=
     update_rows (\<lambda>s. rs_id s \<in> rs_id ` set (excess_sessions i nw (remember_sessions d)))
       (\<lambda>s. s\<lparr>rs_revoked_at := Some nw\<rparr>) (remember_sessions d)\<rparr>"

definition create_remember_session :: "int \<Rightarrow> string \<Rightarrow> instant \<Rightarrow> string \<Rightarrow> instant \<Rightarrow> unit dbop" where
  "create_remember_session i th expires_at user_agent nw = tx (
     andThen (sql (insert_session i th expires_at user_agent)) (\<lambda>_. exec (revoke_excess i nw)))"

definition get_remember_session_by_hash :: "string \<Rightarrow> remember_session option dbop" where
  "get_remember_session_by_hash th = query (\<lambda>d. Inr (find (\<lambda>s. rs_hash s = th) (remember_sessions d)))"

definition touch_remember_session :: "int \<Rightarrow> instant \<Rightarrow> unit dbop" where
  "touch_remember_session i nw = exec (\<lambda>d. d\<lparr>remember_sessions :=
     update_rows (\<lambda>s. rs_id s = i) (\<lambda>s. s\<lparr>rs_last_used_at := Some nw\<rparr>) (remember_sessions d)\<rparr>)"

definition revoke_by_hash :: "string \<Rightarrow> instant \<Rightarrow> unit dbop" where
  "revoke_by_hash th nw = exec (\<lambda>d. d\<lparr>remember_sessions :=
     update_rows (\<lambda>s. rs_hash s = th \<and> rs_revoked_at s = None)
       (\<lambda>s. s\<lparr>rs_revoked_at := Some nw\<rparr>) (remember_sessions d)\<rparr>)"

section \<open>Audit log\<close>

definition create_audit_log :: "audit_log \<Rightarrow> unit dbop" where
  "create_audit_log l = exec (\<lambda>d. (bump ''audit_logs'' d)\<lparr>audit_logs := audit_logs d @
     [l\<lparr>al_id := nextval ''audit_logs'' d,
        al_created_at := if is_zero (al_created_at l) then clock d else al_created_at l\<rparr>]\<rparr>)"

record audit_filter =
  af_limit :: int
  af_offset :: int
  af_machine :: int
  af_user :: int

definition get_audit_logs :: "audit_filter \<Rightarrow> audit_log list dbop" where
  "get_audit_logs flt =
     (let lim = (if af_limit flt = 0 then 100 else af_limit flt) in
      query (\<lambda>d. Inr (limit_rows lim (drop (nat (af_offset flt)) (order_desc al_created_at
        (if af_machine flt \<noteq> 0 then
           filter (\<lambda>a. list_ex (\<lambda>u. u_id u = al_user_id a \<and> u_machine u = Some (af_machine flt)) (users d))
             (audit_logs d)
         else if af_user flt \<noteq> 0 then filter (\<lambda>a. al_user_id a = af_user flt) (audit_logs d)
         else audit_logs d))))))"

section \<open>The steps of the account tables\<close>

text \<open>
  Every operation of the program that writes \<open>users\<close>, \<open>password_reset_tokens\<close> or
  \<open>remember_sessions\<close>, with any arguments; the last rule stands for everything else the program
  and the clock do.
\<close>

inductive account_op :: "unit io \<Rightarrow> bool" where
  "account_op (ignore (create_user u))"
| "account_op (ignore (update_last_login i))"
| "account_op (ignore (update_user i fn ln h))"
| "account_op (ignore (update_password_hash i h))"
| "account_op (ignore (delete_user i))"
| "account_op (ignore (forbid_user i))"
| "account_op (ignore (unforbid_user i))"
| "account_op (ignore (update_user_links i m g a))"
| "account_op (ignore (set_temporary_password i h t j))"
| "account_op (ignore (clear_password_change_required i h))"
| "account_op (ignore (update_user_role i r))"
| "account_op (ignore (create_reset_token i th t ip))"
| "account_op (ignore (invalidate_for_user i))"
| "account_op (ignore (purge_older_than age))"
| "account_op (ignore (issue_reset_token digest i ip))"
| "account_op (ignore (consume_and_set_password th h ip))"
| "account_op (ignore (create_remember_session i th t ua nw))"
| "account_op (ignore (touch_remember_session j nw))"
| "account_op (ignore (revoke_by_hash th nw))"
| "(\<And>d. users (f d) = users d \<and> reset_tokens (f d) = reset_tokens d
      \<and> remember_sessions (f d) = remember_sessions d
      \<and> (\<forall>t \<in> {''remember_sessions'', ''password_reset_tokens''}. serials (f d) t = serials d t))
   \<Longrightarrow> account_op (State (\<lambda>d. ((), f d)))"

definition account_step :: "db \<Rightarrow> db \<Rightarrow> bool" where
  "account_step d d' \<longleftrightarrow> (\<exists>m. account_op m \<and> d' = snd (run_state m d))"

section \<open>Library: sessions and tokens\<close>

text \<open>A session keeps its identity and its end; once revoked it stays revoked.\<close>

definition session_keeps :: "remember_session \<Rightarrow> remember_session \<Rightarrow> bool" where
  "session_keeps s s' \<longleftrightarrow> rs_id s' = rs_id s \<and> rs_user s' = rs_user s \<and> rs_hash s' = rs_hash s
     \<and> rs_created_at s' = rs_created_at s \<and> rs_expires_at s' = rs_expires_at s
     \<and> (rs_revoked_at s \<noteq> None \<longrightarrow> rs_revoked_at s' \<noteq> None)"

definition token_keeps :: "reset_token \<Rightarrow> reset_token \<Rightarrow> bool" where
  "token_keeps t t' \<longleftrightarrow> rt_id t' = rt_id t \<and> rt_user t' = rt_user t \<and> rt_hash t' = rt_hash t
     \<and> rt_expires_at t' = rt_expires_at t \<and> rt_created_at t' = rt_created_at t
     \<and> (rt_consumed_at t \<noteq> None \<longrightarrow> rt_consumed_at t' = rt_consumed_at t)
     \<and> (rt_invalidated_at t \<noteq> None \<longrightarrow> rt_invalidated_at t' \<noteq> None)"

text \<open>
  Rows of the later state are new, with an identifier the sequence had not given out, or come
  from a row of the earlier one.
\<close>

definition rows_le :: "('r \<Rightarrow> 'r \<Rightarrow> bool) \<Rightarrow> ('r \<Rightarrow> int) \<Rightarrow> int \<Rightarrow> 'r list \<Rightarrow> 'r list \<Rightarrow> bool" where
  "rows_le K idf n rs rs' \<longleftrightarrow> (\<forall>r' \<in> set rs'. n < idf r' \<or> (\<exists>r \<in> set rs. K r r'))"

definition ids_ok :: "('r \<Rightarrow> int) \<Rightarrow> int \<Rightarrow> 'r list \<Rightarrow> bool" where
  "ids_ok idf n rs \<longleftrightarrow> distinct (map idf rs) \<and> (\<forall>r \<in> set rs. idf r \<le> n)"

abbreviation session_serial :: "db \<Rightarrow> int" where
  "session_serial d \<equiv> serials d ''remember_sessions''"

abbreviation token_serial :: "db \<Rightarrow> int" where
  "token_serial d \<equiv> serials d ''password_reset_tokens''"

definition account_inv :: "db \<Rightarrow> bool" where
  "account_inv d \<longleftrightarrow> ids_ok rs_id (session_serial d) (remember_sessions d)
     \<and> ids_ok rt_id (token_serial d) (reset_tokens d)"

definition account_le :: "db \<Rightarrow> db \<Rightarrow> bool" where
  "account_le d d' \<longleftrightarrow> session_serial d \<le> session_serial d' \<and> token_serial d \<le> token_serial d'
     \<and> rows_le session_keeps rs_id (session_serial d) (remember_sessions d) (remember_sessions d')
     \<and> rows_le token_keeps rt_id (token_serial d) (reset_tokens d) (reset_tokens d')"

lemma rows_le_refl: "(\<And>r. K r r) \<Longrightarrow> rows_le K idf n rs rs"
  by (auto simp: rows_le_def)

lemma rows_le_update:
  assumes "\<And>r. p r \<Longrightarrow> K r (f r)" "\<And>r. K r r"
  shows "rows_le K idf n rs (update_rows p f rs)"
  unfolding rows_le_def
proof
  fix r' assume "r' \<in> set (update_rows p f rs)"
  then obtain r where "r \<in> set rs" "r' = (if p r then f r else r)" by (auto simp: in_set_update_rows)
  then show "n < idf r' \<or> (\<exists>r \<in> set rs. K r r')" using assms by auto
qed

lemma rows_le_trans:
  assumes "\<And>a b c. K a b \<Longrightarrow> K b c \<Longrightarrow> K a c" "\<And>a b. K a b \<Longrightarrow> idf b = idf a"
    and "rows_le K idf n rs rs1" "rows_le K idf n1 rs1 rs2" "n \<le> n1"
  shows "rows_le K idf n rs rs2"
  unfolding rows_le_def
proof
  fix r2 assume "r2 \<in> set rs2"
  then consider "n1 < idf r2" | r1 where "r1 \<in> set rs1" "K r1 r2"
    using assms(4) by (auto simp: rows_le_def)
  then show "n < idf r2 \<or> (\<exists>r\<in>set rs. K r r2)"
  proof cases
    case 2
    then show ?thesis using assms(1-3) unfolding rows_le_def by metis
  qed (use assms(5) in linarith)
qed

lemma session_keeps_refl: "session_keeps s s" by (simp add: session_keeps_def)
lemma token_keeps_refl: "token_keeps s s" by (simp add: token_keeps_def)

lemma session_keeps_trans: "session_keeps a b \<Longrightarrow> session_keeps b c \<Longrightarrow> session_keeps a c"
  by (auto simp: session_keeps_def)

lemma token_keeps_trans: "token_keeps a b \<Longrightarrow> token_keeps b c \<Longrightarrow> token_keeps a c"
  by (simp add: token_keeps_def)

lemma account_le_refl: "account_le d d"
  by (simp add: account_le_def rows_le_refl session_keeps_refl token_keeps_refl)

lemma account_le_trans: "account_le d d1 \<Longrightarrow> account_le d1 d2 \<Longrightarrow> account_le d d2"
  unfolding account_le_def
  by (auto intro: rows_le_trans [OF session_keeps_trans] rows_le_trans [OF token_keeps_trans]
      simp: session_keeps_def token_keeps_def)

text \<open>The relation the statements are checked against: the invariant is kept and rows only advance.\<close>

definition account_ok :: "db \<Rightarrow> db \<Rightarrow> bool" where
  "account_ok d d' \<longleftrightarrow> (account_inv d \<longrightarrow> account_inv d') \<and> account_le d d'"

lemma account_ok_preorder: "preorder_rel account_ok"
proof
  show "account_ok d d" for d by (simp add: account_ok_def account_le_refl)
  show "account_ok d1 d3" if "account_ok d1 d2" "account_ok d2 d3" for d1 d2 d3
    using that account_le_trans by (auto simp: account_ok_def)
  show "account_ok d (d\<lparr>faults := bs\<rparr>)" for d bs
    using account_le_refl [of d] by (simp add: account_ok_def account_inv_def account_le_def)
qed

lemma account_ok_same:
  assumes "remember_sessions d' = remember_sessions d" "reset_tokens d' = reset_tokens d"
    "session_serial d' = session_serial d" "token_serial d' = token_serial d"
  shows "account_ok d d'"
  using assms account_le_refl [of d] by (simp add: account_ok_def account_inv_def account_le_def)

lemma account_ok_sessions:
  assumes "\<And>s. session_keeps s (f s)" "reset_tokens d' = reset_tokens d" "serials d' = serials d"
    "remember_sessions d' = update_rows p f (remember_sessions d)"
  shows "account_ok d d'"
proof -
  have "map rs_id (update_rows p f ss) = map rs_id ss" for ss
    using assms(1) by (intro map_update_rows) (simp add: session_keeps_def)
  moreover have "rows_le session_keeps rs_id n ss (update_rows p f ss)" for n ss
    using assms(1) session_keeps_refl by (rule rows_le_update)
  moreover have "rs_id (f s) = rs_id s" for s using assms(1) by (simp add: session_keeps_def)
  ultimately show ?thesis using assms(2-4)
    by (auto simp: account_ok_def account_inv_def account_le_def ids_ok_def in_set_update_rows
        rows_le_refl token_keeps_refl)
qed

lemma account_ok_tokens:
  assumes "\<And>t. p t \<Longrightarrow> token_keeps t (f t)" "remember_sessions d' = remember_sessions d" "serials d' = serials d"
    "reset_tokens d' = update_rows p f (reset_tokens d)"
  shows "account_ok d d'"
proof -
  have "map rt_id (update_rows p f ts) = map rt_id ts" for ts
    using assms(1) by (intro map_update_rows) (simp add: token_keeps_def)
  moreover have "rows_le token_keeps rt_id n ts (update_rows p f ts)" for n ts
    using assms(1) token_keeps_refl by (rule rows_le_update)
  moreover have "p t \<Longrightarrow> rt_id (f t) = rt_id t" for t using assms(1) by (simp add: token_keeps_def)
  ultimately show ?thesis using assms(2-4)
    by (auto simp: account_ok_def account_inv_def account_le_def ids_ok_def in_set_update_rows
        rows_le_refl session_keeps_refl)
qed

lemma account_ok_filter:
  assumes "remember_sessions d' = filter p (remember_sessions d)" "reset_tokens d' = filter q (reset_tokens d)"
    "serials d' = serials d"
  shows "account_ok d d'"
  using assms session_keeps_refl token_keeps_refl
  by (auto simp: account_ok_def account_inv_def account_le_def ids_ok_def rows_le_def distinct_map
      inj_on_def)

lemma account_ok_insert_token:
  assumes "remember_sessions d' = remember_sessions d" "reset_tokens d' = reset_tokens d @ [t]"
    "serials d' = (serials d)(''password_reset_tokens'' := rt_id t)" "rt_id t = token_serial d + 1"
  shows "account_ok d d'"
  using assms session_keeps_refl token_keeps_refl
  by (fastforce simp: account_ok_def account_inv_def account_le_def ids_ok_def rows_le_def)

lemma account_ok_insert_session:
  assumes "reset_tokens d' = reset_tokens d" "remember_sessions d' = remember_sessions d @ [s]"
    "serials d' = (serials d)(''remember_sessions'' := rs_id s)" "rs_id s = session_serial d + 1"
  shows "account_ok d d'"
  using assms session_keeps_refl token_keeps_refl
  by (fastforce simp: account_ok_def account_inv_def account_le_def ids_ok_def rows_le_def)

lemmas io_account = io_intros account_ok_preorder

lemma account_ok_user_row: "account_ok d (update_user_row i f d)"
  by (rule account_ok_same) (simp_all add: update_user_row_def)

lemma account_ok_revoke_all: "account_ok d (revoke_all_remember i d)"
  unfolding revoke_all_remember_def
  by (rule account_ok_sessions [where f = "\<lambda>s. s\<lparr>rs_revoked_at := Some (clock d)\<rparr>"])
    (auto simp: session_keeps_def)

lemma account_ok_invalidate: "account_ok d (invalidate_tokens i d)"
  unfolding invalidate_tokens_def
  by (rule account_ok_tokens [where f = "\<lambda>t. t\<lparr>rt_invalidated_at := Some (clock d)\<rparr>" and p = "outstanding i"])
    (auto simp: token_keeps_def)

lemma account_ok_consume: "account_ok d (snd (consume_token th ip d))"
proof (cases "find (consumable th (clock d)) (reset_tokens d)")
  case None
  then show ?thesis by (simp add: consume_token_def account_ok_same)
next
  case (Some t)
  then show ?thesis
    by (intro account_ok_tokens [where p = "consumable th (clock d)"
          and f = "\<lambda>t. t\<lparr>rt_consumed_at := Some (clock d), rt_consumed_ip := null_if_empty ip\<rparr>"])
      (auto simp: consume_token_def token_keeps_def consumable_def)
qed

lemma account_ok_create_token: "state_io_rel account_ok (create_reset_token i th t ip)"
  unfolding create_reset_token_def
  by (rule io_sql [OF account_ok_preorder])
    (auto simp: bump_def nextval_def account_ok_same intro: account_ok_insert_token)

lemma account_ok_insert: "account_ok d (snd (insert_session i th t ua d))"
  unfolding insert_session_def
  by (auto simp: bump_def nextval_def account_ok_same intro: account_ok_insert_session)

lemma account_ok_excess: "account_ok d (revoke_excess i nw d)"
  unfolding revoke_excess_def
  by (rule account_ok_sessions [where f = "\<lambda>s. s\<lparr>rs_revoked_at := Some nw\<rparr>"])
    (auto simp: session_keeps_def)

lemma account_ok_credential: "state_io_rel account_ok (write_credential i f)"
  unfolding write_credential_def
  by (intro io_account account_ok_user_row account_ok_revoke_all)

lemma account_ok_purge: "account_ok d (d\<lparr>reset_tokens := filter p (reset_tokens d)\<rparr>)"
  by (rule account_ok_filter [where p = "\<lambda>_. True" and q = p]) auto

lemma account_op_ok:
  assumes "account_op m"
  shows "state_io_rel account_ok m"
  using assms
proof (induction rule: account_op.induct)
  case (1 u)
  show ?case unfolding create_user_def
    by (intro io_account) (auto simp: bump_def Let_def intro!: account_ok_same)
next
  case (3 i fn ln h)
  show ?case unfolding update_user_def
    by (intro io_account account_ok_credential account_ok_user_row)
next
  case (5 i)
  show ?case unfolding delete_user_def
    by (intro io_account account_ok_filter [where p = "\<lambda>s. rs_user s \<noteq> i" and q = "\<lambda>t. rt_user t \<noteq> i"]) auto
next
  case (15 digest i ip)
  show ?case unfolding issue_reset_token_def Let_def invalidate_for_user_def purge_older_than_def
    by (intro io_account account_ok_invalidate account_ok_create_token account_ok_purge)
      (auto intro: account_ok_same)
next
  case (16 th h ip)
  show ?case unfolding consume_and_set_password_def
    by (intro io_account account_ok_consume account_ok_user_row account_ok_invalidate account_ok_revoke_all)
next
  case (17 i th t ua nw)
  show ?case unfolding create_remember_session_def
    by (intro io_account account_ok_insert account_ok_excess)
next
  case (18 j nw)
  show ?case unfolding touch_remember_session_def
    by (intro io_account account_ok_sessions [where f = "\<lambda>s. s\<lparr>rs_last_used_at := Some nw\<rparr>" and p = "\<lambda>s. rs_id s = j"])
      (auto simp: session_keeps_def)
next
  case (19 th nw)
  show ?case unfolding revoke_by_hash_def
    by (intro io_account account_ok_sessions [where f = "\<lambda>s. s\<lparr>rs_revoked_at := Some nw\<rparr>"
          and p = "\<lambda>s. rs_hash s = th \<and> rs_revoked_at s = None"])
      (auto simp: session_keeps_def)
next
  case (20 f)
  then show ?case unfolding state_io_rel_def by (auto intro!: account_ok_same)
qed (simp_all only: update_last_login_def forbid_user_def unforbid_user_def update_user_links_def
      update_user_role_def update_password_hash_def set_temporary_password_def
      clear_password_change_required_def invalidate_for_user_def purge_older_than_def,
    (intro io_account account_ok_credential account_ok_user_row account_ok_create_token
      account_ok_invalidate account_ok_purge)+)

lemma account_step_ok: "account_step d d' \<Longrightarrow> account_ok d d'"
  using account_op_ok unfolding account_step_def state_io_rel_def by blast

interpretation account_life: monotone_system
  "\<lambda>d. remember_sessions d = [] \<and> reset_tokens d = []" account_step account_inv account_le
proof
  show "account_inv s" if "remember_sessions s = [] \<and> reset_tokens s = []" for s
    using that by (simp add: account_inv_def ids_ok_def)
  show "account_inv t" if "account_inv s" "account_step s t" for s t
    using account_step_ok [OF that(2)] that(1) by (simp add: account_ok_def)
  show "account_le s t" if "account_inv s" "account_step s t" for s t
    using account_step_ok [OF that(2)] by (simp add: account_ok_def)
qed (rule account_le_refl, rule account_le_trans)

text \<open>Two rows with one identifier, before and after, are one row.\<close>

lemma rows_le_same_id:
  assumes "ids_ok idf n rs" "rows_le K idf n rs rs'" "\<And>a b. K a b \<Longrightarrow> idf b = idf a"
    "r \<in> set rs" "r' \<in> set rs'" "idf r' = idf r"
  shows "K r r'"
proof -
  have "idf r' \<le> n" using assms(1,4,6) by (simp add: ids_ok_def)
  then obtain q where q: "q \<in> set rs" "K q r'"
    using assms(2,5) by (force simp: rows_le_def)
  then have "idf q = idf r" using assms(3) [OF q(2)] assms(6) by simp
  then have "q = r" using assms(1,4) q(1) by (auto simp: ids_ok_def distinct_map dest: inj_onD)
  then show ?thesis using q(2) by simp
qed

subsection \<open>Credentials\<close>

definition pw_of :: "db \<Rightarrow> int \<Rightarrow> string option" where
  "pw_of d i = map_option u_password_hash (find (\<lambda>u. u_id u = i) (users d))"

definition no_session :: "db \<Rightarrow> int \<Rightarrow> bool" where
  "no_session d i \<longleftrightarrow> (\<forall>s \<in> set (remember_sessions d). rs_user s = i \<longrightarrow> rs_revoked_at s \<noteq> None)"

text \<open>A password that changed has left no session behind.\<close>

definition credential_safe :: "db \<Rightarrow> db \<Rightarrow> bool" where
  "credential_safe d d' \<longleftrightarrow>
     (\<forall>i h h'. pw_of d i = Some h \<longrightarrow> pw_of d' i = Some h' \<longrightarrow> h \<noteq> h' \<longrightarrow> no_session d' i)"

lemma credential_safe_same: "users d' = users d \<Longrightarrow> credential_safe d d'"
  by (auto simp: credential_safe_def pw_of_def)

lemma no_session_revoke_all: "no_session (revoke_all_remember i d) i"
  unfolding no_session_def
proof (intro ballI impI)
  fix s assume "s \<in> set (remember_sessions (revoke_all_remember i d))" and i: "rs_user s = i"
  then obtain q where "s = (if rs_user q = i \<and> rs_revoked_at q = None
      then q\<lparr>rs_revoked_at := Some (clock d)\<rparr> else q)"
    by (auto simp: revoke_all_remember_def in_set_update_rows)
  then show "rs_revoked_at s \<noteq> None" using i by (cases "rs_user q = i \<and> rs_revoked_at q = None") auto
qed

lemma find_id_update_row:
  assumes "\<And>u. u_id (f u) = u_id u"
  shows "pw_of (update_user_row i f d) j =
    (if j = i then map_option (\<lambda>u. u_password_hash (f u)) (find (\<lambda>u. u_id u = i) (users d)) else pw_of d j)"
proof -
  have "find (\<lambda>u. u_id u = j) (update_rows (\<lambda>u. u_id u = i) f us)
      = map_option (\<lambda>u. if u_id u = i then f u else u) (find (\<lambda>u. u_id u = j) us)" for us
    using assms by (intro find_update_rows) simp
  moreover have "find (\<lambda>u. u_id u = j) us = Some u \<Longrightarrow> u_id u = j" for us u
    by (auto simp: find_Some_iff)
  ultimately show ?thesis
    by (cases "find (\<lambda>u. u_id u = j) (users d)") (auto simp: pw_of_def update_user_row_def)
qed

lemma credential_safe_user_row:
  assumes "\<And>u. u_id (f u) = u_id u \<and> u_password_hash (f u) = u_password_hash u"
  shows "credential_safe d (update_user_row i f d)"
  using assms find_id_update_row [of f i d]
  by (auto simp: credential_safe_def pw_of_def split: if_splits)

text \<open>\<open>writeCredential\<close> either leaves the tables alone or writes the row and ends the sessions.\<close>

lemma write_credential_cases:
  assumes "run_state (write_credential i f) d = (r, d')"
  obtains (failed) e bs where "r = Inl e" "d' = d\<lparr>faults := bs\<rparr>"
        | (committed) bs where "r = Inr ()"
            "d' = (revoke_all_remember i (update_user_row i (f (clock d)) d))\<lparr>faults := bs\<rparr>"
  using assms unfolding write_credential_def
proof (cases rule: tx_cases)
  case (failed e bs)
  then show thesis using that(1) by blast
next
  case (committed x bs bs' d2)
  from committed(2) obtain u d1 where
    1: "run_state (exec (\<lambda>d. update_user_row i (f (clock d)) d)) (d\<lparr>faults := bs\<rparr>) = (Inr u, d1)"
    and 2: "run_state (exec (revoke_all_remember i)) d1 = (Inr x, d2)"
    by (rule andThen_Inr)
  obtain b1 where "d1 = update_user_row i (f (clock d)) (d\<lparr>faults := b1\<rparr>)"
    using 1 by (rule exec_Inr) simp
  moreover obtain b2 where "d2 = revoke_all_remember i (d1\<lparr>faults := b2\<rparr>)"
    using 2 by (rule exec_Inr) simp
  ultimately have "d' = (revoke_all_remember i (update_user_row i (f (clock d)) d))\<lparr>faults := bs'\<rparr>"
    using committed(3) by (simp add: revoke_all_remember_def update_user_row_def)
  then show thesis using that(2) committed(1) by (cases x) simp
qed

lemma credential_safe_revoked:
  assumes "\<And>j. j \<noteq> i \<Longrightarrow> pw_of d' j = pw_of d j" "no_session d' i"
  shows "credential_safe d d'"
  using assms unfolding credential_safe_def by (metis option.inject)

lemma pw_of_faults [simp]: "pw_of (d\<lparr>faults := bs\<rparr>) = pw_of d"
  by (auto simp: pw_of_def)

lemma no_session_faults [simp]: "no_session (d\<lparr>faults := bs\<rparr>) = no_session d"
  by (auto simp: no_session_def)

lemma pw_of_revoke_all [simp]: "pw_of (revoke_all_remember i d) = pw_of d"
  by (auto simp: pw_of_def revoke_all_remember_def)

lemma credential_safe_write:
  assumes "\<And>t u. u_id (f t u) = u_id u" "run_state (write_credential i f) d = (r, d')"
  shows "credential_safe d d'"
  using assms(2)
proof (cases rule: write_credential_cases)
  case (failed e bs)
  then show ?thesis by (simp add: credential_safe_same)
next
  case (committed bs)
  then show ?thesis using assms(1)
    by (intro credential_safe_revoked [of i]) (auto simp: find_id_update_row no_session_revoke_all)
qed

lemma consume_cases:
  assumes "run_state (consume_and_set_password th h ip) d = (r, d')"
  obtains (failed) e bs where "r = Inl e" "d' = d\<lparr>faults := bs\<rparr>"
        | (committed) t bs where "find (consumable th (clock d)) (reset_tokens d) = Some t" "r = Inr (rt_user t)"
            "d' = (revoke_all_remember (rt_user t) (invalidate_tokens (rt_user t)
                    (update_user_row (rt_user t) (\<lambda>u. u\<lparr>u_password_hash := h\<rparr>) (snd (consume_token th ip d)))))\<lparr>faults := bs\<rparr>"
  using assms unfolding consume_and_set_password_def
proof (cases rule: tx_cases)
  case (failed e bs)
  then show thesis using that(1) by blast
next
  case (committed x bs bs' d2)
  from committed(2) obtain i d3 where
    1: "run_state (sql (consume_token th ip)) (d\<lparr>faults := bs\<rparr>) = (Inr i, d3)"
    and rest1: "run_state (andThen (exec (update_user_row i (\<lambda>u. u\<lparr>u_password_hash := h\<rparr>)))
      (\<lambda>_. andThen (exec (invalidate_tokens i)) (\<lambda>_. andThen (exec (revoke_all_remember i))
        (\<lambda>_. State_Monad.return (Inr i))))) d3 = (Inr x, d2)"
    by (rule andThen_Inr)
  from rest1 obtain u1 d4 where
    2: "run_state (exec (update_user_row i (\<lambda>u. u\<lparr>u_password_hash := h\<rparr>))) d3 = (Inr u1, d4)"
    and rest2: "run_state (andThen (exec (invalidate_tokens i)) (\<lambda>_. andThen (exec (revoke_all_remember i))
        (\<lambda>_. State_Monad.return (Inr i)))) d4 = (Inr x, d2)"
    by (rule andThen_Inr)
  from rest2 obtain u2 d5 where
    3: "run_state (exec (invalidate_tokens i)) d4 = (Inr u2, d5)"
    and rest3: "run_state (andThen (exec (revoke_all_remember i))
        (\<lambda>_. State_Monad.return (Inr i))) d5 = (Inr x, d2)"
    by (rule andThen_Inr)
  from rest3 obtain u3 d6 where
    4: "run_state (exec (revoke_all_remember i)) d5 = (Inr u3, d6)"
    and 5: "run_state (State_Monad.return (Inr i)) d6 = ((Inr x :: goerr + int), d2)"
    by (rule andThen_Inr)
  obtain b1 where b1: "consume_token th ip (d\<lparr>faults := b1\<rparr>) = (Inr i, d3)"
    using 1 by (rule sql_Inr) simp
  then obtain t where t: "find (consumable th (clock d)) (reset_tokens d) = Some t" "i = rt_user t"
      "d3 = (snd (consume_token th ip d))\<lparr>faults := b1\<rparr>"
    by (auto simp: consume_token_def split: option.splits)
  obtain b2 where d4: "d4 = update_user_row i (\<lambda>u. u\<lparr>u_password_hash := h\<rparr>) (d3\<lparr>faults := b2\<rparr>)" using 2 by (rule exec_Inr)
  obtain b3 where d5: "d5 = invalidate_tokens i (d4\<lparr>faults := b3\<rparr>)" using 3 by (rule exec_Inr)
  obtain b4 where d6: "d6 = revoke_all_remember i (d5\<lparr>faults := b4\<rparr>)" using 4 by (rule exec_Inr)
  have x: "x = i" "d2 = d6" using 5 by auto
  have "d' = (revoke_all_remember (rt_user t) (invalidate_tokens (rt_user t)
      (update_user_row (rt_user t) (\<lambda>u. u\<lparr>u_password_hash := h\<rparr>) (snd (consume_token th ip d)))))\<lparr>faults := bs'\<rparr>"
    unfolding committed(3) x(2) d6 d5 d4 t(2,3)
    by (simp add: revoke_all_remember_def invalidate_tokens_def update_user_row_def)
  then show thesis using that(2) [OF t(1)] committed(1) x(1) t(2) by simp
qed

lemma credential_safe_consume:
  assumes "run_state (consume_and_set_password th h ip) d = (r, d')"
  shows "credential_safe d d'"
  using assms
proof (cases rule: consume_cases)
  case (failed e bs)
  then show ?thesis by (simp add: credential_safe_same)
next
  case (committed t bs)
  have "pw_of (invalidate_tokens i d1) = pw_of d1" for i d1
    by (auto simp: pw_of_def invalidate_tokens_def)
  moreover have "pw_of (snd (consume_token th ip d)) = pw_of d"
    by (auto simp: pw_of_def consume_token_def split: option.splits)
  ultimately have "pw_of d' j = pw_of d j" if "j \<noteq> rt_user t" for j
    unfolding committed(3) using that by (simp add: find_id_update_row)
  then show ?thesis unfolding committed(3)
    by (intro credential_safe_revoked [of "rt_user t"]) (auto simp: no_session_revoke_all)
qed

text \<open>Statements that write no password, for any account that exists before and after.\<close>

lemma pw_of_delete:
  "map_option u_password_hash (find (\<lambda>u. u_id u = j)
      (update_rows (\<lambda>u. u_temp_issued_by u = Some i) (\<lambda>u. u\<lparr>u_temp_issued_by := None\<rparr>)
        (filter (\<lambda>u. u_id u \<noteq> i) us)))
   = (if j = i then None else map_option u_password_hash (find (\<lambda>u. u_id u = j) us))"
  by (induction us) auto

lemma credential_safe_exec:
  assumes "\<And>d. credential_safe d (f d)" "run_state (exec f) d = (r, d')"
  shows "credential_safe d d'"
  using assms(2)
proof (cases rule: exec_cases)
  case (conn bs)
  then show ?thesis by (simp add: credential_safe_same)
next
  case (ran bs)
  then show ?thesis using assms(1) [of "d\<lparr>faults := bs\<rparr>"] by (simp add: credential_safe_def)
qed

lemma credential_safe_keeps: "keeps users m \<Longrightarrow> run_state m d = (r, d') \<Longrightarrow> credential_safe d d'"
  by (rule credential_safe_same) (rule keepsD)

lemma users_preorder: "preorder_rel (\<lambda>d d'. users d' = users d)"
  by (rule keeps_preorder) simp

lemma credential_safe_create:
  assumes "run_state (create_user u) d = (r, d')"
  shows "credential_safe d d'"
  using assms unfolding create_user_def
proof (cases rule: sql_cases)
  case (conn bs)
  then show ?thesis by (simp add: credential_safe_same)
next
  case (ran bs)
  then have "users d' = users d \<or> (\<exists>v. users d' = users d @ [v])"
    by (auto simp: bump_def Let_def split: if_splits)
  then show ?thesis
    by (auto simp: credential_safe_def pw_of_def find_append split: option.splits)
qed

lemma credential_safe_delete: "credential_safe d (d\<lparr>
     users := update_rows (\<lambda>u. u_temp_issued_by u = Some i) (\<lambda>u. u\<lparr>u_temp_issued_by := None\<rparr>)
                (filter (\<lambda>u. u_id u \<noteq> i) (users d)),
     reset_tokens := ts, remember_sessions := ss, support_reports := rs\<rparr>)"
  by (auto simp: credential_safe_def pw_of_def pw_of_delete)

lemma keeps_users:
  "keeps users (create_reset_token i th t ip)" "keeps users (invalidate_for_user i)"
  "keeps users (purge_older_than age)" "keeps users (issue_reset_token digest i ip)"
  "keeps users (create_remember_session i th t ua nw)" "keeps users (touch_remember_session j nw)"
  "keeps users (revoke_by_hash th nw)"
  unfolding keeps_def create_reset_token_def invalidate_for_user_def purge_older_than_def
    issue_reset_token_def create_remember_session_def touch_remember_session_def revoke_by_hash_def Let_def
  by (intro io_intros users_preorder;
      auto simp: bump_def invalidate_tokens_def insert_session_def revoke_excess_def Let_def)+

lemma io_ignore_iff: "state_io_rel R (ignore m) \<longleftrightarrow> state_io_rel R m"
  by (simp add: state_io_rel_def)

lemma io_relI: "(\<And>d r d'. run_state m d = (r, d') \<Longrightarrow> R d d') \<Longrightarrow> state_io_rel R m"
  unfolding state_io_rel_def by (metis prod.collapse)

lemma io_credential_row:
  assumes "\<And>d u. u_id (f d u) = u_id u \<and> u_password_hash (f d u) = u_password_hash u"
  shows "state_io_rel credential_safe (exec (\<lambda>d. update_user_row i (f d) d))"
  by (rule io_relI) (rule credential_safe_exec, auto intro: credential_safe_user_row simp: assms)

lemma io_credential_write:
  assumes "\<And>t u. u_id (f t u) = u_id u"
  shows "state_io_rel credential_safe (write_credential i f)"
  by (rule io_relI) (rule credential_safe_write, auto simp: assms)

lemma account_op_credential:
  assumes "account_op m"
  shows "state_io_rel credential_safe m"
  using assms
proof (induction rule: account_op.induct)
  case (1 u)
  show ?case unfolding io_ignore_iff by (rule io_relI) (rule credential_safe_create)
next
  case (3 i fn ln h)
  show ?case unfolding io_ignore_iff update_user_def
    using io_credential_row [of "\<lambda>_ u. u\<lparr>u_first_name := fn, u_last_name := ln\<rparr>" i]
    by (auto intro: io_credential_write)
next
  case (5 i)
  show ?case unfolding io_ignore_iff delete_user_def
    by (rule io_relI, rule credential_safe_exec, rule credential_safe_delete)
next
  case (16 th h ip)
  show ?case unfolding io_ignore_iff by (rule io_relI) (rule credential_safe_consume)
next
  case (20 f)
  then show ?case unfolding state_io_rel_def by (simp add: credential_safe_same)
qed (unfold io_ignore_iff,
  (rule io_relI, rule credential_safe_keeps, rule keeps_users, assumption
   | simp only: update_last_login_def forbid_user_def unforbid_user_def update_user_links_def
       update_user_role_def update_password_hash_def set_temporary_password_def
       clear_password_change_required_def, (rule io_credential_row | rule io_credential_write); simp)+)

subsection \<open>The cap on sessions\<close>

lemma filter_take_kept:
  assumes "distinct (map g ys)"
  shows "filter (\<lambda>y. g y \<notin> g ` set (drop n ys)) ys = take n ys"
proof -
  have "filter (\<lambda>y. g y \<notin> g ` set (drop n ys)) (drop n ys) = []" by (auto simp: filter_empty_conv)
  moreover have "filter (\<lambda>y. g y \<notin> g ` set (drop n ys)) (take n ys) = take n ys"
  proof (rule filter_True, intro ballI)
    fix y assume "y \<in> set (take n ys)"
    moreover have "distinct (map g (take n ys) @ map g (drop n ys))"
      using assms by (metis append_take_drop_id map_append)
    ultimately show "g y \<notin> g ` set (drop n ys)" by auto
  qed
  ultimately show ?thesis by (metis append_Nil2 append_take_drop_id filter_append)
qed

lemma sort_key_first: "(\<And>y. y \<in> set xs \<Longrightarrow> f x < f y) \<Longrightarrow> sort_key f (xs @ [x]) = x # sort_key f xs"
proof (induction xs)
  case (Cons y xs)
  then have "f x < f y" "sort_key f (xs @ [x]) = x # sort_key f xs" by auto
  then show ?case by (simp add: less_le_not_le)
qed simp

text \<open>The sessions that stay active are the ten most recent ones.\<close>

lemma active_after_excess:
  assumes "distinct (map rs_id (remember_sessions d))"
  shows "sort_key (\<lambda>s. (- rs_created_at s, - rs_id s))
      (filter (active_session i nw) (remember_sessions (revoke_excess i nw d)))
    = take max_sessions_per_user (sort_key (\<lambda>s. (- rs_created_at s, - rs_id s))
        (filter (active_session i nw) (remember_sessions d)))"
proof -
  let ?key = "\<lambda>s. (- rs_created_at s, - rs_id s)"
  let ?A = "filter (active_session i nw) (remember_sessions d)"
  let ?E = "rs_id ` set (drop max_sessions_per_user (sort_key ?key ?A))"
  have "filter (active_session i nw) (update_rows (\<lambda>s. rs_id s \<in> E) (\<lambda>s. s\<lparr>rs_revoked_at := Some nw\<rparr>) ss)
      = filter (\<lambda>s. rs_id s \<notin> E) (filter (active_session i nw) ss)" for E ss
    by (induction ss) (auto simp: active_session_def)
  then have "filter (active_session i nw) (remember_sessions (revoke_excess i nw d)) = filter (\<lambda>s. rs_id s \<notin> ?E) ?A"
    by (simp add: revoke_excess_def excess_sessions_def)
  then have "sort_key ?key (filter (active_session i nw) (remember_sessions (revoke_excess i nw d)))
      = filter (\<lambda>s. rs_id s \<notin> ?E) (sort_key ?key ?A)"
    by (simp only: filter_sort)
  also have "\<dots> = take max_sessions_per_user (sort_key ?key ?A)"
  proof (rule filter_take_kept)
    have "inj_on rs_id (set ?A)" "distinct ?A" using assms by (auto simp: distinct_map inj_on_def)
    then show "distinct (map rs_id (sort_key ?key ?A))" by (simp add: distinct_map)
  qed
  finally show ?thesis .
qed

lemma create_session_cases:
  assumes "run_state (create_remember_session i th t ua nw) d = (r, d')"
  obtains (failed) e bs where "r = Inl e" "d' = d\<lparr>faults := bs\<rparr>"
        | (committed) d1 bs where "r = Inr ()" "insert_session i th t ua d = (Inr (), d1)"
            "d' = (revoke_excess i nw d1)\<lparr>faults := bs\<rparr>"
  using assms unfolding create_remember_session_def
proof (cases rule: tx_cases)
  case (failed e bs)
  then show thesis using that(1) by blast
next
  case (committed x bs bs' d2)
  from committed(2) obtain u d3 where
    1: "run_state (sql (insert_session i th t ua)) (d\<lparr>faults := bs\<rparr>) = (Inr u, d3)"
    and 2: "run_state (exec (revoke_excess i nw)) d3 = (Inr x, d2)"
    by (rule andThen_Inr)
  obtain b1 where b1: "insert_session i th t ua (d\<lparr>faults := b1\<rparr>) = (Inr u, d3)"
    using 1 by (rule sql_Inr) simp
  obtain b2 where d2: "d2 = revoke_excess i nw (d3\<lparr>faults := b2\<rparr>)" using 2 by (rule exec_Inr)
  let ?d1 = "snd (insert_session i th t ua d)"
  have ok: "insert_session i th t ua d = (Inr (), ?d1)" "d3 = ?d1\<lparr>faults := b1\<rparr>"
    using b1 by (auto simp: insert_session_def bump_def nextval_def split: if_splits)
  have "d' = (revoke_excess i nw ?d1)\<lparr>faults := bs'\<rparr>"
    unfolding committed(3) d2 ok(2) by (simp add: revoke_excess_def)
  then show thesis using that(2) [of ?d1 bs'] ok(1) committed(1) by simp
qed

section \<open>Properties\<close>

text \<open>C16. A password change ends the remembered sessions: whatever operation of the program changes
  the password hash of an account, and whatever statements fail, no session of the account is
  usable afterwards, at any time.\<close>

theorem password_change_ends_sessions:
  assumes "account_step d d'" "pw_of d i = Some h" "pw_of d' i = Some h'" "h \<noteq> h'"
  shows "\<forall>s. s \<in> set (remember_sessions d') \<and> rs_user s = i \<longrightarrow> \<not> remember_session_usable (Some s) t"
proof -
  from assms(1) obtain m where "account_op m" "d' = snd (run_state m d)" by (auto simp: account_step_def)
  then have "credential_safe d d'" using account_op_credential by (auto simp: state_io_rel_def)
  then have "no_session d' i" using assms(2-4) unfolding credential_safe_def by blast
  then show ?thesis by (auto simp: no_session_def)
qed

definition sample_user :: user where
  "sample_user = \<lparr>u_id = 1, u_email = ''a@b'', u_password_hash = ''old'', u_role = ''user'', u_first_name = [],
     u_last_name = [], u_provider = ''email'', u_provider_id = [], u_created_at = 0, u_last_login = 0,
     u_forbidden_at = None, u_machine = None, u_gateway = None, u_armoire = None,
     u_pw_change_required_at = None, u_temp_expires_at = None, u_temp_issued_by = None\<rparr>"

definition sample_session :: remember_session where
  "sample_session = \<lparr>rs_id = 1, rs_user = 1, rs_hash = ''h'', rs_created_at = 0, rs_expires_at = 100,
     rs_last_used_at = None, rs_revoked_at = None, rs_user_agent = None\<rparr>"

definition sample_db :: db where
  "sample_db = empty_db\<lparr>users := [sample_user], remember_sessions := [sample_session],
     serials := (\<lambda>_. 1)\<rparr>"

lemmas sample_defs = sample_db_def sample_user_def sample_session_def empty_db_def

theorem password_change_ends_sessions_witness:
  "\<exists>d'. account_step sample_db d' \<and> (\<forall>s \<in> set (remember_sessions d'). \<not> remember_session_usable (Some s) 5)"
proof -
  let ?d = "snd (run_state (ignore (update_password_hash 1 ''new'')) sample_db)"
  have step: "account_step sample_db ?d" unfolding account_step_def by (blast intro: account_op.intros)
  have run: "?d = revoke_all_remember 1 (update_user_row 1 (\<lambda>u. u\<lparr>u_password_hash := ''new''\<rparr>) sample_db)"
    by (simp add: update_password_hash_def write_credential_def tx_def sample_defs revoke_all_remember_def
        update_user_row_def)
  have "pw_of sample_db 1 = Some ''old''" "pw_of ?d 1 = Some ''new''" "\<forall>s \<in> set (remember_sessions ?d). rs_user s = 1"
    unfolding run by (simp_all add: pw_of_def revoke_all_remember_def update_user_row_def sample_defs)
  then show ?thesis using password_change_ends_sessions [OF step, of 1 "''old''" "''new''" 5] step by auto
qed

lemma spent_rows:
  assumes inv: "account_inv d" and le: "account_le d d'"
  shows "s \<in> set (remember_sessions d) \<Longrightarrow> s' \<in> set (remember_sessions d') \<Longrightarrow> rs_id s' = rs_id s \<Longrightarrow> session_keeps s s'"
    and "k \<in> set (reset_tokens d) \<Longrightarrow> k' \<in> set (reset_tokens d') \<Longrightarrow> rt_id k' = rt_id k \<Longrightarrow> token_keeps k k'"
  using inv le rows_le_same_id [of rs_id "session_serial d" "remember_sessions d" session_keeps "remember_sessions d'"]
    rows_le_same_id [of rt_id "token_serial d" "reset_tokens d" token_keeps "reset_tokens d'"]
  by (simp_all add: account_inv_def account_le_def session_keeps_def token_keeps_def)

text \<open>What is spent stays spent: through any sequence of operations, a session keeps its account,
  its digest and its end, and is never usable again once revoked; a reset token that was consumed
  or invalidated is never usable again.\<close>

theorem spent_stays_spent:
  assumes "remember_sessions d0 = [] \<and> reset_tokens d0 = []" "account_step\<^sup>*\<^sup>* d0 d" "account_step\<^sup>*\<^sup>* d d'"
  shows "(s \<in> set (remember_sessions d) \<and> s' \<in> set (remember_sessions d') \<and> rs_id s' = rs_id s \<longrightarrow>
       rs_user s' = rs_user s \<and> rs_hash s' = rs_hash s \<and> rs_expires_at s' = rs_expires_at s
       \<and> (rs_revoked_at s \<noteq> None \<longrightarrow> \<not> remember_session_usable (Some s') t))
    \<and> (k \<in> set (reset_tokens d) \<and> k' \<in> set (reset_tokens d') \<and> rt_id k' = rt_id k \<longrightarrow>
       rt_user k' = rt_user k \<and> rt_expires_at k' = rt_expires_at k
       \<and> (rt_consumed_at k \<noteq> None \<or> rt_invalidated_at k \<noteq> None \<longrightarrow> \<not> reset_token_usable (Some k') t))"
proof -
  have inv: "account_inv d" using assms(1,2) by (rule account_life.inv_reachable)
  have le: "account_le d d'" using assms(3) inv by (rule account_life.le_steps)
  show ?thesis using spent_rows [OF inv le]
    by (auto simp: session_keeps_def token_keeps_def reset_token_usable_iff)
qed

theorem spent_stays_spent_witness:
  "\<exists>d s. account_step\<^sup>*\<^sup>* (empty_db\<lparr>users := [sample_user]\<rparr>) d \<and> remember_sessions d = [s]
     \<and> rs_expires_at s = 100 \<and> \<not> remember_session_usable (Some s) 5"
proof -
  define d0 where "d0 = empty_db\<lparr>users := [sample_user]\<rparr>"
  define d1 where "d1 = snd (run_state (ignore (create_remember_session 1 ''h'' 100 [] 0)) d0)"
  define d2 where "d2 = snd (run_state (ignore (revoke_by_hash ''h'' 3)) d1)"
  define d3 where "d3 = snd (run_state (ignore (touch_remember_session 1 4)) d2)"
  have "account_step d0 d1" "account_step d1 d2" "account_step d2 d3"
    unfolding account_step_def d1_def d2_def d3_def by (blast intro: account_op.intros)+
  then have st: "account_step\<^sup>*\<^sup>* d0 d2" "account_step\<^sup>*\<^sup>* d2 d3" by auto
  have d1: "remember_sessions d1 = [sample_session\<lparr>rs_hash := ''h''\<rparr>]" "faults d1 = []"
    unfolding d1_def d0_def
    by (simp_all add: create_remember_session_def tx_def sample_defs insert_session_def bump_def nextval_def
        revoke_excess_def excess_sessions_def active_session_def max_sessions_per_user_def null_if_empty_def)
  have d2: "remember_sessions d2 = [sample_session\<lparr>rs_revoked_at := Some 3\<rparr>]" "faults d2 = []"
    unfolding d2_def using d1 by (simp_all add: revoke_by_hash_def sample_session_def)
  have d3: "remember_sessions d3 = [sample_session\<lparr>rs_revoked_at := Some 3, rs_last_used_at := Some 4\<rparr>]"
    unfolding d3_def using d2 by (simp add: touch_remember_session_def sample_session_def)
  have init: "remember_sessions d0 = [] \<and> reset_tokens d0 = []" by (simp add: d0_def sample_defs)
  have "rs_expires_at (hd (remember_sessions d3)) = 100 \<and> \<not> remember_session_usable (Some (hd (remember_sessions d3))) 5"
    using spent_stays_spent [OF init st, of "hd (remember_sessions d2)" "hd (remember_sessions d3)" 5] d2(1) d3
    by (simp add: sample_session_def)
  then show ?thesis using st d3 unfolding d0_def
    by (intro exI [of _ d3] exI [of _ "hd (remember_sessions d3)"]) (auto simp: d0_def)
qed

text \<open>C17. At most ten remembered sessions of an account are active after one is created, the new one
  among them when it has not ended and is the latest; a creation that fails changes nothing.\<close>

theorem session_cap:
  assumes "account_inv d" "run_state (create_remember_session i th t ua nw) d = (r, d')"
  shows "(r = Inr () \<longrightarrow> length (filter (active_session i nw) (remember_sessions d')) \<le> 10
        \<and> (nw < t \<and> (\<forall>s. s \<in> set (remember_sessions d) \<longrightarrow> rs_created_at s \<le> clock d) \<longrightarrow>
            (\<exists>s. s \<in> set (remember_sessions d') \<and> rs_hash s = th \<and> rs_expires_at s = t \<and> active_session i nw s)))
    \<and> (r \<noteq> Inr () \<longrightarrow> remember_sessions d' = remember_sessions d \<and> users d' = users d)"
  using assms(2)
proof (cases rule: create_session_cases)
  case (failed e bs)
  then show ?thesis by simp
next
  case (committed d1 bs)
  let ?key = "\<lambda>s. (- rs_created_at s, - rs_id s)"
  let ?s = "\<lparr>rs_id = session_serial d + 1, rs_user = i, rs_hash = th, rs_created_at = clock d, rs_expires_at = t,
     rs_last_used_at = None, rs_revoked_at = None, rs_user_agent = null_if_empty ua\<rparr>"
  have d1: "remember_sessions d1 = remember_sessions d @ [?s]"
    using committed(2) by (auto simp: insert_session_def bump_def nextval_def split: if_splits)
  have ids: "distinct (map rs_id (remember_sessions d1))" "\<And>s. s \<in> set (remember_sessions d) \<Longrightarrow> rs_id s \<le> session_serial d"
    using assms(1) unfolding d1 by (auto simp: account_inv_def ids_ok_def)
  let ?A = "filter (active_session i nw) (remember_sessions d')"
  have A: "sort_key ?key ?A = take 10 (sort_key ?key (filter (active_session i nw) (remember_sessions d1)))"
    using active_after_excess [OF ids(1), of i nw] committed(3) by (simp add: max_sessions_per_user_def)
  have "length ?A \<le> 10" using arg_cong [OF A, of length] by simp
  moreover have "?s \<in> set ?A" if "nw < t" "\<forall>s \<in> set (remember_sessions d). rs_created_at s \<le> clock d"
  proof -
    have "?key ?s < ?key s" if "s \<in> set (filter (active_session i nw) (remember_sessions d))" for s
      using that ids(2) [of s] \<open>\<forall>s \<in> set (remember_sessions d). rs_created_at s \<le> clock d\<close> by force
    note sort_key_first [where f = ?key and x = ?s and xs = "filter (active_session i nw) (remember_sessions d)", OF this]
    moreover have "active_session i nw ?s" using \<open>nw < t\<close> by (simp add: active_session_def)
    ultimately have "sort_key ?key (filter (active_session i nw) (remember_sessions d1))
        = ?s # sort_key ?key (filter (active_session i nw) (remember_sessions d))"
      unfolding d1 by simp
    then have "?s \<in> set (sort_key ?key ?A)" unfolding A by simp
    then show ?thesis by simp
  qed
  ultimately show ?thesis using committed(1) by fastforce
qed

theorem session_cap_witness:
  "length (filter (active_session 1 0) (remember_sessions
     (snd (run_state (create_remember_session 1 ''h2'' 100 [] 0) sample_db)))) \<le> 10"
proof -
  have "account_inv sample_db" by (simp add: account_inv_def ids_ok_def sample_defs)
  moreover have "run_state (create_remember_session 1 ''h2'' 100 [] 0) sample_db
      = (Inr (), snd (run_state (create_remember_session 1 ''h2'' 100 [] 0) sample_db))"
    by (simp add: create_remember_session_def tx_def sample_defs insert_session_def bump_def nextval_def revoke_excess_def)
  ultimately show ?thesis using session_cap [of sample_db 1 "''h2''" 100 "[]" 0] by blast
qed

subsection \<open>Reset tokens\<close>

lemma consumable_iff: "consumable th nw t \<longleftrightarrow> rt_hash t = th \<and> reset_token_usable (Some t) nw"
  by (auto simp: consumable_def reset_token_usable_iff)

lemma no_usable_after_invalidate:
  assumes "t \<in> set (reset_tokens (invalidate_tokens i d))" "rt_user t = i"
  shows "\<not> reset_token_usable (Some t) nw"
proof -
  obtain k where k: "t = (if outstanding i k then k\<lparr>rt_invalidated_at := Some (clock d)\<rparr> else k)"
    using assms(1) by (auto simp: invalidate_tokens_def in_set_update_rows)
  show ?thesis
  proof (cases "outstanding i k")
    case False
    then show ?thesis using k assms(2) by (auto simp: outstanding_def reset_token_usable_iff)
  qed (simp add: k reset_token_usable_iff)
qed

text \<open>C18. A reset token works once, and completely: a reset that fails, at whatever statement, leaves
  accounts, tokens and sessions as they were; one that succeeds used a token that was usable, set
  the password of its account, and left neither a usable token nor a usable session of that
  account. The same token never succeeds again, at any later time.\<close>

theorem reset_single_use:
  assumes "run_state (consume_and_set_password th h ip) d = (r, d')"
  shows "((\<exists>e. r = Inl e) \<longrightarrow> users d' = users d \<and> reset_tokens d' = reset_tokens d \<and> remember_sessions d' = remember_sessions d)
    \<and> (r = Inr i \<longrightarrow>
        (\<exists>t. t \<in> set (reset_tokens d) \<and> rt_hash t = th \<and> rt_user t = i \<and> reset_token_usable (Some t) (clock d))
        \<and> (pw_of d i \<noteq> None \<longrightarrow> pw_of d' i = Some h)
        \<and> (\<forall>t nw. t \<in> set (reset_tokens d') \<and> rt_user t = i \<longrightarrow> \<not> reset_token_usable (Some t) nw)
        \<and> (\<forall>s nw. s \<in> set (remember_sessions d') \<and> rs_user s = i \<longrightarrow> \<not> remember_session_usable (Some s) nw)
        \<and> (distinct (map rt_hash (reset_tokens d)) \<longrightarrow>
            fst (run_state (consume_and_set_password th h2 ip2) (d'\<lparr>clock := c\<rparr>)) \<noteq> Inr j))"
  using assms
proof (cases rule: consume_cases)
  case (failed e bs)
  then show ?thesis by simp
next
  case (committed t bs)
  let ?i = "rt_user t"
  let ?d1 = "snd (consume_token th ip d)"
  let ?d2 = "update_user_row ?i (\<lambda>u. u\<lparr>u_password_hash := h\<rparr>) ?d1"
  have toks: "reset_tokens d' = reset_tokens (invalidate_tokens ?i ?d2)"
    unfolding committed(3) by (simp add: revoke_all_remember_def)
  have t: "t \<in> set (reset_tokens d)" "consumable th (clock d) t"
    using committed(1) by (auto simp: find_Some_iff)
  have pw: "pw_of d ?i \<noteq> None \<Longrightarrow> pw_of d' ?i = Some h"
  proof -
    have "pw_of (invalidate_tokens i d) = pw_of d" for i d by (auto simp: pw_of_def invalidate_tokens_def)
    moreover have "users ?d1 = users d" by (simp add: consume_token_def split: option.splits)
    moreover have "pw_of ?d2 ?i = map_option (\<lambda>_. h) (find (\<lambda>u. u_id u = ?i) (users ?d1))"
      by (simp add: find_id_update_row)
    ultimately have "pw_of d' ?i = map_option (\<lambda>_. h) (find (\<lambda>u. u_id u = ?i) (users d))"
      unfolding committed(3) by simp
    then show "pw_of d ?i \<noteq> None \<Longrightarrow> pw_of d' ?i = Some h" by (auto simp: pw_of_def)
  qed
  have nou: "\<not> reset_token_usable (Some k) nw" if "k \<in> set (reset_tokens d')" "rt_user k = ?i" for k nw
    using that no_usable_after_invalidate unfolding toks by blast
  have nos: "no_session d' ?i" unfolding committed(3) by (simp add: no_session_revoke_all)
  have again: "fst (run_state (consume_and_set_password th h2 ip2) (d'\<lparr>clock := c\<rparr>)) \<noteq> Inr j"
    if dist: "distinct (map rt_hash (reset_tokens d))"
  proof
    assume "fst (run_state (consume_and_set_password th h2 ip2) (d'\<lparr>clock := c\<rparr>)) = Inr j"
    then obtain d3 where "run_state (consume_and_set_password th h2 ip2) (d'\<lparr>clock := c\<rparr>) = (Inr j, d3)"
      by (metis prod.collapse)
    then obtain k where "find (consumable th c) (reset_tokens d') = Some k"
      by (cases rule: consume_cases) auto
    then have k: "k \<in> set (reset_tokens d')" "consumable th c k" by (auto simp: find_Some_iff)
    have "map (\<lambda>t. (rt_hash t, rt_user t)) (reset_tokens d') = map (\<lambda>t. (rt_hash t, rt_user t)) (reset_tokens d)"
      unfolding toks invalidate_tokens_def update_user_row_def consume_token_def
      by (simp add: committed(1) map_update_rows)
    then have "(rt_hash k, rt_user k) \<in> (\<lambda>t. (rt_hash t, rt_user t)) ` set (reset_tokens d)"
      using k(1) by (metis (no_types, lifting) image_eqI list.set_map)
    then have "\<exists>k0 \<in> set (reset_tokens d). rt_hash k0 = rt_hash k \<and> rt_user k0 = rt_user k" by force
    then obtain k0 where k0: "k0 \<in> set (reset_tokens d)" "rt_hash k0 = th" "rt_user k0 = rt_user k"
      using k(2) by (auto simp: consumable_def)
    have "inj_on rt_hash (set (reset_tokens d))" using dist by (simp add: distinct_map)
    then have "k0 = t" using t k0(1,2) by (auto simp: consumable_def dest: inj_onD)
    then have "rt_user k = ?i" using k0(3) by simp
    then show False using nou [OF k(1)] k(2) unfolding consumable_iff by blast
  qed
  show ?thesis
  proof (intro conjI impI)
    assume "r = Inr i"
    then have i: "?i = i" using committed(2) by simp
    show "\<exists>t. t \<in> set (reset_tokens d) \<and> rt_hash t = th \<and> rt_user t = i \<and> reset_token_usable (Some t) (clock d)"
      using t i unfolding consumable_iff by blast
    show "pw_of d i \<noteq> None \<Longrightarrow> pw_of d' i = Some h" using pw i by simp
    show "\<forall>t nw. t \<in> set (reset_tokens d') \<and> rt_user t = i \<longrightarrow> \<not> reset_token_usable (Some t) nw"
      using nou unfolding i by simp
    show "\<forall>s nw. s \<in> set (remember_sessions d') \<and> rs_user s = i \<longrightarrow> \<not> remember_session_usable (Some s) nw"
      using nos i by (auto simp: no_session_def)
  qed (use committed(2) again in simp_all)
qed

definition sample_token :: reset_token where
  "sample_token = \<lparr>rt_id = 1, rt_user = 1, rt_hash = ''t'', rt_expires_at = 100, rt_consumed_at = None,
     rt_invalidated_at = None, rt_request_ip = None, rt_consumed_ip = None, rt_created_at = 0\<rparr>"

theorem reset_single_use_witness:
  "\<exists>d'. run_state (consume_and_set_password ''t'' ''new'' []) (sample_db\<lparr>reset_tokens := [sample_token]\<rparr>) = (Inr 1, d')
     \<and> pw_of d' 1 = Some ''new''
     \<and> fst (run_state (consume_and_set_password ''t'' ''again'' []) (d'\<lparr>clock := 1\<rparr>)) \<noteq> Inr 1"
proof -
  let ?d = "sample_db\<lparr>reset_tokens := [sample_token]\<rparr>"
  let ?r = "run_state (consume_and_set_password ''t'' ''new'' []) ?d"
  have run: "?r = (Inr 1, snd ?r)"
    by (simp add: consume_and_set_password_def tx_def sample_defs sample_token_def consume_token_def consumable_def
        update_user_row_def invalidate_tokens_def revoke_all_remember_def)
  have "pw_of ?d 1 \<noteq> None" "distinct (map rt_hash (reset_tokens ?d))"
    by (simp_all add: pw_of_def sample_defs sample_token_def)
  then show ?thesis
    using reset_single_use [OF run, of 1 "''again''" "[]" 1 1] run by (intro exI [of _ "snd ?r"]) simp
qed

text \<open>What a successful \<open>Issue\<close> leaves: the earlier tokens of the account retired, and the new one,
  which is the only one with its digest and survives the purge.\<close>

lemma find_filter_last:
  "\<not> list_ex p xs \<Longrightarrow> p x \<Longrightarrow> q x \<Longrightarrow> find p (filter q (xs @ [x])) = Some x"
  by (induction xs) auto

lemma purge_outcome:
  assumes "d' = snd (run_state (purge_older_than age) d)"
  obtains "d' = d\<lparr>faults := faults d'\<rparr>"
        | "d' = d\<lparr>faults := faults d', reset_tokens := filter (\<lambda>t. \<not> rt_created_at t < clock d - age) (reset_tokens d)\<rparr>"
proof -
  obtain r where "run_state (purge_older_than age) d = (r, d')" using assms by (metis prod.collapse)
  then show thesis unfolding purge_older_than_def
    by (cases rule: exec_cases) (auto intro: that)
qed

lemma issue_cases:
  assumes "run_state (issue_reset_token digest i ip) d = (Inr (plain, expires_at), d')"
  obtains t where "plain = random d (draws d)" "expires_at = clock d + pwreset_ttl"
    "rt_user t = i" "rt_hash t = digest plain" "rt_expires_at t = expires_at" "reset_token_usable (Some t) (clock d)"
    "find (\<lambda>t. rt_hash t = digest plain) (reset_tokens d') = Some t"
    "set (reset_tokens d') \<subseteq> insert t (set (reset_tokens (invalidate_tokens i d)))"
    "users d' = users d" "clock d' = clock d"
proof -
  let ?p = "random d (draws d)" and ?e = "clock d + pwreset_ttl"
  let ?t = "\<lparr>rt_id = token_serial d + 1, rt_user = i, rt_hash = digest ?p, rt_expires_at = ?e,
      rt_consumed_at = None, rt_invalidated_at = None, rt_request_ip = null_if_empty ip,
      rt_consumed_ip = None, rt_created_at = clock d\<rparr>"
  obtain d1 d2 where 1: "run_state (invalidate_for_user i) (d\<lparr>draws := Suc (draws d)\<rparr>) = (Inr (), d1)"
    and 2: "run_state (create_reset_token i (digest ?p) (clock d1 + pwreset_ttl) ip) d1 = (Inr (), d2)"
    and res: "plain = ?p" "expires_at = clock d1 + pwreset_ttl" "d' = snd (run_state (purge_older_than retention) d2)"
    using assms by (auto simp: issue_reset_token_def Let_def split: prod.splits sum.splits)
  obtain b1 where d1: "d1 = invalidate_tokens i (d\<lparr>draws := Suc (draws d), faults := b1\<rparr>)"
    using 1 unfolding invalidate_for_user_def by (rule exec_Inr)
  have toks1: "reset_tokens d1 = reset_tokens (invalidate_tokens i d)" "clock d1 = clock d" "users d1 = users d"
    "serials d1 = serials d"
    unfolding d1 by (simp_all add: invalidate_tokens_def)
  have d2: "reset_tokens d2 = reset_tokens d1 @ [?t]" "clock d2 = clock d" "users d2 = users d"
    and fresh: "\<not> list_ex (\<lambda>t. rt_hash t = digest ?p) (reset_tokens d1)"
    using 2 toks1(2-4) unfolding create_reset_token_def
    by (auto elim!: sql_Inr simp: bump_def nextval_def split: if_splits)
  have kept: "\<not> rt_created_at ?t < clock d - retention" by (simp add: retention_def duration_defs)
  have "find (\<lambda>t. rt_hash t = digest ?p) (reset_tokens d') = Some ?t \<and> set (reset_tokens d') \<subseteq> set (reset_tokens d2)
      \<and> users d' = users d \<and> clock d' = clock d"
    using res(3)
  proof (cases rule: purge_outcome)
    case 1
    have "reset_tokens d' = filter (\<lambda>_. True) (reset_tokens d1 @ [?t])" "users d' = users d" "clock d' = clock d"
      using d2 by (subst 1, simp)+
    then show ?thesis using find_filter_last [OF fresh, of ?t "\<lambda>_. True"] d2(1) by auto
  next
    case 2
    have "reset_tokens d' = filter (\<lambda>t. \<not> rt_created_at t < clock d - retention) (reset_tokens d1 @ [?t])"
      "users d' = users d" "clock d' = clock d"
      using d2 by (subst 2, simp)+
    then show ?thesis using find_filter_last [OF fresh, of ?t "\<lambda>t. \<not> rt_created_at t < clock d - retention"] kept d2(1) by auto
  qed
  moreover have "reset_token_usable (Some ?t) (clock d)"
    by (simp add: reset_token_usable_iff pwreset_ttl_def duration_defs)
  ultimately show thesis using res(1,2) toks1(1,2) d2(1) by (intro that [of ?t]) auto
qed

text \<open>Issuing a reset link retires every earlier one: afterwards the only token of the account that
  can be usable, now or later, is the new one, which is stored as a digest, belongs to the account
  and ends 60 minutes later; it survives the purge of old rows.\<close>

theorem issue_retires_earlier:
  assumes "run_state (issue_reset_token digest i ip) d = (Inr (plain, expires_at), d')"
  shows "expires_at = clock d + 3600 * 10 ^ 9
    \<and> (\<exists>t. t \<in> set (reset_tokens d') \<and> rt_user t = i \<and> rt_hash t = digest plain \<and> rt_expires_at t = expires_at
         \<and> reset_token_usable (Some t) (clock d))
    \<and> (\<forall>t nw. t \<in> set (reset_tokens d') \<and> rt_user t = i \<and> reset_token_usable (Some t) nw \<longrightarrow>
         rt_hash t = digest plain \<and> rt_expires_at t = expires_at)"
  using assms
proof (rule issue_cases)
  fix t
  assume t: "rt_user t = i" "rt_hash t = digest plain" "rt_expires_at t = expires_at" "reset_token_usable (Some t) (clock d)"
    and e: "expires_at = clock d + pwreset_ttl"
    and toks: "find (\<lambda>t. rt_hash t = digest plain) (reset_tokens d') = Some t"
      "set (reset_tokens d') \<subseteq> insert t (set (reset_tokens (invalidate_tokens i d)))"
  have "rt_hash k = digest plain \<and> rt_expires_at k = expires_at"
    if "k \<in> set (reset_tokens d')" "rt_user k = i" "reset_token_usable (Some k) nw" for k nw
  proof -
    have "k \<notin> set (reset_tokens (invalidate_tokens i d))" using that no_usable_after_invalidate by blast
    then have "k = t" using that(1) toks(2) by blast
    then show ?thesis using t by simp
  qed
  moreover have "expires_at = clock d + 3600 * 10 ^ 9" using e by (simp add: pwreset_ttl_def duration_defs)
  ultimately show ?thesis using t find_SomeD [OF toks(1)] by blast
qed

theorem issue_retires_earlier_witness:
  "\<exists>plain expires_at d'. run_state (issue_reset_token id 1 []) (sample_db\<lparr>reset_tokens := [sample_token]\<rparr>)
       = (Inr (plain, expires_at), d')
     \<and> (\<forall>t. t \<in> set (reset_tokens d') \<and> rt_user t = 1 \<and> reset_token_usable (Some t) 0 \<longrightarrow> rt_hash t = plain)"
proof -
  let ?d = "sample_db\<lparr>reset_tokens := [sample_token]\<rparr>"
  let ?r = "run_state (issue_reset_token id 1 []) ?d"
  have z: "itoa 0 = ''0''" by code_simp
  have run: "?r = (Inr (''r0'', 3600 * 10 ^ 9), snd ?r)"
    by (simp add: issue_reset_token_def invalidate_for_user_def create_reset_token_def purge_older_than_def Let_def
        sample_defs sample_token_def invalidate_tokens_def outstanding_def pwreset_ttl_def duration_defs z)
  show ?thesis using issue_retires_earlier [OF run] run by (intro exI [of _ "''r0''"] exI) auto
qed

end
