(* ===== verification/PortalStore.thy ===== *)
theory PortalStore
  imports Database
begin

text \<open>
  The portal store (internal/data: mac.go, exchange_mac.go, exchange.go, store.go,
  light_names_store.go): MAC addresses, the cached exchange table, link requests, the queue of
  cloud actions, gateway sessions and custom light names. \<open>hash_token\<close>, the SHA-256 digest of a
  token in hexadecimal, is a parameter of the operations that use it.
\<close>

section \<open>MAC addresses\<close>

definition hex_digit :: "char \<Rightarrow> bool" where
  "hex_digit c \<longleftrightarrow> \<not> ((c < CHR ''0'' \<or> c > CHR ''9'') \<and> (c < CHR ''a'' \<or> c > CHR ''f''))"

fun pairs_of :: "string \<Rightarrow> string list" where
  "pairs_of (a # b # s) = [a, b] # pairs_of s"
| "pairs_of _ = []"

definition err_mac :: goerr where "err_mac = Errorf ''invalid MAC''"

definition normalize_mac :: "string \<Rightarrow> goerr + string" where
  "normalize_mac raw =
     (let s = to_lower (trim_space raw) in
      if s = [] then Inl (Errorf ''empty MAC'')
      else
        let s = replace_char CHR ''-'' '':'' s;
            s = (if CHR '':'' \<notin> set s \<and> length s = 12 then join '':'' (pairs_of s) else s);
            parts = split_on CHR '':'' s in
        if length parts \<noteq> 6 then Inl err_mac
        else if list_all (\<lambda>p. length p = 2 \<and> list_all hex_digit p) parts then Inr (join '':'' parts)
        else Inl err_mac)"

definition gateway_id_from_eth0_mac :: "string \<Rightarrow> goerr + string" where
  "gateway_id_from_eth0_mac eth0 = (case normalize_mac eth0 of
       Inl e \<Rightarrow> Inl e
     | Inr norm \<Rightarrow> Inr (''gw-'' @ replace_char CHR '':'' [] norm))"

definition mac_exchange_indices :: "int list" where
  "mac_exchange_indices = [947, 948, 949, 950, 951, 952]"

definition parse_exchange_byte :: "string \<Rightarrow> int option" where
  "parse_exchange_byte v =
     (let v = trim_space v in
      if v = [] then None
      else (case sscanf_d v of
          None \<Rightarrow> None
        | Some n \<Rightarrow> if n < 0 \<or> n > 255 then None else Some n))"

definition hex_char :: "nat \<Rightarrow> char" where
  "hex_char n = (if n < 10 then char_of (48 + n) else char_of (55 + n))"

text \<open>\<open>%02X\<close> of a byte.\<close>

definition hex_byte :: "int \<Rightarrow> string" where
  "hex_byte b = [hex_char (nat b div 16), hex_char (nat b mod 16)]"

fun mac_parts :: "(int \<rightharpoonup> string) \<Rightarrow> int list \<Rightarrow> string list option" where
  "mac_parts vals [] = Some []"
| "mac_parts vals (k # ks) =
     (case parse_exchange_byte (case vals k of None \<Rightarrow> [] | Some v \<Rightarrow> v) of
        None \<Rightarrow> None
      | Some b \<Rightarrow> (case mac_parts vals ks of None \<Rightarrow> None | Some ps \<Rightarrow> Some (hex_byte b # ps)))"

definition parse_mac_from_ek :: "exchange_kv list \<Rightarrow> string" where
  "parse_mac_from_ek ek =
     (if ek = [] then []
      else (case mac_parts (kv_map ek) mac_exchange_indices of
          None \<Rightarrow> []
        | Some parts \<Rightarrow> if length parts \<noteq> 6 then [] else to_lower (join '':'' parts)))"

definition unknown_hash_prefix :: "string \<Rightarrow> string" where
  "unknown_hash_prefix client_id =
     (if \<not> prefix ''UNKNOWN-'' client_id then [] else trim_prefix ''UNKNOWN-'' client_id)"

section \<open>Exchange table\<close>

definition filter_exchange_keys :: "exchange_kv list \<Rightarrow> int list \<Rightarrow> exchange_kv list" where
  "filter_exchange_keys all requested =
     (if requested = [] then all else filter (\<lambda>p. k_of p \<in> set requested) all)"

definition merge_exchange_keys ::
  "exchange_kv list \<Rightarrow> exchange_kv list \<Rightarrow> int list \<Rightarrow> exchange_kv list" where
  "merge_exchange_keys primary secondary requested =
     (if requested = [] then filter_exchange_keys (secondary @ primary) requested
      else let by_key = kv_map (secondary @ primary) in
        concat (map (\<lambda>k. case by_key k of None \<Rightarrow> [] | Some v \<Rightarrow> [kv k v]) requested))"

definition trim_blank :: "string \<Rightarrow> string" where
  "trim_blank s = (let blank = (\<lambda>c. c = CHR '' '' \<or> c = CHR 0x09) in
     rev (dropWhile blank (rev (dropWhile blank s))))"

definition split_comma :: "string \<Rightarrow> string list" where
  "split_comma s = filter (\<lambda>p. p \<noteq> []) (map trim_blank (split_on CHR '','' s))"

fun parse_keys :: "string list \<Rightarrow> goerr + int list" where
  "parse_keys [] = Inr []"
| "parse_keys (p # ps) = (case sscanf_d p of
       None \<Rightarrow> Inl (Errorf (''invalid key '' @ p))
     | Some k \<Rightarrow> (case parse_keys ps of Inl e \<Rightarrow> Inl e | Inr ks \<Rightarrow> Inr (k # ks)))"

definition parse_key_list :: "string \<Rightarrow> goerr + int list" where
  "parse_key_list keys_param =
     (if keys_param = [] then Inl (Errorf ''empty keys'') else parse_keys (split_comma keys_param))"

definition get_gateway_exchange :: "int \<Rightarrow> (exchange_kv list \<times> instant) dbop" where
  "get_gateway_exchange machine_id = query (\<lambda>d.
     case first_row (\<lambda>r. ec_machine r = machine_id) (exchange_caches d) of
       Inl e \<Rightarrow> Inl e
     | Inr r \<Rightarrow> Inr (ec_keys r, ec_updated_at r))"

definition put_exchange_cache :: "int \<Rightarrow> exchange_kv list \<Rightarrow> db \<Rightarrow> db" where
  "put_exchange_cache machine_id keys d =
     (let row = \<lparr>ec_machine = machine_id, ec_keys = keys, ec_updated_at = clock d\<rparr>;
          mine = (\<lambda>r. ec_machine r = machine_id) in
      d\<lparr>exchange_caches := upsert_row mine (\<lambda>_. row) row (exchange_caches d)\<rparr>)"

text \<open>
  The keys of the merged cache are the keys of a Go map, in no particular order; here they come
  in the order of their first occurrence.
\<close>

definition upsert_gateway_exchange :: "int \<Rightarrow> exchange_kv list \<Rightarrow> unit dbop" where
  "upsert_gateway_exchange machine_id keys = do {
     ex \<leftarrow> get_gateway_exchange machine_id;
     let merged = (case ex of
         Inr (existing, _) \<Rightarrow>
           if existing \<noteq> [] then merge_exchange_keys keys existing (remdups (map k_of (keys @ existing)))
           else keys
       | Inl _ \<Rightarrow> keys);
     exec (put_exchange_cache machine_id merged) }"

definition get_machine_telemetry :: "string \<Rightarrow> (exchange_kv list \<times> instant) dbop" where
  "get_machine_telemetry client_id = query (\<lambda>d.
     case first_row (\<lambda>r. tel_client_id r = client_id) (telemetry d) of
       Inl e \<Rightarrow> Inl e
     | Inr r \<Rightarrow> Inr (tel_ek r, tel_updated_at r))"

definition machine_id_for_gateway :: "string \<Rightarrow> int dbop" where
  "machine_id_for_gateway gateway_id = query (\<lambda>d.
     case first_row (\<lambda>r. gs_id r = gateway_id) (gateway_sessions d) of
       Inl e \<Rightarrow> Inl e
     | Inr r \<Rightarrow> (case gs_machine r of None \<Rightarrow> Inl (Errorf ''sql: Scan error'') | Some m \<Rightarrow> Inr m))"

section \<open>Users and link requests\<close>

definition to_profile :: "user \<Rightarrow> user_profile" where
  "to_profile u = \<lparr>up_id = u_id u, up_email = u_email u, up_role = u_role u,
     up_first_name = u_first_name u, up_last_name = u_last_name u, up_machine = u_machine u,
     up_gateway = u_gateway u, up_armoire = u_armoire u\<rparr>"

definition get_profile_by_email :: "string \<Rightarrow> user_profile dbop" where
  "get_profile_by_email email = query (\<lambda>d.
     case first_row (\<lambda>u. u_email u = email) (users d) of Inl e \<Rightarrow> Inl e | Inr u \<Rightarrow> Inr (to_profile u))"

definition create_link_request :: "int \<Rightarrow> string \<Rightarrow> string \<Rightarrow> link_request dbop" where
  "create_link_request user_id serial message = sql (\<lambda>d.
     let lr = \<lparr>lr_id = nextval ''link_requests'' d, lr_user = user_id, lr_serial = serial,
               lr_message = null_if_empty message, lr_status = link_status_pending,
               lr_reviewed_by = None, lr_reviewed_at = None, lr_created_at = clock d\<rparr>
     in (Inr lr, (bump ''link_requests'' d)\<lparr>link_requests := link_requests d @ [lr]\<rparr>))"

definition get_latest_link_request :: "int \<Rightarrow> link_request dbop" where
  "get_latest_link_request user_id = query (\<lambda>d.
     top_row (order_desc lr_created_at (filter (\<lambda>r. lr_user r = user_id) (link_requests d))))"

definition list_link_requests_by_status :: "string \<Rightarrow> link_request list dbop" where
  "list_link_requests_by_status st = query (\<lambda>d.
     Inr (order_asc lr_created_at (filter (\<lambda>r. lr_status r = st) (link_requests d))))"

record link_request_admin_view =
  lv_request :: link_request
  lv_email :: string
  lv_first_name :: string
  lv_last_name :: string

definition join_users :: "db \<Rightarrow> link_request list \<Rightarrow> link_request_admin_view list" where
  "join_users d rs = concat (map (\<lambda>r. map (\<lambda>u. \<lparr>lv_request = r, lv_email = u_email u,
       lv_first_name = u_first_name u, lv_last_name = u_last_name u\<rparr>)
       (filter (\<lambda>u. u_id u = lr_user r) (users d))) rs)"

definition list_link_requests_admin :: "string \<Rightarrow> int \<Rightarrow> link_request_admin_view list dbop" where
  "list_link_requests_admin flt lim =
     (let lim = (if lim \<le> 0 \<or> lim > 200 then 100 else lim) in
      query (\<lambda>d. Inr (limit_rows lim
        (if flt = ''history'' then
           order_desc (\<lambda>v. case lr_reviewed_at (lv_request v) of
                               None \<Rightarrow> lr_created_at (lv_request v) | Some t \<Rightarrow> t)
             (join_users d (filter (\<lambda>r. lr_status r = link_status_approved \<or> lr_status r = link_status_rejected)
                (link_requests d)))
         else if flt = ''all'' then
           order_desc (\<lambda>v. lr_created_at (lv_request v)) (join_users d (link_requests d))
         else
           order_asc (\<lambda>v. lr_created_at (lv_request v))
             (join_users d (filter (\<lambda>r. lr_status r = link_status_pending) (link_requests d)))))))"

definition update_link_request_status :: "int \<Rightarrow> string \<Rightarrow> string \<Rightarrow> unit dbop" where
  "update_link_request_status i st reviewer = exec (\<lambda>d. d\<lparr>link_requests :=
     update_rows (\<lambda>r. lr_id r = i)
       (\<lambda>r. r\<lparr>lr_status := st, lr_reviewed_by := Some reviewer, lr_reviewed_at := Some (clock d)\<rparr>)
       (link_requests d)\<rparr>)"

definition user_has_approved_link :: "int \<Rightarrow> bool io" where
  "user_has_approved_link user_id = do {
     r \<leftarrow> query (\<lambda>d. top_row (order_desc lr_created_at
            (filter (\<lambda>r. lr_user r = user_id \<and> lr_status r = link_status_approved) (link_requests d))));
     State_Monad.return (case r of Inl _ \<Rightarrow> False | Inr lr \<Rightarrow> lr_status lr = link_status_approved) }"

section \<open>Cloud actions\<close>

definition enqueue_cloud_action :: "string \<Rightarrow> int \<Rightarrow> int option \<Rightarrow> exchange_kv list \<Rightarrow> unit dbop" where
  "enqueue_cloud_action guid user_id machine_id params = exec (\<lambda>d.
     if list_ex (\<lambda>a. ca_guid a = guid) (cloud_actions d) then d
     else d\<lparr>cloud_actions := cloud_actions d @
            [\<lparr>ca_guid = guid, ca_user = user_id, ca_machine = machine_id, ca_params = params,
              ca_status = ActionPending, ca_created_at = clock d, ca_delivered_at = None,
              ca_done_at = None\<rparr>]\<rparr>)"

definition get_last_cloud_action_for_user :: "int \<Rightarrow> cloud_action dbop" where
  "get_last_cloud_action_for_user user_id = query (\<lambda>d.
     top_row (order_desc ca_created_at (filter (\<lambda>a. ca_user a = user_id) (cloud_actions d))))"

text \<open>The outer loop of \<open>coalescePendingActions\<close>, one run of pure block actions at a time.\<close>

definition pure_action :: "cloud_action \<Rightarrow> bool" where
  "pure_action a = is_pure_block_action (ca_params a)"

definition merge_run :: "cloud_action list \<Rightarrow> cloud_action" where
  "merge_run run = (let merged = last run; chunks = map ca_params run in
     if length chunks > 1 then merged\<lparr>ca_params := merge_block_actions chunks\<rparr> else merged)"

function coalesce_pending_actions :: "cloud_action list \<Rightarrow> cloud_action list" where
  "coalesce_pending_actions [] = []"
| "coalesce_pending_actions (a # pending) =
     (if \<not> pure_action a then a # coalesce_pending_actions pending
      else merge_run (takeWhile pure_action (a # pending))
             # coalesce_pending_actions (dropWhile pure_action (a # pending)))"
  by pat_completeness auto
termination
  by (relation "measure length") (auto simp: le_imp_less_Suc length_dropWhile_le)

definition pending_for :: "int \<Rightarrow> int \<Rightarrow> db \<Rightarrow> cloud_action list" where
  "pending_for machine_id lim d =
     limit_rows lim (order_asc ca_created_at
       (filter (\<lambda>a. ca_status a = ActionPending \<and> ca_machine a = Some machine_id) (cloud_actions d)))"

definition set_delivered :: "string \<Rightarrow> db \<Rightarrow> db" where
  "set_delivered guid d = d\<lparr>cloud_actions :=
     update_rows (\<lambda>a. ca_guid a = guid)
       (\<lambda>a. a\<lparr>ca_status := ActionDelivered, ca_delivered_at := Some (clock d)\<rparr>) (cloud_actions d)\<rparr>"

fun mark_delivered :: "cloud_action list \<Rightarrow> unit io" where
  "mark_delivered [] = State_Monad.return ()"
| "mark_delivered (a # as) = do { ignore (exec (set_delivered (ca_guid a))); mark_delivered as }"

definition fetch_pending_actions_for_machine :: "int \<Rightarrow> int \<Rightarrow> cloud_action list dbop" where
  "fetch_pending_actions_for_machine machine_id lim =
     (let lim = (if lim \<le> 0 then 20 else lim) in
      andThen (query (\<lambda>d. Inr (pending_for machine_id lim d))) (\<lambda>pending.
        if pending = [] then State_Monad.return (Inr [])
        else do {
          let deliver = coalesce_pending_actions pending;
          mark_delivered pending;
          State_Monad.return (Inr deliver) }))"

definition machine_row_id :: "machine_row \<Rightarrow> int option" where
  "machine_row_id row =
     (case (case m_client_id row of
              None \<Rightarrow> None
            | Some c \<Rightarrow> if c = [] then None
                       else (case sscanf_d c of None \<Rightarrow> None | Some n \<Rightarrow> if n > 0 then Some n else None)) of
        Some n \<Rightarrow> Some n
      | None \<Rightarrow> if m_id row > 0 then Some (m_id row) else None)"

definition machine_id_from_hashed_pkey :: "string \<Rightarrow> int dbop" where
  "machine_id_from_hashed_pkey hashed_pkey = do {
     r \<leftarrow> query (\<lambda>d. first_row (\<lambda>m. m_hashed_pkey m = hashed_pkey) (machines d));
     State_Monad.return (case r of
         Inl _ \<Rightarrow> Inl (Errorf ''unknown machine'')
       | Inr row \<Rightarrow> (case machine_row_id row of
             Some n \<Rightarrow> Inr n
           | None \<Rightarrow> Inl (Errorf ''non-numeric client_id for machine''))) }"

definition get_gateway_session :: "string \<Rightarrow> gateway_session dbop" where
  "get_gateway_session gateway_id = query (\<lambda>d. first_row (\<lambda>g. gs_id g = gateway_id) (gateway_sessions d))"

definition fetch_pending_actions_for_gateway :: "string \<Rightarrow> int \<Rightarrow> cloud_action list dbop" where
  "fetch_pending_actions_for_gateway gateway_id lim = do {
     r \<leftarrow> get_gateway_session gateway_id;
     case r of
       Inl _ \<Rightarrow> State_Monad.return (Inl (Errorf ''unknown gateway''))
     | Inr sess \<Rightarrow> (case gs_machine sess of
           None \<Rightarrow> State_Monad.return (Inl (Errorf (''gateway '' @ gateway_id @ '' has no machine_id'')))
         | Some m \<Rightarrow> fetch_pending_actions_for_machine m lim) }"

definition done_row :: "string \<Rightarrow> int option \<Rightarrow> cloud_action \<Rightarrow> bool" where
  "done_row guid machine_id a \<longleftrightarrow> ca_guid a = guid
     \<or> (machine_id \<noteq> None \<and> ca_machine a = machine_id \<and> ca_status a = ActionDelivered)"

definition set_done :: "string \<Rightarrow> int option \<Rightarrow> db \<Rightarrow> db \<times> nat" where
  "set_done guid machine_id d =
     (d\<lparr>cloud_actions := update_rows (done_row guid machine_id)
          (\<lambda>a. a\<lparr>ca_status := ActionDone, ca_done_at := Some (clock d)\<rparr>) (cloud_actions d)\<rparr>,
      length (filter (done_row guid machine_id) (cloud_actions d)))"

definition mark_action_done :: "string \<Rightarrow> unit dbop" where
  "mark_action_done guid = do {
     r \<leftarrow> query (\<lambda>d. first_row (\<lambda>a. ca_guid a = guid) (cloud_actions d));
     case r of
       Inl _ \<Rightarrow> State_Monad.return (Inl (Errorf ''action not found''))
     | Inr a \<Rightarrow> andThen (exec_count (set_done guid (ca_machine a))) (\<lambda>n.
         State_Monad.return (if n = 0 then Inl (Errorf ''action not found'') else Inr ())) }"

section \<open>Gateway sessions\<close>

record gateway_registration =
  gr_gateway_id :: string
  gr_token :: string
  gr_machine_id :: int
  gr_eth0 :: string
  gr_eth1 :: string

text \<open>
  The upsert by \<open>gateway_id\<close>. The partial unique index on \<open>eth0_mac\<close> refuses a second gateway with
  the same address.
\<close>

definition put_gateway_session ::
  "string \<Rightarrow> string \<Rightarrow> int \<Rightarrow> string \<Rightarrow> string \<Rightarrow> db \<Rightarrow> (goerr + unit) \<times> db" where
  "put_gateway_session gateway_id th machine_id eth0 eth1 d =
     (let mine = (\<lambda>g. gs_id g = gateway_id) in
      if list_ex (\<lambda>g. \<not> mine g \<and> gs_eth0 g = Some eth0) (gateway_sessions d)
      then (Inl UniqueViolation, d)
      else (Inr (), d\<lparr>gateway_sessions := upsert_row mine
          (\<lambda>g. g\<lparr>gs_token_hash := th, gs_machine := Some machine_id, gs_eth0 := Some eth0, gs_eth1 := Some eth1\<rparr>)
          \<lparr>gs_id = gateway_id, gs_token_hash = th, gs_machine = Some machine_id, gs_eth0 = Some eth0,
           gs_eth1 = Some eth1, gs_last_seen = Some (clock d)\<rparr> (gateway_sessions d)\<rparr>))"

definition register_gateway_session :: "(string \<Rightarrow> string) \<Rightarrow> gateway_registration \<Rightarrow> unit dbop" where
  "register_gateway_session hash_token reg =
     (case normalize_mac (gr_eth0 reg) of
        Inl e \<Rightarrow> State_Monad.return (Inl e)
      | Inr eth0 \<Rightarrow> (case normalize_mac (gr_eth1 reg) of
          Inl e \<Rightarrow> State_Monad.return (Inl e)
        | Inr eth1 \<Rightarrow>
            if gr_machine_id reg \<le> 0 then State_Monad.return (Inl (Errorf ''machine_id required''))
            else (case (if gr_gateway_id reg = [] then gateway_id_from_eth0_mac eth0
                        else Inr (gr_gateway_id reg)) of
                Inl e \<Rightarrow> State_Monad.return (Inl e)
              | Inr gateway_id \<Rightarrow>
                  sql (put_gateway_session gateway_id (hash_token (gr_token reg)) (gr_machine_id reg) eth0 eth1))))"

definition session_accepts ::
  "(string \<Rightarrow> string) \<Rightarrow> gateway_session \<Rightarrow> string \<Rightarrow> string \<Rightarrow> string \<Rightarrow> bool" where
  "session_accepts hash_token sess token eth0_raw eth1_raw =
     (if gs_token_hash sess \<noteq> hash_token token then False
      else (case (gs_eth0 sess, gs_eth1 sess) of
          (Some e0, Some e1) \<Rightarrow> (case (normalize_mac eth0_raw, normalize_mac eth1_raw) of
              (Inr eth0, Inr eth1) \<Rightarrow> eth0 = e0 \<and> eth1 = e1
            | _ \<Rightarrow> False)
        | _ \<Rightarrow> True))"

definition validate_gateway_request ::
  "(string \<Rightarrow> string) \<Rightarrow> string \<Rightarrow> string \<Rightarrow> string \<Rightarrow> string \<Rightarrow> bool io" where
  "validate_gateway_request hash_token gateway_id token eth0_raw eth1_raw = do {
     r \<leftarrow> get_gateway_session gateway_id;
     State_Monad.return (case r of
         Inl _ \<Rightarrow> False
       | Inr sess \<Rightarrow> session_accepts hash_token sess token eth0_raw eth1_raw) }"

definition validate_gateway_token :: "(string \<Rightarrow> string) \<Rightarrow> string \<Rightarrow> string \<Rightarrow> bool io" where
  "validate_gateway_token hash_token gateway_id token =
     validate_gateway_request hash_token gateway_id token [] []"

text \<open>\<open>ORDER BY last_seen DESC NULLS LAST\<close>; the token hash is not selected.\<close>

definition list_gateway_sessions :: "gateway_session list dbop" where
  "list_gateway_sessions = query (\<lambda>d. Inr (map (\<lambda>g. g\<lparr>gs_token_hash := []\<rparr>)
     (order_desc (\<lambda>g. the (gs_last_seen g)) (filter (\<lambda>g. gs_last_seen g \<noteq> None) (gateway_sessions d))
      @ filter (\<lambda>g. gs_last_seen g = None) (gateway_sessions d))))"

definition touch_gateway_heartbeat :: "string \<Rightarrow> unit dbop" where
  "touch_gateway_heartbeat gateway_id = exec (\<lambda>d. d\<lparr>gateway_sessions :=
     update_rows (\<lambda>g. gs_id g = gateway_id) (\<lambda>g. g\<lparr>gs_last_seen := Some (clock d)\<rparr>)
       (gateway_sessions d)\<rparr>)"

definition is_gateway_online :: "string \<Rightarrow> duration \<Rightarrow> bool dbop" where
  "is_gateway_online gateway_id timeout = query (\<lambda>d.
     case first_row (\<lambda>g. gs_id g = gateway_id) (gateway_sessions d) of
       Inl e \<Rightarrow> Inl e
     | Inr g \<Rightarrow> (case gs_last_seen g of
           None \<Rightarrow> Inr False
         | Some t \<Rightarrow> Inr (is_online t (clock d) timeout)))"

definition audit_log_portal :: "string \<Rightarrow> string \<Rightarrow> unit dbop" where
  "audit_log_portal email action = exec (\<lambda>d. d\<lparr>portal_audit := portal_audit d @
     [\<lparr>pal_email = email, pal_action = action, pal_created_at = clock d\<rparr>]\<rparr>)"

section \<open>Light names\<close>

definition list_light_names :: "int \<Rightarrow> (string \<rightharpoonup> light_name_state) dbop" where
  "list_light_names machine_id = query (\<lambda>d.
     Inr (foldl (\<lambda>m r. m(lnr_light r \<mapsto> lnr_state r)) Map.empty
            (filter (\<lambda>r. lnr_machine r = machine_id) (light_names d))))"

definition upsert_light_name ::
  "int \<Rightarrow> string \<Rightarrow> (light_name_state option \<Rightarrow> light_name_state) \<Rightarrow> light_name_row list \<Rightarrow> light_name_row list" where
  "upsert_light_name machine_id light_id f rs =
     upsert_row (\<lambda>r. lnr_machine r = machine_id \<and> lnr_light r = light_id)
       (\<lambda>r. r\<lparr>lnr_state := f (Some (lnr_state r))\<rparr>)
       \<lparr>lnr_machine = machine_id, lnr_light = light_id, lnr_state = f None\<rparr> rs"

definition set_light_name :: "int \<Rightarrow> string \<Rightarrow> string option \<Rightarrow> string \<Rightarrow> light_name_state dbop" where
  "set_light_name machine_id light_id name by_whom = sql (\<lambda>d.
     let old = map_option lnr_state (find (\<lambda>r. lnr_machine r = machine_id \<and> lnr_light r = light_id) (light_names d));
         new = (\<lambda>o'. \<lparr>ls_name = name,
                 ls_version = (case o' of None \<Rightarrow> 1 | Some s \<Rightarrow> ls_version s + 1),
                 ls_updated_at = truncate_ms (clock d), ls_updated_by = by_whom\<rparr>)
     in (Inr (new old), d\<lparr>light_names := upsert_light_name machine_id light_id new (light_names d)\<rparr>))"

definition put_light_name_exact :: "int \<Rightarrow> string \<Rightarrow> light_name_state \<Rightarrow> unit dbop" where
  "put_light_name_exact machine_id light_id row = exec (\<lambda>d.
     d\<lparr>light_names := upsert_light_name machine_id light_id (\<lambda>_. row) (light_names d)\<rparr>)"

section \<open>The life of an action\<close>

text \<open>
  The operations that touch \<open>cloud_actions\<close>, each with any arguments and any schedule of faults,
  and every other operation of the program, which leaves the table alone.
\<close>

inductive action_step :: "db \<Rightarrow> db \<Rightarrow> bool" where
  enqueued: "run_state (enqueue_cloud_action guid uid mid params) d = (r, d') \<Longrightarrow> action_step d d'"
| polled: "run_state (fetch_pending_actions_for_machine m lim) d = (res, d') \<Longrightarrow> action_step d d'"
| polled_gateway: "run_state (fetch_pending_actions_for_gateway g lim) d = (res, d') \<Longrightarrow> action_step d d'"
| acknowledged: "run_state (mark_action_done guid) d = (r, d') \<Longrightarrow> action_step d d'"
| unrelated: "cloud_actions d' = cloud_actions d \<Longrightarrow> action_step d d'"

definition action_wf :: "cloud_action \<Rightarrow> bool" where
  "action_wf a \<longleftrightarrow> (case ca_status a of
       ActionPending \<Rightarrow> ca_delivered_at a = None \<and> ca_done_at a = None
     | ActionDelivered \<Rightarrow> ca_delivered_at a \<noteq> None \<and> ca_done_at a = None
     | ActionDone \<Rightarrow> ca_done_at a \<noteq> None)"

definition action_inv :: "db \<Rightarrow> bool" where
  "action_inv d \<longleftrightarrow> distinct (map ca_guid (cloud_actions d)) \<and> list_all action_wf (cloud_actions d)"

definition advances :: "cloud_action \<Rightarrow> cloud_action \<Rightarrow> bool" where
  "advances a b \<longleftrightarrow> ca_guid b = ca_guid a \<and> ca_user b = ca_user a \<and> ca_machine b = ca_machine a
     \<and> ca_params b = ca_params a \<and> ca_created_at b = ca_created_at a \<and> ca_status a \<le> ca_status b"

text \<open>Rows are never removed nor reordered, and each moves forward in its life cycle.\<close>

definition actions_le :: "db \<Rightarrow> db \<Rightarrow> bool" where
  "actions_le d d' \<longleftrightarrow> (\<exists>bs cs. cloud_actions d' = bs @ cs \<and> list_all2 advances (cloud_actions d) bs)"

section \<open>Library: the queue of actions\<close>

lemma coalesce_cases:
  obtains (nil) "as = []"
        | (other) a bs where "as = a # bs" "\<not> pure_action a"
            "coalesce_pending_actions as = a # coalesce_pending_actions bs"
        | (run) r rest where "as = r @ rest" "r \<noteq> []" "list_all pure_action r"
            "rest = [] \<or> \<not> pure_action (hd rest)"
            "coalesce_pending_actions as = merge_run r # coalesce_pending_actions rest"
proof (cases as)
  case (Cons a bs)
  show thesis
  proof (cases "pure_action a")
    case True
    let ?r = "takeWhile pure_action as" and ?rest = "dropWhile pure_action as"
    have "list_all pure_action ?r" by (auto simp: list_all_iff dest: set_takeWhileD)
    moreover have "?rest = [] \<or> \<not> pure_action (hd ?rest)"
      using hd_dropWhile by blast
    moreover have "?r \<noteq> []" "as = ?r @ ?rest" using Cons True by auto
    ultimately show thesis using run [of ?r ?rest] Cons True by auto
  next
    case False
    then show thesis using other [of a bs] Cons by simp
  qed
qed (rule nil)

lemma coalesce_induct [case_names nil other run]:
  assumes "P []"
    and "\<And>a bs. \<not> pure_action a \<Longrightarrow> P bs \<Longrightarrow> P (a # bs)"
    and "\<And>r rest. r \<noteq> [] \<Longrightarrow> list_all pure_action r \<Longrightarrow> rest = [] \<or> \<not> pure_action (hd rest)
          \<Longrightarrow> coalesce_pending_actions (r @ rest) = merge_run r # coalesce_pending_actions rest
          \<Longrightarrow> P rest \<Longrightarrow> P (r @ rest)"
  shows "P as"
proof (induction as rule: length_induct)
  case (1 as)
  show ?case
  proof (cases as rule: coalesce_cases)
    case (run r rest)
    then have "length rest < length as" by (cases r) auto
    then show ?thesis using run assms(3) 1 by metis
  qed (use assms 1 in auto)
qed

lemma pure_merge_run:
  assumes "r \<noteq> []" "list_all pure_action r"
  shows "pure_action (merge_run r)"
proof (cases "length r > 1")
  case True
  then show ?thesis by (simp add: pure_action_def merge_run_def Let_def merge_pure)
next
  case False
  then obtain a where "r = [a]" using assms(1) by (cases r) auto
  then show ?thesis using assms(2) by (simp add: merge_run_def)
qed

lemma merge_run_frame: "ca_guid (merge_run r) = ca_guid (last r) \<and> ca_machine (merge_run r) = ca_machine (last r)
    \<and> ca_user (merge_run r) = ca_user (last r) \<and> ca_created_at (merge_run r) = ca_created_at (last r)"
  by (simp add: merge_run_def Let_def)

lemma merge_run_effect:
  assumes "r \<noteq> []" "list_all numeric_kv (concat (map ca_params r))"
  shows "replay (ca_params (merge_run r)) st = replay (concat (map ca_params r)) st"
proof (cases "length r > 1")
  case True
  then show ?thesis using merge_effect [OF assms(2)] by (simp add: merge_run_def Let_def)
next
  case False
  then obtain a where "r = [a]" using assms(1) by (cases r) auto
  then show ?thesis by (simp add: merge_run_def)
qed

lemma replay_append: "replay (ps @ qs) st = replay qs (replay ps st)"
  by (simp add: replay_def)

lemma coalesce_effect:
  assumes "list_all numeric_kv (concat (map ca_params as))"
  shows "replay (concat (map ca_params (coalesce_pending_actions as))) st = replay (concat (map ca_params as)) st"
  using assms
proof (induction as arbitrary: st rule: coalesce_induct)
  case (run r rest)
  then show ?case by (simp add: replay_append merge_run_effect)
qed (simp_all add: replay_append)

lemma coalesce_others:
  "filter (\<lambda>a. \<not> pure_action a) (coalesce_pending_actions as) = filter (\<lambda>a. \<not> pure_action a) as"
proof (induction as rule: coalesce_induct)
  case (run r rest)
  have "filter (\<lambda>a. \<not> pure_action a) r = []" using run(2) by (auto simp: filter_empty_conv list_all_iff)
  then show ?case using run pure_merge_run by simp
qed simp_all

lemma coalesce_guids:
  "subseq (map ca_guid (coalesce_pending_actions as)) (map ca_guid as)"
proof (induction as rule: coalesce_induct)
  case (run r rest)
  have "r = butlast r @ [last r]" using run(1) by simp
  then have "map ca_guid (r @ rest) = map ca_guid (butlast r) @ ca_guid (last r) # map ca_guid rest"
    by (metis append.assoc append_Cons append_Nil list.simps(9) map_append)
  moreover have "subseq (ca_guid (last r) # map ca_guid (coalesce_pending_actions rest))
      (map ca_guid (butlast r) @ ca_guid (last r) # map ca_guid rest)"
    using run.IH by (intro list_emb_append2) auto
  ultimately show ?case using run(4) by (simp add: merge_run_frame)
qed simp_all

text \<open>No two neighbours of a coalesced list can be merged further.\<close>

fun separated :: "cloud_action list \<Rightarrow> bool" where
  "separated (a # b # as) \<longleftrightarrow> \<not> (pure_action a \<and> pure_action b) \<and> separated (b # as)"
| "separated _ \<longleftrightarrow> True"

lemma coalesce_hd:
  "coalesce_pending_actions as \<noteq> [] \<Longrightarrow>
     as \<noteq> [] \<and> pure_action (hd (coalesce_pending_actions as)) = pure_action (hd as)"
proof (cases as rule: coalesce_cases)
  case (run r rest)
  then show ?thesis using pure_merge_run [of r] by (cases r) auto
qed auto

lemma separated_Cons:
  "separated (a # as) \<longleftrightarrow> (as = [] \<or> \<not> (pure_action a \<and> pure_action (hd as))) \<and> separated as"
  by (cases as) auto

lemma coalesce_separated: "separated (coalesce_pending_actions as)"
proof (induction as rule: coalesce_induct)
  case (other a bs)
  then show ?case by (simp add: separated_Cons)
next
  case (run r rest)
  then show ?case using coalesce_hd [of rest] by (auto simp: separated_Cons)
qed simp

lemma separated_fixed: "separated as \<Longrightarrow> coalesce_pending_actions as = as"
proof (induction as)
  case (Cons a as)
  show ?case
  proof (cases "pure_action a")
    case True
    then have "takeWhile pure_action as = []" "dropWhile pure_action as = as"
      using Cons.prems by (cases as; simp)+
    then show ?thesis using Cons True by (simp add: merge_run_def separated_Cons)
  next
    case False
    then show ?thesis using Cons by (simp add: separated_Cons)
  qed
qed simp

text \<open>Delivery rewrites some of the rows whose GUIDs are listed, whatever statements fail.\<close>

definition deliver_row :: "instant \<Rightarrow> cloud_action \<Rightarrow> cloud_action" where
  "deliver_row t a = a\<lparr>ca_status := ActionDelivered, ca_delivered_at := Some t\<rparr>"

lemma update_rows_update_rows:
  assumes "\<And>r. p r \<Longrightarrow> q (f r) \<longleftrightarrow> q r" "\<And>r. p r \<Longrightarrow> q r \<Longrightarrow> f (f r) = f r"
  shows "update_rows q f (update_rows p f rs) = update_rows (\<lambda>r. p r \<or> q r) f rs"
  using assms by (induction rs) auto

lemma mark_delivered_run:
  assumes "run_state (mark_delivered as) d = (r, d')"
  shows "\<exists>G bs. G \<subseteq> ca_guid ` set as \<and> (faults d = [] \<longrightarrow> G = ca_guid ` set as \<and> bs = [])
    \<and> d' = d\<lparr>faults := bs, cloud_actions :=
         update_rows (\<lambda>a. ca_guid a \<in> G) (deliver_row (clock d)) (cloud_actions d)\<rparr>"
  using assms
proof (induction as arbitrary: d)
  case Nil
  have "d = d\<lparr>faults := faults d, cloud_actions :=
      update_rows (\<lambda>a. ca_guid a \<in> {}) (deliver_row (clock d)) (cloud_actions d)\<rparr>"
    by (simp add: update_rows_def)
  then show ?case using Nil by (intro exI [of _ "{}"] exI [of _ "faults d"]) auto
next
  case (Cons a as)
  let ?f = "deliver_row (clock d)"
  obtain u d1 where e: "run_state (exec (set_delivered (ca_guid a))) d = (u, d1)" by fastforce
  then have run: "run_state (mark_delivered as) d1 = (r, d')" using Cons.prems by simp
  have "\<exists>H bs. H \<subseteq> {ca_guid a} \<and> (faults d = [] \<longrightarrow> H = {ca_guid a} \<and> bs = [])
      \<and> d1 = d\<lparr>faults := bs, cloud_actions := update_rows (\<lambda>a. ca_guid a \<in> H) ?f (cloud_actions d)\<rparr>"
  proof (cases "faults d = []")
    case True
    then have "d1 = d\<lparr>faults := [], cloud_actions :=
        update_rows (\<lambda>b. ca_guid b \<in> {ca_guid a}) ?f (cloud_actions d)\<rparr>"
      using e by (simp add: set_delivered_def deliver_row_def [abs_def] faults_update_same)
    then show ?thesis by blast
  next
    case False
    show ?thesis using e
    proof (cases rule: exec_cases)
      case (conn bs)
      then have "d1 = d\<lparr>faults := bs, cloud_actions := update_rows (\<lambda>a. ca_guid a \<in> {}) ?f (cloud_actions d)\<rparr>"
        by (simp add: update_rows_def)
      then show ?thesis using False by blast
    next
      case (ran bs)
      then have "d1 = d\<lparr>faults := bs, cloud_actions := update_rows (\<lambda>b. ca_guid b \<in> {ca_guid a}) ?f (cloud_actions d)\<rparr>"
        by (simp add: set_delivered_def deliver_row_def [abs_def])
      then show ?thesis using False by blast
    qed
  qed
  then obtain H bs where H: "H \<subseteq> {ca_guid a}" "faults d = [] \<longrightarrow> H = {ca_guid a} \<and> bs = []"
    "d1 = d\<lparr>faults := bs, cloud_actions := update_rows (\<lambda>a. ca_guid a \<in> H) ?f (cloud_actions d)\<rparr>"
    by blast
  obtain G cs where G: "G \<subseteq> ca_guid ` set as" "faults d1 = [] \<longrightarrow> G = ca_guid ` set as \<and> cs = []"
    "d' = d1\<lparr>faults := cs, cloud_actions :=
        update_rows (\<lambda>a. ca_guid a \<in> G) (deliver_row (clock d1)) (cloud_actions d1)\<rparr>"
    using Cons.IH [OF run] by blast
  have "d' = d\<lparr>faults := cs, cloud_actions := update_rows (\<lambda>a. ca_guid a \<in> H \<union> G) ?f (cloud_actions d)\<rparr>"
    unfolding G(3) H(3)
    by (simp add: update_rows_update_rows [where q = "\<lambda>a. ca_guid a \<in> G"] deliver_row_def)
  moreover have "H \<union> G \<subseteq> ca_guid ` set (a # as)" using H(1) G(1) by auto
  moreover have "faults d = [] \<longrightarrow> H \<union> G = ca_guid ` set (a # as) \<and> cs = []"
    using H G(2) by auto
  ultimately show ?case by blast
qed

lemma pending_for_sub: "set (pending_for m lim d) \<subseteq>
    {a \<in> set (cloud_actions d). ca_status a = ActionPending \<and> ca_machine a = Some m}"
  unfolding pending_for_def limit_rows_def by (auto dest: in_set_takeD)

text \<open>The effect of a poll on the table: some rows that were pending are now delivered.\<close>

lemma fetch_run:
  assumes "run_state (fetch_pending_actions_for_machine m lim) d = (res, d')"
  shows "\<exists>G bs. G \<subseteq> ca_guid ` set (pending_for m (if lim \<le> 0 then 20 else lim) d)
    \<and> d' = d\<lparr>faults := bs, cloud_actions :=
         update_rows (\<lambda>a. ca_guid a \<in> G) (deliver_row (clock d)) (cloud_actions d)\<rparr>"
proof -
  let ?lim = "if lim \<le> 0 then 20 else lim"
  obtain q d1 where q: "run_state (query (\<lambda>d. Inr (pending_for m ?lim d))) d = (q, d1)" by fastforce
  then obtain bs where bs: "d1 = d\<lparr>faults := bs\<rparr>"
      "q = Inl ConnError \<or> q = Inr (pending_for m ?lim d)"
    by (auto elim!: query_cases simp: pending_for_def)
  have none: "d\<lparr>faults := bs\<rparr> = d\<lparr>faults := bs, cloud_actions :=
      update_rows (\<lambda>a. ca_guid a \<in> {}) (deliver_row (clock d)) (cloud_actions d)\<rparr>"
    by (simp add: update_rows_def)
  show ?thesis
  proof (cases "q = Inl ConnError \<or> pending_for m ?lim d = []")
    case True
    then have "d' = d1" using assms q bs(2)
      by (auto simp: fetch_pending_actions_for_machine_def Let_def)
    then show ?thesis using none bs(1) by blast
  next
    case False
    then have run: "run_state (mark_delivered (pending_for m ?lim d)) d1 = ((), d')"
      using assms q bs(2)
      by (auto simp: fetch_pending_actions_for_machine_def Let_def split: prod.splits)
    obtain G cs where G: "G \<subseteq> ca_guid ` set (pending_for m ?lim d)"
      "d' = d1\<lparr>faults := cs, cloud_actions :=
         update_rows (\<lambda>a. ca_guid a \<in> G) (deliver_row (clock d1)) (cloud_actions d1)\<rparr>"
      using mark_delivered_run [OF run] by blast
    then have "d' = d\<lparr>faults := cs, cloud_actions :=
         update_rows (\<lambda>a. ca_guid a \<in> G) (deliver_row (clock d)) (cloud_actions d)\<rparr>"
      using bs(1) by simp
    then show ?thesis using G(1) by blast
  qed
qed

lemma fetch_run_ok:
  assumes "faults d = []"
  shows "run_state (fetch_pending_actions_for_machine m lim) d =
    (let pend = pending_for m (if lim \<le> 0 then 20 else lim) d in
     (Inr (coalesce_pending_actions pend),
      d\<lparr>cloud_actions := update_rows (\<lambda>a. ca_guid a \<in> ca_guid ` set pend) (deliver_row (clock d)) (cloud_actions d)\<rparr>))"
proof -
  let ?pend = "pending_for m (if lim \<le> 0 then 20 else lim) d"
  obtain d' where run: "run_state (mark_delivered ?pend) d = ((), d')"
    by (metis old.prod.exhaust old.unit.exhaust)
  then have "d' = d\<lparr>cloud_actions := update_rows (\<lambda>a. ca_guid a \<in> ca_guid ` set ?pend) (deliver_row (clock d)) (cloud_actions d)\<rparr>"
    using mark_delivered_run [OF run] assms by (auto simp: faults_update_same)
  then show ?thesis using assms run
    by (auto simp: fetch_pending_actions_for_machine_def Let_def update_rows_def)
qed

lemma advances_refl: "advances a a"
  by (simp add: advances_def)

lemma advances_trans: "advances a b \<Longrightarrow> advances b c \<Longrightarrow> advances a c"
  by (auto simp: advances_def)

lemma actions_le_refl: "actions_le d d"
  unfolding actions_le_def
  by (intro exI [of _ "cloud_actions d"] exI [of _ "[]"]) (simp add: advances_refl list_all2_refl)

lemma actions_le_trans:
  assumes "actions_le d d1" "actions_le d1 d2"
  shows "actions_le d d2"
proof -
  obtain bs cs where 1: "cloud_actions d1 = bs @ cs" "list_all2 advances (cloud_actions d) bs"
    using assms(1) by (auto simp: actions_le_def)
  obtain es fs where 2: "cloud_actions d2 = es @ fs" "list_all2 advances (cloud_actions d1) es"
    using assms(2) by (auto simp: actions_le_def)
  obtain e1 e2 where 3: "es = e1 @ e2" "list_all2 advances bs e1"
    using 2(2) unfolding 1(1) by (auto simp: list_all2_append1)
  have "list_all2 advances (cloud_actions d) e1"
    using list_all2_trans [OF advances_trans 1(2) 3(2)] .
  then show ?thesis using 2(1) 3(1) by (auto simp: actions_le_def)
qed

lemma list_all2_update_rows:
  assumes "\<And>r. r \<in> set rs \<Longrightarrow> p r \<Longrightarrow> R r (f r)" "\<And>r. R r r"
  shows "list_all2 R rs (update_rows p f rs)"
  using assms by (induction rs) auto

lemma update_rows_inv:
  assumes inv: "action_inv d"
    and f: "\<And>a. a \<in> set (cloud_actions d) \<Longrightarrow> p a \<Longrightarrow> advances a (f a) \<and> action_wf (f a)"
    and d': "cloud_actions d' = update_rows p f (cloud_actions d)"
  shows "action_inv d' \<and> actions_le d d'"
proof
  have "map ca_guid (update_rows p f (cloud_actions d)) = map ca_guid (cloud_actions d)"
    using f by (auto simp: update_rows_def advances_def)
  then show "action_inv d'" using inv f d'
    by (auto simp: action_inv_def list_all_iff in_set_update_rows)
  have "list_all2 advances (cloud_actions d) (cloud_actions d')"
    unfolding d' using f by (intro list_all2_update_rows) (auto simp: advances_refl)
  then show "actions_le d d'" unfolding actions_le_def by (metis append_Nil2)
qed

lemma pending_guid:
  assumes "action_inv d" "a \<in> set (cloud_actions d)" "ca_guid a \<in> ca_guid ` set (pending_for m lim d)"
  shows "a \<in> set (pending_for m lim d)" "ca_status a = ActionPending"
proof -
  obtain b where b: "b \<in> set (pending_for m lim d)" "ca_guid b = ca_guid a" using assms(3) by auto
  then have "b \<in> set (cloud_actions d)" using pending_for_sub by blast
  then have "a = b" using assms(1,2) b(2) by (auto simp: action_inv_def distinct_map dest: inj_onD)
  then show "a \<in> set (pending_for m lim d)" "ca_status a = ActionPending"
    using b(1) pending_for_sub [of m lim d] by auto
qed

lemma polled_inv:
  assumes inv: "action_inv d" and run: "run_state (fetch_pending_actions_for_machine m lim) d = (res, d')"
  shows "action_inv d' \<and> actions_le d d'"
proof -
  let ?P = "pending_for m (if lim \<le> 0 then 20 else lim) d"
  obtain G bs where G: "G \<subseteq> ca_guid ` set ?P" "d' = d\<lparr>faults := bs, cloud_actions :=
      update_rows (\<lambda>a. ca_guid a \<in> G) (deliver_row (clock d)) (cloud_actions d)\<rparr>"
    using fetch_run [OF run] by blast
  have ok: "advances a (deliver_row (clock d) a) \<and> action_wf (deliver_row (clock d) a)"
    if a: "a \<in> set (cloud_actions d)" "ca_guid a \<in> G" for a
  proof -
    have "ca_status a = ActionPending" using pending_guid(2) [OF inv a(1)] a(2) G(1) by blast
    moreover have "action_wf a" using inv a(1) by (auto simp: action_inv_def list_all_iff)
    ultimately show ?thesis by (simp add: advances_def deliver_row_def action_wf_def)
  qed
  show ?thesis by (rule update_rows_inv [OF inv ok]) (use G(2) in auto)
qed

lemma done_inv:
  assumes inv: "action_inv d" and run: "run_state (mark_action_done guid) d = (r, d')"
  shows "action_inv d' \<and> actions_le d d'"
proof -
  obtain q d1 where q: "run_state (query (\<lambda>d. first_row (\<lambda>a. ca_guid a = guid) (cloud_actions d))) d = (q, d1)"
    by fastforce
  then obtain bs where d1: "d1 = d\<lparr>faults := bs\<rparr>" by (auto elim!: query_cases)
  have stay: "action_inv d1 \<and> actions_le d d1"
    using inv d1 actions_le_refl [of d] by (simp add: action_inv_def actions_le_def)
  show ?thesis
  proof (cases q)
    case (Inl e)
    then show ?thesis using run q stay by (auto simp: mark_action_done_def)
  next
    case (Inr a)
    let ?f = "\<lambda>a. a\<lparr>ca_status := ActionDone, ca_done_at := Some (clock d)\<rparr>"
    obtain c d2 where c: "run_state (exec_count (set_done guid (ca_machine a))) d1 = (c, d2)" by fastforce
    then have d': "d' = d2" using run q Inr by (auto simp: mark_action_done_def split: sum.splits)
    from c have "\<exists>p. cloud_actions d2 = update_rows p ?f (cloud_actions d)"
      unfolding exec_count_def
    proof (cases rule: sql_cases)
      case (conn bs')
      then have "cloud_actions d2 = update_rows (\<lambda>_. False) ?f (cloud_actions d)"
        using d1 by (simp add: update_rows_def)
      then show ?thesis by blast
    next
      case (ran bs')
      then show ?thesis using d1 by (auto simp: set_done_def)
    qed
    then obtain p where p: "cloud_actions d2 = update_rows p ?f (cloud_actions d)" by blast
    show ?thesis unfolding d' by (rule update_rows_inv [OF inv _ p]) (simp add: advances_def action_wf_def)
  qed
qed

lemma enqueued_inv:
  assumes inv: "action_inv d" and run: "run_state (enqueue_cloud_action guid uid mid params) d = (r, d')"
  shows "action_inv d' \<and> actions_le d d'"
  using run unfolding enqueue_cloud_action_def
proof (cases rule: exec_cases)
  case (conn bs)
  then show ?thesis using inv actions_le_refl [of d] by (simp add: action_inv_def actions_le_def)
next
  case (ran bs)
  show ?thesis
  proof (cases "list_ex (\<lambda>a. ca_guid a = guid) (cloud_actions d)")
    case True
    then show ?thesis using ran inv actions_le_refl [of d] by (simp add: action_inv_def actions_le_def)
  next
    case False
    let ?a = "\<lparr>ca_guid = guid, ca_user = uid, ca_machine = mid, ca_params = params,
      ca_status = ActionPending, ca_created_at = clock d, ca_delivered_at = None, ca_done_at = None\<rparr>"
    have new: "cloud_actions d' = cloud_actions d @ [?a]" using ran False by simp
    have "guid \<notin> ca_guid ` set (cloud_actions d)" using False by (auto simp: list_ex_iff)
    then have "action_inv d'" using inv new by (simp add: action_inv_def action_wf_def)
    moreover have "actions_le d d'"
      unfolding actions_le_def using new by (auto simp: advances_refl list_all2_refl)
    ultimately show ?thesis ..
  qed
qed

lemma action_step_inv:
  assumes "action_inv d" "action_step d d'"
  shows "action_inv d' \<and> actions_le d d'"
  using assms(2,1)
proof (cases rule: action_step.cases)
  case (polled_gateway g lim res)
  obtain q d1 where q: "run_state (get_gateway_session g) d = (q, d1)" by fastforce
  then obtain bs where d1: "d1 = d\<lparr>faults := bs\<rparr>"
    unfolding get_gateway_session_def by (auto elim!: query_cases)
  have inv1: "action_inv d1" "actions_le d d1"
    using assms(1) d1 actions_le_refl [of d] by (simp_all add: action_inv_def actions_le_def)
  show ?thesis
  proof (cases "\<exists>sess m. q = Inr sess \<and> gs_machine sess = Some m")
    case True
    then obtain m where "run_state (fetch_pending_actions_for_machine m lim) d1 = (res, d')"
      using polled_gateway q by (auto simp: fetch_pending_actions_for_gateway_def)
    then show ?thesis using polled_inv [OF inv1(1)] inv1(2) actions_le_trans by blast
  next
    case False
    then have "d' = d1" using polled_gateway q
      by (auto simp: fetch_pending_actions_for_gateway_def split: sum.splits option.splits)
    then show ?thesis using inv1 by simp
  qed
next
  case unrelated
  then show ?thesis using assms(1) actions_le_refl [of d] by (simp add: action_inv_def actions_le_def)
qed (use enqueued_inv polled_inv done_inv in blast)+

interpretation queue_life: monotone_system "\<lambda>d. cloud_actions d = []" action_step action_inv actions_le
proof
  show "action_inv s" if "cloud_actions s = []" for s using that by (simp add: action_inv_def)
  show "action_inv t" if "action_inv s" "action_step s t" for s t using action_step_inv [OF that] ..
  show "actions_le s s" for s by (rule actions_le_refl)
  show "actions_le s u" if "actions_le s t" "actions_le t u" for s t u using that by (rule actions_le_trans)
  show "actions_le s t" if "action_inv s" "action_step s t" for s t using action_step_inv [OF that] ..
qed

section \<open>Library: the queue of one machine\<close>

text \<open>What waits for a machine, oldest first: the abstract queue behind the table.\<close>

definition waiting :: "int \<Rightarrow> db \<Rightarrow> cloud_action list" where
  "waiting m d = order_asc ca_created_at
     (filter (\<lambda>a. ca_status a = ActionPending \<and> ca_machine a = Some m) (cloud_actions d))"

lemma pending_for_waiting: "pending_for m lim d = take (nat lim) (waiting m d)"
  by (simp add: pending_for_def waiting_def limit_rows_def)

lemma insort_key_snoc: "f y \<le> f x \<Longrightarrow> insort_key f y (zs @ [x]) = insort_key f y zs @ [x]"
  by (induction zs) auto

lemma sort_key_snoc:
  assumes "\<And>y. y \<in> set xs \<Longrightarrow> f y \<le> f x"
  shows "sort_key f (xs @ [x]) = sort_key f xs @ [x]"
  using assms by (induction xs) (auto simp: insort_key_snoc)

lemma filter_drop_taken:
  assumes "distinct (map g ys)"
  shows "filter (\<lambda>y. g y \<notin> g ` set (take n ys)) ys = drop n ys"
proof -
  have "filter (\<lambda>y. g y \<notin> g ` set (take n ys)) (take n ys) = []"
    by (auto simp: filter_empty_conv)
  moreover have "filter (\<lambda>y. g y \<notin> g ` set (take n ys)) (drop n ys) = drop n ys"
  proof (rule filter_True, intro ballI)
    fix y assume "y \<in> set (drop n ys)"
    moreover have "distinct (map g (take n ys) @ map g (drop n ys))"
      using assms by (metis append_take_drop_id map_append)
    ultimately show "g y \<notin> g ` set (take n ys)" by auto
  qed
  ultimately show ?thesis by (metis append_Nil append_take_drop_id filter_append)
qed

lemma distinct_waiting: "action_inv d \<Longrightarrow> distinct (map ca_guid (waiting m d))"
  unfolding waiting_def order_asc_def distinct_map action_inv_def
  by (auto simp: inj_on_def)

lemma waiting_after_poll:
  assumes inv: "action_inv d"
    and d': "cloud_actions d' =
      update_rows (\<lambda>a. ca_guid a \<in> ca_guid ` set (take n (waiting m d))) (deliver_row t) (cloud_actions d)"
  shows "waiting m d' = drop n (waiting m d)"
proof -
  let ?G = "ca_guid ` set (take n (waiting m d))"
  let ?w = "\<lambda>a. ca_status a = ActionPending \<and> ca_machine a = Some m"
  have "filter ?w (update_rows (\<lambda>a. ca_guid a \<in> ?G) (deliver_row t) rs)
      = filter (\<lambda>a. ca_guid a \<notin> ?G) (filter ?w rs)" for rs
    by (induction rs) (auto simp: deliver_row_def)
  then have "waiting m d' = filter (\<lambda>a. ca_guid a \<notin> ?G) (waiting m d)"
    unfolding waiting_def order_asc_def d' by (simp only: filter_sort)
  also have "\<dots> = drop n (waiting m d)"
    by (rule filter_drop_taken [OF distinct_waiting [OF inv]])
  finally show ?thesis .
qed

section \<open>Properties: the queue of actions\<close>


definition sample_pending :: "cloud_action list" where
  "sample_pending = map (\<lambda>(g, ps). \<lparr>ca_guid = g, ca_user = 1, ca_machine = Some 1, ca_params = ps,
       ca_status = ActionPending, ca_created_at = 0, ca_delivered_at = None, ca_done_at = None\<rparr>)
     [(''a'', [kv 611 ''4'']), (''b'', [kv 605 ''4'']), (''c'', [kv 349 ''1''])]"


text \<open>A poll is a step of a FIFO queue: when every statement reaches the server, the poll hands
  out the coalesced \<open>limit\<close> oldest actions waiting for the machine (20 when the limit is not
  positive) and leaves exactly the others waiting, in order; nothing is handed out twice. What
  waits for other machines does not change.\<close>

theorem poll_is_fifo_step:
  assumes "faults d = []" "action_inv d"
  shows "\<exists>d'. run_state (fetch_pending_actions_for_machine m lim) d =
        (Inr (coalesce_pending_actions (take (nat (if lim \<le> 0 then 20 else lim)) (waiting m d))), d')
    \<and> waiting m d' = drop (nat (if lim \<le> 0 then 20 else lim)) (waiting m d)
    \<and> (\<forall>m'. m' \<noteq> m \<longrightarrow> waiting m' d' = waiting m' d)"
proof -
  let ?n = "nat (if lim \<le> 0 then 20 else lim)"
  let ?G = "ca_guid ` set (take ?n (waiting m d))"
  let ?d = "d\<lparr>cloud_actions := update_rows (\<lambda>a. ca_guid a \<in> ?G) (deliver_row (clock d)) (cloud_actions d)\<rparr>"
  have run: "run_state (fetch_pending_actions_for_machine m lim) d =
      (Inr (coalesce_pending_actions (take ?n (waiting m d))), ?d)"
    using fetch_run_ok [OF assms(1), of m lim] by (simp add: Let_def pending_for_waiting)
  have "waiting m' ?d = waiting m' d" if "m' \<noteq> m" for m'
  proof -
    have "a \<in> set (cloud_actions d) \<Longrightarrow> ca_guid a \<in> ?G \<Longrightarrow> ca_machine a = Some m" for a
      using pending_guid(1) [OF assms(2), of a m "int ?n"] pending_for_sub [of m "int ?n" d]
      by (auto simp: pending_for_waiting)
    then have "filter (\<lambda>a. ca_status a = ActionPending \<and> ca_machine a = Some m')
        (update_rows (\<lambda>a. ca_guid a \<in> ?G) (deliver_row (clock d)) (cloud_actions d))
      = filter (\<lambda>a. ca_status a = ActionPending \<and> ca_machine a = Some m') (cloud_actions d)"
      using that by (intro filter_update_rows) (auto simp: deliver_row_def)
    then show ?thesis by (simp add: waiting_def)
  qed
  then show ?thesis using run waiting_after_poll [OF assms(2), of ?d ?n m "clock d"] by auto
qed

theorem poll_is_fifo_step_witness:
  "\<exists>d'. run_state (fetch_pending_actions_for_machine 7 1)
      (empty_db\<lparr>cloud_actions := map (\<lambda>(g, t). \<lparr>ca_guid = g, ca_user = 1, ca_machine = Some 7,
          ca_params = [kv 349 ''1''], ca_status = ActionPending, ca_created_at = t,
          ca_delivered_at = None, ca_done_at = None\<rparr>) [(''b'', 2), (''a'', 1)]\<rparr>) =
      (Inr [\<lparr>ca_guid = ''a'', ca_user = 1, ca_machine = Some 7, ca_params = [kv 349 ''1''],
          ca_status = ActionPending, ca_created_at = 1, ca_delivered_at = None, ca_done_at = None\<rparr>], d')
    \<and> map ca_guid (waiting 7 d') = [''b'']"
proof -
  let ?d = "empty_db\<lparr>cloud_actions := map (\<lambda>(g, t). \<lparr>ca_guid = g, ca_user = 1, ca_machine = Some 7,
          ca_params = [kv 349 ''1''], ca_status = ActionPending, ca_created_at = t,
          ca_delivered_at = None, ca_done_at = None\<rparr>) [(''b'', 2), (''a'', 1)]\<rparr>"
  have "faults ?d = []" "action_inv ?d" by code_simp+
  then obtain d' where "run_state (fetch_pending_actions_for_machine 7 1) ?d =
        (Inr (coalesce_pending_actions (take 1 (waiting 7 ?d))), d')" "waiting 7 d' = drop 1 (waiting 7 ?d)"
    using poll_is_fifo_step [of ?d 7 1] by auto
  moreover have "coalesce_pending_actions (take 1 (waiting 7 ?d)) =
      [\<lparr>ca_guid = ''a'', ca_user = 1, ca_machine = Some 7, ca_params = [kv 349 ''1''],
        ca_status = ActionPending, ca_created_at = 1, ca_delivered_at = None, ca_done_at = None\<rparr>]"
    "map ca_guid (drop 1 (waiting 7 ?d)) = [''b'']" by code_simp+
  ultimately show ?thesis by metis
qed

text \<open>Enqueuing is the other step of that queue: an action with a new GUID joins the end of what
  waits for its machine when no later action waits there; a GUID that is already known changes
  nothing, whatever its parameters (the insert is idempotent).\<close>

theorem enqueue_is_fifo_step:
  assumes "faults d = []"
  shows "\<exists>d'. run_state (enqueue_cloud_action guid uid (Some m) ps) d = (Inr (), d')
    \<and> (guid \<in> ca_guid ` set (cloud_actions d) \<longrightarrow> d' = d)
    \<and> (guid \<notin> ca_guid ` set (cloud_actions d) \<and> (\<forall>a. a \<in> set (waiting m d) \<longrightarrow> ca_created_at a \<le> clock d)
       \<longrightarrow> waiting m d' = waiting m d @ [\<lparr>ca_guid = guid, ca_user = uid, ca_machine = Some m,
             ca_params = ps, ca_status = ActionPending, ca_created_at = clock d,
             ca_delivered_at = None, ca_done_at = None\<rparr>])
    \<and> run_state (enqueue_cloud_action guid uid' m' ps') d' = (Inr (), d')"
proof -
  let ?a = "\<lparr>ca_guid = guid, ca_user = uid, ca_machine = Some m, ca_params = ps,
      ca_status = ActionPending, ca_created_at = clock d, ca_delivered_at = None, ca_done_at = None\<rparr>"
  let ?known = "list_ex (\<lambda>a. ca_guid a = guid) (cloud_actions d)"
  let ?d = "if ?known then d else d\<lparr>cloud_actions := cloud_actions d @ [?a]\<rparr>"
  have k: "?known \<longleftrightarrow> guid \<in> ca_guid ` set (cloud_actions d)" by (auto simp: list_ex_iff)
  have w: "(\<forall>a \<in> set (waiting m d). ca_created_at a \<le> clock d) \<Longrightarrow>
      order_asc ca_created_at (filter (\<lambda>a. ca_status a = ActionPending \<and> ca_machine a = Some m)
        (cloud_actions d) @ [?a]) = waiting m d @ [?a]"
    unfolding waiting_def order_asc_def by (intro sort_key_snoc) auto
  have "waiting m ?d = waiting m d @ [?a]"
    if "guid \<notin> ca_guid ` set (cloud_actions d)" "\<forall>a \<in> set (waiting m d). ca_created_at a \<le> clock d"
    using that w k by (simp add: waiting_def)
  moreover have "run_state (enqueue_cloud_action guid uid (Some m) ps) d = (Inr (), ?d)"
    using assms by (simp add: enqueue_cloud_action_def)
  moreover have "run_state (enqueue_cloud_action guid uid' m' ps') ?d = (Inr (), ?d)"
    using assms by (auto simp: enqueue_cloud_action_def)
  ultimately show ?thesis using k by (intro exI [of _ ?d]) auto
qed

theorem enqueue_is_fifo_step_witness:
  "\<exists>d'. run_state (enqueue_cloud_action ''g'' 1 (Some 7) [kv 349 ''1'']) empty_db = (Inr (), d')
    \<and> map ca_guid (waiting 7 d') = [''g'']"
proof -
  have "faults empty_db = []" "waiting 7 empty_db = []" "cloud_actions empty_db = []" by code_simp+
  with enqueue_is_fifo_step [OF this(1), of "''g''" 1 7 "[kv 349 ''1'']" 1 None "[]"] show ?thesis by auto
qed

text \<open>C7. Whatever the sequence of enqueues, polls and acknowledgements, and whatever statements fail
  on the way: GUIDs stay distinct, the time stamps of every row agree with its status, no row is
  ever lost or moved, its user, machine, parameters and date never change, and its status only goes
  from pending to delivered to done.\<close>

theorem action_life_cycle:
  assumes "cloud_actions d0 = []" "action_step\<^sup>*\<^sup>* d0 d" "action_step\<^sup>*\<^sup>* d d'"
  shows "action_inv d \<and> action_inv d'
    \<and> (\<exists>bs cs. cloud_actions d' = bs @ cs \<and> list_all2 advances (cloud_actions d) bs)"
proof -
  have inv: "action_inv d" using assms(1,2) by (rule queue_life.inv_reachable)
  then show ?thesis
    using queue_life.inv_steps [OF assms(3)] queue_life.le_steps [OF assms(3)] by (simp add: actions_le_def)
qed

theorem action_life_cycle_witness:
  "\<exists>d. action_step\<^sup>*\<^sup>* empty_db d \<and> action_inv d \<and> map ca_guid (cloud_actions d) = [''g'']"
proof -
  let ?r = "run_state (enqueue_cloud_action ''g'' 1 (Some 7) []) empty_db"
  have "action_step empty_db (snd ?r)"
    by (rule action_step.enqueued [of "''g''" 1 "Some 7" "[]" _ "fst ?r"]) simp
  then have s: "action_step\<^sup>*\<^sup>* empty_db (snd ?r)" by (rule r_into_rtranclp)
  have e: "cloud_actions empty_db = []" by (simp add: empty_db_def)
  have "action_inv (snd ?r)" using action_life_cycle [OF e s rtranclp.rtrancl_refl] by (rule conjunct1)
  moreover have "map ca_guid (cloud_actions (snd ?r)) = [''g'']"
    by (simp add: empty_db_def enqueue_cloud_action_def)
  ultimately show ?thesis using s by (intro exI conjI)
qed

text \<open>An acknowledgement finishes the acknowledged action and everything delivered to the same
  machine, and nothing else; it fails exactly for an unknown GUID, and then changes nothing.
  Coalesced actions, which are acknowledged under one GUID, are all finished by it.\<close>

theorem mark_done_exact:
  assumes "faults d = []"
  shows "(guid \<notin> ca_guid ` set (cloud_actions d) \<longrightarrow>
      run_state (mark_action_done guid) d = (Inl (Errorf ''action not found''), d))
    \<and> (find (\<lambda>a. ca_guid a = guid) (cloud_actions d) = Some a \<longrightarrow>
      run_state (mark_action_done guid) d = (Inr (), d\<lparr>cloud_actions := map (\<lambda>b.
        if ca_guid b = guid \<or> (ca_machine a \<noteq> None \<and> ca_machine b = ca_machine a \<and> ca_status b = ActionDelivered)
        then b\<lparr>ca_status := ActionDone, ca_done_at := Some (clock d)\<rparr> else b) (cloud_actions d)\<rparr>))"
proof (intro conjI impI)
  assume "guid \<notin> ca_guid ` set (cloud_actions d)"
  then have "find (\<lambda>a. ca_guid a = guid) (cloud_actions d) = None" by (auto simp: find_None_iff)
  then show "run_state (mark_action_done guid) d = (Inl (Errorf ''action not found''), d)"
    using assms by (simp add: mark_action_done_def first_row_def)
next
  assume f: "find (\<lambda>a. ca_guid a = guid) (cloud_actions d) = Some a"
  then have "filter (done_row guid (ca_machine a)) (cloud_actions d) \<noteq> []"
    by (auto simp: filter_empty_conv find_Some_iff done_row_def)
  then show "run_state (mark_action_done guid) d = (Inr (), d\<lparr>cloud_actions := map (\<lambda>b.
        if ca_guid b = guid \<or> (ca_machine a \<noteq> None \<and> ca_machine b = ca_machine a \<and> ca_status b = ActionDelivered)
        then b\<lparr>ca_status := ActionDone, ca_done_at := Some (clock d)\<rparr> else b) (cloud_actions d)\<rparr>)"
    using assms f by (auto simp: mark_action_done_def first_row_def set_done_def update_rows_def done_row_def)
qed

theorem mark_done_exact_witness:
  "map ca_status (cloud_actions (snd (run_state (mark_action_done ''b'')
      (empty_db\<lparr>cloud_actions := map (\<lambda>(g, s). \<lparr>ca_guid = g, ca_user = 1, ca_machine = Some 7,
          ca_params = [], ca_status = s, ca_created_at = 0, ca_delivered_at = Some 0, ca_done_at = None\<rparr>)
          [(''a'', ActionDelivered), (''b'', ActionDelivered), (''c'', ActionPending)]\<rparr>))))
    = [ActionDone, ActionDone, ActionPending]"
proof -
  let ?row = "\<lambda>(g, s). \<lparr>ca_guid = g, ca_user = 1, ca_machine = Some 7,
          ca_params = [], ca_status = s, ca_created_at = 0, ca_delivered_at = Some 0, ca_done_at = None\<rparr>"
  let ?d = "empty_db\<lparr>cloud_actions := map ?row
          [(''a'', ActionDelivered), (''b'', ActionDelivered), (''c'', ActionPending)]\<rparr>"
  have "faults ?d = []" by (simp add: empty_db_def)
  moreover have "find (\<lambda>a. ca_guid a = ''b'') (cloud_actions ?d) = Some (?row (''b'', ActionDelivered))"
    by simp
  ultimately show ?thesis using mark_done_exact [of ?d "''b''" "?row (''b'', ActionDelivered)"] by simp
qed

section \<open>Library: MAC addresses\<close>

definition mac_parts_ok :: "string list \<Rightarrow> bool" where
  "mac_parts_ok ps \<longleftrightarrow> length ps = 6 \<and> list_all (\<lambda>p. length p = 2 \<and> list_all hex_digit p) ps"

lemma hex_digit_byte: "hex_digit c \<longleftrightarrow> 48 \<le> byte c \<and> byte c \<le> 57 \<or> 97 \<le> byte c \<and> byte c \<le> 102"
  by (auto simp: hex_digit_def byte_def less_char_def)

lemma hex_digit_plain:
  assumes "hex_digit c"
  shows "c \<noteq> CHR '':''" "c \<noteq> CHR ''-''" "lower_char c = c" "32 < byte c" "byte c < 128"
  using assms by (auto simp: hex_digit_byte lower_char_def byte_def)

lemma six_parts:
  assumes "mac_parts_ok ps"
  obtains a1 a2 b1 b2 c1 c2 d1 d2 e1 e2 f1 f2 where
    "ps = [[a1, a2], [b1, b2], [c1, c2], [d1, d2], [e1, e2], [f1, f2]]"
    "list_all hex_digit [a1, a2, b1, b2, c1, c2, d1, d2, e1, e2, f1, f2]"
  using assms unfolding mac_parts_ok_def
  by (auto simp: length_Suc_conv numeral_eq_Suc)

lemma normalize_mac_Inr: "normalize_mac raw = Inr n \<Longrightarrow> \<exists>ps. mac_parts_ok ps \<and> n = join '':'' ps"
  by (auto simp: normalize_mac_def Let_def mac_parts_ok_def split: if_splits)

text \<open>The three accepted spellings of an address.\<close>

lemma normalize_mac_spellings:
  assumes "mac_parts_ok ps"
  shows "normalize_mac (join '':'' ps) = Inr (join '':'' ps)"
    "normalize_mac (join ''-'' ps) = Inr (join '':'' ps)"
    "normalize_mac (concat ps) = Inr (join '':'' ps)"
proof -
  from assms obtain a1 a2 b1 b2 c1 c2 d1 d2 e1 e2 f1 f2 where
    ps: "ps = [[a1, a2], [b1, b2], [c1, c2], [d1, d2], [e1, e2], [f1, f2]]"
    and h: "list_all hex_digit [a1, a2, b1, b2, c1, c2, d1, d2, e1, e2, f1, f2]"
    by (rule six_parts)
  have sep: "lower_char CHR '':'' = CHR '':''" "lower_char CHR ''-'' = CHR ''-''"
    "32 < byte CHR '':''" "byte CHR '':'' < 128" "32 < byte CHR ''-''" "byte CHR ''-'' < 128"
    by code_simp+
  have solid: "solid (join '':'' ps)" "solid (join ''-'' ps)" "solid (concat ps)"
    using h unfolding ps by (simp_all add: solid_def sep hex_digit_plain)
  note trim = trim_space_solid [OF solid(1)] trim_space_solid [OF solid(2)] trim_space_solid [OF solid(3)]
  show "normalize_mac (join '':'' ps) = Inr (join '':'' ps)"
    "normalize_mac (join ''-'' ps) = Inr (join '':'' ps)"
    "normalize_mac (concat ps) = Inr (join '':'' ps)"
    unfolding normalize_mac_def trim using h unfolding ps
    by (simp_all add: Let_def to_lower_def replace_char_def hex_digit_plain hex_digit_plain(1) [THEN not_sym] sep)
qed

lemma normalize_mac_canonical:
  assumes "normalize_mac raw = Inr n"
  shows "normalize_mac n = Inr n"
  using normalize_mac_Inr [OF assms] normalize_mac_spellings(1) by auto

text \<open>\<open>gateway_id_from_eth0_mac\<close> does not depend on the spelling either.\<close>

lemma gateway_id_canonical:
  "normalize_mac raw = Inr n \<Longrightarrow> gateway_id_from_eth0_mac n = gateway_id_from_eth0_mac raw"
  by (simp add: gateway_id_from_eth0_mac_def normalize_mac_canonical)

section \<open>Properties: gateways\<close>

text \<open>A MAC address has one normal form: what \<open>NormalizeMAC\<close> returns is six pairs of lower case
  hexadecimal digits, is its own normal form, and the same address written with dashes or
  without separators has the same normal form.\<close>

theorem normalize_mac_normal_form:
  assumes "normalize_mac raw = Inr n"
  shows "\<exists>ps. length ps = 6 \<and> list_all (\<lambda>p. length p = 2 \<and> list_all hex_digit p) ps
    \<and> n = join '':'' ps \<and> normalize_mac n = Inr n
    \<and> normalize_mac (join ''-'' ps) = Inr n \<and> normalize_mac (concat ps) = Inr n
    \<and> gateway_id_from_eth0_mac raw = Inr (''gw-'' @ concat ps)"
proof -
  from normalize_mac_Inr [OF assms] obtain ps where ps: "mac_parts_ok ps" "n = join '':'' ps" by blast
  have "replace_char CHR '':'' [] (join '':'' ps) = concat ps"
    using ps(1) by (rule six_parts) (simp add: replace_char_def hex_digit_plain)
  then show ?thesis using ps normalize_mac_spellings [OF ps(1)] assms
    by (auto simp: mac_parts_ok_def gateway_id_from_eth0_mac_def)
qed

theorem normalize_mac_normal_form_witness:
  "normalize_mac '' 88-A2-9E-34-27-61'' = Inr ''88:a2:9e:34:27:61''
   \<and> normalize_mac ''88:a2:9e:34:27:61'' = Inr ''88:a2:9e:34:27:61''"
proof -
  have "normalize_mac '' 88-A2-9E-34-27-61'' = Inr ''88:a2:9e:34:27:61''" by code_simp
  then show ?thesis using normalize_mac_normal_form by blast
qed

lemma run_put_gateway_session:
  assumes "put_gateway_session gid th m e0 e1 d = (Inr (), d1)"
  shows "\<exists>g. find (\<lambda>g. gs_id g = gid) (gateway_sessions d1) = Some g \<and> gs_token_hash g = th
      \<and> gs_machine g = Some m \<and> gs_eth0 g = Some e0 \<and> gs_eth1 g = Some e1"
    "gid' \<noteq> gid \<Longrightarrow> find (\<lambda>g. gs_id g = gid') (gateway_sessions d1) = find (\<lambda>g. gs_id g = gid') (gateway_sessions d)"
    "d1 = d\<lparr>gateway_sessions := gateway_sessions d1\<rparr>"
proof -
  let ?f = "\<lambda>g. g\<lparr>gs_token_hash := th, gs_machine := Some m, gs_eth0 := Some e0, gs_eth1 := Some e1\<rparr>"
  let ?row = "\<lparr>gs_id = gid, gs_token_hash = th, gs_machine = Some m, gs_eth0 = Some e0,
           gs_eth1 = Some e1, gs_last_seen = Some (clock d)\<rparr>"
  have d1: "d1 = d\<lparr>gateway_sessions := upsert_row (\<lambda>g. gs_id g = gid) ?f ?row (gateway_sessions d)\<rparr>"
    using assms by (auto simp: put_gateway_session_def Let_def split: if_splits)
  show "\<exists>g. find (\<lambda>g. gs_id g = gid) (gateway_sessions d1) = Some g \<and> gs_token_hash g = th
      \<and> gs_machine g = Some m \<and> gs_eth0 g = Some e0 \<and> gs_eth1 g = Some e1"
    unfolding d1 using find_upsert_same [of "\<lambda>g. gs_id g = gid" ?f ?row "gateway_sessions d"]
    by (simp split: option.splits)
  show "gid' \<noteq> gid \<Longrightarrow> find (\<lambda>g. gs_id g = gid') (gateway_sessions d1) = find (\<lambda>g. gs_id g = gid') (gateway_sessions d)"
    unfolding d1 by (simp add: find_upsert_other)
  show "d1 = d\<lparr>gateway_sessions := gateway_sessions d1\<rparr>" unfolding d1 by simp
qed

lemma register_run_ok:
  assumes "faults d = []" "run_state (register_gateway_session hash_token reg) d = (Inr (), d1)"
  shows "\<exists>e0 e1 gid. normalize_mac (gr_eth0 reg) = Inr e0 \<and> normalize_mac (gr_eth1 reg) = Inr e1
    \<and> (if gr_gateway_id reg = [] then gateway_id_from_eth0_mac (gr_eth0 reg) else Inr (gr_gateway_id reg)) = Inr gid
    \<and> put_gateway_session gid (hash_token (gr_token reg)) (gr_machine_id reg) e0 e1 d = (Inr (), d1)"
  using assms gateway_id_canonical
  by (auto simp: register_gateway_session_def split: sum.splits if_splits)

text \<open>C8. After a registration, the gateway is authenticated exactly by its token and its two
  addresses in any accepted spelling, its polls are those of the registered machine, and so are the tables
  and names it sends; every other gateway is authenticated as before. Only digests of tokens are compared.\<close>

theorem register_then_validate:
  assumes "faults d = []" "run_state (register_gateway_session hash_token reg) d = (Inr (), d1)"
    and gid: "(if gr_gateway_id reg = [] then gateway_id_from_eth0_mac (gr_eth0 reg) else Inr (gr_gateway_id reg)) = Inr gid"
  shows "(fst (run_state (validate_gateway_request hash_token gid tok e0 e1) d1) \<longleftrightarrow>
       hash_token tok = hash_token (gr_token reg)
       \<and> normalize_mac e0 = normalize_mac (gr_eth0 reg) \<and> normalize_mac e1 = normalize_mac (gr_eth1 reg))
    \<and> run_state (fetch_pending_actions_for_gateway gid lim) d1 = run_state (fetch_pending_actions_for_machine (gr_machine_id reg) lim) d1
    \<and> fst (run_state (machine_id_for_gateway gid) d1) = Inr (gr_machine_id reg)
    \<and> (\<forall>g. g \<noteq> gid \<longrightarrow> fst (run_state (validate_gateway_request hash_token g tok e0 e1) d1)
           = fst (run_state (validate_gateway_request hash_token g tok e0 e1) d))"
proof -
  from register_run_ok [OF assms(1,2)] gid obtain n0 n1 where
    n: "normalize_mac (gr_eth0 reg) = Inr n0" "normalize_mac (gr_eth1 reg) = Inr n1"
    and put: "put_gateway_session gid (hash_token (gr_token reg)) (gr_machine_id reg) n0 n1 d = (Inr (), d1)"
    by auto
  have f: "faults d1 = []" using run_put_gateway_session(3) [OF put] assms(1) by (metis db.ext_inject db.surjective db.update_convs(4) conn.select_convs(2))
  obtain g where g: "find (\<lambda>g. gs_id g = gid) (gateway_sessions d1) = Some g"
    "gs_token_hash g = hash_token (gr_token reg)" "gs_machine g = Some (gr_machine_id reg)"
    "gs_eth0 g = Some n0" "gs_eth1 g = Some n1"
    using run_put_gateway_session(1) [OF put] by blast
  show ?thesis
    using f assms(1) g n run_put_gateway_session(2) [OF put]
    by (auto simp: validate_gateway_request_def get_gateway_session_def machine_id_for_gateway_def
        fetch_pending_actions_for_gateway_def first_row_def session_accepts_def split: sum.splits)
qed

theorem register_then_validate_witness:
  "fst (run_state (validate_gateway_request id ''gw-88a29e342761'' ''tok'' ''88A29E342761'' ''02:00:00:00:00:01'')
     (snd (run_state (register_gateway_session id \<lparr>gr_gateway_id = [], gr_token = ''tok'', gr_machine_id = 3,
        gr_eth0 = ''88:a2:9e:34:27:61'', gr_eth1 = ''02-00-00-00-00-01''\<rparr>) empty_db)))"
proof -
  let ?reg = "\<lparr>gr_gateway_id = [], gr_token = ''tok'', gr_machine_id = 3,
        gr_eth0 = ''88:a2:9e:34:27:61'', gr_eth1 = ''02-00-00-00-00-01''\<rparr>"
  have n: "normalize_mac ''88:a2:9e:34:27:61'' = Inr ''88:a2:9e:34:27:61''"
    "normalize_mac ''88A29E342761'' = Inr ''88:a2:9e:34:27:61''"
    "normalize_mac ''02-00-00-00-00-01'' = Inr ''02:00:00:00:00:01''"
    "normalize_mac ''02:00:00:00:00:01'' = Inr ''02:00:00:00:00:01''"
    "gateway_id_from_eth0_mac ''88:a2:9e:34:27:61'' = Inr ''gw-88a29e342761''" by code_simp+
  let ?d = "snd (run_state (register_gateway_session id ?reg) empty_db)"
  have "faults empty_db = []" by (simp add: empty_db_def)
  moreover have "run_state (register_gateway_session id ?reg) empty_db = (Inr (), ?d)"
    by (simp add: register_gateway_session_def n put_gateway_session_def Let_def empty_db_def)
  ultimately show ?thesis
    using register_then_validate [of empty_db id ?reg ?d "''gw-88a29e342761''" "''tok''" "''88A29E342761''"
        "''02:00:00:00:00:01''"] n by simp
qed

section \<open>Library: the exchange cache and light names\<close>

lemma kv_map_requested:
  "kv_map (concat (map (\<lambda>k. case m k of None \<Rightarrow> [] | Some v \<Rightarrow> [kv k v]) ks)) k
     = (if k \<in> set ks then m k else None)"
  by (induction ks rule: rev_induct) (auto simp: kv_map_append split: option.splits)

lemma kv_map_merge:
  assumes "ks \<noteq> []"
  shows "kv_map (merge_exchange_keys ps ss ks) k = (if k \<in> set ks then (kv_map ss ++ kv_map ps) k else None)"
  using assms by (simp add: merge_exchange_keys_def Let_def kv_map_requested kv_map_append)

text \<open>The cached table of a machine, as a map from indices to values.\<close>

definition cached :: "db \<Rightarrow> int \<Rightarrow> exchange_kv list option" where
  "cached d m = map_option ec_keys (find (\<lambda>r. ec_machine r = m) (exchange_caches d))"

interpretation exchange_table: keyed_table cached put_exchange_cache
proof
  fix k :: int and v and d :: db and k' :: int
  let ?row = "\<lparr>ec_machine = k, ec_keys = v, ec_updated_at = clock d\<rparr>"
  show "cached (put_exchange_cache k v d) k' = (if k' = k then Some v else cached d k')"
  proof (cases "k' = k")
    case True
    then show ?thesis
      using find_upsert_same [of "\<lambda>r. ec_machine r = k" "\<lambda>_. ?row" ?row "exchange_caches d"]
      by (simp add: cached_def put_exchange_cache_def Let_def split: option.splits)
  next
    case False
    then have "find (\<lambda>r. ec_machine r = k') (upsert_row (\<lambda>r. ec_machine r = k) (\<lambda>_. ?row) ?row (exchange_caches d))
        = find (\<lambda>r. ec_machine r = k') (exchange_caches d)"
      by (intro find_upsert_other) auto
    then show ?thesis using False by (simp add: cached_def put_exchange_cache_def Let_def)
  qed
qed

definition light_state :: "db \<Rightarrow> int \<times> string \<Rightarrow> light_name_state option" where
  "light_state d k = map_option lnr_state
     (find (\<lambda>r. lnr_machine r = fst k \<and> lnr_light r = snd k) (light_names d))"

definition put_light_state :: "int \<times> string \<Rightarrow> light_name_state \<Rightarrow> db \<Rightarrow> db" where
  "put_light_state k row d =
     d\<lparr>light_names := upsert_light_name (fst k) (snd k) (\<lambda>_. row) (light_names d)\<rparr>"

interpretation light_table: keyed_table light_state put_light_state
proof
  fix k k' :: "int \<times> string" and v :: light_name_state and d :: db
  let ?mine = "\<lambda>r. lnr_machine r = fst k \<and> lnr_light r = snd k"
  let ?row = "\<lparr>lnr_machine = fst k, lnr_light = snd k, lnr_state = v\<rparr>"
  show "light_state (put_light_state k v d) k' = (if k' = k then Some v else light_state d k')"
  proof (cases "k' = k")
    case True
    then show ?thesis
      using find_upsert_same [of ?mine "\<lambda>r. r\<lparr>lnr_state := v\<rparr>" ?row "light_names d"]
      by (auto simp: light_state_def put_light_state_def upsert_light_name_def split: option.splits)
  next
    case False
    then have "\<not> (fst k = fst k' \<and> snd k = snd k')" by (metis prod_eqI)
    then show ?thesis
      by (simp add: light_state_def put_light_state_def upsert_light_name_def)
        (subst find_upsert_other; auto)
  qed
qed

definition merged_cache :: "exchange_kv list \<Rightarrow> exchange_kv list option \<Rightarrow> exchange_kv list" where
  "merged_cache keys old = (case old of
       None \<Rightarrow> keys
     | Some ks \<Rightarrow> if ks = [] then keys else merge_exchange_keys keys ks (remdups (map k_of (keys @ ks))))"

lemma run_upsert_exchange:
  assumes "faults d = []"
  shows "run_state (upsert_gateway_exchange m keys) d = (Inr (), put_exchange_cache m (merged_cache keys (cached d m)) d)"
  using assms
  by (auto simp: upsert_gateway_exchange_def get_gateway_exchange_def cached_def first_row_def Let_def
      merged_cache_def split: option.splits)

lemma kv_map_merged_cache:
  "kv_map (merged_cache keys old) = (case old of None \<Rightarrow> Map.empty | Some ks \<Rightarrow> kv_map ks) ++ kv_map keys"
proof (cases "old = None \<or> old = Some []")
  case False
  then obtain ks where ks: "old = Some ks" "ks \<noteq> []" by auto
  have "None = (kv_map ks ++ kv_map keys) k" if "k \<notin> k_of ` set keys" "k \<notin> k_of ` set ks" for k
    using that kv_map_None [of keys k] kv_map_None [of ks k] by (metis map_add_None)
  then show ?thesis using ks by (auto simp: merged_cache_def kv_map_merge fun_eq_iff)
qed (auto simp: merged_cache_def)

text \<open>A gateway's push updates the cached table and forgets nothing: afterwards every pushed
  index has the last pushed value, every other index keeps its value, and the caches of other
  machines are untouched.\<close>

theorem push_exchange_overrides:
  assumes "faults d = []"
  shows "\<exists>d' new. run_state (upsert_gateway_exchange m keys) d = (Inr (), d')
    \<and> cached d' m = Some new
    \<and> kv_map new = (case cached d m of None \<Rightarrow> Map.empty | Some old \<Rightarrow> kv_map old) ++ kv_map keys
    \<and> (\<forall>m'. m' \<noteq> m \<longrightarrow> cached d' m' = cached d m')"
proof -
  let ?new = "merged_cache keys (cached d m)"
  have "kv_map ?new = (case cached d m of None \<Rightarrow> Map.empty | Some old \<Rightarrow> kv_map old) ++ kv_map keys"
    by (rule kv_map_merged_cache)
  moreover have "cached (put_exchange_cache m ?new d) m = Some ?new"
    by (rule exchange_table.look_put_same)
  moreover have "\<forall>m'. m' \<noteq> m \<longrightarrow> cached (put_exchange_cache m ?new d) m' = cached d m'"
    by (simp add: exchange_table.look_put)
  ultimately show ?thesis using run_upsert_exchange [OF assms, of m keys] by blast
qed

theorem push_exchange_overrides_witness:
  "\<exists>d' new. run_state (upsert_gateway_exchange 1 [kv 2 ''b'']) (put_exchange_cache 1 [kv 1 ''a''] empty_db)
      = (Inr (), d') \<and> cached d' 1 = Some new \<and> kv_map new 1 = Some ''a'' \<and> kv_map new 2 = Some ''b''"
proof -
  let ?d = "put_exchange_cache 1 [kv 1 ''a''] empty_db"
  have f: "faults ?d = []" by (simp add: put_exchange_cache_def empty_db_def Let_def)
  have c: "cached ?d 1 = Some [kv 1 ''a'']" by (rule exchange_table.look_put_same)
  obtain d' new where d': "run_state (upsert_gateway_exchange 1 [kv 2 ''b'']) ?d = (Inr (), d')"
    "cached d' 1 = Some new" "kv_map new = kv_map [kv 1 ''a''] ++ kv_map [kv 2 ''b'']"
    using push_exchange_overrides [OF f, of 1 "[kv 2 ''b'']"] unfolding c option.case by blast
  have "kv_map new 1 = Some ''a''" "kv_map new 2 = Some ''b''"
    unfolding d'(3) by (simp_all add: kv_map_def)
  with d'(1,2) show ?thesis by blast
qed

end
