(* ===== verification/Middleware.thy ===== *)
theory Middleware
  imports UserStore PortalStore
begin

text \<open>
  What stands between a request and its handler (internal/middleware: rate_limit.go, auth.go,
  user_status.go, admin_auth.go, and the dry run test of internal/testmode). A handler takes the
  request and the values that the middlewares put into its context. The verification of a signed
  token, done by golang-jwt, is a parameter: \<open>parse\<close> gives the claims of a token whose signature and
  times are valid and \<open>None\<close> otherwise; its first argument says whether the key function refuses
  signing methods other than HMAC. The stores behind the Go interfaces \<open>ActiveUserStore\<close> and that
  of \<open>GatewayAuth\<close> are arguments, with their contracts as locales.
\<close>

section \<open>Requests\<close>

text \<open>\<open>Header.Get\<close> and \<open>Query().Get\<close> give the empty string for what is absent.\<close>

record http_request =
  header :: "string \<Rightarrow> string"
  query_param :: "string \<Rightarrow> string"
  remote_addr :: string

record req_context =
  ctx_email :: "string option"
  ctx_role :: "string option"
  ctx_gateway :: "string option"

definition background :: req_context where
  "background = \<lparr>ctx_email = None, ctx_role = None, ctx_gateway = None\<rparr>"

type_synonym 'b handler = "http_request \<Rightarrow> req_context \<Rightarrow> 'b answer io"

text \<open>A panic of a handler reaches \<open>chimw.Recoverer\<close>, which answers 500.\<close>

definition recovered :: "'b answer" where
  "recovered = HttpError 500 []"

definition unauthorized :: "'b answer" where
  "unauthorized = HttpError 401 ''Unauthorized''"

definition is_dry_run :: "http_request \<Rightarrow> bool" where
  "is_dry_run r \<longleftrightarrow> to_lower (trim_space (header r ''X-Essensys-Test-Mode'')) = ''dry-run''
     \<or> query_param r ''test_mode'' = ''dry_run''"

section \<open>Rate limits\<close>

record rate_limiter =
  rl_counts :: "string \<Rightarrow> instant list"
  rl_limit :: int
  rl_window :: duration

definition new_rate_limiter :: "int \<Rightarrow> duration \<Rightarrow> rate_limiter" where
  "new_rate_limiter lim window = \<lparr>rl_counts = (\<lambda>_. []), rl_limit = lim, rl_window = window\<rparr>"

definition rl_key :: "string \<Rightarrow> string" where
  "rl_key key = (if key = [] then ''unknown'' else key)"

definition allow :: "rate_limiter \<Rightarrow> string \<Rightarrow> instant \<Rightarrow> bool \<times> rate_limiter" where
  "allow rl key0 nw =
     (let key = rl_key key0;
          kept = filter (\<lambda>t. time_sub nw t \<le> rl_window rl) (rl_counts rl key) in
      if int (length kept) \<ge> rl_limit rl
      then (False, rl\<lparr>rl_counts := (rl_counts rl)(key := kept)\<rparr>)
      else (True, rl\<lparr>rl_counts := (rl_counts rl)(key := kept @ [nw])\<rparr>))"

definition client_ip :: "http_request \<Rightarrow> string" where
  "client_ip r =
     (if header r ''X-Forwarded-For'' \<noteq> [] then trim_space (hd (split_on CHR '','' (header r ''X-Forwarded-For'')))
      else if header r ''X-Real-IP'' \<noteq> [] then trim_space (header r ''X-Real-IP'')
      else if CHR '':'' \<in> set (remote_addr r)
           then rev (tl (dropWhile (\<lambda>c. c \<noteq> CHR '':'') (rev (remote_addr r))))
      else remote_addr r)"

text \<open>The two middlewares: \<open>None\<close> lets the request through.\<close>

definition rate_limit_exceeded :: "'b answer" where
  "rate_limit_exceeded = HttpError 429 ''Rate limit exceeded''"

definition rate_limit :: "rate_limiter \<Rightarrow> http_request \<Rightarrow> instant \<Rightarrow> 'b answer option \<times> rate_limiter" where
  "rate_limit rl r nw =
     (let key = (if header r ''Authorization'' = [] then remote_addr r else header r ''Authorization'') in
      case allow rl key nw of
        (False, rl') \<Rightarrow> (Some rate_limit_exceeded, rl')
      | (True, rl') \<Rightarrow> (None, rl'))"

definition rate_limit_by_ip :: "rate_limiter \<Rightarrow> http_request \<Rightarrow> instant \<Rightarrow> 'b answer option \<times> rate_limiter" where
  "rate_limit_by_ip rl r nw = (case allow rl (client_ip r) nw of
       (False, rl') \<Rightarrow> (Some rate_limit_exceeded, rl')
     | (True, rl') \<Rightarrow> (None, rl'))"

section \<open>Tokens\<close>

record jwt_claims =
  cl_sub :: "string option"
  cl_role :: "string option"

type_synonym jwt_parser = "bool \<Rightarrow> string \<Rightarrow> jwt_claims option"

text \<open>\<open>v, _ := claims["sub"].(string)\<close>: empty when absent or not a string.\<close>

definition str_claim :: "string option \<Rightarrow> string" where
  "str_claim c = (case c of None \<Rightarrow> [] | Some s \<Rightarrow> s)"

definition bearer :: "http_request \<Rightarrow> string" where
  "bearer r = trim_prefix ''Bearer '' (header r ''Authorization'')"

definition admin_role :: "string \<Rightarrow> bool" where
  "admin_role role \<longleftrightarrow> role = role_admin_global \<or> role = role_admin_local \<or> role = role_support"

definition with_user_context :: "req_context \<Rightarrow> string \<Rightarrow> string \<Rightarrow> req_context" where
  "with_user_context c email role = c\<lparr>ctx_email := Some email, ctx_role := Some role\<rparr>"

definition user_jwt :: "jwt_parser \<Rightarrow> 'b handler \<Rightarrow> 'b handler" where
  "user_jwt parse next r c =
     (if bearer r = [] then State_Monad.return unauthorized
      else (case parse True (bearer r) of
          None \<Rightarrow> State_Monad.return unauthorized
        | Some claims \<Rightarrow>
            (let email = str_claim (cl_sub claims); role = str_claim (cl_role claims) in
             if email = [] then State_Monad.return unauthorized
             else next r (with_user_context c email role))))"

definition admin_jwt :: "jwt_parser \<Rightarrow> 'b handler \<Rightarrow> 'b handler" where
  "admin_jwt parse next r c =
     (if bearer r = [] then State_Monad.return unauthorized
      else (case parse False (bearer r) of
          None \<Rightarrow> State_Monad.return unauthorized
        | Some claims \<Rightarrow>
            (let role = str_claim (cl_role claims); email = str_claim (cl_sub claims) in
             if \<not> admin_role role then State_Monad.return (HttpError 403 ''Forbidden'')
             else next r (with_user_context c email role))))"

text \<open>
  \<open>AdminAuth\<close> accepts the token of the environment, compared as bytes, or an administrator's
  JWT; without a subject the context stays as it was.
\<close>

definition admin_auth :: "string \<Rightarrow> jwt_parser \<Rightarrow> 'b handler \<Rightarrow> 'b handler" where
  "admin_auth expected parse next r c =
     (if expected \<noteq> [] \<and> bearer r = expected then next r c
      else if bearer r \<noteq> [] then
        (case parse True (bearer r) of
           None \<Rightarrow> State_Monad.return (HttpError 401 ''Unauthorized Admin Access'')
         | Some claims \<Rightarrow>
             (let role = str_claim (cl_role claims) in
              if admin_role role then
                (case cl_sub claims of
                   Some sub \<Rightarrow> next r (with_user_context c sub role)
                 | None \<Rightarrow> next r c)
              else State_Monad.return (HttpError 403 ''Forbidden: Insufficient Permissions'')))
      else State_Monad.return (HttpError 401 ''Unauthorized Admin Access''))"

section \<open>Active accounts\<close>

type_synonym active_user_store = "string \<Rightarrow> user option dbop"

text \<open>The value \<open>(nil, true)\<close> is \<open>Inr None\<close>, a refusal already written is \<open>Inl\<close>.\<close>

definition resolve_active_user :: "active_user_store option \<Rightarrow> string \<Rightarrow> ('b answer + user option) io" where
  "resolve_active_user store email = (case store of
       None \<Rightarrow> State_Monad.return (Inr None)
     | Some get \<Rightarrow>
         if email = [] then State_Monad.return (Inr None)
         else do {
           r \<leftarrow> get email;
           State_Monad.return (case r of
               Inl _ \<Rightarrow> Inl (HttpError 500 ''Internal Server Error'')
             | Inr None \<Rightarrow> Inl unauthorized
             | Inr (Some u) \<Rightarrow> if is_user_forbidden (Some u) then Inl account_forbidden else Inr (Some u)) })"

definition enforce_active_user :: "active_user_store option \<Rightarrow> string \<Rightarrow> ('b answer + user option) io" where
  "enforce_active_user store email = do {
     r \<leftarrow> resolve_active_user store email;
     State_Monad.return (case r of
         Inl a \<Rightarrow> Inl a
       | Inr uo \<Rightarrow> if password_change_required uo then Inl password_change_required_answer else Inr uo) }"

definition enforce_active_user_allow_password_change ::
  "active_user_store option \<Rightarrow> string \<Rightarrow> ('b answer + user option) io" where
  "enforce_active_user_allow_password_change store email = resolve_active_user store email"

text \<open>
  The end of the four middlewares: the account replaces the role that the token claims. With no
  account, \<open>user.Role\<close> dereferences a nil pointer.
\<close>

definition serve_active ::
  "('b answer + user option) io \<Rightarrow> string \<Rightarrow> 'b handler \<Rightarrow> 'b handler" where
  "serve_active check email next r c = do {
     res \<leftarrow> check;
     case res of
       Inl a \<Rightarrow> State_Monad.return a
     | Inr None \<Rightarrow> State_Monad.return recovered
     | Inr (Some u) \<Rightarrow> next r (with_user_context c email (u_role u)) }"

definition user_jwt_with_store :: "jwt_parser \<Rightarrow> active_user_store option \<Rightarrow> 'b handler \<Rightarrow> 'b handler" where
  "user_jwt_with_store parse store next = user_jwt parse (\<lambda>r c.
     let email = str_claim (ctx_email c) in serve_active (enforce_active_user store email) email next r c)"

definition admin_jwt_with_store :: "jwt_parser \<Rightarrow> active_user_store option \<Rightarrow> 'b handler \<Rightarrow> 'b handler" where
  "admin_jwt_with_store parse store next = admin_jwt parse (\<lambda>r c.
     let email = str_claim (ctx_email c) in serve_active (enforce_active_user store email) email next r c)"

definition user_jwt_allow_password_change ::
  "jwt_parser \<Rightarrow> active_user_store option \<Rightarrow> 'b handler \<Rightarrow> 'b handler" where
  "user_jwt_allow_password_change parse store next = user_jwt parse (\<lambda>r c.
     let email = str_claim (ctx_email c) in
     serve_active (enforce_active_user_allow_password_change store email) email next r c)"

definition admin_auth_with_store ::
  "string \<Rightarrow> jwt_parser \<Rightarrow> active_user_store option \<Rightarrow> 'b handler \<Rightarrow> 'b handler" where
  "admin_auth_with_store expected parse store next = admin_auth expected parse (\<lambda>r c.
     let email = str_claim (ctx_email c) in
     if email = [] then next r c
     else serve_active (enforce_active_user store email) email next r c)"

section \<open>Gateways\<close>

type_synonym gateway_validator = "string \<Rightarrow> string \<Rightarrow> string \<Rightarrow> string \<Rightarrow> bool io"

definition gateway_auth :: "gateway_validator \<Rightarrow> 'b handler \<Rightarrow> 'b handler" where
  "gateway_auth validate next r c =
     (let gateway_id = header r ''X-Gateway-ID''; token = bearer r;
          eth0 = header r ''X-Gateway-Eth0-MAC''; eth1 = header r ''X-Gateway-Eth1-MAC'' in
      if gateway_id = [] \<or> token = [] then State_Monad.return unauthorized
      else do {
        ok \<leftarrow> validate gateway_id token eth0 eth1;
        if \<not> ok then State_Monad.return unauthorized
        else next r (c\<lparr>ctx_gateway := Some gateway_id\<rparr>) })"

section \<open>Contracts of the stores\<close>

text \<open>A refusal leaves the tables as they were and carries one of the codes of the guards.\<close>

definition untouched :: "db \<Rightarrow> db \<Rightarrow> bool" where
  "untouched d d' \<longleftrightarrow> (\<exists>bs. d' = d\<lparr>faults := bs\<rparr>)"

definition refused :: "db \<Rightarrow> 'b answer \<times> db \<Rightarrow> bool" where
  "refused d res \<longleftrightarrow> untouched d (snd res) \<and> status (fst res) \<in> {401, 403, 409, 500}"

text \<open>The account of an address, neither forbidden nor waiting for a new password.\<close>

definition live_account :: "db \<Rightarrow> string \<Rightarrow> user \<Rightarrow> bool" where
  "live_account d email u \<longleftrightarrow> u \<in> set (users d) \<and> u_email u = email \<and> u_forbidden_at u = None"

definition active_account :: "db \<Rightarrow> string \<Rightarrow> user \<Rightarrow> bool" where
  "active_account d email u \<longleftrightarrow> live_account d email u \<and> u_pw_change_required_at u = None"

lemma untouched_refl [simp]: "untouched d d"
  unfolding untouched_def by (metis faults_update_same)

lemma untouched_faults [simp]: "untouched d (d\<lparr>faults := bs\<rparr>)"
  unfolding untouched_def by blast

lemma untouched_trans: "untouched d1 d2 \<Longrightarrow> untouched d2 d3 \<Longrightarrow> untouched d1 d3"
  unfolding untouched_def by auto

locale account_lookup =
  fixes get :: active_user_store
  assumes get_frame: "run_state (get email) d = (r, d') \<Longrightarrow> untouched d d'"
    and get_sound: "run_state (get email) d = (Inr (Some u), d') \<Longrightarrow> u \<in> set (users d) \<and> u_email u = email"
begin

lemma resolve_cases:
  assumes "run_state (resolve_active_user (Some get) email) d = (res, d1)"
  shows "untouched d d1"
    and "res = Inl a \<Longrightarrow> status a \<in> {401, 403, 500}"
    and "res = Inr None \<Longrightarrow> email = []"
    and "res = Inr (Some u) \<Longrightarrow> live_account d email u"
  using assms get_frame [of email d] get_sound [of email d]
  by (auto simp: resolve_active_user_def account_forbidden_def is_user_forbidden_def unauthorized_def
      live_account_def split: if_splits sum.splits option.splits prod.splits)

lemma enforce_cases:
  assumes "run_state (enforce_active_user (Some get) email) d = (res, d1)"
  shows "untouched d d1"
    and "res = Inl a \<Longrightarrow> status a \<in> {401, 403, 409, 500}"
    and "res = Inr None \<Longrightarrow> email = []"
    and "res = Inr (Some u) \<Longrightarrow> active_account d email u"
proof -
  obtain res0 where r: "run_state (resolve_active_user (Some get) email) d = (res0, d1)"
    and e: "res = (case res0 of Inl a \<Rightarrow> Inl a | Inr uo \<Rightarrow>
        if password_change_required uo then Inl password_change_required_answer else Inr uo)"
    using assms by (auto simp: enforce_active_user_def split: prod.splits)
  note c = resolve_cases [OF r]
  show "untouched d d1" by (rule c(1))
  show "res = Inl a \<Longrightarrow> status a \<in> {401, 403, 409, 500}"
    using e c(2) by (auto simp: password_change_required_answer_def split: sum.splits if_splits)
  show "res = Inr None \<Longrightarrow> email = []"
    using e c(3) by (auto split: sum.splits if_splits)
  show "res = Inr (Some u) \<Longrightarrow> active_account d email u"
    using e c(4) [of u] by (auto simp: active_account_def password_change_required_def split: sum.splits if_splits)
qed

lemma serve_enforced:
  fixes h :: "'b handler"
  assumes "run_state (serve_active (enforce_active_user (Some get) email) email h r c) d = (a, d')"
  shows "refused d (a, d') \<or> (\<exists>u d1. untouched d d1 \<and> active_account d email u
    \<and> run_state (h r (with_user_context c email (u_role u))) d1 = (a, d'))"
proof -
  obtain res :: "'b answer + user option" and d1 where run: "run_state (enforce_active_user (Some get) email) d = (res, d1)" by fastforce
  note c = enforce_cases [OF run]
  show ?thesis using assms run c
    by (auto simp: serve_active_def refused_def recovered_def split: sum.splits option.splits)
qed

lemma serve_allowing_change:
  fixes h :: "'b handler"
  assumes "run_state (serve_active (enforce_active_user_allow_password_change (Some get) email) email h r c) d = (a, d')"
  shows "refused d (a, d') \<or> (\<exists>u d1. untouched d d1 \<and> live_account d email u
    \<and> run_state (h r (with_user_context c email (u_role u))) d1 = (a, d'))"
proof -
  obtain res :: "'b answer + user option" and d1 where run: "run_state (resolve_active_user (Some get) email) d = (res, d1)" by fastforce
  note c = resolve_cases [OF run]
  show ?thesis using assms run c
    by (auto simp: serve_active_def enforce_active_user_allow_password_change_def refused_def recovered_def
        split: sum.splits option.splits)
qed

end

interpretation accounts: account_lookup get_user_by_email
  by unfold_locales
    (auto simp: get_user_by_email_def untouched_def dest!: sym [of "Some _"] find_SomeD elim!: query_cases)

locale gateway_contract =
  fixes validate :: gateway_validator
    and hash_token :: "string \<Rightarrow> string"
  assumes validate_frame: "run_state (validate g t e0 e1) d = (ok, d') \<Longrightarrow> untouched d d'"
    and validate_sound: "run_state (validate g t e0 e1) d = (True, d') \<Longrightarrow>
      \<exists>sess \<in> set (gateway_sessions d). gs_id sess = g \<and> session_accepts hash_token sess t e0 e1"
begin

lemma gateway_auth_cases:
  assumes "run_state (gateway_auth validate next r c) d = (a, d')"
  shows "refused d (a, d') \<or> (\<exists>sess d1. untouched d d1 \<and> sess \<in> set (gateway_sessions d)
    \<and> gs_id sess = header r ''X-Gateway-ID''
    \<and> session_accepts hash_token sess (bearer r) (header r ''X-Gateway-Eth0-MAC'') (header r ''X-Gateway-Eth1-MAC'')
    \<and> run_state (next r (c\<lparr>ctx_gateway := Some (header r ''X-Gateway-ID'')\<rparr>)) d1 = (a, d'))"
proof (cases "header r ''X-Gateway-ID'' = [] \<or> bearer r = []")
  case True
  then show ?thesis using assms by (auto simp: gateway_auth_def refused_def unauthorized_def)
next
  case False
  obtain ok d1 where run: "run_state (validate (header r ''X-Gateway-ID'') (bearer r)
      (header r ''X-Gateway-Eth0-MAC'') (header r ''X-Gateway-Eth1-MAC'')) d = (ok, d1)" by fastforce
  have u: "untouched d d1" using validate_frame [OF run] .
  show ?thesis
  proof (cases ok)
    case True
    then have "run_state (next r (c\<lparr>ctx_gateway := Some (header r ''X-Gateway-ID'')\<rparr>)) d1 = (a, d')"
      using assms False run by (simp add: gateway_auth_def Let_def)
    moreover obtain sess where "sess \<in> set (gateway_sessions d)" "gs_id sess = header r ''X-Gateway-ID''"
      "session_accepts hash_token sess (bearer r) (header r ''X-Gateway-Eth0-MAC'') (header r ''X-Gateway-Eth1-MAC'')"
      using run True validate_sound by metis
    ultimately show ?thesis using u by blast
  next
    case ok: False
    then have "(a, d') = (unauthorized, d1)" using assms False run by (simp add: gateway_auth_def Let_def)
    then show ?thesis using u by (auto simp: refused_def unauthorized_def)
  qed
qed

end

interpretation gateways: gateway_contract "validate_gateway_request hash_token" hash_token for hash_token
proof unfold_locales
  fix g t e0 e1 d ok d'
  assume run: "run_state (validate_gateway_request hash_token g t e0 e1) d = (ok, d')"
  then show "untouched d d'"
    by (auto simp: validate_gateway_request_def get_gateway_session_def untouched_def
        split: prod.splits elim!: query_cases)
next
  fix g t e0 e1 d d'
  assume "run_state (validate_gateway_request hash_token g t e0 e1) d = (True, d')"
  then show "\<exists>sess \<in> set (gateway_sessions d). gs_id sess = g \<and> session_accepts hash_token sess t e0 e1"
    by (auto simp: validate_gateway_request_def get_gateway_session_def
        split: prod.splits sum.splits elim!: query_cases dest!: sym [of "Inr _"] first_row_Inr)
qed

section \<open>Library: rate limits\<close>

text \<open>
  A run of calls, and what it should answer: an attempt passes when fewer than the limit of the
  attempts that passed with its key lie within the window before it.
\<close>

fun allow_all :: "rate_limiter \<Rightarrow> (string \<times> instant) list \<Rightarrow> bool list" where
  "allow_all rl [] = []"
| "allow_all rl ((k, t) # cs) = (let (ok, rl') = allow rl k t in ok # allow_all rl' cs)"

definition recent :: "duration \<Rightarrow> (string \<times> instant) list \<Rightarrow> string \<Rightarrow> instant \<Rightarrow> (string \<times> instant) list" where
  "recent w h k t = filter (\<lambda>(k', u). k' = rl_key k \<and> t - u \<le> w) h"

fun sliding :: "int \<Rightarrow> duration \<Rightarrow> (string \<times> instant) list \<Rightarrow> (string \<times> instant) list \<Rightarrow> bool list" where
  "sliding lim w h [] = []"
| "sliding lim w h ((k, t) # cs) =
     (let ok = int (length (recent w h k t)) < lim in
      ok # sliding lim w (if ok then h @ [(rl_key k, t)] else h) cs)"

text \<open>The attempts that passed.\<close>

definition passed :: "(string \<times> instant) list \<Rightarrow> bool list \<Rightarrow> (string \<times> instant) list" where
  "passed cs oks = map (\<lambda>((k, t), _). (rl_key k, t)) (filter snd (zip cs oks))"

definition in_window :: "duration \<Rightarrow> (string \<times> instant) list \<Rightarrow> string \<Rightarrow> instant \<Rightarrow> (string \<times> instant) list" where
  "in_window w h k s = filter (\<lambda>(k', u). k' = k \<and> s \<le> u \<and> u \<le> s + w) h"

definition tracks :: "rate_limiter \<Rightarrow> (string \<times> instant) list \<Rightarrow> instant \<Rightarrow> bool" where
  "tracks rl h t0 \<longleftrightarrow> (\<forall>k t. t0 \<le> t \<longrightarrow> filter (\<lambda>u. t - u \<le> rl_window rl) (rl_counts rl k)
       = map snd (filter (\<lambda>(k', u). k' = k \<and> t - u \<le> rl_window rl) h))"

lemma tracks_new: "tracks (new_rate_limiter lim w) [] t0"
  by (simp add: tracks_def new_rate_limiter_def)

lemma filter_filter_later:
  fixes t t' :: int
  assumes "t \<le> t'"
  shows "filter (\<lambda>u. t' - u \<le> w) (filter (\<lambda>u. t - u \<le> w) us) = filter (\<lambda>u. t' - u \<le> w) us"
  using assms by (auto intro!: filter_cong)

lemma tracks_allow:
  assumes tr: "tracks rl h t0" and le: "t0 \<le> t" and w: "0 \<le> rl_window rl" "rl_window rl < max_duration"
    and al: "allow rl k t = (ok, rl')"
  shows "ok \<longleftrightarrow> int (length (recent (rl_window rl) h k t)) < rl_limit rl"
    and "tracks rl' (if ok then h @ [(rl_key k, t)] else h) t"
    and "rl_limit rl' = rl_limit rl" "rl_window rl' = rl_window rl"
proof -
  let ?w = "rl_window rl"
  let ?kept = "filter (\<lambda>u. t - u \<le> ?w) (rl_counts rl (rl_key k))"
  have kept: "filter (\<lambda>u. time_sub t u \<le> ?w) (rl_counts rl (rl_key k)) = ?kept"
    using time_sub_le_iff [OF w] by (intro filter_cong) auto
  have "?kept = map snd (recent ?w h k t)" using tr le unfolding tracks_def recent_def by simp
  then show ok: "ok \<longleftrightarrow> int (length (recent ?w h k t)) < rl_limit rl"
    using al kept by (auto simp: allow_def Let_def split: if_splits)
  show "rl_limit rl' = rl_limit rl" "rl_window rl' = rl_window rl"
    using al by (auto simp: allow_def Let_def split: if_splits)
  show "tracks rl' (if ok then h @ [(rl_key k, t)] else h) t"
    unfolding tracks_def
  proof (intro allI impI)
    fix k' t' assume t': "t \<le> t'"
    have "filter (\<lambda>u. t' - u \<le> ?w) (rl_counts rl k') = map snd (filter (\<lambda>(k'', u). k'' = k' \<and> t' - u \<le> ?w) h)"
      using tr le t' unfolding tracks_def by simp
    then show "filter (\<lambda>u. t' - u \<le> rl_window rl') (rl_counts rl' k')
      = map snd (filter (\<lambda>(k'', u). k'' = k' \<and> t' - u \<le> rl_window rl') (if ok then h @ [(rl_key k, t)] else h))"
      using al kept filter_filter_later [OF t'] by (auto simp: allow_def Let_def split: if_splits)
  qed
qed

lemma allow_all_sliding:
  assumes "tracks rl h t0" "0 \<le> rl_window rl" "rl_window rl < max_duration"
    "sorted (map snd cs)" "\<forall>c \<in> set cs. t0 \<le> snd c"
  shows "allow_all rl cs = sliding (rl_limit rl) (rl_window rl) h cs"
  using assms
proof (induction cs arbitrary: rl h t0)
  case (Cons c cs)
  obtain k t where c: "c = (k, t)" by fastforce
  obtain ok rl' where al: "allow rl k t = (ok, rl')" by fastforce
  have "t0 \<le> t" using Cons.prems(5) c by simp
  note st = tracks_allow [OF Cons.prems(1) this Cons.prems(2,3) al]
  have "allow_all rl' cs = sliding (rl_limit rl') (rl_window rl') (if ok then h @ [(rl_key k, t)] else h) cs"
    by (rule Cons.IH [OF st(2)]) (use Cons.prems c st in auto)
  then show ?case using al c st by simp
qed simp

lemma passed_Cons [simp]:
  "passed ((k, t) # cs) (ok # oks) = (if ok then [(rl_key k, t)] else []) @ passed cs oks"
  by (simp add: passed_def)

lemma window_step:
  assumes bound: "int (length (in_window w h k s)) \<le> lim" and "int (length (recent w h k' t)) < lim"
  shows "int (length (in_window w (h @ [(rl_key k', t)]) k s)) \<le> lim"
proof (cases "k = rl_key k' \<and> s \<le> t \<and> t \<le> s + w")
  case True
  have "length (in_window w h k s) \<le> length (recent w h k' t)"
    using True unfolding in_window_def recent_def by (induction h) auto
  then show ?thesis using assms True by (simp add: in_window_def)
next
  case False
  then show ?thesis using bound by (auto simp: in_window_def)
qed

lemma sliding_bound:
  assumes "\<And>k s. int (length (in_window w h k s)) \<le> lim"
  shows "int (length (in_window w (h @ passed cs (sliding lim w h cs)) k s)) \<le> lim"
  using assms
proof (induction cs arbitrary: h)
  case (Cons c cs)
  obtain k' t where c: "c = (k', t)" by fastforce
  show ?case
  proof (cases "int (length (recent w h k' t)) < lim")
    case True
    have "int (length (in_window w ((h @ [(rl_key k', t)]) @ passed cs (sliding lim w (h @ [(rl_key k', t)]) cs)) k s)) \<le> lim"
      by (rule Cons.IH) (rule window_step [OF Cons.prems True])
    then show ?thesis using True c by simp
  next
    case False
    then show ?thesis using Cons.IH [OF Cons.prems] c by simp
  qed
qed (simp add: passed_def)

section \<open>Properties\<close>

text \<open>C20. A rate limiter does exactly what a sliding window should: as long as the clock does not
  go back, an attempt passes when fewer than the limit of the attempts that passed with its key
  lie within the window before it. So no interval of the length of the window ever holds more
  passed attempts of one key than the limit, whatever other keys do and however many attempts
  were turned away.\<close>

theorem rate_limit_sliding_window:
  assumes "0 \<le> lim" "0 \<le> w" "w < max_duration" "sorted (map snd cs)"
  shows "allow_all (new_rate_limiter lim w) cs = sliding lim w [] cs
    \<and> int (length (in_window w (passed cs (allow_all (new_rate_limiter lim w) cs)) k s)) \<le> lim"
proof -
  let ?t0 = "case cs of [] \<Rightarrow> 0 | c # _ \<Rightarrow> snd c"
  have "\<forall>c \<in> set cs. ?t0 \<le> snd c" using assms(4) by (cases cs) auto
  then have eq: "allow_all (new_rate_limiter lim w) cs = sliding lim w [] cs"
    using allow_all_sliding [OF tracks_new, of lim w cs ?t0] assms by (simp add: new_rate_limiter_def)
  then show ?thesis using sliding_bound [of w "[]" lim cs k s] assms(1) by (simp add: in_window_def)
qed

theorem rate_limit_sliding_window_witness:
  "allow_all (new_rate_limiter 2 10) [(''a'', 0), (''a'', 5), ([], 6), (''a'', 7), (''a'', 11)]
     = [True, True, True, False, True]
   \<and> int (length (in_window 10 (passed [(''a'', 0), (''a'', 5), ([], 6), (''a'', 7), (''a'', 11)]
        (allow_all (new_rate_limiter 2 10) [(''a'', 0), (''a'', 5), ([], 6), (''a'', 7), (''a'', 11)])) ''a'' 1)) \<le> 2"
proof -
  have "sliding 2 10 [] [(''a'', 0), (''a'', 5), ([], 6), (''a'', 7), (''a'', 11)] = [True, True, True, False, True]"
    by (simp add: recent_def rl_key_def)
  note eq = this
  have p: "(0::int) \<le> 2" "(0::int) \<le> 10" "10 < max_duration"
    "sorted (map snd [(''a'', 0::int), (''a'', 5), ([], 6), (''a'', 7), (''a'', 11)])" by (simp_all add: max_duration_def)
  note r = rate_limit_sliding_window [OF p, of "''a''" 1]
  show ?thesis using trans [OF conjunct1 [OF r] eq] conjunct2 [OF r] by (rule conjI)
qed

text \<open>What a valid token and the table of users decide when no statement fails.\<close>

lemma run_get_user_ok: "faults d = [] \<Longrightarrow> run_state (get_user_by_email email) d = (Inr (find (\<lambda>u. u_email u = email) (users d)), d)"
  by (simp add: get_user_by_email_def)

lemmas guard_defs = user_jwt_with_store_def admin_jwt_with_store_def user_jwt_allow_password_change_def
  admin_auth_with_store_def user_jwt_def admin_jwt_def admin_auth_def serve_active_def
  enforce_active_user_def enforce_active_user_allow_password_change_def resolve_active_user_def
  with_user_context_def str_claim_def

text \<open>The handlers of the user routes run only for a request with a valid token whose subject
  is the address of an existing account that is neither forbidden nor waiting for a new password,
  and they see the role of the account, not that of the token; otherwise the request is refused
  with 401, 403, 409 or 500 and no table changes. When the connection does not fail, such a request is
  served.\<close>

theorem user_routes_guarded:
  fixes h :: "'b handler"
  assumes "run_state (user_jwt_with_store parse (Some get_user_by_email) h r c) d = (a, d')"
  shows "(refused d (a, d') \<or> (\<exists>claims email u d1. parse True (bearer r) = Some claims \<and> cl_sub claims = Some email
      \<and> active_account d email u \<and> untouched d d1
      \<and> run_state (h r (with_user_context c email (u_role u))) d1 = (a, d')))
    \<and> (faults d = [] \<longrightarrow> bearer r \<noteq> [] \<longrightarrow> parse True (bearer r) = Some claims' \<longrightarrow> cl_sub claims' = Some email' \<longrightarrow>
       email' \<noteq> [] \<longrightarrow> find (\<lambda>u. u_email u = email') (users d) = Some u' \<longrightarrow> active_account d email' u' \<longrightarrow>
       (a, d') = run_state (h r (with_user_context c email' (u_role u'))) d)"
proof
  show "refused d (a, d') \<or> (\<exists>claims email u d1. parse True (bearer r) = Some claims \<and> cl_sub claims = Some email
      \<and> active_account d email u \<and> untouched d d1
      \<and> run_state (h r (with_user_context c email (u_role u))) d1 = (a, d'))"
  proof (cases "bearer r = [] \<or> parse True (bearer r) = None
      \<or> (\<exists>cl. parse True (bearer r) = Some cl \<and> str_claim (cl_sub cl) = [])")
    case True
    then have "(a, d') = (unauthorized, d)"
      using assms by (auto simp: user_jwt_with_store_def user_jwt_def Let_def split: option.splits if_splits)
    then show ?thesis by (simp add: refused_def unauthorized_def)
  next
    case False
    then obtain claims where cl: "parse True (bearer r) = Some claims" "str_claim (cl_sub claims) \<noteq> []" "bearer r \<noteq> []"
      by auto
    then obtain email where em: "cl_sub claims = Some email" by (auto simp: str_claim_def split: option.splits)
    let ?c = "with_user_context c email (str_claim (cl_role claims))"
    have "run_state (serve_active (enforce_active_user (Some get_user_by_email) email) email h r ?c) d = (a, d')"
      using assms cl em by (simp add: user_jwt_with_store_def user_jwt_def Let_def str_claim_def with_user_context_def)
    from accounts.serve_enforced [OF this] show ?thesis using cl em by (auto simp: with_user_context_def)
  qed
  show "faults d = [] \<longrightarrow> bearer r \<noteq> [] \<longrightarrow> parse True (bearer r) = Some claims' \<longrightarrow> cl_sub claims' = Some email' \<longrightarrow>
       email' \<noteq> [] \<longrightarrow> find (\<lambda>u. u_email u = email') (users d) = Some u' \<longrightarrow> active_account d email' u' \<longrightarrow>
       (a, d') = run_state (h r (with_user_context c email' (u_role u'))) d"
    using assms by (auto simp: guard_defs Let_def run_get_user_ok active_account_def live_account_def
        is_user_forbidden_def password_change_required_def)
qed

definition sample_claims :: jwt_parser where
  "sample_claims hmac tok = (if tok = ''tok'' then Some \<lparr>cl_sub = Some ''a@b'', cl_role = Some role_admin_global\<rparr> else None)"

definition sample_request :: http_request where
  "sample_request = \<lparr>header = (\<lambda>n. if n = ''Authorization'' then ''Bearer tok''
       else if n = ''X-Gateway-ID'' then ''g'' else []),
     query_param = (\<lambda>_. []), remote_addr = ''10.0.0.1:99''\<rparr>"

lemma sample_bearer [simp]: "bearer sample_request = ''tok''"
  by (simp add: bearer_def sample_request_def trim_prefix_def)

theorem user_routes_guarded_witness:
  "run_state (user_jwt_with_store sample_claims (Some get_user_by_email)
      (\<lambda>_ c. State_Monad.return (Answer 200 (ctx_role c))) sample_request background) sample_db
    = (Answer 200 (Some ''user''), sample_db)"
proof -
  let ?h = "\<lambda>_ c. State_Monad.return (Answer 200 (ctx_role c))"
  obtain a d' where run: "run_state (user_jwt_with_store sample_claims (Some get_user_by_email) ?h
      sample_request background) sample_db = (a, d')" by fastforce
  have "(a, d') = run_state (?h sample_request (with_user_context background ''a@b'' (u_role sample_user))) sample_db"
    using user_routes_guarded [OF run, of "\<lparr>cl_sub = Some ''a@b'', cl_role = Some role_admin_global\<rparr>" "''a@b''" sample_user]
    by (simp add: sample_claims_def active_account_def live_account_def sample_defs)
  then show ?thesis using run by (simp add: with_user_context_def sample_defs)
qed



text \<open>A gateway route serves a request only under the identity of a registered gateway whose
  stored token digest is that of the presented token and, when addresses are on file, whose two
  addresses are the presented ones; anything else is refused without a change.\<close>

theorem gateway_routes_guarded:
  fixes h :: "'b handler"
  assumes "run_state (gateway_auth (validate_gateway_request hash_token) h r c) d = (a, d')"
  shows "refused d (a, d') \<or> (\<exists>sess d1. untouched d d1 \<and> sess \<in> set (gateway_sessions d)
    \<and> gs_id sess = header r ''X-Gateway-ID'' \<and> gs_token_hash sess = hash_token (bearer r)
    \<and> (\<forall>e0 e1. gs_eth0 sess = Some e0 \<longrightarrow> gs_eth1 sess = Some e1 \<longrightarrow>
         normalize_mac (header r ''X-Gateway-Eth0-MAC'') = Inr e0 \<and> normalize_mac (header r ''X-Gateway-Eth1-MAC'') = Inr e1)
    \<and> run_state (h r (c\<lparr>ctx_gateway := Some (gs_id sess)\<rparr>)) d1 = (a, d'))"
proof -
  have accepts: "gs_token_hash s = hash_token t" "gs_eth0 s = Some x0 \<Longrightarrow> gs_eth1 s = Some x1 \<Longrightarrow>
      normalize_mac e0 = Inr x0 \<and> normalize_mac e1 = Inr x1"
    if "session_accepts hash_token s t e0 e1" for s t e0 e1 x0 x1
    using that by (auto simp: session_accepts_def split: if_splits sum.splits)
  from gateways.gateway_auth_cases [OF assms] show ?thesis
  proof (elim disjE exE conjE)
    fix sess d1
    assume u: "untouched d d1" "sess \<in> set (gateway_sessions d)" and i: "gs_id sess = header r ''X-Gateway-ID''"
      and acc: "session_accepts hash_token sess (bearer r) (header r ''X-Gateway-Eth0-MAC'') (header r ''X-Gateway-Eth1-MAC'')"
      and run: "run_state (h r (c\<lparr>ctx_gateway := Some (header r ''X-Gateway-ID'')\<rparr>)) d1 = (a, d')"
    have "run_state (h r (c\<lparr>ctx_gateway := Some (gs_id sess)\<rparr>)) d1 = (a, d')" using run i by simp
    then show ?thesis using u i accepts [OF acc] by blast
  qed simp
qed

theorem gateway_routes_guarded_witness:
  "\<exists>a. run_state (gateway_auth (validate_gateway_request id) (\<lambda>_ c. State_Monad.return (Answer 200 (ctx_gateway c)))
      sample_request background) empty_db = (a, empty_db) \<and> refused empty_db (a, empty_db)"
proof -
  let ?h = "\<lambda>_ c. State_Monad.return (Answer 200 (ctx_gateway c))"
  have run: "run_state (gateway_auth (validate_gateway_request id) ?h sample_request background) empty_db
      = (unauthorized, empty_db)"
    by (simp add: gateway_auth_def sample_request_def bearer_def trim_prefix_def Let_def validate_gateway_request_def
        get_gateway_session_def first_row_def empty_db_def)
  have "gateway_sessions empty_db = []" by (simp add: empty_db_def)
  then show ?thesis using gateway_routes_guarded [OF run] run by auto
qed

text \<open>
  The gate of the administration routes looks at the role of the token, the handler at the role
  of the account: an administrator who has been demoted still passes the gate until the token expires.
\<close>

lemma admin_gate_trusts_token:
  fixes h :: "'b handler"
  assumes "faults d = []" "bearer r \<noteq> []" "parse False (bearer r) = Some \<lparr>cl_sub = Some email, cl_role = Some role\<rparr>"
    "admin_role role" "email \<noteq> []" "find (\<lambda>u. u_email u = email) (users d) = Some u" "active_account d email u"
  shows "run_state (admin_jwt_with_store parse (Some get_user_by_email) h r c) d
    = run_state (h r (with_user_context c email (u_role u))) d"
  using assms
  by (auto simp: guard_defs Let_def run_get_user_ok active_account_def live_account_def
      is_user_forbidden_def password_change_required_def)

end
