(* ===== verification/Inventory.thy ===== *)
theory Inventory
  imports PortalStore
begin

text \<open>
  The inventory of cabinets and gateways that administrators see (internal/data/admin_inventory.go):
  the counters, the list of machines with the addresses completed from their telemetry, one machine
  by its number, and the gateways that push their status. Coordinates are not part of the model.
\<close>

section \<open>Rows as they are shown\<close>

definition deref_string :: "string option \<Rightarrow> string \<Rightarrow> string" where
  "deref_string p fallback = (case p of None \<Rightarrow> fallback | Some s \<Rightarrow> if s = [] then fallback else s)"

definition resolve_machine_mac :: "string option \<Rightarrow> string option \<Rightarrow> string" where
  "resolve_machine_mac stored eth1 =
     (let mac = deref_string stored [] in if mac \<noteq> [] then mac else deref_string eth1 [])"

text \<open>
  A client identifier that starts with a positive number is the portal's own binding and is not
  shown; every other one is shown as it is.
\<close>

definition machine_display_serie :: "string option \<Rightarrow> string \<Rightarrow> string" where
  "machine_display_serie client_id hashed_pkey =
     (let label = ''UNKNOWN-'' @ take 8 hashed_pkey in
      case client_id of
        None \<Rightarrow> label
      | Some c \<Rightarrow>
          if c = [] then label
          else (let cid = trim_space c in
            if cid = [] then label
            else (case sscanf_d cid of
                Some n \<Rightarrow> if n > 0 then label else cid
              | None \<Rightarrow> cid)))"

definition desc_nulls_last :: "('r \<Rightarrow> instant option) \<Rightarrow> 'r list \<Rightarrow> 'r list" where
  "desc_nulls_last f rs = order_desc (\<lambda>r. the (f r)) (filter (\<lambda>r. f r \<noteq> None) rs) @ filter (\<lambda>r. f r = None) rs"

text \<open>The lateral join: the address of the cabinet's bus in the latest session of the machine.\<close>

definition session_eth1 :: "db \<Rightarrow> int \<Rightarrow> string option" where
  "session_eth1 d i = (case desc_nulls_last gs_last_seen
       (filter (\<lambda>g. gs_machine g = Some i \<and> gs_eth1 g \<noteq> None \<and> gs_eth1 g \<noteq> Some []) (gateway_sessions d)) of
     [] \<Rightarrow> None | g # _ \<Rightarrow> gs_eth1 g)"

definition machine_summary :: "db \<Rightarrow> machine_row \<Rightarrow> machine_detail" where
  "machine_summary d m =
     \<lparr>md_id = m_id m, md_no_serie = machine_display_serie (m_client_id m) (m_hashed_pkey m),
      md_mac_address = resolve_machine_mac (m_mac m) (session_eth1 d (m_id m)),
      md_ip = deref_string (m_ip m) ''-'',
      md_last_seen = (case m_last_seen m of None \<Rightarrow> zero_time | Some t \<Rightarrow> t),
      md_raw_auth = [], md_raw_decoded = [], md_geo_location = []\<rparr>"

section \<open>Queries\<close>

record admin_stats =
  as_connected_clients :: int
  as_total_machines :: int
  as_total_gateways :: int

text \<open>A counter whose query fails stays at zero.\<close>

definition count_or_zero :: "(db \<Rightarrow> nat) \<Rightarrow> int io" where
  "count_or_zero f = do {
     r \<leftarrow> query (\<lambda>d. Inr (int (f d)));
     State_Monad.return (case r of Inl _ \<Rightarrow> 0 | Inr n \<Rightarrow> n) }"

definition get_stats :: "admin_stats dbop" where
  "get_stats = do {
     machines' \<leftarrow> count_or_zero (\<lambda>d. length (machines d));
     gateways' \<leftarrow> count_or_zero (\<lambda>d. length (push_status d));
     clients \<leftarrow> count_or_zero (\<lambda>d. length (telemetry d));
     State_Monad.return (Inr \<lparr>as_connected_clients = clients, as_total_machines = machines',
       as_total_gateways = gateways'\<rparr>) }"

text \<open>The keys under which the telemetry of a machine may be stored, tried in order.\<close>

fun backfill_mac :: "int \<Rightarrow> string list \<Rightarrow> string io" where
  "backfill_mac i [] = State_Monad.return []"
| "backfill_mac i (key # keys) =
     (if key = [] then backfill_mac i keys
      else do {
        r \<leftarrow> query (\<lambda>d. first_row (\<lambda>t. tel_client_id t = key) (telemetry d));
        case r of
          Inl _ \<Rightarrow> backfill_mac i keys
        | Inr t \<Rightarrow>
            (let mac = parse_mac_from_ek (tel_ek t) in
             if mac \<noteq> [] then do {
               ignore (exec (\<lambda>d. d\<lparr>machines := update_rows (\<lambda>m. m_id m = i) (\<lambda>m. m\<lparr>m_mac := Some mac\<rparr>) (machines d)\<rparr>));
               State_Monad.return mac }
             else backfill_mac i keys) })"

definition mac_keys :: "machine_row \<Rightarrow> machine_detail \<Rightarrow> string list" where
  "mac_keys m det = [md_no_serie det, itoa (md_id det), deref_string (m_client_id m) [], m_hashed_pkey m]"

fun backfill_missing_macs :: "(machine_row \<times> machine_detail) list \<Rightarrow> machine_detail list io" where
  "backfill_missing_macs [] = State_Monad.return []"
| "backfill_missing_macs ((m, det) # rest) = do {
     det' \<leftarrow> (if md_mac_address det \<noteq> [] then State_Monad.return det
              else do { mac \<leftarrow> backfill_mac (md_id det) (mac_keys m det);
                        State_Monad.return (det\<lparr>md_mac_address := mac\<rparr>) });
     dets \<leftarrow> backfill_missing_macs rest;
     State_Monad.return (det' # dets) }"

definition machine_full :: "db \<Rightarrow> machine_row \<Rightarrow> machine_detail" where
  "machine_full d m = (machine_summary d m)
     \<lparr>md_geo_location := (case m_geo m of None \<Rightarrow> [] | Some g \<Rightarrow> geo_location g),
      md_raw_auth := (case m_auth m of None \<Rightarrow> [] | Some (raw, _) \<Rightarrow> raw),
      md_raw_decoded := (case m_auth m of None \<Rightarrow> [] | Some (_, decoded) \<Rightarrow> decoded)\<rparr>"

definition get_machines :: "machine_detail list dbop" where
  "get_machines = andThen
     (query (\<lambda>d. Inr (map (\<lambda>m. (m, machine_full d m)) (desc_nulls_last m_last_seen (machines d)))))
     (\<lambda>rows. do { dets \<leftarrow> backfill_missing_macs rows; State_Monad.return (Inr dets) })"

definition hashed_pkey_by_inventory_id :: "int \<Rightarrow> string dbop" where
  "hashed_pkey_by_inventory_id i =
     (if i \<le> 0 then State_Monad.return (Inl (Errorf ''invalid inventory id''))
      else query (\<lambda>d. case first_row (\<lambda>m. m_id m = i) (machines d) of
          Inl e \<Rightarrow> Inl e
        | Inr m \<Rightarrow> Inr (m_hashed_pkey m)))"

definition get_machine_by_id :: "int \<Rightarrow> machine_detail dbop" where
  "get_machine_by_id i =
     (if i \<le> 0 then State_Monad.return (Inl (Errorf ''invalid machine id''))
      else query (\<lambda>d. case first_row (\<lambda>m. m_id m = i) (machines d) of
          Inl e \<Rightarrow> Inl e
        | Inr m \<Rightarrow> Inr (machine_summary d m)))"

record gateway_status =
  gw_hostname :: string
  gw_ip :: string
  gw_last_seen :: instant
  gw_geo :: geo_doc

text \<open>The payload is decoded over the row: its time counts unless it is Go's zero instant.\<close>

definition gateway_status_of :: "push_status_row \<Rightarrow> gateway_status" where
  "gateway_status_of g = \<lparr>gw_hostname = gp_hostname g, gw_ip = gp_ip g,
     gw_last_seen = (case gp_last_seen g of
         None \<Rightarrow> gp_updated_at g
       | Some t \<Rightarrow> if is_zero t then gp_updated_at g else t), gw_geo = gp_geo g\<rparr>"

definition get_gateways :: "gateway_status list dbop" where
  "get_gateways = query (\<lambda>d. Inr (map gateway_status_of (order_desc gp_updated_at (push_status d))))"

section \<open>Library\<close>

text \<open>Filling in addresses changes nothing but addresses that were not known.\<close>

definition macs_filled :: "db \<Rightarrow> db \<Rightarrow> bool" where
  "macs_filled d d' \<longleftrightarrow> (\<exists>bs ms. d' = d\<lparr>faults := bs, machines := ms\<rparr>
     \<and> map (\<lambda>m. m\<lparr>m_mac := None\<rparr>) ms = map (\<lambda>m. m\<lparr>m_mac := None\<rparr>) (machines d))"

lemma macs_filled_pre: "preorder_rel macs_filled"
proof
  show "macs_filled d d" for d
    unfolding macs_filled_def
    by (intro exI [of _ "faults d"] exI [of _ "machines d"]) simp
  show "macs_filled d (d\<lparr>faults := bs\<rparr>)" for d bs
    unfolding macs_filled_def by (intro exI [of _ bs] exI [of _ "machines d"]) simp
  show "macs_filled d1 d3" if "macs_filled d1 d2" "macs_filled d2 d3" for d1 d2 d3
    using that unfolding macs_filled_def by fastforce
qed

lemma backfill_mac_frame: "state_io_rel macs_filled (backfill_mac i keys)"
proof (induction keys)
  case (Cons key keys)
  have upd: "macs_filled d (d\<lparr>machines := update_rows (\<lambda>m. m_id m = i) (\<lambda>m. m\<lparr>m_mac := Some mac\<rparr>) (machines d)\<rparr>)" for d mac
    unfolding macs_filled_def
    by (intro exI [of _ "faults d"]
          exI [of _ "update_rows (\<lambda>m. m_id m = i) (\<lambda>m. m\<lparr>m_mac := Some mac\<rparr>) (machines d)"])
      (auto simp: update_rows_def)
  show ?case
    unfolding backfill_mac.simps Let_def
    by (intro io_intros macs_filled_pre Cons upd)
qed (simp add: io_return [OF macs_filled_pre])

lemma get_machines_frame: "state_io_rel macs_filled get_machines"
proof -
  have "state_io_rel macs_filled (backfill_missing_macs rows)" for rows
  proof (induction rows rule: backfill_missing_macs.induct)
    case 1
    then show ?case by (simp add: io_return [OF macs_filled_pre])
  next
    case (2 m det rest)
    show ?case unfolding backfill_missing_macs.simps
      by (intro io_intros macs_filled_pre backfill_mac_frame 2)
  qed
  then show ?thesis unfolding get_machines_def by (intro io_intros macs_filled_pre)
qed

end
