(* ===== verification/Scenario.thy ===== *)
theory Scenario
  imports Exchange
begin

text \<open>
  The eight scenario slots of a cabinet (internal/domain/scenario): their place in the exchange
  table, the commands that launch a slot, restore a preset or write a definition, the validation
  of a definition, and the bit mask catalogue shown with it.
\<close>

section \<open>Errors and constants\<close>

datatype scenario_err =
    LaunchSlot int
  | RestoreSlot int
  | NoPreset int
  | OutsideSlot int int int int
  | NotNumeric int string
  | OutOfByteRange int int
  | SlotOutOfRange int
  | OffsetOutOfRange int
  | ErrSlot1ServerReserved

definition index_trigger :: int where "index_trigger = 590"
definition index_last_launched :: int where "index_last_launched = 591"
definition scenario1_base :: int where "scenario1_base = 592"
definition param_count :: int where "param_count = 41"
definition slot_count :: int where "slot_count = 8"
definition slot_last_end :: int where "slot_last_end = 919"
definition index_full_block_start :: int where "index_full_block_start = 592"
definition index_full_block_end :: int where "index_full_block_end = 632"
definition offset_efface :: int where "offset_efface = 40"

lemmas scenario_consts = index_trigger_def index_last_launched_def scenario1_base_def
  param_count_def slot_count_def slot_last_end_def index_full_block_start_def
  index_full_block_end_def offset_efface_def

text \<open>Strings are Go's UTF-8 bytes: an accented letter is two characters.\<close>

abbreviation e_acute :: string where "e_acute \<equiv> [CHR 0xC3, CHR 0xA9]"
abbreviation e_grave :: string where "e_grave \<equiv> [CHR 0xC3, CHR 0xA8]"
abbreviation a_grave :: string where "a_grave \<equiv> [CHR 0xC3, CHR 0xA0]"

definition default_slot_labels :: "int \<rightharpoonup> string" where
  "default_slot_labels =
     [1 \<mapsto> ''R'' @ e_acute @ ''serv'' @ e_acute @ '' serveur'',
      2 \<mapsto> ''Je sors'',
      3 \<mapsto> ''Je pars en vacances'',
      4 \<mapsto> ''Je rentre'',
      5 \<mapsto> ''Je vais me coucher'',
      6 \<mapsto> ''Je me l'' @ e_grave @ ''ve'',
      7 \<mapsto> ''Personnalis'' @ e_acute @ '' 1'',
      8 \<mapsto> ''Personnalis'' @ e_acute @ '' 2'']"

definition preset_efface_value :: "int \<rightharpoonup> string" where
  "preset_efface_value = [2 \<mapsto> ''2'', 3 \<mapsto> ''3'', 4 \<mapsto> ''4'', 5 \<mapsto> ''5'', 6 \<mapsto> ''6'']"

section \<open>Slots\<close>

definition slot_base_index :: "int \<Rightarrow> scenario_err + int" where
  "slot_base_index slot =
     (if slot < 1 \<or> slot > slot_count then Inl (SlotOutOfRange slot)
      else Inr (scenario1_base + (slot - 1) * param_count))"

definition slot_range :: "int \<Rightarrow> scenario_err + int \<times> int" where
  "slot_range slot = (case slot_base_index slot of
       Inl e \<Rightarrow> Inl e
     | Inr base \<Rightarrow> Inr (base, base + param_count - 1))"

definition slot_from_index :: "int \<Rightarrow> int option" where
  "slot_from_index index =
     (if index < scenario1_base \<or> index > slot_last_end then None
      else let offset = index - scenario1_base;
               slot = offset div param_count + 1 in
        if slot < 1 \<or> slot > slot_count then None
        else let base = (case slot_base_index slot of Inl _ \<Rightarrow> 0 | Inr b \<Rightarrow> b) in
          if index < base \<or> index \<ge> base + param_count then None else Some slot)"

definition absolute_index :: "int \<Rightarrow> int \<Rightarrow> scenario_err + int" where
  "absolute_index slot offset =
     (if offset < 0 \<or> offset \<ge> param_count then Inl (OffsetOutOfRange offset)
      else (case slot_base_index slot of
          Inl e \<Rightarrow> Inl e
        | Inr base \<Rightarrow> Inr (base + offset)))"

section \<open>Commands\<close>

definition launch_params :: "int \<Rightarrow> scenario_err + exchange_kv list" where
  "launch_params slot =
     (if slot < 2 \<or> slot > slot_count then Inl (LaunchSlot slot)
      else Inr [kv index_trigger (itoa slot)])"

definition restore_preset_params :: "int \<Rightarrow> scenario_err + exchange_kv list" where
  "restore_preset_params slot =
     (if slot < 2 \<or> slot > 6 then Inl (RestoreSlot slot)
      else (case preset_efface_value slot of
          None \<Rightarrow> Inl (NoPreset slot)
        | Some efface \<Rightarrow> (case absolute_index slot offset_efface of
              Inl e \<Rightarrow> Inl e
            | Inr idx \<Rightarrow> Inr [kv idx efface])))"

text \<open>
  A definition is a Go \<open>map[int]string\<close>: its pairs, in the order in which the range over the map
  visits them.
\<close>

type_synonym definition_params = "(int \<times> string) list"

fun validate_params :: "int \<Rightarrow> int \<Rightarrow> int \<Rightarrow> definition_params \<Rightarrow> scenario_err option" where
  "validate_params slot start stop [] = None"
| "validate_params slot start stop ((k, v) # params) =
     (if k < start \<or> k > stop then Some (OutsideSlot k slot start stop)
      else (case atoi v of
          None \<Rightarrow> Some (NotNumeric k v)
        | Some n \<Rightarrow> if n < 0 \<or> n > 255 then Some (OutOfByteRange k n)
                   else validate_params slot start stop params))"

definition validate_definition :: "int \<Rightarrow> definition_params \<Rightarrow> scenario_err option" where
  "validate_definition slot params = (case slot_range slot of
       Inl e \<Rightarrow> Some e
     | Inr (start, stop) \<Rightarrow> validate_params slot start stop params)"

definition write_definition_chunks ::
  "int \<Rightarrow> definition_params \<Rightarrow> scenario_err + exchange_kv list list" where
  "write_definition_chunks slot params = (case validate_definition slot params of
       Some e \<Rightarrow> Inl e
     | None \<Rightarrow>
         if slot = 1 then Inl ErrSlot1ServerReserved
         else (case slot_range slot of
             Inl e \<Rightarrow> Inl e
           | Inr (start, stop) \<Rightarrow>
               let kvs = map (\<lambda>i. kv i (case map_of params i of None \<Rightarrow> ''0'' | Some v \<Rightarrow> v)) [start..stop]
               in Inr (chunk_exchange_params kvs max_firmware_params_per_action)))"

section \<open>Bit mask catalogue\<close>

record bitmask_bit =
  bit_no :: nat
  bit_value :: int
  bit_label :: string

record bitmask_field =
  field_index :: int
  field_name :: string
  field_bits :: "bitmask_bit list"

abbreviation mk_bit :: "nat \<times> int \<times> string \<Rightarrow> bitmask_bit" where
  "mk_bit t \<equiv> \<lparr>bit_no = fst t, bit_value = fst (snd t), bit_label = snd (snd t)\<rparr>"

abbreviation mk_field :: "int \<Rightarrow> string \<Rightarrow> (nat \<times> int \<times> string) list \<Rightarrow> bitmask_field" where
  "mk_field i n bs \<equiv> \<lparr>field_index = i, field_name = n, field_bits = map mk_bit bs\<rparr>"

definition bitmask_meta :: "bitmask_field list" where
  "bitmask_meta =
    [mk_field 605 ''Eteindre_PDV_LSB''
       [(0, 1, ''Entr'' @ e_acute @ ''e''), (1, 2, ''Salon 1''), (2, 4, ''Salon 2''),
        (3, 8, ''Dressing 1''), (4, 16, ''Dressing 2'')],
     mk_field 606 ''Eteindre_PDV_MSB''
       [(5, 32, ''Var. bureau''), (6, 64, ''Var. salle '' @ a_grave @ '' manger''),
        (7, 128, ''Var. salon'')],
     mk_field 607 ''Eteindre_CHB_LSB''
       [(0, 1, ''Escalier''), (1, 2, ''Gr. chambre 1''), (2, 4, ''Gr. chambre 2''),
        (3, 8, ''Pet. chambre 1-1''), (4, 16, ''Pet. chambre 1-2''),
        (5, 32, ''Pet. chambre 2''), (6, 64, ''Pet. chambre 3'')],
     mk_field 613 ''Allumer_CHB_LSB''
       [(0, 1, ''Escalier''), (1, 2, ''Gr. chambre 1''), (2, 4, ''Gr. chambre 2''),
        (3, 8, ''Pet. chambre 1-1''), (4, 16, ''Pet. chambre 1-2''),
        (5, 32, ''Pet. chambre 2''), (6, 64, ''Pet. chambre 3'')],
     mk_field 617 ''OuvrirVolets_PDV''
       [(0, 1, ''Salon 1''), (1, 2, ''Salon 2''), (2, 4, ''Salon 3''),
        (3, 8, ''SAM 1''), (4, 16, ''SAM 2''), (5, 32, ''Bureau'')],
     mk_field 620 ''FermerVolets_PDV''
       [(0, 1, ''Salon 1''), (1, 2, ''Salon 2''), (2, 4, ''Salon 3''),
        (3, 8, ''SAM 1''), (4, 16, ''SAM 2''), (5, 32, ''Bureau'')]]"

section \<open>Library\<close>

lemma slot_base_Inr:
  "slot_base_index slot = Inr b \<longleftrightarrow> 1 \<le> slot \<and> slot \<le> 8 \<and> b = 592 + (slot - 1) * 41"
  by (auto simp: slot_base_index_def scenario_consts)

lemma absolute_index_Inr:
  "absolute_index slot off = Inr i \<longleftrightarrow>
     1 \<le> slot \<and> slot \<le> 8 \<and> 0 \<le> off \<and> off < 41 \<and> i = 592 + (slot - 1) * 41 + off"
  by (auto simp: absolute_index_def slot_base_index_def scenario_consts)

lemma slot_from_index_eq:
  "slot_from_index i = (if 592 \<le> i \<and> i \<le> 919 then Some ((i - 592) div 41 + 1) else None)"
proof -
  have "592 \<le> i \<Longrightarrow> i \<le> 919 \<Longrightarrow> 0 \<le> (i - 592) div 41 \<and> (i - 592) div 41 \<le> 7" by linarith
  moreover have "592 + (i - 592) div 41 * 41 \<le> i" "i < 592 + (i - 592) div 41 * 41 + 41"
    by linarith+
  ultimately show ?thesis
    by (auto simp: slot_from_index_def Let_def slot_base_index_def scenario_consts)
qed

lemma validate_params_None:
  "validate_params slot start stop ps = None \<longleftrightarrow>
     (\<forall>(k, v) \<in> set ps. start \<le> k \<and> k \<le> stop \<and> (\<exists>n. atoi v = Some n \<and> 0 \<le> n \<and> n \<le> 255))"
  by (induction slot start stop ps rule: validate_params.induct) (auto split: option.splits)

lemma validate_definition_None:
  "validate_definition slot ps = None \<longleftrightarrow> 1 \<le> slot \<and> slot \<le> 8
     \<and> (\<forall>(k, v) \<in> set ps. slot_from_index k = Some slot \<and> (\<exists>n. atoi v = Some n \<and> 0 \<le> n \<and> n \<le> 255))"
proof -
  have "1 \<le> slot \<Longrightarrow> slot \<le> 8 \<Longrightarrow> slot_from_index k = Some slot
      \<longleftrightarrow> 592 + (slot - 1) * 41 \<le> k \<and> k \<le> 592 + (slot - 1) * 41 + 41 - 1" for k
    by (auto simp: slot_from_index_eq)
  then show ?thesis
    by (auto simp: validate_definition_def slot_range_def slot_base_index_def scenario_consts
        validate_params_None split: sum.splits)
qed

lemma write_definition_Inr:
  assumes "write_definition_chunks slot ps = Inr cs"
  shows "2 \<le> slot \<and> slot \<le> 8 \<and> validate_definition slot ps = None
    \<and> cs = chunk_exchange_params
        (map (\<lambda>i. kv i (case map_of ps i of None \<Rightarrow> ''0'' | Some v \<Rightarrow> v))
          [592 + (slot - 1) * 41..592 + (slot - 1) * 41 + 40]) 30"
proof -
  have v: "validate_definition slot ps = None" "slot \<noteq> 1"
    using assms by (auto simp: write_definition_chunks_def split: option.splits if_splits)
  then have "1 \<le> slot" "slot \<le> 8" by (simp_all add: validate_definition_None)
  then show ?thesis using assms v
    by (simp add: write_definition_chunks_def slot_range_def slot_base_index_def scenario_consts
        max_firmware_params_per_action_def)
qed

text \<open>\<open>chunk_exchange_params_partition\<close> for the 41 parameters of a slot.\<close>

lemma chunks_of_slot:
  assumes "length ps = 41"
  shows "map length (chunk_exchange_params ps 30) = [30, 11]"
    "concat (chunk_exchange_params ps 30) = ps"
proof -
  have c: "chunk_exchange_params ps 30 = chunks_from ps 30 0"
    using assms by (simp add: chunk_exchange_params_def)
  show "map length (chunk_exchange_params ps 30) = [30, 11]"
    unfolding c using assms by (simp add: chunks_from.simps)
  show "concat (chunk_exchange_params ps 30) = ps"
    unfolding c using chunks_from_props [of 30 ps 0] by simp
qed

lemma slot_kv_valid:
  assumes v: "validate_definition slot ps = None"
    and k: "592 + (slot - 1) * 41 \<le> k" "k \<le> 592 + (slot - 1) * 41 + 40"
  shows "slot_from_index k = Some slot"
    "\<exists>n. atoi (case map_of ps k of None \<Rightarrow> ''0'' | Some v \<Rightarrow> v) = Some n \<and> 0 \<le> n \<and> n \<le> 255"
proof -
  have s: "1 \<le> slot" "slot \<le> 8" using v by (simp_all add: validate_definition_None)
  then show "slot_from_index k = Some slot" using k by (auto simp: slot_from_index_eq)
  have "atoi ''0'' = Some 0" by code_simp
  moreover have "map_of ps k = Some w \<Longrightarrow> \<exists>n. atoi w = Some n \<and> 0 \<le> n \<and> n \<le> 255" for w
    using v by (auto simp: validate_definition_None dest: map_of_SomeD)
  ultimately show "\<exists>n. atoi (case map_of ps k of None \<Rightarrow> ''0'' | Some v \<Rightarrow> v) = Some n \<and> 0 \<le> n \<and> n \<le> 255"
    by (auto split: option.splits)
qed

section \<open>Properties\<close>

text \<open>Slots and offsets address the exchange table without overlap: \<open>SlotFromIndex\<close> inverts
  \<open>AbsoluteIndex\<close>, and every index from 592 to 919 belongs to exactly one slot and offset.\<close>

theorem slot_index_roundtrip:
  "(absolute_index slot off = Inr i \<longrightarrow> slot_from_index i = Some slot)
   \<and> (slot_from_index i = Some s \<longrightarrow> (\<exists>!f. absolute_index s f = Inr i))
   \<and> (slot_from_index i = None \<longleftrightarrow> i < 592 \<or> 919 < i)"
proof (intro conjI impI)
  assume "absolute_index slot off = Inr i"
  then show "slot_from_index i = Some slot"
    by (auto simp: absolute_index_Inr slot_from_index_eq)
next
  assume "slot_from_index i = Some s"
  then have s: "592 \<le> i" "i \<le> 919" "s = (i - 592) div 41 + 1"
    by (auto simp: slot_from_index_eq split: if_splits)
  have "absolute_index s ((i - 592) mod 41) = Inr i"
    using s by (auto simp: absolute_index_Inr)
  moreover have "absolute_index s f = Inr i \<Longrightarrow> f = (i - 592) mod 41" for f
    using s minus_div_mult_eq_mod [of "i - 592" 41] by (auto simp: absolute_index_Inr)
  ultimately show "\<exists>!f. absolute_index s f = Inr i" by blast
qed (auto simp: slot_from_index_eq)

theorem slot_index_roundtrip_witness:
  "absolute_index 8 40 = Inr 919 \<and> slot_from_index 919 = Some 8 \<and> (\<exists>!f. absolute_index 8 f = Inr 919)"
proof -
  have a: "absolute_index 8 40 = Inr 919" by code_simp
  then show ?thesis using slot_index_roundtrip [of 8 40 919 8] by simp
qed

text \<open>A definition that is accepted is written completely: the chunks in order hold the 41
  indices of the slot, each once, in order, with the given value or \<open>0\<close>; there are two of them
  and none exceeds the 30 parameters of the firmware. Slot 1 is never written.\<close>

theorem write_definition_complete:
  assumes "write_definition_chunks slot ps = Inr cs"
  shows "2 \<le> slot \<and> slot \<le> 8 \<and> map length cs = [30, 11]
    \<and> map k_of (concat cs) = [592 + (slot - 1) * 41..592 + (slot - 1) * 41 + 40]
    \<and> (\<forall>p. p \<in> set (concat cs) \<longrightarrow> slot_from_index (k_of p) = Some slot
        \<and> v_of p = (case map_of ps (k_of p) of None \<Rightarrow> ''0'' | Some v \<Rightarrow> v)
        \<and> (\<exists>n. atoi (v_of p) = Some n \<and> 0 \<le> n \<and> n \<le> 255))"
proof -
  let ?ks = "[592 + (slot - 1) * 41..592 + (slot - 1) * 41 + 40]"
  let ?ps = "map (\<lambda>i. kv i (case map_of ps i of None \<Rightarrow> ''0'' | Some v \<Rightarrow> v)) ?ks"
  note w = write_definition_Inr [OF assms]
  have "length ?ps = 41" by simp
  note c = chunks_of_slot [OF this]
  have keys: "map k_of (concat cs) = ?ks" using w c(2) by (simp add: o_def)
  have vals: "p \<in> set (concat cs) \<Longrightarrow> slot_from_index (k_of p) = Some slot
        \<and> v_of p = (case map_of ps (k_of p) of None \<Rightarrow> ''0'' | Some v \<Rightarrow> v)
        \<and> (\<exists>n. atoi (v_of p) = Some n \<and> 0 \<le> n \<and> n \<le> 255)" for p
  proof -
    assume "p \<in> set (concat cs)"
    moreover have "concat cs = ?ps" using w c(2) by simp
    ultimately have "p \<in> set ?ps" by (simp only:)
    then show ?thesis using w slot_kv_valid [of slot ps "k_of p"] by auto
  qed
  show ?thesis using w c(1) keys vals by blast
qed

theorem write_definition_complete_witness:
  "\<exists>cs. write_definition_chunks 7 [(840, ''4'')] = Inr cs \<and> map length cs = [30, 11]"
proof -
  have "\<not> isl (write_definition_chunks 7 [(840, ''4'')])" by code_simp
  then obtain cs where "write_definition_chunks 7 [(840, ''4'')] = Inr cs"
    by (cases "write_definition_chunks 7 [(840, ''4'')]") auto
  then show ?thesis using write_definition_complete by blast
qed

text \<open>C5. What \<open>ValidateDefinition\<close> accepts: a slot from 1 to 8, every index inside that slot, every
  value a number from 0 to 255. \<open>WriteDefinitionChunks\<close> refuses exactly what it refuses, and
  slot 1.\<close>

theorem validate_definition_spec:
  "(validate_definition slot ps = None \<longleftrightarrow> 1 \<le> slot \<and> slot \<le> 8
      \<and> list_all (\<lambda>(k, v). slot_from_index k = Some slot
          \<and> (case atoi v of None \<Rightarrow> False | Some n \<Rightarrow> 0 \<le> n \<and> n \<le> 255)) ps)
   \<and> ((\<exists>cs. write_definition_chunks slot ps = Inr cs) \<longleftrightarrow> validate_definition slot ps = None \<and> slot \<noteq> 1)"
proof
  show "validate_definition slot ps = None \<longleftrightarrow> 1 \<le> slot \<and> slot \<le> 8
      \<and> list_all (\<lambda>(k, v). slot_from_index k = Some slot
          \<and> (case atoi v of None \<Rightarrow> False | Some n \<Rightarrow> 0 \<le> n \<and> n \<le> 255)) ps"
    by (fastforce simp: validate_definition_None list_all_iff split: option.splits)
  show "(\<exists>cs. write_definition_chunks slot ps = Inr cs) \<longleftrightarrow> validate_definition slot ps = None \<and> slot \<noteq> 1"
    by (auto simp: write_definition_chunks_def validate_definition_def slot_range_def Let_def
        split: option.splits sum.splits)
qed

text \<open>The bit mask catalogue is consistent with the exchange table: every value is the power of
  two of its bit, no field names a bit twice, and two fields whose indices undo each other name
  the same lamps or shutters.\<close>

theorem bitmask_meta_consistent:
  "list_all (\<lambda>f. is_block_index (field_index f) \<and> distinct (map bit_no (field_bits f))
      \<and> list_all (\<lambda>b. bit_value b = 2 ^ bit_no b) (field_bits f)) bitmask_meta
   \<and> list_all (\<lambda>f. case opposite_block_index (field_index f) of
        None \<Rightarrow> False
      | Some j \<Rightarrow> list_all (\<lambda>g. field_bits g = field_bits f)
                   (filter (\<lambda>g. field_index g = j) bitmask_meta)) bitmask_meta"
  by code_simp

end
