(* ===== verification/SyncStore.thy ===== *)
theory SyncStore
  imports Database
begin

text \<open>
  Synchronisation of the exchange table (internal/syncprofile/validate.go,
  internal/data/sync_profile_store.go, internal/data/sync_alert.go): the index ranges of a
  profile, profiles and their runs, the progress reports of a gateway, and the alert after
  repeated failures, which is returned as a log line. Names sort by their bytes; PostgreSQL
  sorts by the collation of the database.
\<close>

section \<open>Index ranges\<close>

type_synonym index_range = "int \<times> int"

definition max_firmware_indices_per_cycle :: int where
  "max_firmware_indices_per_cycle = 30"

fun validate_ranges_from :: "int \<Rightarrow> index_range list \<Rightarrow> goerr option" where
  "validate_ranges_from i [] = None"
| "validate_ranges_from i ((lo, hi) # rs) =
     (if lo > hi then Some (Errorf (''index_ranges['' @ itoa i @ '']: start '' @ itoa lo @ '' > end '' @ itoa hi))
      else if lo < 0 \<or> hi > 4096 then Some (Errorf (''index_ranges['' @ itoa i @ '']: out of bounds''))
      else validate_ranges_from (i + 1) rs)"

definition validate_index_ranges :: "index_range list \<Rightarrow> goerr option" where
  "validate_index_ranges ranges =
     (if ranges = [] then Some (Errorf ''index_ranges required'') else validate_ranges_from 0 ranges)"

definition expected_index_count :: "index_range list \<Rightarrow> int" where
  "expected_index_count ranges = foldl (\<lambda>n (lo, hi). n + (hi - lo + 1)) 0 ranges"

text \<open>Division of Go truncates towards zero.\<close>

definition go_div :: "int \<Rightarrow> int \<Rightarrow> int" where
  "go_div a b = (if a < 0 then - ((- a) div b) else a div b)"

definition pull_chunk_count :: "index_range list \<Rightarrow> int" where
  "pull_chunk_count ranges = foldl (\<lambda>total (lo, hi).
     total + go_div (hi - lo + 1 + max_firmware_indices_per_cycle - 1) max_firmware_indices_per_cycle) 0 ranges"

definition flatten_indices :: "index_range list \<Rightarrow> int list" where
  "flatten_indices ranges = concat (map (\<lambda>(lo, hi). [lo..hi]) ranges)"

section \<open>Profiles\<close>

definition sync_run_status_pending :: string where "sync_run_status_pending = ''pending''"
definition sync_run_status_running :: string where "sync_run_status_running = ''running''"
definition sync_run_status_success :: string where "sync_run_status_success = ''success''"
definition sync_run_status_partial :: string where "sync_run_status_partial = ''partial''"
definition sync_run_status_failed :: string where "sync_run_status_failed = ''failed''"

lemmas sync_status_defs = sync_run_status_pending_def sync_run_status_running_def
  sync_run_status_success_def sync_run_status_partial_def sync_run_status_failed_def

record sync_profile = sync_profile_row +
  sp_next_run_at :: "instant option"
  sp_last_run_status :: "string option"

record upsert_sync_profile_request =
  uq_gateway :: string
  uq_name :: string
  uq_ranges :: "index_range list"
  uq_interval :: int
  uq_cron :: "string option"
  uq_pull :: "bool option"
  uq_push :: "bool option"
  uq_enabled :: "bool option"
  uq_exclude :: "int list"

text \<open>\<open>time.Duration(h) * time.Hour\<close> wraps around at 64 bits.\<close>

definition hours :: "int \<Rightarrow> duration" where
  "hours h = signed_take_bit 63 (h * hour)"

definition decode_profile :: "sync_profile_row \<Rightarrow> string option \<Rightarrow> sync_profile" where
  "decode_profile row last_run_status =
     sync_profile_row.extend
       (row\<lparr>sp_cron := (case sp_cron row of None \<Rightarrow> None | Some c \<Rightarrow> if c = [] then None else Some c)\<rparr>)
       \<lparr>sp_next_run_at = (case sp_last_run_at row of
            None \<Rightarrow> None
          | Some t \<Rightarrow> if sp_enabled row \<and> sp_interval row > 0 then Some (t + hours (sp_interval row)) else None),
        sp_last_run_status = last_run_status\<rparr>"

definition last_run_status_of :: "db \<Rightarrow> string \<Rightarrow> string option" where
  "last_run_status_of d pid = (case order_desc sr_created_at (filter (\<lambda>r. sr_profile r = pid) (sync_runs d)) of
       [] \<Rightarrow> None | r # _ \<Rightarrow> Some (sr_status r))"

definition view_profile :: "db \<Rightarrow> sync_profile_row \<Rightarrow> sync_profile" where
  "view_profile d row = decode_profile row (last_run_status_of d (sp_id row))"

definition list_sync_profiles :: "string \<Rightarrow> sync_profile list dbop" where
  "list_sync_profiles gateway_id = query (\<lambda>d. Inr (map (view_profile d) (sort_key sp_name
     (if gateway_id \<noteq> [] then filter (\<lambda>p. sp_gateway p = gateway_id \<or> sp_gateway p = []) (sync_profiles d)
      else sync_profiles d))))"

definition get_sync_profile :: "string \<Rightarrow> sync_profile dbop" where
  "get_sync_profile pid = query (\<lambda>d.
     case first_row (\<lambda>p. sp_id p = pid) (sync_profiles d) of Inl e \<Rightarrow> Inl e | Inr p \<Rightarrow> Inr (view_profile d p))"

definition default_true :: "bool option \<Rightarrow> bool" where
  "default_true b = (case b of None \<Rightarrow> True | Some x \<Rightarrow> x)"

definition effective_interval :: "int \<Rightarrow> int" where
  "effective_interval h = (if h \<le> 0 then 3 else h)"

definition create_sync_profile :: "upsert_sync_profile_request \<Rightarrow> sync_profile dbop" where
  "create_sync_profile req = (case validate_index_ranges (uq_ranges req) of
       Some e \<Rightarrow> State_Monad.return (Inl e)
     | None \<Rightarrow> do {
         pid \<leftarrow> draw;
         andThen (exec (\<lambda>d. d\<lparr>sync_profiles := sync_profiles d @
           [\<lparr>sp_id = pid, sp_gateway = uq_gateway req, sp_name = uq_name req, sp_ranges = uq_ranges req,
             sp_interval = effective_interval (uq_interval req), sp_cron = uq_cron req,
             sp_pull = default_true (uq_pull req), sp_push = default_true (uq_push req),
             sp_enabled = default_true (uq_enabled req), sp_exclude = uq_exclude req,
             sp_last_run_at = None, sp_created_at = clock d, sp_updated_at = clock d\<rparr>]\<rparr>))
           (\<lambda>_. get_sync_profile pid) })"

text \<open>An \<open>UPDATE\<close> on the rows that satisfy a condition, with their number.\<close>

definition update_profiles :: "(sync_profile_row \<Rightarrow> bool) \<Rightarrow> (instant \<Rightarrow> sync_profile_row \<Rightarrow> sync_profile_row) \<Rightarrow> nat dbop" where
  "update_profiles p f = exec_count (\<lambda>d.
     (d\<lparr>sync_profiles := update_rows p (f (clock d)) (sync_profiles d)\<rparr>, length (filter p (sync_profiles d))))"

definition update_sync_profile :: "string \<Rightarrow> upsert_sync_profile_request \<Rightarrow> sync_profile dbop" where
  "update_sync_profile pid req = (case validate_index_ranges (uq_ranges req) of
       Some e \<Rightarrow> State_Monad.return (Inl e)
     | None \<Rightarrow>
         andThen (update_profiles (\<lambda>p. sp_id p = pid)
           (\<lambda>nw p. p\<lparr>sp_gateway := uq_gateway req, sp_name := uq_name req, sp_ranges := uq_ranges req,
             sp_interval := effective_interval (uq_interval req), sp_cron := uq_cron req,
             sp_pull := default_true (uq_pull req), sp_push := default_true (uq_push req),
             sp_enabled := default_true (uq_enabled req), sp_exclude := uq_exclude req,
             sp_updated_at := nw\<rparr>)) (\<lambda>n.
         if n = 0 then State_Monad.return (Inl (Errorf ''profile not found'')) else get_sync_profile pid))"

definition delete_sync_profile :: "string \<Rightarrow> unit dbop" where
  "delete_sync_profile pid =
     andThen (exec_count (\<lambda>d. (d\<lparr>sync_profiles := filter (\<lambda>p. sp_id p \<noteq> pid) (sync_profiles d),
                                 sync_runs := filter (\<lambda>r. sr_profile r \<noteq> pid) (sync_runs d)\<rparr>,
                               length (filter (\<lambda>p. sp_id p = pid) (sync_profiles d))))) (\<lambda>n.
     State_Monad.return (if n = 0 then Inl (Errorf ''profile not found'') else Inr ()))"

definition list_sync_profiles_for_gateway :: "string \<Rightarrow> sync_profile list dbop" where
  "list_sync_profiles_for_gateway gateway_id = list_sync_profiles gateway_id"

definition get_sync_profile_by_name_for_gateway :: "string \<Rightarrow> string \<Rightarrow> sync_profile dbop" where
  "get_sync_profile_by_name_for_gateway gateway_id name = query (\<lambda>d.
     case top_row (order_asc (\<lambda>p. if sp_gateway p = gateway_id then 0 else 1)
            (filter (\<lambda>p. sp_name p = name \<and> (sp_gateway p = [] \<or> sp_gateway p = gateway_id)) (sync_profiles d))) of
       Inl e \<Rightarrow> Inl e | Inr p \<Rightarrow> Inr (view_profile d p))"

definition set_sync_profile_enabled :: "string \<Rightarrow> string \<Rightarrow> bool \<Rightarrow> sync_profile dbop" where
  "set_sync_profile_enabled pid gateway_id enabled =
     andThen (update_profiles (\<lambda>p. sp_id p = pid \<and> (sp_gateway p = [] \<or> sp_gateway p = gateway_id))
       (\<lambda>nw p. p\<lparr>sp_enabled := enabled, sp_updated_at := nw\<rparr>)) (\<lambda>n.
     if n = 0 then State_Monad.return (Inl (Errorf ''profile not found'')) else get_sync_profile pid)"

section \<open>Runs\<close>

record sync_run_progress_request =
  pr_received :: int
  pr_pushed :: int
  pr_chunk_index :: int
  pr_chunk_total :: int
  pr_phase :: string
  pr_message :: string
  pr_status :: string
  pr_error :: string

definition list_pending_sync_runs :: "string \<Rightarrow> sync_run list dbop" where
  "list_pending_sync_runs gateway_id = query (\<lambda>d. Inr (order_asc sr_created_at
     (filter (\<lambda>r. sr_gateway r = gateway_id \<and> (sr_status r = ''pending'' \<or> sr_status r = ''running''))
       (sync_runs d))))"

definition get_sync_run :: "string \<Rightarrow> sync_run dbop" where
  "get_sync_run rid = query (\<lambda>d. first_row (\<lambda>r. sr_id r = rid) (sync_runs d))"

definition list_sync_runs_for_profile :: "string \<Rightarrow> int \<Rightarrow> sync_run list dbop" where
  "list_sync_runs_for_profile pid lim =
     (let lim = (if lim \<le> 0 then 20 else lim) in
      query (\<lambda>d. Inr (limit_rows lim (order_desc sr_created_at (filter (\<lambda>r. sr_profile r = pid) (sync_runs d))))))"

definition create_sync_run :: "string \<Rightarrow> string \<Rightarrow> int \<Rightarrow> string \<Rightarrow> sync_run dbop" where
  "create_sync_run pid gateway_id expected initial_log = do {
     rid \<leftarrow> draw;
     andThen (sql (\<lambda>d.
       if \<not> list_ex (\<lambda>p. sp_id p = pid) (sync_profiles d) then (Inl ForeignKeyViolation, d)
       else (Inr (), d\<lparr>sync_runs := sync_runs d @
         [\<lparr>sr_id = rid, sr_profile = pid, sr_gateway = gateway_id, sr_status = sync_run_status_pending,
           sr_expected = expected, sr_received = 0, sr_pushed = 0, sr_error = None,
           sr_log = [\<lparr>sl_time = clock d, sl_level = ''info'', sl_message = initial_log\<rparr>],
           sr_started_at = None, sr_finished_at = None, sr_created_at = clock d\<rparr>]\<rparr>)))
       (\<lambda>_. get_sync_run rid) }"

definition start_sync_run :: "string \<Rightarrow> string \<Rightarrow> unit dbop" where
  "start_sync_run rid gateway_id =
     (let mine = (\<lambda>r. sr_id r = rid \<and> sr_gateway r = gateway_id \<and> sr_status r = sync_run_status_pending) in
      andThen (exec_count (\<lambda>d. (d\<lparr>sync_runs := update_rows mine
          (\<lambda>r. r\<lparr>sr_status := sync_run_status_running, sr_started_at := Some (clock d)\<rparr>) (sync_runs d)\<rparr>,
        length (filter mine (sync_runs d))))) (\<lambda>n.
      State_Monad.return (if n = 0 then Inl (Errorf ''run not found or not pending'') else Inr ())))"

text \<open>The check constraint of the table on the status of a run.\<close>

definition known_status :: "string \<Rightarrow> bool" where
  "known_status st \<longleftrightarrow> st \<in> set [''pending'', ''running'', ''success'', ''partial'', ''failed'']"

definition finished_status :: "string \<Rightarrow> bool" where
  "finished_status st \<longleftrightarrow>
     st = sync_run_status_success \<or> st = sync_run_status_partial \<or> st = sync_run_status_failed"

definition progress_message :: "sync_run_progress_request \<Rightarrow> sync_run \<Rightarrow> string" where
  "progress_message req run =
     (if pr_message req = [] \<and> pr_chunk_total req > 0 then
        pr_phase req @ '' '' @ [CHR 0xE2, CHR 0x80, CHR 0x94] @ '' '' @ itoa (pr_received req) @ ''/'' @
        itoa (sr_expected run) @ '' octets (chunk '' @ itoa (pr_chunk_index req) @ ''/'' @
        itoa (pr_chunk_total req) @ '')''
      else pr_message req)"

definition progress_row :: "sync_run_progress_request \<Rightarrow> instant \<Rightarrow> sync_run \<Rightarrow> sync_run" where
  "progress_row req nw run =
     (let level = (if pr_error req \<noteq> [] then ''error'' else if pr_phase req = ''done'' then ''success'' else ''info'');
          msg = progress_message req run;
          status = (if pr_status req \<noteq> [] then pr_status req
                    else if sr_status run = sync_run_status_pending then sync_run_status_running
                    else sr_status run)
      in run\<lparr>sr_log := (if msg \<noteq> [] then sr_log run @ [\<lparr>sl_time = nw, sl_level = level, sl_message = msg\<rparr>] else sr_log run),
             sr_status := status,
             sr_received := (if pr_received req > 0 then pr_received req else sr_received run),
             sr_pushed := (if pr_pushed req > 0 then pr_pushed req else sr_pushed run),
             sr_error := null_if_empty (pr_error req)\<rparr>)"

text \<open>The values computed from the row that was read are written to the rows of the run.\<close>

definition store_progress :: "string \<Rightarrow> string \<Rightarrow> sync_run \<Rightarrow> bool \<Rightarrow> db \<Rightarrow> (goerr + unit) \<times> db" where
  "store_progress rid gateway_id new finished d =
     (let mine = (\<lambda>r. sr_id r = rid \<and> sr_gateway r = gateway_id) in
      if list_ex mine (sync_runs d) \<and> \<not> known_status (sr_status new) then (Inl CheckViolation, d)
      else (Inr (), d\<lparr>sync_runs := update_rows mine
        (\<lambda>r. r\<lparr>sr_status := sr_status new, sr_received := sr_received new, sr_pushed := sr_pushed new,
               sr_error := sr_error new, sr_log := sr_log new,
               sr_finished_at := (if finished then Some (clock d) else sr_finished_at r),
               sr_started_at := (case sr_started_at r of None \<Rightarrow> Some (clock d) | Some t \<Rightarrow> Some t)\<rparr>)
        (sync_runs d)\<rparr>))"

definition sync_consecutive_failure_threshold :: int where
  "sync_consecutive_failure_threshold = 3"

definition failing :: "sync_run \<Rightarrow> bool" where
  "failing run \<longleftrightarrow> sr_status run = sync_run_status_failed \<or> sr_status run = sync_run_status_partial"

text \<open>The line that is logged, if any: the name of the profile.\<close>

definition maybe_alert_consecutive_failures :: "string \<Rightarrow> string option io" where
  "maybe_alert_consecutive_failures pid = do {
     r \<leftarrow> list_sync_runs_for_profile pid sync_consecutive_failure_threshold;
     case r of
       Inl _ \<Rightarrow> State_Monad.return None
     | Inr runs \<Rightarrow>
         if int (length runs) < sync_consecutive_failure_threshold then State_Monad.return None
         else if \<not> list_all failing runs then State_Monad.return None
         else do {
           p \<leftarrow> get_sync_profile pid;
           State_Monad.return (Some (case p of Inl _ \<Rightarrow> pid | Inr prof \<Rightarrow> sp_name prof)) } }"

definition append_sync_run_progress :: "string \<Rightarrow> string \<Rightarrow> sync_run_progress_request \<Rightarrow> unit dbop" where
  "append_sync_run_progress rid gateway_id req =
     andThen (get_sync_run rid) (\<lambda>run.
       if sr_gateway run \<noteq> gateway_id then State_Monad.return (Inl (Errorf ''forbidden''))
       else do {
         nw \<leftarrow> now;
         let new = progress_row req nw run;
         let finished = finished_status (sr_status new);
         andThen (sql (store_progress rid gateway_id new finished)) (\<lambda>_.
           if finished then do {
             ignore (update_profiles (\<lambda>p. sp_id p = sr_profile run)
               (\<lambda>nw p. p\<lparr>sp_last_run_at := Some nw, sp_updated_at := nw\<rparr>));
             _ \<leftarrow> (if failing new then maybe_alert_consecutive_failures (sr_profile run)
                  else State_Monad.return None);
             State_Monad.return (Inr ()) }
           else State_Monad.return (Inr ())) })"

section \<open>The steps of the run table\<close>

inductive sync_op :: "unit io \<Rightarrow> bool" where
  "sync_op (ignore (create_sync_profile req))"
| "sync_op (ignore (update_sync_profile pid req))"
| "sync_op (ignore (delete_sync_profile pid))"
| "sync_op (ignore (set_sync_profile_enabled pid g b))"
| "sync_op (ignore (create_sync_run pid g n msg))"
| "sync_op (ignore (start_sync_run rid g))"
| "sync_op (ignore (append_sync_run_progress rid g preq))"
| "(\<And>d. sync_runs (f d) = sync_runs d) \<Longrightarrow> sync_op (State (\<lambda>d. ((), f d)))"

definition sync_step :: "db \<Rightarrow> db \<Rightarrow> bool" where
  "sync_step d d' \<longleftrightarrow> (\<exists>m. sync_op m \<and> d' = snd (run_state m d))"

definition run_wf :: "sync_run \<Rightarrow> bool" where
  "run_wf r \<longleftrightarrow> known_status (sr_status r)
     \<and> (sr_status r = sync_run_status_running \<longrightarrow> sr_started_at r \<noteq> None)
     \<and> (finished_status (sr_status r) \<longrightarrow> sr_started_at r \<noteq> None \<and> sr_finished_at r \<noteq> None)"

definition sync_inv :: "db \<Rightarrow> bool" where
  "sync_inv d \<longleftrightarrow> list_all run_wf (sync_runs d)"

section \<open>Library\<close>

definition sync_ok :: "db \<Rightarrow> db \<Rightarrow> bool" where
  "sync_ok d d' \<longleftrightarrow> (sync_inv d \<longrightarrow> sync_inv d')"

lemma sync_ok_preorder: "preorder_rel sync_ok"
  by (rule preorder_relI) (auto simp: sync_ok_def sync_inv_def)

lemma sync_ok_same: "sync_runs d' = sync_runs d \<Longrightarrow> sync_ok d d'"
  by (simp add: sync_ok_def sync_inv_def)

lemma sync_ok_update:
  assumes "\<And>r. r \<in> set (sync_runs d) \<Longrightarrow> p r \<Longrightarrow> run_wf (f r)" "sync_runs d' = update_rows p f (sync_runs d)"
  shows "sync_ok d d'"
  using assms by (auto simp: sync_ok_def sync_inv_def list_all_iff in_set_update_rows)

lemma sync_ok_store: "sync_ok d (snd (store_progress rid g new (finished_status (sr_status new)) d))"
proof (cases "list_ex (\<lambda>r. sr_id r = rid \<and> sr_gateway r = g) (sync_runs d) \<and> \<not> known_status (sr_status new)")
  case True
  then show ?thesis by (simp add: store_progress_def Let_def sync_ok_same)
next
  case False
  show ?thesis
    by (rule sync_ok_update [where p = "\<lambda>r. sr_id r = rid \<and> sr_gateway r = g" and f =
        "\<lambda>r. r\<lparr>sr_status := sr_status new, sr_received := sr_received new, sr_pushed := sr_pushed new,
               sr_error := sr_error new, sr_log := sr_log new,
               sr_finished_at := (if finished_status (sr_status new) then Some (clock d) else sr_finished_at r),
               sr_started_at := (case sr_started_at r of None \<Rightarrow> Some (clock d) | Some t \<Rightarrow> Some t)\<rparr>"])
      (use False in \<open>auto simp: store_progress_def Let_def run_wf_def list_ex_iff split: option.splits\<close>)
qed

lemma sync_ok_start: "state_io_rel sync_ok (start_sync_run rid g)"
  unfolding start_sync_run_def Let_def
  by (intro io_intros sync_ok_preorder, unfold fst_conv)
    (rule sync_ok_update, auto simp: run_wf_def sync_status_defs known_status_def finished_status_def)

lemma sync_ok_profiles: "state_io_rel sync_ok (update_profiles p f)"
  unfolding update_profiles_def by (intro io_intros sync_ok_preorder) (simp add: sync_ok_same)

lemma sync_ok_create: "state_io_rel sync_ok (create_sync_run pid g n msg)"
  unfolding create_sync_run_def get_sync_run_def
  by (intro io_intros sync_ok_preorder)
    (auto simp: sync_ok_def sync_inv_def run_wf_def sync_status_defs known_status_def finished_status_def)

lemma io_query_any: "preorder_rel R \<Longrightarrow> state_io_rel R (get_sync_run rid)"
  "preorder_rel R \<Longrightarrow> state_io_rel R (get_sync_profile pid)"
  "preorder_rel R \<Longrightarrow> state_io_rel R (list_sync_runs_for_profile pid n)"
  unfolding get_sync_run_def get_sync_profile_def list_sync_runs_for_profile_def Let_def
  by (auto intro: io_intros)

lemma sync_ok_append: "state_io_rel sync_ok (append_sync_run_progress rid g req)"
  unfolding append_sync_run_progress_def Let_def maybe_alert_consecutive_failures_def
  by (intro io_intros io_query_any sync_ok_preorder sync_ok_store sync_ok_profiles)

lemma sync_op_ok:
  assumes "sync_op m"
  shows "state_io_rel sync_ok m"
  using assms
proof (induction rule: sync_op.induct)
  case (1 req)
  show ?case unfolding create_sync_profile_def
    by (intro io_intros io_query_any sync_ok_preorder) (auto intro: sync_ok_same)
next
  case (2 pid req)
  show ?case unfolding update_sync_profile_def
    by (intro io_intros io_query_any sync_ok_preorder sync_ok_profiles)
next
  case (3 pid)
  show ?case unfolding delete_sync_profile_def
    by (intro io_intros sync_ok_preorder) (auto simp: sync_ok_def sync_inv_def list_all_iff)
next
  case (4 pid g b)
  show ?case unfolding set_sync_profile_enabled_def
    by (intro io_intros io_query_any sync_ok_preorder sync_ok_profiles)
next
  case (8 f)
  then show ?case unfolding state_io_rel_def by (simp add: sync_ok_same)
qed (intro io_ignore sync_ok_preorder sync_ok_create sync_ok_start sync_ok_append)+

interpretation run_life: transition_system "\<lambda>d. sync_runs d = []" sync_step sync_inv
proof
  show "sync_inv s" if "sync_runs s = []" for s using that by (simp add: sync_inv_def)
  show "sync_inv t" if "sync_inv s" "sync_step s t" for s t
    using that sync_op_ok by (auto simp: sync_step_def state_io_rel_def sync_ok_def)
qed

text \<open>Runs of other gateways.\<close>

definition other_runs :: "string \<Rightarrow> db \<Rightarrow> sync_run list" where
  "other_runs g d = filter (\<lambda>r. sr_gateway r \<noteq> g) (sync_runs d)"

lemma other_runs_preorder: "preorder_rel (\<lambda>d d'. other_runs g d' = other_runs g d)"
  by (rule keeps_preorder) (simp add: other_runs_def)

lemma other_runs_store: "other_runs g (snd (store_progress rid g new fin d)) = other_runs g d"
  unfolding other_runs_def store_progress_def Let_def by (auto intro: filter_update_rows)

lemma other_runs_profiles: "state_io_rel (\<lambda>d d'. other_runs g d' = other_runs g d) (update_profiles p f)"
  unfolding update_profiles_def by (intro io_intros other_runs_preorder) (simp add: other_runs_def)

lemma append_other_runs: "keeps (other_runs g) (append_sync_run_progress rid g req)"
  unfolding keeps_def append_sync_run_progress_def Let_def maybe_alert_consecutive_failures_def
  by (intro io_intros io_query_any other_runs_preorder other_runs_store other_runs_profiles)

lemma start_other_runs: "keeps (other_runs g) (start_sync_run rid g)"
  unfolding keeps_def start_sync_run_def Let_def
  by (intro io_intros other_runs_preorder, unfold other_runs_def) (auto intro: filter_update_rows)

lemma expected_count_append:
  "foldl (\<lambda>n (lo, hi). n + f lo hi) a rs = a + sum_list (map (\<lambda>(lo, hi). f lo hi :: int) rs)"
  by (induction rs arbitrary: a) auto

lemma validate_ranges_None:
  "validate_ranges_from i rs = None \<longleftrightarrow> (\<forall>(lo, hi) \<in> set rs. lo \<le> hi \<and> 0 \<le> lo \<and> hi \<le> 4096)"
  by (induction i rs rule: validate_ranges_from.induct) auto

section \<open>Properties\<close>

text \<open>The index counts of a valid profile are those of the indices it stands for: the ranges list
  indices between 0 and 4096, the expected count is their number, and the number of pull cycles
  is what cutting each range into actions of 30 parameters gives.\<close>

theorem sync_counts:
  assumes "validate_index_ranges rs = None"
  shows "rs \<noteq> [] \<and> expected_index_count rs = int (length (flatten_indices rs))
    \<and> (\<forall>k. k \<in> set (flatten_indices rs) \<longrightarrow> 0 \<le> k \<and> k \<le> 4096)
    \<and> pull_chunk_count rs = sum_list (map (\<lambda>(lo, hi).
        int (length (chunk_exchange_params (map (\<lambda>k. kv k ''0'') [lo..hi]) 30))) rs)"
proof -
  have v: "rs \<noteq> []" "\<And>lo hi. (lo, hi) \<in> set rs \<Longrightarrow> lo \<le> hi \<and> 0 \<le> lo \<and> hi \<le> 4096"
    using assms by (auto simp: validate_index_ranges_def validate_ranges_None split: if_splits)
  have "expected_index_count rs = int (length (flatten_indices rs))"
  proof -
    have "\<forall>(lo, hi) \<in> set rs. lo \<le> hi" using v(2) by auto
    then have "sum_list (map (\<lambda>(lo, hi). hi - lo + 1) rs) = int (length (concat (map (\<lambda>(lo, hi). [lo..hi]) rs)))"
      by (induction rs) auto
    then show ?thesis
      unfolding expected_index_count_def flatten_indices_def expected_count_append by simp
  qed
  moreover have "pull_chunk_count rs = sum_list (map (\<lambda>(lo, hi).
        int (length (chunk_exchange_params (map (\<lambda>k. kv k ''0'') [lo..hi]) 30))) rs)"
  proof -
    have "go_div (hi - lo + 1 + max_firmware_indices_per_cycle - 1) max_firmware_indices_per_cycle
        = int (length (chunk_exchange_params (map (\<lambda>k. kv k ''0'') [lo..hi]) 30))" if "(lo, hi) \<in> set rs" for lo hi
      using v(2) [OF that] chunk_partition [of "map (\<lambda>k. kv k ''0'') [lo..hi]" 30]
      by (simp add: go_div_def max_firmware_indices_per_cycle_def)
    then show ?thesis
      unfolding pull_chunk_count_def expected_count_append
      by (auto intro!: arg_cong [where f = sum_list])
  qed
  moreover have "0 \<le> k \<and> k \<le> 4096" if "k \<in> set (flatten_indices rs)" for k
    using that v(2) unfolding flatten_indices_def by fastforce
  ultimately show ?thesis using v(1) by blast
qed

theorem sync_counts_witness:
  "expected_index_count [(13, 96), (349, 352)] = 88 \<and> pull_chunk_count [(13, 96), (349, 352)] = 4
   \<and> length (flatten_indices [(13, 96), (349, 352)]) = 88"
proof -
  have "validate_index_ranges [(13, 96), (349, 352)] = None" "expected_index_count [(13, 96), (349, 352)] = 88"
    "pull_chunk_count [(13, 96), (349, 352)] = 4" by code_simp+
  then show ?thesis using sync_counts [of "[(13, 96), (349, 352)]"] by simp
qed

text \<open>C19. Whatever gateways report, and whatever statements fail: the status of every run is one of
  the five of the protocol, a running run has a start, a finished run has a start and an end.
  Progress and start requests of one gateway never touch the runs of another.\<close>

theorem sync_runs_consistent:
  assumes "sync_runs d0 = []" "sync_step\<^sup>*\<^sup>* d0 d"
  shows "list_all run_wf (sync_runs d)
    \<and> other_runs g (snd (run_state (append_sync_run_progress rid g req) d)) = other_runs g d
    \<and> other_runs g (snd (run_state (start_sync_run rid g) d)) = other_runs g d"
  using run_life.inv_reachable [of d0 d, OF assms] append_other_runs start_other_runs
  by (simp add: sync_inv_def keepsD_snd)

theorem sync_runs_consistent_witness:
  "\<exists>d. sync_step\<^sup>*\<^sup>* empty_db d \<and> list_all run_wf (sync_runs d) \<and> map sr_status (sync_runs d) = [''running'']"
proof -
  define d1 where "d1 = snd (run_state (ignore (create_sync_profile \<lparr>uq_gateway = [], uq_name = ''p'',
     uq_ranges = [(1, 2)], uq_interval = 0, uq_cron = None, uq_pull = None, uq_push = None,
     uq_enabled = None, uq_exclude = []\<rparr>)) empty_db)"
  define d2 where "d2 = snd (run_state (ignore (create_sync_run ''r0'' ''g'' 2 ''m'')) d1)"
  define d3 where "d3 = snd (run_state (ignore (start_sync_run ''r1'' ''g'')) d2)"
  have "sync_step empty_db d1" "sync_step d1 d2" "sync_step d2 d3"
    unfolding sync_step_def d1_def d2_def d3_def by (blast intro: sync_op.intros)+
  then have st: "sync_step\<^sup>*\<^sup>* empty_db d3" by auto
  have z: "itoa 0 = ''0''" "itoa 1 = ''1''" by code_simp+
  have "map sr_status (sync_runs d3) = [''running'']"
    unfolding d3_def d2_def d1_def
    by (simp add: create_sync_profile_def validate_index_ranges_def create_sync_run_def start_sync_run_def
        get_sync_run_def get_sync_profile_def first_row_def empty_db_def z sync_status_defs Let_def)
  moreover have e: "sync_runs empty_db = []" by (simp add: empty_db_def)
  have "list_all run_wf (sync_runs d3)" using sync_runs_consistent [OF e st] by (rule conjunct1)
  ultimately show ?thesis using st by (intro exI conjI)
qed

end
