(* ===== verification/PortalHandlers.thy ===== *)
theory PortalHandlers
  imports Middleware Inventory Scenario SyncStore
begin

text \<open>
  The handlers of the user portal and of the gateways (internal/handlers: portal.go, gateway.go,
  gateway_sync.go, gateway_sync_profile.go, scenarios.go, light_timers.go, light_names.go). A handler is a
  program on the database that ends with an answer; its arguments are the address of the signed in
  user or the identifier of the gateway (put into the context by the middlewares), the request
  where it is tested for a dry run, the parameters of the path, and the decoded body (\<open>None\<close> when it
  does not decode). A panic is answered by \<open>recovered\<close>. The inventory is always present.
\<close>

section \<open>Answers\<close>

record history_item =
  hi_guid :: string
  hi_info :: string
  hi_done :: bool
  hi_timestamp :: instant

record scenario_slot_summary =
  ss_slot :: int
  ss_label :: string
  ss_base :: int
  ss_end :: int
  ss_editable :: bool
  ss_last_launched :: "int option"

record scenario_slot_detail = scenario_slot_summary +
  ss_params :: "exchange_kv list"

record light_timer_view =
  tv_id :: string
  tv_label :: string
  tv_key :: int
  tv_minutes :: "int option"

record light_name_view =
  nv_id :: string
  nv_default :: string
  nv_name :: "string option"
  nv_version :: int
  nv_updated_at :: "instant option"

datatype (plugins only: code) portal_json =
    StatusJson string
  | LinkRequestJson link_request
  | LinkStatusJson "link_request option" "int option" "string option" "int option" bool
  | OnlineJson bool
  | SessionJson portal_session_response
  | InjectJson string "exchange_kv list"
  | InjectBatchJson "string list" "exchange_kv list" nat nat
  | DryRunOk "exchange_kv list"
  | DryRunFailed string
  | LinkRequestsJson "link_request_admin_view list"
  | ExchangeJson "exchange_kv list" bool string "instant option"
  | HistoryJson "history_item option"
  | ActionsJson "cloud_action list"
  | RegisteredJson string int string string
  | GatewaySessionsJson "gateway_session list"
  | SyncConfigJson "sync_profile list" "sync_run list"
  | SyncRunJson "sync_run option"
  | SyncProfileJson sync_profile
  | SlotsJson "scenario_slot_summary list"
  | SlotJson scenario_slot_detail
  | GuidsJson "string list"
  | ScenarioActionJson string int
  | BitmasksJson "bitmask_field list"
  | TimersJson "light_timer_view list"
  | TimerQueuedJson string int string "exchange_kv list option"
  | NamesJson "light_name_view list"
  | NameDryRunJson light_name_entry "string option"
  | NameSavedJson light_name_view

type_synonym portal_answer = "portal_json answer"

definition http_error :: "nat \<Rightarrow> string \<Rightarrow> portal_answer io" where
  "http_error code msg = State_Monad.return (HttpError code msg)"

definition write_json :: "nat \<Rightarrow> portal_json \<Rightarrow> portal_answer io" where
  "write_json code body = State_Monad.return (Answer code body)"

definition write_lt_error :: "nat \<Rightarrow> string \<Rightarrow> portal_answer io" where
  "write_lt_error code msg = State_Monad.return (ErrorJson code msg)"

text \<open>\<open>testmode.WriteOK\<close> and \<open>testmode.WriteFailed\<close>.\<close>

definition write_ok :: "exchange_kv list \<Rightarrow> portal_answer io" where
  "write_ok validated = write_json 200 (DryRunOk validated)"

definition write_failed :: "string \<Rightarrow> portal_answer io" where
  "write_failed message = write_json 422 (DryRunFailed message)"

section \<open>Portal access\<close>

definition user_portal_access :: "user_profile \<Rightarrow> bool io" where
  "user_portal_access u =
     (if \<not> user_portal_access_eligible (up_machine u) (up_gateway u) (up_armoire u) then State_Monad.return False
      else user_has_approved_link (up_id u))"

definition require_portal_access :: "string \<Rightarrow> bool io" where
  "require_portal_access email = do {
     r \<leftarrow> get_profile_by_email email;
     case r of Inl _ \<Rightarrow> State_Monad.return False | Inr u \<Rightarrow> user_portal_access u }"

definition effective_stale_ttl :: "duration \<Rightarrow> duration" where
  "effective_stale_ttl ttl = (if ttl \<le> 0 then 120 * second else ttl)"

section \<open>Link requests and sessions\<close>

definition health :: "portal_answer io" where
  "health = write_json 200 (StatusJson ''ok'')"

record link_request_body =
  lb_machine_serial :: string
  lb_message :: string

definition h_create_link_request :: "string \<Rightarrow> link_request_body option \<Rightarrow> portal_answer io" where
  "h_create_link_request email body = do {
     r \<leftarrow> get_profile_by_email email;
     case r of
       Inl _ \<Rightarrow> http_error 404 ''User not found''
     | Inr u \<Rightarrow>
         if up_gateway u \<noteq> None \<and> \<not> is_remote_eligible_gateway (up_gateway u)
         then http_error 403 ''Gateway not eligible for remote portal''
         else (case body of
             None \<Rightarrow> http_error 400 ''machine_serial required''
           | Some b \<Rightarrow>
               if lb_machine_serial b = [] then http_error 400 ''machine_serial required''
               else do {
                 lr \<leftarrow> create_link_request (up_id u) (lb_machine_serial b) (lb_message b);
                 case lr of
                   Inl _ \<Rightarrow> http_error 500 ''Failed to create request''
                 | Inr l \<Rightarrow> write_json 201 (LinkRequestJson l) }) }"

definition link_request_status :: "string \<Rightarrow> portal_answer io" where
  "link_request_status email = do {
     r \<leftarrow> get_profile_by_email email;
     case r of
       Inl _ \<Rightarrow> http_error 404 ''User not found''
     | Inr u \<Rightarrow> do {
         lr \<leftarrow> get_latest_link_request (up_id u);
         approved \<leftarrow> user_has_approved_link (up_id u);
         let portal_access = approved \<and> user_portal_access_eligible (up_machine u) (up_gateway u) (up_armoire u);
         write_json 200 (LinkStatusJson (case lr of Inl _ \<Rightarrow> None | Inr l \<Rightarrow> Some l)
           (up_machine u) (up_gateway u) (up_armoire u) portal_access) } }"

text \<open>A query whose error is dropped leaves the zero value.\<close>

definition online_or_false :: "string \<Rightarrow> bool io" where
  "online_or_false gateway_id = do {
     r \<leftarrow> is_gateway_online gateway_id online_timeout;
     State_Monad.return (case r of Inl _ \<Rightarrow> False | Inr b \<Rightarrow> b) }"

definition gateway_status_handler :: "string \<Rightarrow> portal_answer io" where
  "gateway_status_handler email = do {
     r \<leftarrow> get_profile_by_email email;
     case r of
       Inl _ \<Rightarrow> write_json 200 (OnlineJson False)
     | Inr u \<Rightarrow> (case up_gateway u of
         None \<Rightarrow> write_json 200 (OnlineJson False)
       | Some g \<Rightarrow> do { online \<leftarrow> online_or_false g; write_json 200 (OnlineJson online) }) }"

definition resolve_gateway :: "string \<Rightarrow> gateway_status option io" where
  "resolve_gateway gateway_id = do {
     r \<leftarrow> get_gateways;
     State_Monad.return (case r of Inl _ \<Rightarrow> None | Inr gs \<Rightarrow> find (\<lambda>g. gw_hostname g = gateway_id) gs) }"

definition machine_or_none :: "int option \<Rightarrow> machine_detail option io" where
  "machine_or_none i = (case i of
       None \<Rightarrow> State_Monad.return None
     | Some n \<Rightarrow> do {
         r \<leftarrow> get_machine_by_id n;
         State_Monad.return (case r of Inl _ \<Rightarrow> None | Inr m \<Rightarrow> Some m) })"

definition resolve_armoire :: "int option \<Rightarrow> int option \<Rightarrow> machine_detail option io" where
  "resolve_armoire armoire_id machine_id = do {
     a \<leftarrow> machine_or_none armoire_id;
     case a of Some m \<Rightarrow> State_Monad.return (Some m) | None \<Rightarrow> machine_or_none machine_id }"

definition portal_gateway :: "user_profile \<Rightarrow> portal_gateway_info option io" where
  "portal_gateway u = (case up_gateway u of
       None \<Rightarrow> State_Monad.return None
     | Some g \<Rightarrow>
         if \<not> is_remote_eligible_gateway (up_gateway u) then State_Monad.return None
         else do {
           online \<leftarrow> online_or_false g;
           gw \<leftarrow> resolve_gateway g;
           State_Monad.return (Some (case gw of
               Some s \<Rightarrow> \<lparr>pg_id = g, pg_hostname = gw_hostname s, pg_ip = gw_ip s, pg_online = online,
                          pg_last_seen = gw_last_seen s\<rparr>
             | None \<Rightarrow> \<lparr>pg_id = g, pg_hostname = [], pg_ip = [], pg_online = online,
                          pg_last_seen = zero_time\<rparr>)) })"

definition portal_session :: "string \<Rightarrow> portal_answer io" where
  "portal_session email = do {
     r \<leftarrow> get_profile_by_email email;
     case r of
       Inl _ \<Rightarrow> http_error 404 ''User not found''
     | Inr u \<Rightarrow> do {
         access \<leftarrow> user_portal_access u;
         gateway \<leftarrow> portal_gateway u;
         armoire \<leftarrow> (if access then resolve_armoire (up_armoire u) (up_machine u) else State_Monad.return None);
         nw \<leftarrow> now;
         write_json 200 (SessionJson (new_portal_session_response u access gateway armoire nw)) } }"

section \<open>Orders\<close>

record inject_body =
  ib_k :: int
  ib_v :: string
  ib_guid :: string

definition inject :: "http_request \<Rightarrow> string \<Rightarrow> inject_body option \<Rightarrow> portal_answer io" where
  "inject r email body = do {
     res \<leftarrow> get_profile_by_email email;
     case res of
       Inl _ \<Rightarrow> http_error 404 ''User not found''
     | Inr u \<Rightarrow> do {
         access \<leftarrow> user_portal_access u;
         if \<not> access then http_error 403 ''Portal access not approved''
         else (case body of
             None \<Rightarrow> http_error 400 ''Invalid body''
           | Some b \<Rightarrow> do {
               guid \<leftarrow> (if ib_guid b = [] then draw else State_Monad.return (ib_guid b));
               let params = expand_legacy_scenario_block [kv (ib_k b) (ib_v b)];
               if is_dry_run r then
                 (if chunk_exchange_params params max_firmware_params_per_action = []
                  then write_failed ''no params'' else write_ok params)
               else do {
                 e \<leftarrow> enqueue_cloud_action guid (up_id u) (up_machine u) params;
                 case e of
                   Inl _ \<Rightarrow> http_error 500 ''Enqueue failed''
                 | Inr _ \<Rightarrow> do {
                     ignore (audit_log_portal email ''portal_inject'');
                     write_json 200 (InjectJson guid params) } } }) } }"

text \<open>One action per chunk, each with its own identifier; the first failure ends the loop.\<close>

fun enqueue_chunks :: "int \<Rightarrow> int option \<Rightarrow> exchange_kv list list \<Rightarrow> string list dbop" where
  "enqueue_chunks user_id machine_id [] = State_Monad.return (Inr [])"
| "enqueue_chunks user_id machine_id (chunk # chunks) = do {
     guid \<leftarrow> draw;
     andThen (enqueue_cloud_action guid user_id machine_id chunk) (\<lambda>_.
       andThen (enqueue_chunks user_id machine_id chunks) (\<lambda>guids.
         State_Monad.return (Inr (guid # guids)))) }"

definition inject_batch :: "http_request \<Rightarrow> string \<Rightarrow> inject_body list option \<Rightarrow> portal_answer io" where
  "inject_batch r email body = do {
     res \<leftarrow> get_profile_by_email email;
     case res of
       Inl _ \<Rightarrow> http_error 404 ''User not found''
     | Inr u \<Rightarrow> do {
         access \<leftarrow> user_portal_access u;
         if \<not> access then http_error 403 ''Portal access not approved''
         else (case body of
             None \<Rightarrow> http_error 400 ''params required''
           | Some ps \<Rightarrow>
               if ps = [] then http_error 400 ''params required''
               else if length ps > 96 then http_error 400 ''too many params (max 96)''
               else do {
                 let params = expand_legacy_scenario_block (map (\<lambda>p. kv (ib_k p) (ib_v p)) ps);
                 let chunks = chunk_exchange_params params max_firmware_params_per_action;
                 if is_dry_run r then
                   (if chunks = [] then write_failed ''no params'' else write_ok params)
                 else do {
                   e \<leftarrow> enqueue_chunks (up_id u) (up_machine u) chunks;
                   case e of
                     Inl _ \<Rightarrow> http_error 500 ''Enqueue failed''
                   | Inr guids \<Rightarrow> (case up_machine u of
                       None \<Rightarrow> State_Monad.return recovered
                     | Some m \<Rightarrow> do {
                         ignore (upsert_gateway_exchange m params);
                         ignore (audit_log_portal email ''portal_inject_batch'');
                         (if guids = [] then State_Monad.return recovered
                          else write_json 200 (InjectBatchJson guids params (length params) (length chunks))) }) } }) } }"

definition alarm_params :: "string \<Rightarrow> string \<Rightarrow> exchange_kv list" where
  "alarm_params alarme code =
     [kv 409 (if alarme = ''on'' then ''1'' else ''0''), kv 410 (take 2 code), kv 411 (take 2 (drop 2 code)),
      kv 307 ''0'']"

definition post_web_actions :: "http_request \<Rightarrow> string \<Rightarrow> (string \<times> string) option \<Rightarrow> portal_answer io" where
  "post_web_actions r email body = do {
     res \<leftarrow> get_profile_by_email email;
     case res of
       Inl _ \<Rightarrow> http_error 404 ''User not found''
     | Inr u \<Rightarrow> do {
         access \<leftarrow> user_portal_access u;
         if \<not> access then http_error 403 ''Portal access not approved''
         else (case body of
             None \<Rightarrow> http_error 400 ''Invalid body''
           | Some (alarme, code) \<Rightarrow>
               if alarme = [] \<or> length code \<noteq> 4 then http_error 400 ''alarme and 4-digit codealarme required''
               else if is_dry_run r then write_ok (alarm_params alarme code)
               else do {
                 guid \<leftarrow> draw;
                 e \<leftarrow> enqueue_cloud_action guid (up_id u) (up_machine u) (alarm_params alarme code);
                 case e of
                   Inl _ \<Rightarrow> http_error 500 ''Enqueue failed''
                 | Inr _ \<Rightarrow> do {
                     ignore (audit_log_portal email ''portal_alarm'');
                     write_json 200 (StatusJson ''ok'') } }) } }"

section \<open>Review of link requests\<close>

definition list_pending_link_requests :: "string \<Rightarrow> portal_answer io" where
  "list_pending_link_requests status_param =
     (let flt = (if status_param = [] then ''pending'' else status_param) in
      if flt \<notin> {''pending'', ''history'', ''all''}
      then http_error 400 ''Invalid status filter (pending, history, all)''
      else do {
        r \<leftarrow> list_link_requests_admin flt 100;
        case r of
          Inl _ \<Rightarrow> http_error 500 ''List failed''
        | Inr rows \<Rightarrow> write_json 200 (LinkRequestsJson rows) })"

definition review_link_request :: "string \<Rightarrow> string \<Rightarrow> string option \<Rightarrow> portal_answer io" where
  "review_link_request i reviewer body = (case body of
       None \<Rightarrow> http_error 400 ''Invalid body''
     | Some st \<Rightarrow>
         if st \<noteq> link_status_approved \<and> st \<noteq> link_status_rejected then http_error 400 ''Invalid status''
         else (case sscanf_d i of
             None \<Rightarrow> http_error 400 ''Invalid id''
           | Some req_id \<Rightarrow> do {
               r \<leftarrow> update_link_request_status req_id st reviewer;
               case r of
                 Inl _ \<Rightarrow> http_error 500 ''Update failed''
               | Inr _ \<Rightarrow> write_json 200 (StatusJson st) }))"

section \<open>The exchange table and the history\<close>

definition exchange_view :: "duration \<Rightarrow> instant \<Rightarrow> goerr + (exchange_kv list \<times> instant) \<Rightarrow>
    goerr + (exchange_kv list \<times> instant) \<Rightarrow> int list \<Rightarrow> portal_json" where
  "exchange_view ttl nw cache tel requested =
     (let values = merge_exchange_keys (case cache of Inl _ \<Rightarrow> [] | Inr (c, _) \<Rightarrow> c)
                     (case tel of Inl _ \<Rightarrow> [] | Inr (t, _) \<Rightarrow> t) requested;
          (source, stale, updated_at) = (case (cache, tel) of
              (Inr (_, cu), Inr (_, tu)) \<Rightarrow> (''gateway_cache+mystatus'', time_sub nw cu > ttl, if tu > cu then tu else cu)
            | (Inr (_, cu), Inl _) \<Rightarrow> (''gateway_cache'', time_sub nw cu > ttl, cu)
            | (Inl _, Inr (_, tu)) \<Rightarrow> (''mystatus'', True, tu)
            | (Inl _, Inl _) \<Rightarrow> (''none'', True, zero_time))
      in ExchangeJson values stale source (if is_zero updated_at then None else Some updated_at))"

definition get_exchange :: "duration \<Rightarrow> string \<Rightarrow> string \<Rightarrow> portal_answer io" where
  "get_exchange ttl email keys_param = do {
     ok \<leftarrow> require_portal_access email;
     if \<not> ok then http_error 403 ''Forbidden''
     else (case parse_key_list keys_param of
         Inl _ \<Rightarrow> http_error 400 ''Missing or invalid keys''
       | Inr requested \<Rightarrow> do {
           r \<leftarrow> get_profile_by_email email;
           case r of
             Inl _ \<Rightarrow> http_error 403 ''Forbidden''
           | Inr u \<Rightarrow> (case up_machine u of
               None \<Rightarrow> http_error 403 ''Forbidden''
             | Some m \<Rightarrow> do {
                 nw \<leftarrow> now;
                 cache \<leftarrow> get_gateway_exchange m;
                 tel \<leftarrow> get_machine_telemetry (itoa m);
                 write_json 200 (exchange_view ttl nw cache tel requested) }) }) }"

definition get_history_latest :: "string \<Rightarrow> portal_answer io" where
  "get_history_latest email = do {
     r \<leftarrow> get_profile_by_email email;
     case r of
       Inl _ \<Rightarrow> http_error 404 ''User not found''
     | Inr u \<Rightarrow> do {
         a \<leftarrow> get_last_cloud_action_for_user (up_id u);
         case a of
           Inl _ \<Rightarrow> write_json 200 (HistoryJson None)
         | Inr act \<Rightarrow> write_json 200 (HistoryJson (Some
             \<lparr>hi_guid = ca_guid act,
              hi_info = (case ca_params act of
                  [] \<Rightarrow> ''Cloud action (0 params)''
                | p # _ \<Rightarrow> ''k='' @ itoa (k_of p)),
              hi_done = (ca_status act = ActionDone),
              hi_timestamp = ca_created_at act\<rparr>)) } }"

section \<open>Library: access\<close>

text \<open>The account of an address, and whether it may use the portal.\<close>

definition account_of :: "db \<Rightarrow> string \<Rightarrow> user option" where
  "account_of d email = find (\<lambda>u. u_email u = email) (users d)"

definition approved_link :: "db \<Rightarrow> int \<Rightarrow> bool" where
  "approved_link d i \<longleftrightarrow> (\<exists>lr \<in> set (link_requests d). lr_user lr = i \<and> lr_status lr = link_status_approved)"

definition portal_access :: "db \<Rightarrow> user \<Rightarrow> bool" where
  "portal_access d u \<longleftrightarrow> u_machine u \<noteq> None
     \<and> (names_gateway (u_gateway u) \<longrightarrow> is_remote_eligible_gateway (u_gateway u)) \<and> approved_link d (u_id u)"

lemma untouched_tables [simp]:
  assumes "untouched d d1"
  shows "account_of d1 email = account_of d email" "portal_access d1 u = portal_access d u"
    "cloud_actions d1 = cloud_actions d" "clock d1 = clock d"
  using assms by (auto simp: untouched_def account_of_def portal_access_def approved_link_def)

lemma run_profile:
  assumes "run_state (get_profile_by_email email) d = (r, d1)"
  shows "untouched d d1" "r = Inr p \<Longrightarrow> \<exists>u. account_of d email = Some u \<and> p = to_profile u"
    "r = Inl e \<Longrightarrow> faults d = [] \<Longrightarrow> account_of d email = None"
proof -
  from assms obtain bs where bs: "d1 = d\<lparr>faults := bs\<rparr>"
    "r = Inl ConnError \<or> r = (case first_row (\<lambda>u. u_email u = email) (users d) of Inl e \<Rightarrow> Inl e | Inr u \<Rightarrow> Inr (to_profile u))"
    unfolding get_profile_by_email_def by (auto elim!: query_cases)
  then show "untouched d d1" by simp
  show "r = Inr p \<Longrightarrow> \<exists>u. account_of d email = Some u \<and> p = to_profile u"
    using bs(2) by (auto simp: account_of_def first_row_def split: option.splits)
  show "account_of d email = None" if "r = Inl e" "faults d = []"
  proof (rule ccontr)
    assume "account_of d email \<noteq> None"
    then show False using assms that
      by (auto simp: get_profile_by_email_def account_of_def first_row_def split: option.splits)
  qed
qed

lemma run_profile_ok:
  assumes "faults d = []" "account_of d email = Some u"
  shows "run_state (get_profile_by_email email) d = (Inr (to_profile u), d)"
  using assms by (simp add: get_profile_by_email_def account_of_def first_row_def)

lemma approved_top:
  "(case top_row (order_desc lr_created_at
      (filter (\<lambda>r. lr_user r = i \<and> lr_status r = link_status_approved) (link_requests d))) of
      Inl _ \<Rightarrow> False | Inr lr \<Rightarrow> lr_status lr = link_status_approved) \<longleftrightarrow> approved_link d i"
proof -
  let ?rows = "order_desc lr_created_at (filter (\<lambda>r. lr_user r = i \<and> lr_status r = link_status_approved) (link_requests d))"
  have s: "set ?rows = {r \<in> set (link_requests d). lr_user r = i \<and> lr_status r = link_status_approved}" by auto
  show ?thesis
  proof (cases ?rows)
    case Nil
    then show ?thesis using s by (auto simp: top_row_def approved_link_def)
  next
    case (Cons r rs)
    then have "r \<in> set ?rows" by simp
    then show ?thesis using Cons unfolding s by (auto simp: top_row_def approved_link_def)
  qed
qed

lemma run_approved:
  assumes "run_state (user_has_approved_link i) d = (b, d1)"
  shows "untouched d d1" "b \<Longrightarrow> approved_link d i" "faults d = [] \<Longrightarrow> b \<longleftrightarrow> approved_link d i"
proof -
  let ?q = "\<lambda>d. top_row (order_desc lr_created_at
      (filter (\<lambda>r. lr_user r = i \<and> lr_status r = link_status_approved) (link_requests d)))"
  obtain r where r: "run_state (query ?q) d = (r, d1)" "b = (case r of Inl _ \<Rightarrow> False | Inr lr \<Rightarrow> lr_status lr = link_status_approved)"
    using assms by (auto simp: user_has_approved_link_def split: prod.splits)
  then obtain bs where bs: "d1 = d\<lparr>faults := bs\<rparr>" "r = Inl ConnError \<or> r = ?q d" by (auto elim!: query_cases)
  show "untouched d d1" using bs by simp
  have ok: "b \<longleftrightarrow> approved_link d i" if "r = ?q d"
    unfolding r(2) that by (rule approved_top)
  show "b \<Longrightarrow> approved_link d i" using bs(2) r(2) ok by (elim disjE) simp_all
  show "faults d = [] \<Longrightarrow> b \<longleftrightarrow> approved_link d i" using r(1) by (intro ok) auto
qed

lemma run_access:
  assumes "run_state (user_portal_access (to_profile u)) d = (b, d1)"
  shows "untouched d d1" "b \<Longrightarrow> portal_access d u" "faults d = [] \<Longrightarrow> b \<longleftrightarrow> portal_access d u"
  using assms run_approved [of "u_id u" d b d1]
  by (auto simp: user_portal_access_def to_profile_def portal_access_iff portal_access_def split: if_splits)

lemma run_access_ok:
  assumes "faults d = []" "portal_access d u"
  shows "run_state (user_portal_access (to_profile u)) d = (True, d)"
proof -
  obtain b d1 where r: "run_state (user_portal_access (to_profile u)) d = (b, d1)" by fastforce
  have "d1 = d" using r assms(1)
    by (auto simp: user_portal_access_def user_has_approved_link_def split: if_splits)
  then show ?thesis using r run_access(3) [OF r assms(1)] assms(2) by simp
qed

lemma run_require:
  assumes "run_state (require_portal_access email) d = (b, d1)"
  shows "untouched d d1" "b \<Longrightarrow> \<exists>u. account_of d email = Some u \<and> portal_access d u"
proof -
  obtain r d2 where r: "run_state (get_profile_by_email email) d = (r, d2)" by fastforce
  note p = run_profile [OF r]
  have "untouched d d1 \<and> (b \<longrightarrow> (\<exists>u. account_of d email = Some u \<and> portal_access d u))"
  proof (cases r)
    case (Inl e)
    then have "b = False \<and> d1 = d2" using assms r by (simp add: require_portal_access_def)
    then show ?thesis using p(1) by simp
  next
    case (Inr q)
    then obtain u where u: "account_of d email = Some u" "q = to_profile u" using p(2) by blast
    have "run_state (user_portal_access (to_profile u)) d2 = (b, d1)"
      using assms r Inr u(2) by (simp add: require_portal_access_def)
    note acc = run_access(1,2) [OF this]
    have "untouched d d1" by (rule untouched_trans [OF p(1) acc(1)])
    moreover have "portal_access d u" if b using acc(2) [OF that] p(1) by simp
    ultimately show ?thesis using u(1) by blast
  qed
  then show "untouched d d1" "b \<Longrightarrow> \<exists>u. account_of d email = Some u \<and> portal_access d u" by auto
qed

text \<open>
  The beginning of the handlers that read the account, then check access. What follows runs for an
  account with access, or answers a refusal.
\<close>

definition granted :: "db \<Rightarrow> string \<Rightarrow> user \<Rightarrow> db \<Rightarrow> bool" where
  "granted d email u d1 \<longleftrightarrow> untouched d d1 \<and> account_of d email = Some u \<and> portal_access d u"

lemma access_cases:
  assumes "run_state (do { r \<leftarrow> get_profile_by_email email;
      case r of Inl e \<Rightarrow> f e | Inr p \<Rightarrow> do { access \<leftarrow> user_portal_access p; if \<not> access then g p else k p } }) d = (a, d')"
  obtains (unknown) e d1 where "untouched d d1" "run_state (f e) d1 = (a, d')"
    | (denied) p d1 where "untouched d d1" "run_state (g p) d1 = (a, d')"
    | (granted) u d1 where "granted d email u d1" "run_state (k (to_profile u)) d1 = (a, d')"
proof -
  obtain r d2 where r: "run_state (get_profile_by_email email) d = (r, d2)" by fastforce
  note p = run_profile [OF r]
  show thesis
  proof (cases r)
    case (Inl e)
    then show thesis using unknown [of d2 e] assms r p(1) by simp
  next
    case (Inr q)
    then obtain u where u: "account_of d email = Some u" "q = to_profile u" using p(2) by blast
    obtain b d1 where b: "run_state (user_portal_access (to_profile u)) d2 = (b, d1)" by fastforce
    note acc = run_access [OF b]
    have t: "untouched d d1" using p(1) acc(1) untouched_trans by blast
    show thesis
    proof (cases b)
      case True
      then have "granted d email u d1" using t u acc(2) p(1) by (simp add: granted_def)
      then show thesis using granted assms r Inr u b True by simp
    next
      case False
      then show thesis using denied [OF t] assms r Inr u b by simp
    qed
  qed
qed

section \<open>Library: orders\<close>

text \<open>What a handler may do to the queue for a user: append pending actions for the user's machine.\<close>

definition ordered_by :: "int \<Rightarrow> int option \<Rightarrow> db \<Rightarrow> db \<Rightarrow> bool" where
  "ordered_by uid m d d' \<longleftrightarrow> (\<exists>new. cloud_actions d' = cloud_actions d @ new
     \<and> (\<forall>a \<in> set new. ca_user a = uid \<and> ca_machine a = m \<and> ca_status a = ActionPending))"

lemma ordered_by_pre: "preorder_rel (ordered_by uid m)"
proof
  show "ordered_by uid m d d" for d unfolding ordered_by_def by (intro exI [of _ "[]"]) simp
  show "ordered_by uid m d (d\<lparr>faults := bs\<rparr>)" for d bs unfolding ordered_by_def by (intro exI [of _ "[]"]) simp
  show "ordered_by uid m d1 d3" if "ordered_by uid m d1 d2" "ordered_by uid m d2 d3" for d1 d2 d3
    using that unfolding ordered_by_def by (metis Un_iff append.assoc set_append)
qed

lemma ordered_by_same [simp]: "cloud_actions d' = cloud_actions d \<Longrightarrow> ordered_by uid m d d'"
  unfolding ordered_by_def by simp

lemma enqueue_ordered: "state_io_rel (ordered_by uid m) (enqueue_cloud_action guid uid m params)"
  unfolding enqueue_cloud_action_def
  by (rule io_exec [OF ordered_by_pre]) (auto simp: ordered_by_def)

text \<open>Programs that leave the queue alone.\<close>

lemma keeps_queue_ordered: "keeps cloud_actions p \<Longrightarrow> state_io_rel (ordered_by uid m) p"
  unfolding keeps_def state_io_rel_def by simp

lemma queue_pre: "preorder_rel (\<lambda>d d'. cloud_actions d' = cloud_actions d)"
  by (rule keeps_preorder) simp

lemma keeps_queue [io_intros]:
  "keeps cloud_actions draw" "keeps cloud_actions (audit_log_portal email action)"
  "keeps cloud_actions (upsert_gateway_exchange k keys)"
  unfolding audit_log_portal_def upsert_gateway_exchange_def get_gateway_exchange_def Let_def
  by (intro keepsI io_intros queue_pre; simp add: put_exchange_cache_def Let_def)+

lemmas answer_defs = http_error_def write_json_def write_ok_def write_failed_def write_lt_error_def

lemma enqueue_chunks_ordered: "state_io_rel (ordered_by uid m) (enqueue_chunks uid m chunks)"
proof (induction chunks)
  case (Cons c cs)
  show ?case unfolding enqueue_chunks.simps
    by (intro io_intros ordered_by_pre enqueue_ordered Cons) simp
qed (simp add: io_return [OF ordered_by_pre])

text \<open>
  The effect of a request on the queue, seen from outside: actions are only appended, and every new one
  was asked for by the account of the address, which has access, and is meant for its machine.
\<close>

definition orders_of :: "string \<Rightarrow> db \<Rightarrow> db \<Rightarrow> bool" where
  "orders_of email d d' \<longleftrightarrow> (\<exists>new. cloud_actions d' = cloud_actions d @ new
     \<and> (\<forall>a \<in> set new. \<exists>u. account_of d email = Some u \<and> portal_access d u
          \<and> ca_user a = u_id u \<and> ca_machine a = u_machine u \<and> ca_status a = ActionPending))"

lemma orders_of_untouched: "untouched d d' \<Longrightarrow> orders_of email d d'"
  unfolding orders_of_def by (intro exI [of _ "[]"]) simp

lemma orders_of_granted:
  assumes g: "granted d email u d1" and k: "state_io_rel (ordered_by (u_id u) (u_machine u)) k"
    and run: "run_state k d1 = (a, d')"
  shows "orders_of email d d'"
proof -
  have "ordered_by (u_id u) (u_machine u) d1 d'" using k run by blast
  then show ?thesis using g unfolding granted_def ordered_by_def orders_of_def by auto
qed

lemma run_answers [simp]:
  "run_state (http_error c m) d = (HttpError c m, d)" "run_state (write_json c b) d = (Answer c b, d)"
  "run_state (write_lt_error c m) d = (ErrorJson c m, d)"
  by (simp_all add: answer_defs)

lemma answers_ordered [io_intros]:
  assumes "preorder_rel R"
  shows "state_io_rel R (http_error c m)" "state_io_rel R (write_json c b)" "state_io_rel R (write_lt_error c m)"
    "state_io_rel R (write_ok ps)" "state_io_rel R (write_failed msg)"
  using assms by (simp_all add: answer_defs io_return)

lemma profile_fields [simp]:
  "up_id (to_profile u) = u_id u" "up_machine (to_profile u) = u_machine u" "up_gateway (to_profile u) = u_gateway u"
  "up_role (to_profile u) = u_role u" "up_email (to_profile u) = u_email u"
  by (simp_all add: to_profile_def)

lemmas order_intros = io_intros ordered_by_pre enqueue_ordered enqueue_chunks_ordered
  keeps_queue_ordered keeps_queue

lemma inject_orders:
  assumes run: "run_state (inject r email body) d = (a, d')"
  shows "orders_of email d d'"
  using run unfolding inject_def
proof (cases rule: access_cases)
  case (granted u d1)
  show ?thesis
    by (rule orders_of_granted [OF granted(1) _ granted(2)]) (unfold Let_def profile_fields, intro order_intros)
qed (auto intro: orders_of_untouched)

lemma inject_batch_orders:
  assumes run: "run_state (inject_batch r email body) d = (a, d')"
  shows "orders_of email d d'"
  using run unfolding inject_batch_def
proof (cases rule: access_cases)
  case (granted u d1)
  show ?thesis
    by (rule orders_of_granted [OF granted(1) _ granted(2)]) (unfold Let_def profile_fields, intro order_intros)
qed (auto intro: orders_of_untouched)

lemma post_web_actions_orders:
  assumes run: "run_state (post_web_actions r email body) d = (a, d')"
  shows "orders_of email d d'"
  using run unfolding post_web_actions_def
proof (cases rule: access_cases)
  case (granted u d1)
  show ?thesis
    by (rule orders_of_granted [OF granted(1) _ granted(2)]) (unfold Let_def profile_fields, intro order_intros)
qed (auto intro: orders_of_untouched)

section \<open>Library: a batch reaches the queue\<close>

text \<open>
  Identifiers come from crypto/rand. That a draw gives a new one is what the program relies on: an
  insert with a known identifier is dropped.
\<close>

definition drawn :: "nat \<Rightarrow> db \<Rightarrow> string list" where
  "drawn n d = map (\<lambda>i. random d (draws d + i)) [0..<n]"

definition fresh_draws :: "nat \<Rightarrow> db \<Rightarrow> bool" where
  "fresh_draws n d \<longleftrightarrow> distinct (map ca_guid (cloud_actions d) @ drawn n d)"

definition action_row :: "int \<Rightarrow> int option \<Rightarrow> instant \<Rightarrow> string \<Rightarrow> exchange_kv list \<Rightarrow> cloud_action" where
  "action_row uid m t guid params = \<lparr>ca_guid = guid, ca_user = uid, ca_machine = m, ca_params = params,
     ca_status = ActionPending, ca_created_at = t, ca_delivered_at = None, ca_done_at = None\<rparr>"

lemma drawn_Suc: "drawn (Suc n) d = random d (draws d) # drawn n (d\<lparr>draws := Suc (draws d), cloud_actions := as\<rparr>)"
  unfolding drawn_def by (simp add: upt_conv_Cons map_Suc_upt [symmetric] del: upt_Suc)

lemma run_enqueue_fresh:
  assumes "faults d = []" "guid \<notin> ca_guid ` set (cloud_actions d)"
  shows "run_state (enqueue_cloud_action guid uid m params) d
    = (Inr (), d\<lparr>cloud_actions := cloud_actions d @ [action_row uid m (clock d) guid params]\<rparr>)"
proof -
  have "\<not> list_ex (\<lambda>a. ca_guid a = guid) (cloud_actions d)" using assms(2) by (auto simp: list_ex_iff)
  then show ?thesis using assms(1) by (simp add: enqueue_cloud_action_def action_row_def)
qed

lemma run_enqueue_chunks:
  assumes "faults d = []" "fresh_draws (length cs) d"
  shows "run_state (enqueue_chunks uid m cs) d = (Inr (drawn (length cs) d),
    d\<lparr>draws := draws d + length cs,
      cloud_actions := cloud_actions d @ map2 (action_row uid m (clock d)) (drawn (length cs) d) cs\<rparr>)"
  using assms
proof (induction cs arbitrary: d)
  case Nil
  then show ?case by (simp add: drawn_def)
next
  case (Cons c cs)
  let ?g = "random d (draws d)"
  let ?as = "cloud_actions d @ [action_row uid m (clock d) ?g c]"
  let ?d1 = "d\<lparr>draws := Suc (draws d), cloud_actions := ?as\<rparr>"
  note dr = drawn_Suc [of "length cs" d ?as]
  have fresh: "?g \<notin> ca_guid ` set (cloud_actions d)" "fresh_draws (length cs) ?d1"
    using Cons.prems(2) dr by (auto simp: fresh_draws_def action_row_def)
  have "run_state (enqueue_cloud_action ?g uid m c) (d\<lparr>draws := Suc (draws d)\<rparr>) = (Inr (), ?d1)"
    using run_enqueue_fresh [of "d\<lparr>draws := Suc (draws d)\<rparr>" ?g uid m c] Cons.prems(1) fresh(1) by simp
  moreover have "faults ?d1 = []" using Cons.prems(1) by simp
  note IH = Cons.IH [OF this fresh(2)]
  ultimately show ?case using dr by (simp add: IH)
qed

section \<open>Library: the exchange view\<close>

definition telemetry_of :: "db \<Rightarrow> string \<Rightarrow> exchange_kv list option" where
  "telemetry_of d c = map_option tel_ek (find (\<lambda>t. tel_client_id t = c) (telemetry d))"

definition stored_map :: "exchange_kv list option \<Rightarrow> int \<rightharpoonup> string" where
  "stored_map s = (case s of None \<Rightarrow> Map.empty | Some ps \<Rightarrow> kv_map ps)"

lemma kv_map_view:
  "kv_map (merge_exchange_keys ps ss ks) k = (if k \<in> set ks \<or> ks = [] then (kv_map ss ++ kv_map ps) k else None)"
proof (cases "ks = []")
  case True
  then show ?thesis by (simp add: merge_exchange_keys_def filter_exchange_keys_def kv_map_append)
qed (simp add: kv_map_merge)

section \<open>Properties\<close>

lemma run_inject_batch:
  assumes d: "faults d = []" and u: "account_of d email = Some u" "portal_access d u" "u_machine u = Some m"
    and ps: "\<not> is_dry_run r" "ps \<noteq> []" "length ps \<le> 96"
    and params: "params = expand_legacy_scenario_block (map (\<lambda>p. kv (ib_k p) (ib_v p)) ps)"
    and chunks: "chunks = chunk_exchange_params params max_firmware_params_per_action"
    and fresh: "fresh_draws (length chunks) d"
    and d1: "d1 = d\<lparr>draws := draws d + length chunks,
      cloud_actions := cloud_actions d @ map2 (action_row (u_id u) (Some m) (clock d)) (drawn (length chunks) d) chunks\<rparr>"
    and ne: "chunks \<noteq> []"
  shows "run_state (inject_batch r email (Some ps)) d = (Answer 200 (InjectBatchJson (drawn (length chunks) d) params
      (length params) (length chunks)),
    snd (run_state (ignore (audit_log_portal email ''portal_inject_batch''))
      (put_exchange_cache m (merged_cache params (cached d1 m)) d1)))"
proof -
  have f: "faults d1 = []" using d unfolding d1 by simp
  have q: "run_state (enqueue_chunks (u_id u) (Some m) chunks) d = (Inr (drawn (length chunks) d), d1)"
    unfolding d1 by (rule run_enqueue_chunks [OF d fresh])
  have c: "run_state (upsert_gateway_exchange m params) d1 = (Inr (), put_exchange_cache m (merged_cache params (cached d1 m)) d1)"
    by (rule run_upsert_exchange [OF f])
  have "drawn (length chunks) d \<noteq> []" using ne by (simp add: drawn_def)
  then show ?thesis
    unfolding inject_batch_def Let_def
    by (simp add: run_profile_ok [OF d u(1)] run_access_ok [OF d u(2)] u(3) ps q c
        params [symmetric] chunks [symmetric] not_less)
qed

text \<open>C22. An accepted batch reaches the queue whole and in order: it is completed, cut into actions of at
  most 30 parameters that together are exactly the completed batch, and these actions are appended
  to the queue, pending, under the user's account and for the user's machine; the cached table of
  that machine takes the new values and keeps the others, and the answer names the actions. The
  hypothesis on the draws says that crypto/rand gives new identifiers.\<close>

theorem inject_batch_delivers:
  fixes ps :: "inject_body list" and params :: "exchange_kv list" and chunks :: "exchange_kv list list"
  defines "params \<equiv> expand_legacy_scenario_block (map (\<lambda>p. kv (ib_k p) (ib_v p)) ps)"
    and "chunks \<equiv> chunk_exchange_params params max_firmware_params_per_action"
  assumes "faults d = []" "account_of d email = Some u" "portal_access d u" "u_machine u = Some m"
    "\<not> is_dry_run r" "ps \<noteq> []" "length ps \<le> 96" "fresh_draws (length chunks) d"
  shows "\<exists>d' guids. run_state (inject_batch r email (Some ps)) d
        = (Answer 200 (InjectBatchJson guids params (length params) (length chunks)), d')
    \<and> length guids = length chunks
    \<and> cloud_actions d' = cloud_actions d @ map2 (action_row (u_id u) (Some m) (clock d)) guids chunks
    \<and> concat chunks = params \<and> list_all (\<lambda>c. c \<noteq> [] \<and> length c \<le> 30) chunks
    \<and> map_option kv_map (cached d' m)
        = Some ((case cached d m of None \<Rightarrow> Map.empty | Some old \<Rightarrow> kv_map old) ++ kv_map params)"
proof -
  let ?d1 = "d\<lparr>draws := draws d + length chunks,
      cloud_actions := cloud_actions d @ map2 (action_row (u_id u) (Some m) (clock d)) (drawn (length chunks) d) chunks\<rparr>"
  let ?d2 = "put_exchange_cache m (merged_cache params (cached ?d1 m)) ?d1"
  let ?d' = "snd (run_state (ignore (audit_log_portal email ''portal_inject_batch'')) ?d2)"
  have part: "concat chunks = params" "list_all (\<lambda>c. c \<noteq> [] \<and> length c \<le> 30) chunks"
    using chunk_partition [of params 30] unfolding chunks_def max_firmware_params_per_action_def
    by (auto simp: list_all_iff)
  have "params \<noteq> []"
    using assms(8) unfolding params_def expand_legacy_scenario_block_def block_keys_def
    by (simp add: set_empty [symmetric] del: set_empty)
  then have ne: "chunks \<noteq> []" using part(1) by auto
  note run = run_inject_batch [OF assms(3-9) params_def [THEN meta_eq_to_obj_eq] chunks_def [THEN meta_eq_to_obj_eq] assms(10) refl ne]
  have f2: "faults ?d2 = []" using assms(3) by (simp add: put_exchange_cache_def Let_def)
  have "cloud_actions ?d' = cloud_actions ?d1" using f2 by (simp add: audit_log_portal_def put_exchange_cache_def Let_def)
  moreover have "cached ?d' m = cached ?d2 m" using f2 by (simp add: audit_log_portal_def cached_def)
  moreover have "cached ?d2 m = Some (merged_cache params (cached d m))"
    using exchange_table.look_put_same [of m _ ?d1] by (simp add: cached_def)
  ultimately show ?thesis using run part kv_map_merged_cache [of params "cached d m"]
    by (intro exI [of _ ?d'] exI [of _ "drawn (length chunks) d"]) (simp add: drawn_def)
qed

definition sample_portal_user :: user where
  "sample_portal_user = sample_user\<lparr>u_machine := Some 7\<rparr>"

definition sample_portal_db :: db where
  "sample_portal_db = empty_db\<lparr>users := [sample_portal_user], link_requests :=
     [\<lparr>lr_id = 1, lr_user = 1, lr_serial = ''s'', lr_message = None, lr_status = link_status_approved,
       lr_reviewed_by = None, lr_reviewed_at = None, lr_created_at = 0\<rparr>]\<rparr>"

lemma sample_portal [simp]:
  "faults sample_portal_db = []" "account_of sample_portal_db ''a@b'' = Some sample_portal_user"
  "portal_access sample_portal_db sample_portal_user" "u_machine sample_portal_user = Some 7"
  "cloud_actions sample_portal_db = []" "u_id sample_portal_user = 1" "clock sample_portal_db = 0"
  "cached sample_portal_db m = None" "drawn (Suc 0) sample_portal_db = [''r0'']" "\<not> is_dry_run sample_request"
proof -
  show "drawn (Suc 0) sample_portal_db = [''r0'']" by code_simp
qed (simp_all add: sample_portal_db_def sample_portal_user_def sample_defs account_of_def portal_access_def
  approved_link_def names_gateway_def cached_def is_dry_run_def sample_request_def to_lower_def)

theorem inject_batch_delivers_witness:
  "\<exists>d' guids. run_state (inject_batch sample_request ''a@b'' (Some [\<lparr>ib_k = 349, ib_v = ''1'', ib_guid = []\<rparr>]))
       sample_portal_db = (Answer 200 (InjectBatchJson guids [kv 349 ''1''] 1 1), d')
     \<and> map ca_params (cloud_actions d') = [[kv 349 ''1'']]"
proof -
  let ?ps = "[\<lparr>ib_k = 349, ib_v = ''1'', ib_guid = []\<rparr>]"
  have e: "expand_legacy_scenario_block (map (\<lambda>p. kv (ib_k p) (ib_v p)) ?ps) = [kv 349 ''1'']"
    by (simp add: expand_legacy_scenario_block_def has_light_shutter_def index_light_start_def
        index_security_outlets_def)
  have c: "chunk_exchange_params [kv 349 ''1''] max_firmware_params_per_action = [[kv 349 ''1'']]"
    by (simp add: chunk_exchange_params_def max_firmware_params_per_action_def)
  have f: "fresh_draws (length [[kv 349 ''1'']]) sample_portal_db" by (simp add: fresh_draws_def)
  have p: "?ps \<noteq> []" "length ?ps \<le> 96" by simp_all
  show ?thesis
    using inject_batch_delivers [of sample_portal_db "''a@b''" sample_portal_user 7 sample_request ?ps,
        unfolded e c, OF sample_portal(1-4,10) p f]
    by (auto simp: length_Suc_conv action_row_def)
qed

text \<open>What the portal shows of the exchange table: for each requested index (all of them when
  none is named) the value that the gateway pushed or, if it pushed none, the value of the last
  telemetry of the cabinet, and nothing for other indices; the view is announced as fresh exactly when
  the gateway's push is not older than the limit. Reading changes nothing.\<close>

theorem exchange_view_sound:
  assumes "faults d = []" "account_of d email = Some u" "portal_access d u" "u_machine u = Some m"
    "parse_key_list keys = Inr requested" "0 \<le> ttl" "ttl < max_duration"
  shows "\<exists>values stale source updated. run_state (get_exchange ttl email keys) d
        = (Answer 200 (ExchangeJson values stale source updated), d)
    \<and> (\<forall>k. kv_map values k = (if k \<in> set requested \<or> requested = [] then
          (stored_map (telemetry_of d (itoa m)) ++ stored_map (cached d m)) k else None))
    \<and> (stale \<longleftrightarrow> \<not> (\<exists>row. find (\<lambda>r. ec_machine r = m) (exchange_caches d) = Some row
          \<and> clock d - ec_updated_at row \<le> ttl))"
proof -
  let ?row = "find (\<lambda>r. ec_machine r = m) (exchange_caches d)"
  have run: "run_state (get_exchange ttl email keys) d = (Answer 200 (exchange_view ttl (clock d)
      (fst (run_state (get_gateway_exchange m) d)) (fst (run_state (get_machine_telemetry (itoa m)) d)) requested), d)"
    using assms(1) by (simp add: get_exchange_def require_portal_access_def run_profile_ok [OF assms(1,2)]
        run_access_ok [OF assms(1,3)] assms(4,5) get_gateway_exchange_def get_machine_telemetry_def)
  have cache: "fst (run_state (get_gateway_exchange m) d) =
      (case ?row of None \<Rightarrow> Inl NoRows | Some r \<Rightarrow> Inr (ec_keys r, ec_updated_at r))"
    using assms(1) by (simp add: get_gateway_exchange_def first_row_def split: option.splits)
  have tel: "fst (run_state (get_machine_telemetry (itoa m)) d) =
      (case find (\<lambda>t. tel_client_id t = itoa m) (telemetry d) of None \<Rightarrow> Inl NoRows | Some t \<Rightarrow> Inr (tel_ek t, tel_updated_at t))"
    using assms(1) by (simp add: get_machine_telemetry_def first_row_def split: option.splits)
  show ?thesis
    unfolding run cache tel exchange_view_def
    using time_sub_gt_iff [OF assms(6,7)]
    by (auto simp: Let_def kv_map_view stored_map_def telemetry_of_def cached_def not_le split: option.splits)
qed

theorem exchange_view_sound_witness:
  "\<exists>values stale source updated. run_state (get_exchange (120 * second) ''a@b'' ''349'')
      (put_exchange_cache 7 [kv 349 ''1''] sample_portal_db)
      = (Answer 200 (ExchangeJson values stale source updated), put_exchange_cache 7 [kv 349 ''1''] sample_portal_db)
    \<and> kv_map values 349 = Some ''1'' \<and> \<not> stale"
proof -
  let ?d = "put_exchange_cache 7 [kv 349 ''1''] sample_portal_db"
  have d: "faults ?d = []" "account_of ?d ''a@b'' = Some sample_portal_user" "portal_access ?d sample_portal_user"
    "clock ?d = 0"
    using sample_portal(1-3,7) unfolding put_exchange_cache_def Let_def
    by (simp_all add: account_of_def portal_access_def approved_link_def)
  have k: "parse_key_list ''349'' = Inr [349]" by code_simp
  have t: "0 \<le> 120 * second" "120 * second < max_duration" by (simp_all add: duration_defs max_duration_def)
  have c: "cached ?d 7 = Some [kv 349 ''1'']" by (rule exchange_table.look_put_same)
  have r: "find (\<lambda>r. ec_machine r = 7) (exchange_caches ?d) = Some \<lparr>ec_machine = 7, ec_keys = [kv 349 ''1''], ec_updated_at = 0\<rparr>"
    by (simp add: put_exchange_cache_def Let_def upsert_row_def sample_portal_db_def empty_db_def)
  show ?thesis
    using exchange_view_sound [OF d(1-3) sample_portal(4) k t] unfolding r d(4) c
    by (auto simp: stored_map_def kv_map_single duration_defs)
qed

end
