(* ===== verification/DeviceHandlers.thy ===== *)
theory DeviceHandlers
  imports PortalHandlers
begin

text \<open>
  The handlers for scenarios, light timers and light names (internal/handlers: scenarios.go,
  light_timers.go, light_names.go), the synchronisation of names with a gateway apart, which is in
  theory GatewayHandlers.
\<close>

section \<open>Scenarios\<close>

text \<open>The texts of the errors, without the numbers they quote.\<close>

definition scenario_error_text :: "scenario_err \<Rightarrow> string" where
  "scenario_error_text e = (case e of
       LaunchSlot _ \<Rightarrow> ''scenario: launch slot must be 2-8''
     | RestoreSlot _ \<Rightarrow> ''scenario: restore preset supported for slots 2-6''
     | NoPreset _ \<Rightarrow> ''scenario: no preset efface value''
     | OutsideSlot _ _ _ _ \<Rightarrow> ''scenario: index outside slot range''
     | NotNumeric _ _ \<Rightarrow> ''scenario: value not numeric''
     | OutOfByteRange _ _ \<Rightarrow> ''scenario: value out of byte range''
     | SlotOutOfRange _ \<Rightarrow> ''scenario: slot out of range''
     | OffsetOutOfRange _ \<Rightarrow> ''scenario: offset out of range''
     | ErrSlot1ServerReserved \<Rightarrow> ''scenario: slot 1 is server-reserved'')"

definition scenario_slot_param :: "string \<Rightarrow> int option" where
  "scenario_slot_param s = (case atoi s of
       None \<Rightarrow> None
     | Some slot \<Rightarrow> if slot < 1 \<or> slot > slot_count then None else Some slot)"

definition parse_optional_int :: "string option \<Rightarrow> int option" where
  "parse_optional_int v = (case v of None \<Rightarrow> None | Some s \<Rightarrow> if s = [] then None else atoi s)"

definition flatten_chunks :: "exchange_kv list list \<Rightarrow> exchange_kv list" where
  "flatten_chunks chunks = concat chunks"

text \<open>An index that is missing from the Go map of the cache reads as the empty string.\<close>

definition slot_summary :: "(int \<rightharpoonup> string) \<Rightarrow> int \<Rightarrow> scenario_slot_summary" where
  "slot_summary by_k slot =
     (let base = (case slot_base_index slot of Inl _ \<Rightarrow> 0 | Inr b \<Rightarrow> b);
          last = parse_optional_int (by_k index_last_launched) in
      \<lparr>ss_slot = slot, ss_label = (case default_slot_labels slot of None \<Rightarrow> [] | Some l \<Rightarrow> l),
       ss_base = base, ss_end = base + param_count - 1, ss_editable = (slot \<ge> 2),
       ss_last_launched = (if last = Some slot then last else None)\<rparr>)"

definition cache_or_nil :: "int \<Rightarrow> exchange_kv list io" where
  "cache_or_nil machine_id = do {
     r \<leftarrow> get_gateway_exchange machine_id;
     State_Monad.return (case r of Inl _ \<Rightarrow> [] | Inr (c, _) \<Rightarrow> c) }"

text \<open>
  The common beginning: access, then the account read again. A missing machine at this point
  would be a nil dereference.
\<close>

definition with_portal_user :: "string \<Rightarrow> (user_profile \<Rightarrow> portal_answer io) \<Rightarrow> portal_answer io" where
  "with_portal_user email body = do {
     r \<leftarrow> get_profile_by_email email;
     case r of Inl _ \<Rightarrow> http_error 403 ''Forbidden'' | Inr u \<Rightarrow> body u }"

definition list_scenarios :: "string \<Rightarrow> portal_answer io" where
  "list_scenarios email = do {
     ok \<leftarrow> require_portal_access email;
     if \<not> ok then http_error 403 ''Forbidden''
     else with_portal_user email (\<lambda>u. case up_machine u of
         None \<Rightarrow> State_Monad.return recovered
       | Some m \<Rightarrow> do {
           cache \<leftarrow> cache_or_nil m;
           write_json 200 (SlotsJson (map (slot_summary (kv_map cache)) [1..slot_count])) }) }"

definition scenario_detail :: "int \<Rightarrow> int \<Rightarrow> (string + scenario_slot_detail) io" where
  "scenario_detail machine_id slot =
     (if slot < 1 \<or> slot > slot_count then State_Monad.return (Inl ''invalid slot'')
      else (case slot_range slot of
          Inl e \<Rightarrow> State_Monad.return (Inl (scenario_error_text e))
        | Inr (start, stop) \<Rightarrow> do {
            cache \<leftarrow> cache_or_nil machine_id;
            let by_k = kv_map cache;
            let params = concat (map (\<lambda>i. case by_k i of None \<Rightarrow> [] | Some v \<Rightarrow> [kv i v]) [start..stop]);
            State_Monad.return (Inr (scenario_slot_summary.extend (slot_summary by_k slot)
              \<lparr>ss_params = sort_key k_of params\<rparr>)) }))"

definition get_scenario :: "string \<Rightarrow> string \<Rightarrow> portal_answer io" where
  "get_scenario email slot_param = do {
     ok \<leftarrow> require_portal_access email;
     if \<not> ok then http_error 403 ''Forbidden''
     else (case scenario_slot_param slot_param of
         None \<Rightarrow> http_error 400 ''invalid slot''
       | Some slot \<Rightarrow> with_portal_user email (\<lambda>u. case up_machine u of
           None \<Rightarrow> State_Monad.return recovered
         | Some m \<Rightarrow> do {
             r \<leftarrow> scenario_detail m slot;
             case r of Inl e \<Rightarrow> http_error 400 e | Inr detail \<Rightarrow> write_json 200 (SlotJson detail) })) }"

definition put_scenario :: "http_request \<Rightarrow> string \<Rightarrow> string \<Rightarrow> definition_params option \<Rightarrow> portal_answer io" where
  "put_scenario r email slot_param body = do {
     ok \<leftarrow> require_portal_access email;
     if \<not> ok then http_error 403 ''Forbidden''
     else (case scenario_slot_param slot_param of
         None \<Rightarrow> http_error 400 ''invalid slot''
       | Some slot \<Rightarrow> with_portal_user email (\<lambda>u. case body of
           None \<Rightarrow> http_error 400 ''params required''
         | Some params \<Rightarrow>
             if params = [] then http_error 400 ''params required''
             else (case write_definition_chunks slot params of
                 Inl e \<Rightarrow>
                   if e = ErrSlot1ServerReserved then http_error 403 (scenario_error_text e)
                   else if is_dry_run r then write_failed (scenario_error_text e)
                   else http_error 400 (scenario_error_text e)
               | Inr chunks \<Rightarrow>
                   if is_dry_run r then write_ok (flatten_chunks chunks)
                   else do {
                     e \<leftarrow> enqueue_chunks (up_id u) (up_machine u) chunks;
                     case e of
                       Inl _ \<Rightarrow> http_error 500 ''Enqueue failed''
                     | Inr guids \<Rightarrow> (case up_machine u of
                         None \<Rightarrow> State_Monad.return recovered
                       | Some m \<Rightarrow> do {
                           ignore (upsert_gateway_exchange m (flatten_chunks chunks));
                           ignore (audit_log_portal email ''portal_scenario_put'');
                           write_json 200 (GuidsJson guids) }) }))) }"

text \<open>Launching a slot and restoring a preset differ in the order they send and the name they log.\<close>

definition scenario_action ::
  "(int \<Rightarrow> scenario_err + exchange_kv list) \<Rightarrow> string \<Rightarrow> http_request \<Rightarrow> string \<Rightarrow> string \<Rightarrow> portal_answer io" where
  "scenario_action command action r email slot_param = do {
     ok \<leftarrow> require_portal_access email;
     if \<not> ok then http_error 403 ''Forbidden''
     else (case scenario_slot_param slot_param of
         None \<Rightarrow> http_error 400 ''invalid slot''
       | Some slot \<Rightarrow> with_portal_user email (\<lambda>u. case command slot of
           Inl e \<Rightarrow>
             if is_dry_run r then write_failed (scenario_error_text e)
             else http_error 400 (scenario_error_text e)
         | Inr params \<Rightarrow>
             if is_dry_run r then write_ok params
             else do {
               guid \<leftarrow> draw;
               e \<leftarrow> enqueue_cloud_action guid (up_id u) (up_machine u) params;
               case e of
                 Inl _ \<Rightarrow> http_error 500 ''Enqueue failed''
               | Inr _ \<Rightarrow> do {
                   ignore (audit_log_portal email action);
                   write_json 200 (ScenarioActionJson guid slot) } })) }"

definition launch_scenario :: "http_request \<Rightarrow> string \<Rightarrow> string \<Rightarrow> portal_answer io" where
  "launch_scenario = scenario_action launch_params ''portal_scenario_launch''"

definition restore_scenario :: "http_request \<Rightarrow> string \<Rightarrow> string \<Rightarrow> portal_answer io" where
  "restore_scenario = scenario_action restore_preset_params ''portal_scenario_restore''"

definition get_scenario_bitmasks :: "string \<Rightarrow> portal_answer io" where
  "get_scenario_bitmasks email = do {
     ok \<leftarrow> require_portal_access email;
     if \<not> ok then http_error 403 ''Forbidden'' else write_json 200 (BitmasksJson bitmask_meta) }"

section \<open>Light timers\<close>

definition get_light_timers :: "string \<Rightarrow> portal_answer io" where
  "get_light_timers email = do {
     r \<leftarrow> get_profile_by_email email;
     case r of
       Inl _ \<Rightarrow> write_lt_error 403 ''forbidden''
     | Inr u \<Rightarrow> (case up_machine u of
         None \<Rightarrow> write_lt_error 403 ''forbidden''
       | Some m \<Rightarrow> do {
           access \<leftarrow> user_portal_access u;
           if \<not> access then write_lt_error 403 ''forbidden''
           else do {
             cache \<leftarrow> cache_or_nil m;
             write_json 200 (TimersJson (map (\<lambda>lt. \<lparr>tv_id = lt_id lt, tv_label = lt_label lt, tv_key = lt_key lt,
               tv_minutes = light_timer_minutes_from_cache cache (lt_key lt)\<rparr>) light_timers)) } }) }"

text \<open>The body is the raw JSON of the key \<open>minutes\<close>, empty when the key is missing.\<close>

definition put_light_timer :: "http_request \<Rightarrow> string \<Rightarrow> string \<Rightarrow> string option \<Rightarrow> portal_answer io" where
  "put_light_timer r email light_id body = do {
     res \<leftarrow> get_profile_by_email email;
     case res of
       Inl _ \<Rightarrow> write_lt_error 403 ''forbidden''
     | Inr u \<Rightarrow>
         if \<not> can_write_light_timers (up_role u) (up_machine u) then write_lt_error 403 ''forbidden''
         else do {
           access \<leftarrow> user_portal_access u;
           if \<not> access then write_lt_error 403 ''forbidden''
           else (case light_timer_by_id light_id of
               None \<Rightarrow> write_lt_error 400 ''unknown_light''
             | Some lt \<Rightarrow> (case body of
                 None \<Rightarrow> write_lt_error 400 ''invalid_minutes''
               | Some raw \<Rightarrow> (case parse_light_timer_minutes raw of
                   None \<Rightarrow> write_lt_error 400 ''invalid_minutes''
                 | Some minutes \<Rightarrow>
                     (let params = [kv (lt_key lt) (itoa minutes)] in
                      if is_dry_run r then
                        write_json 200 (TimerQueuedJson (lt_id lt) minutes ''dry_run'' (Some params))
                      else do {
                        guid \<leftarrow> draw;
                        e \<leftarrow> enqueue_cloud_action guid (up_id u) (up_machine u) params;
                        case e of
                          Inl _ \<Rightarrow> write_lt_error 500 ''enqueue_failed''
                        | Inr _ \<Rightarrow> (case up_machine u of
                            None \<Rightarrow> State_Monad.return recovered
                          | Some m \<Rightarrow> do {
                              ignore (upsert_gateway_exchange m params);
                              ignore (audit_log_portal email ''portal_light_timer'');
                              write_json 200 (TimerQueuedJson (lt_id lt) minutes ''queued'' None) }) })))) } }"

section \<open>Light names\<close>

definition light_name_view_of :: "light_name_entry \<Rightarrow> light_name_state option \<Rightarrow> light_name_view" where
  "light_name_view_of e row = (case row of
       None \<Rightarrow> \<lparr>nv_id = ln_id e, nv_default = ln_default e, nv_name = None, nv_version = 0, nv_updated_at = None\<rparr>
     | Some s \<Rightarrow> \<lparr>nv_id = ln_id e, nv_default = ln_default e, nv_name = ls_name s, nv_version = ls_version s,
                 nv_updated_at = Some (ls_updated_at s)\<rparr>)"

definition light_name_views :: "(string \<rightharpoonup> light_name_state) \<Rightarrow> light_name_view list" where
  "light_name_views rows = map (\<lambda>e. light_name_view_of e (rows (ln_id e))) light_name_catalog"

definition get_light_names :: "string \<Rightarrow> portal_answer io" where
  "get_light_names email = do {
     r \<leftarrow> get_profile_by_email email;
     case r of
       Inl _ \<Rightarrow> write_lt_error 403 ''forbidden''
     | Inr u \<Rightarrow> (case up_machine u of
         None \<Rightarrow> write_lt_error 403 ''forbidden''
       | Some m \<Rightarrow> do {
           access \<leftarrow> user_portal_access u;
           if \<not> access then write_lt_error 403 ''forbidden''
           else do {
             rows \<leftarrow> list_light_names m;
             case rows of
               Inl _ \<Rightarrow> write_lt_error 500 ''names_unavailable''
             | Inr rs \<Rightarrow> write_json 200 (NamesJson (light_name_views rs)) } }) }"

text \<open>The value of the key \<open>name\<close> in a body.\<close>

datatype json_name = NameAbsent | NameNull | NameOther | NameText string

definition parse_light_name_body :: "json_name option \<Rightarrow> goerr + string option" where
  "parse_light_name_body raw = (case raw of
       None \<Rightarrow> Inl err_light_name
     | Some NameAbsent \<Rightarrow> Inl err_light_name
     | Some NameNull \<Rightarrow> Inr None
     | Some NameOther \<Rightarrow> Inl err_light_name
     | Some (NameText s) \<Rightarrow> normalize_light_name s)"

definition put_light_name :: "http_request \<Rightarrow> string \<Rightarrow> string \<Rightarrow> json_name option \<Rightarrow> portal_answer io" where
  "put_light_name r email light_id body = do {
     res \<leftarrow> get_profile_by_email email;
     case res of
       Inl _ \<Rightarrow> write_lt_error 403 ''forbidden''
     | Inr u \<Rightarrow>
         if \<not> can_write_light_names (up_role u) (up_machine u) then write_lt_error 403 ''forbidden''
         else do {
           access \<leftarrow> user_portal_access u;
           if \<not> access then write_lt_error 403 ''forbidden''
           else (case light_name_by_id light_id of
               None \<Rightarrow> write_lt_error 400 ''unknown_light''
             | Some entry \<Rightarrow> (case parse_light_name_body body of
                 Inl _ \<Rightarrow> write_lt_error 400 ''invalid_name''
               | Inr name \<Rightarrow>
                   if is_dry_run r then write_json 200 (NameDryRunJson entry name)
                   else (case up_machine u of
                       None \<Rightarrow> State_Monad.return recovered
                     | Some m \<Rightarrow> do {
                         before \<leftarrow> list_light_names m;
                         case before of
                           Inl _ \<Rightarrow> write_lt_error 500 ''names_unavailable''
                         | Inr _ \<Rightarrow> do {
                             row \<leftarrow> set_light_name m (ln_id entry) name email;
                             case row of
                               Inl _ \<Rightarrow> write_lt_error 500 ''names_unavailable''
                             | Inr s \<Rightarrow> do {
                                 ignore (audit_log_portal email ''light_name'');
                                 write_json 200 (NameSavedJson (light_name_view_of entry (Some s))) } } }))) } }"

section \<open>Library: access\<close>

lemma require_cases:
  assumes "run_state (do { ok \<leftarrow> require_portal_access email; if \<not> ok then f else k }) d = (a, d')"
  obtains (denied) d1 where "untouched d d1" "run_state f d1 = (a, d')"
    | (granted) u d1 where "granted d email u d1" "run_state k d1 = (a, d')"
proof -
  obtain b d1 where b: "run_state (require_portal_access email) d = (b, d1)" by fastforce
  note r = run_require [OF b]
  show thesis
  proof (cases b)
    case True
    then obtain u where "account_of d email = Some u" "portal_access d u" using r(2) by blast
    then have "granted d email u d1" using r(1) by (simp add: granted_def)
    then show thesis using granted assms b True by simp
  next
    case False
    then show thesis using denied [OF r(1)] assms b by simp
  qed
qed

lemma with_portal_user_cases:
  assumes g: "granted d email u d1" and run: "run_state (with_portal_user email k) d1 = (a, d')"
  obtains (lost) "untouched d d'" "a = HttpError 403 ''Forbidden''"
    | (found) d2 where "granted d email u d2" "run_state (k (to_profile u)) d2 = (a, d')"
proof -
  obtain r d2 where r: "run_state (get_profile_by_email email) d1 = (r, d2)" by fastforce
  note p = run_profile [OF r]
  have t: "untouched d d2" using g p(1) untouched_trans unfolding granted_def by blast
  show thesis
  proof (cases r)
    case (Inl e)
    then show thesis using lost run r t by (simp add: with_portal_user_def)
  next
    case (Inr q)
    have "account_of d1 email = Some u" using g by (auto simp: granted_def)
    then have "q = to_profile u" using p(2) [OF Inr] by auto
    then show thesis using found [of d2] g t run r Inr by (simp add: with_portal_user_def granted_def)
  qed
qed

lemma profile_cases:
  assumes "run_state (do { r \<leftarrow> get_profile_by_email email; case r of Inl e \<Rightarrow> f e | Inr p \<Rightarrow> k p }) d = (a, d')"
  obtains (unknown) e d1 where "untouched d d1" "run_state (f e) d1 = (a, d')"
    | (found) u d1 where "untouched d d1" "account_of d email = Some u" "run_state (k (to_profile u)) d1 = (a, d')"
proof -
  obtain r d1 where r: "run_state (get_profile_by_email email) d = (r, d1)" by fastforce
  note p = run_profile [OF r]
  show thesis
  proof (cases r)
    case (Inl e)
    then show thesis using unknown [OF p(1)] assms r by simp
  next
    case (Inr q)
    then show thesis using found [OF p(1)] p(2) assms r by auto
  qed
qed

lemma access_step_cases:
  assumes u: "untouched d d1" "account_of d email = Some u"
    and run: "run_state (do { access \<leftarrow> user_portal_access (to_profile u); if \<not> access then g else k }) d1 = (a, d')"
  obtains (denied) d2 where "untouched d d2" "run_state g d2 = (a, d')"
    | (granted) d2 where "granted d email u d2" "run_state k d2 = (a, d')"
proof -
  obtain b d2 where b: "run_state (user_portal_access (to_profile u)) d1 = (b, d2)" by fastforce
  note acc = run_access [OF b]
  have t: "untouched d d2" using u(1) acc(1) untouched_trans by blast
  show thesis
  proof (cases b)
    case True
    then show thesis using granted [of d2] t u acc(2) run b by (simp add: granted_def)
  next
    case False
    then show thesis using denied [OF t] run b by simp
  qed
qed

section \<open>Library: orders\<close>

lemma put_scenario_orders:
  assumes run: "run_state (put_scenario r email slot_param body) d = (a, d')"
  shows "orders_of email d d'"
  using run unfolding put_scenario_def
proof (cases rule: require_cases)
  case (granted u d1)
  show ?thesis
  proof (cases "scenario_slot_param slot_param")
    case None
    then show ?thesis using granted by (auto simp: granted_def intro: orders_of_untouched)
  next
    case (Some slot)
    show ?thesis using granted(2) [unfolded Some option.case]
    proof (cases rule: with_portal_user_cases [OF granted(1), consumes 1, case_names lost found])
      case (found d2)
      show ?thesis
        by (rule orders_of_granted [OF found(1) _ found(2)]) (unfold Let_def profile_fields, intro order_intros)
    qed (auto intro: orders_of_untouched)
  qed
qed (auto intro: orders_of_untouched)

lemma scenario_action_orders:
  assumes run: "run_state (scenario_action command action r email slot_param) d = (a, d')"
  shows "orders_of email d d'"
  using run unfolding scenario_action_def
proof (cases rule: require_cases)
  case (granted u d1)
  show ?thesis
  proof (cases "scenario_slot_param slot_param")
    case None
    then show ?thesis using granted by (auto simp: granted_def intro: orders_of_untouched)
  next
    case (Some slot)
    show ?thesis using granted(2) [unfolded Some option.case]
    proof (cases rule: with_portal_user_cases [OF granted(1), consumes 1, case_names lost found])
      case (found d2)
      show ?thesis
        by (rule orders_of_granted [OF found(1) _ found(2)]) (unfold Let_def profile_fields, intro order_intros)
    qed (auto intro: orders_of_untouched)
  qed
qed (auto intro: orders_of_untouched)

lemma put_light_timer_orders:
  assumes run: "run_state (put_light_timer r email light_id body) d = (a, d')"
  shows "orders_of email d d' \<and> (cloud_actions d' \<noteq> cloud_actions d \<longrightarrow>
    (\<exists>u. account_of d email = Some u \<and> u_role u \<in> {role_admin_local, role_admin_global}))"
  using run unfolding put_light_timer_def
proof (cases rule: profile_cases)
  case (found u d1)
  show ?thesis
  proof (cases "can_write_light_timers (u_role u) (u_machine u)")
    case True
    have role: "u_role u \<in> {role_admin_local, role_admin_global}"
      using True by (auto simp: can_write_light_timers_def split: if_splits)
    have w: "(\<not> can_write_light_timers (up_role (to_profile u)) (up_machine (to_profile u))) = False"
      using True by simp
    have "orders_of email d d'"
      using found(3) [unfolded w if_False]
    proof (cases rule: access_step_cases [OF found(1,2), consumes 1, case_names denied granted])
      case (granted d2)
      show ?thesis
        by (rule orders_of_granted [OF granted(1) _ granted(2)]) (unfold Let_def profile_fields, intro order_intros)
    qed (auto intro: orders_of_untouched)
    then show ?thesis using role found(2) by blast
  qed (use found in \<open>auto intro: orders_of_untouched\<close>)
qed (auto intro: orders_of_untouched)

text \<open>What a rehearsal may use up: scheduled faults and random identifiers, nothing else.\<close>

definition idle :: "db \<Rightarrow> db \<Rightarrow> bool" where
  "idle d d' \<longleftrightarrow> (\<exists>bs n. d' = d\<lparr>faults := bs, draws := n\<rparr>)"

lemma idle_pre: "preorder_rel idle"
proof
  show "idle d d" for d unfolding idle_def by (intro exI [of _ "faults d"] exI [of _ "draws d"]) simp
  show "idle d (d\<lparr>faults := bs\<rparr>)" for d bs unfolding idle_def by (intro exI [of _ bs] exI [of _ "draws d"]) simp
  show "idle d1 d3" if t: "idle d1 d2" "idle d2 d3" for d1 d2 d3
  proof -
    obtain bs n cs k where "d2 = d1\<lparr>faults := bs, draws := n\<rparr>" "d3 = d2\<lparr>faults := cs, draws := k\<rparr>"
      using t unfolding idle_def by blast
    then have "d3 = d1\<lparr>faults := cs, draws := k\<rparr>" by simp
    then show ?thesis unfolding idle_def by blast
  qed
qed

lemma idle_draw: "state_io_rel idle draw"
proof (rule io_draw [OF idle_pre])
  show "idle d (d\<lparr>draws := n\<rparr>)" for d n
    unfolding idle_def by (intro exI [of _ "faults d"] exI [of _ n]) simp
qed

lemma idle_queries:
  "state_io_rel idle (get_profile_by_email email)" "state_io_rel idle (user_portal_access p)"
  "state_io_rel idle (require_portal_access email)"
  unfolding require_portal_access_def user_portal_access_def user_has_approved_link_def get_profile_by_email_def
  by (intro io_intros idle_pre)+

lemmas idle_intros = io_intros idle_pre idle_draw idle_queries

section \<open>Properties\<close>

text \<open>No order without access: whichever of the seven ordering requests is made, the queue only
  grows, and every action added is pending, was asked for by the account of the signed in
  address, which has an approved link, a machine and no gateway excluded from the remote portal, and
  goes to that account's machine and to no other.\<close>

theorem orders_need_access:
  assumes "h \<in> {inject r email b1, inject_batch r email b2, post_web_actions r email b3,
      put_scenario r email slot b4, launch_scenario r email slot, restore_scenario r email slot,
      put_light_timer r email light b5}"
    and "run_state h d = (a, d')"
  shows "\<exists>new. cloud_actions d' = cloud_actions d @ new
     \<and> (\<forall>x \<in> set new. \<exists>u. account_of d email = Some u \<and> portal_access d u
          \<and> ca_user x = u_id u \<and> ca_machine x = u_machine u \<and> ca_status x = ActionPending)"
proof -
  have "orders_of email d d'"
    using assms inject_orders inject_batch_orders post_web_actions_orders put_scenario_orders
      put_light_timer_orders scenario_action_orders
    unfolding launch_scenario_def restore_scenario_def by (elim insertE emptyE) auto
  then show ?thesis unfolding orders_of_def .
qed

theorem orders_need_access_witness:
  "\<exists>new. cloud_actions (snd (run_state (launch_scenario sample_request ''a@b'' ''4'') sample_portal_db))
      = cloud_actions sample_portal_db @ new
     \<and> (\<forall>x \<in> set new. \<exists>u. account_of sample_portal_db ''a@b'' = Some u \<and> portal_access sample_portal_db u
          \<and> ca_user x = u_id u \<and> ca_machine x = u_machine u \<and> ca_status x = ActionPending)"
  by (rule orders_need_access [where h = "launch_scenario sample_request ''a@b'' ''4''" and r = sample_request
        and slot = "''4''", OF _ surjective_pairing]) simp

text \<open>C23. A rehearsal changes nothing: in dry run mode none of the eight writing requests touches a
  table, whatever its body and whatever statements fail.\<close>

theorem dry_run_changes_nothing:
  assumes "is_dry_run r"
    and "h \<in> {inject r email b1, inject_batch r email b2, post_web_actions r email b3,
      put_scenario r email slot b4, launch_scenario r email slot, restore_scenario r email slot,
      put_light_timer r email light b5, put_light_name r email light b6}"
    and "run_state h d = (a, d')"
  shows "\<exists>bs n. d' = d\<lparr>faults := bs, draws := n\<rparr>"
proof -
  have "state_io_rel idle h"
    using assms(2)
    unfolding inject_def inject_batch_def post_web_actions_def put_scenario_def launch_scenario_def
      restore_scenario_def scenario_action_def put_light_timer_def put_light_name_def with_portal_user_def Let_def
    by (elim insertE emptyE; simp only: assms(1) if_True; intro idle_intros)
  then show ?thesis using assms(3) unfolding idle_def by blast
qed

definition sample_dry_request :: http_request where
  "sample_dry_request = sample_request\<lparr>query_param := (\<lambda>n. if n = ''test_mode'' then ''dry_run'' else [])\<rparr>"

theorem dry_run_changes_nothing_witness:
  "\<exists>bs n. snd (run_state (put_light_timer sample_dry_request ''a@b'' ''wc1'' (Some ''15'')) sample_portal_db)
      = sample_portal_db\<lparr>faults := bs, draws := n\<rparr>"
proof -
  have "is_dry_run sample_dry_request" by (simp add: is_dry_run_def sample_dry_request_def)
  then show ?thesis
    by (rule dry_run_changes_nothing [where h = "put_light_timer sample_dry_request ''a@b'' ''wc1'' (Some ''15'')"
          and light = "''wc1''", OF _ _ surjective_pairing]) blast
qed

end
