(* ===== verification/GatewayHandlers.thy ===== *)
theory GatewayHandlers
  imports DeviceHandlers
begin

text \<open>
  What gateways call (internal/handlers: gateway.go, gateway_sync.go, gateway_sync_profile.go and
  \<open>SyncLightNames\<close> of light_names.go): polls and acknowledgements, heartbeats, pushes of the
  exchange table, registration, synchronisation runs and the exchange of light names. The digest
  of a token is a parameter, as in PortalStore.
\<close>

section \<open>Polls, acknowledgements, pushes\<close>

definition pending_actions :: "string \<Rightarrow> portal_answer io" where
  "pending_actions gateway_id = do {
     r \<leftarrow> fetch_pending_actions_for_gateway gateway_id 20;
     case r of
       Inl _ \<Rightarrow> http_error 500 ''Fetch failed''
     | Inr actions \<Rightarrow> write_json 200 (ActionsJson actions) }"

definition action_done :: "string \<Rightarrow> portal_answer io" where
  "action_done guid =
     (if guid = [] then http_error 400 ''guid required''
      else do {
        r \<leftarrow> mark_action_done guid;
        case r of
          Inl _ \<Rightarrow> http_error 404 ''Not found''
        | Inr _ \<Rightarrow> write_json 200 (StatusJson ''done'') })"

definition heartbeat :: "string \<Rightarrow> portal_answer io" where
  "heartbeat gateway_id = do {
     r \<leftarrow> touch_gateway_heartbeat gateway_id;
     case r of
       Inl _ \<Rightarrow> http_error 500 ''Heartbeat failed''
     | Inr _ \<Rightarrow> write_json 200 (StatusJson ''ok'') }"

definition push_exchange :: "string \<Rightarrow> exchange_kv list option \<Rightarrow> portal_answer io" where
  "push_exchange gateway_id body = do {
     r \<leftarrow> machine_id_for_gateway gateway_id;
     case r of
       Inl _ \<Rightarrow> http_error 401 ''Unknown gateway''
     | Inr m \<Rightarrow> (case body of
         None \<Rightarrow> http_error 400 ''keys required''
       | Some keys \<Rightarrow>
           if keys = [] then http_error 400 ''keys required''
           else do {
             e \<leftarrow> upsert_gateway_exchange m keys;
             case e of
               Inl _ \<Rightarrow> http_error 500 ''Store failed''
             | Inr _ \<Rightarrow> write_json 200 (StatusJson ''ok'') }) }"

definition register_gateway :: "(string \<Rightarrow> string) \<Rightarrow> gateway_registration option \<Rightarrow> portal_answer io" where
  "register_gateway hash_token body = (case body of
       None \<Rightarrow> http_error 400 ''token, machine_id, eth0_mac, eth1_mac required''
     | Some b \<Rightarrow>
         if gr_token b = [] \<or> gr_machine_id b \<le> 0 \<or> gr_eth0 b = [] \<or> gr_eth1 b = []
         then http_error 400 ''token, machine_id, eth0_mac, eth1_mac required''
         else do {
           r \<leftarrow> register_gateway_session hash_token b;
           case r of
             Inl e \<Rightarrow> http_error 400 (''Register failed: '' @ goerr_text e)
           | Inr _ \<Rightarrow>
               (let or_empty = (\<lambda>x. case x of Inl _ \<Rightarrow> [] | Inr s \<Rightarrow> s);
                    gateway_id = (if gr_gateway_id b = [] then or_empty (gateway_id_from_eth0_mac (gr_eth0 b))
                                  else gr_gateway_id b)
                in write_json 201 (RegisteredJson gateway_id (gr_machine_id b)
                     (or_empty (normalize_mac (gr_eth0 b))) (or_empty (normalize_mac (gr_eth1 b))))) })"

definition h_list_gateway_sessions :: "portal_answer io" where
  "h_list_gateway_sessions = do {
     r \<leftarrow> list_gateway_sessions;
     case r of
       Inl _ \<Rightarrow> http_error 500 ''List failed''
     | Inr rows \<Rightarrow> write_json 200 (GatewaySessionsJson rows) }"

section \<open>Synchronisation\<close>

definition sync_config :: "string \<Rightarrow> portal_answer io" where
  "sync_config gateway_id = do {
     ps \<leftarrow> list_sync_profiles_for_gateway gateway_id;
     case ps of
       Inl _ \<Rightarrow> http_error 500 ''List profiles failed''
     | Inr profiles \<Rightarrow> do {
         rs \<leftarrow> list_pending_sync_runs gateway_id;
         case rs of
           Inl _ \<Rightarrow> http_error 500 ''List runs failed''
         | Inr pending \<Rightarrow> write_json 200 (SyncConfigJson profiles pending) } }"

definition sync_run_start :: "string \<Rightarrow> string \<Rightarrow> portal_answer io" where
  "sync_run_start gateway_id run_id = do {
     r \<leftarrow> start_sync_run run_id gateway_id;
     case r of
       Inl e \<Rightarrow> http_error 409 (goerr_text e)
     | Inr _ \<Rightarrow> write_json 200 (StatusJson ''running'') }"

definition sync_run_progress :: "string \<Rightarrow> string \<Rightarrow> sync_run_progress_request option \<Rightarrow> portal_answer io" where
  "sync_run_progress gateway_id run_id body = (case body of
       None \<Rightarrow> http_error 400 ''Bad Request''
     | Some req \<Rightarrow> do {
         r \<leftarrow> append_sync_run_progress run_id gateway_id req;
         case r of
           Inl e \<Rightarrow> http_error 400 (goerr_text e)
         | Inr _ \<Rightarrow> do {
             run \<leftarrow> get_sync_run run_id;
             write_json 200 (SyncRunJson (case run of Inl _ \<Rightarrow> None | Inr x \<Rightarrow> Some x)) } })"

record create_sync_run_request =
  cq_profile :: string
  cq_source :: string

definition sync_run_create :: "string \<Rightarrow> create_sync_run_request option \<Rightarrow> portal_answer io" where
  "sync_run_create gateway_id body = (case body of
       None \<Rightarrow> http_error 400 ''Bad Request''
     | Some req \<Rightarrow>
         if cq_profile req = [] then http_error 400 ''profile_id required''
         else do {
           p \<leftarrow> get_sync_profile (cq_profile req);
           case p of
             Inl _ \<Rightarrow> http_error 404 ''Profile not found''
           | Inr profile \<Rightarrow>
               if sp_gateway profile \<noteq> [] \<and> sp_gateway profile \<noteq> gateway_id then http_error 403 ''Forbidden''
               else do {
                 let expected = expected_index_count (sp_ranges profile);
                 let msg = ''Sync planifi'' @ e_acute @ ''e '' @ [CHR 0xE2, CHR 0x80, CHR 0x94] @ '' '' @ sp_name profile
                   @ (if cq_source req \<noteq> [] then '' ('' @ cq_source req @ '')'' else []);
                 r \<leftarrow> create_sync_run (cq_profile req) gateway_id expected msg;
                 case r of
                   Inl _ \<Rightarrow> http_error 500 ''Create run failed''
                 | Inr run \<Rightarrow> write_json 201 (SyncRunJson (Some run)) } })"

definition scenarios_profile_name :: string where
  "scenarios_profile_name = ''Sc'' @ e_acute @ ''narios''"

definition patch_scenarios_sync_profile :: "string \<Rightarrow> string \<Rightarrow> bool option \<Rightarrow> portal_answer io" where
  "patch_scenarios_sync_profile meth gateway_id body =
     (if meth \<noteq> ''PATCH'' then http_error 405 ''Method not allowed''
      else (case body of
          None \<Rightarrow> http_error 400 ''Bad Request''
        | Some enabled \<Rightarrow> do {
            p \<leftarrow> get_sync_profile_by_name_for_gateway gateway_id scenarios_profile_name;
            case p of
              Inl _ \<Rightarrow> http_error 404 (scenarios_profile_name @ '' profile not found'')
            | Inr profile \<Rightarrow> do {
                u \<leftarrow> set_sync_profile_enabled (sp_id profile) gateway_id enabled;
                case u of
                  Inl e \<Rightarrow> http_error 500 (goerr_text e)
                | Inr updated \<Rightarrow> write_json 200 (SyncProfileJson updated) } }))"

section \<open>Light names\<close>

text \<open>
  An entry sent by a gateway: \<open>le_updated_at\<close> is the instant its text denotes, \<open>None\<close> when it
  is not a time of RFC 3339.
\<close>

record light_name_sync_entry =
  le_id :: string
  le_name :: json_name
  le_version :: int
  le_updated_at :: "instant option"

text \<open>
  The state that an entry proposes, \<open>None\<close> when the entry is ignored; the author is filled in
  afterwards.
\<close>

definition entry_state :: "instant \<Rightarrow> light_name_sync_entry \<Rightarrow> light_name_state option" where
  "entry_state nw e =
     (if light_name_by_id (le_id e) = None \<or> le_version e \<le> 0 then None
      else (case le_updated_at e of
          None \<Rightarrow> None
        | Some t \<Rightarrow>
            (case (case le_name e of
                     NameOther \<Rightarrow> Inl err_light_name
                   | NameText s \<Rightarrow> normalize_light_name s
                   | _ \<Rightarrow> Inr None) of
               Inl _ \<Rightarrow> None
             | Inr name \<Rightarrow> Some \<lparr>ls_name = name, ls_version = le_version e,
                 ls_updated_at = clamp_light_name_time (truncate_ms t) nw, ls_updated_by = []\<rparr>)))"

definition gateway_author :: string where "gateway_author = ''gateway''"

fun sync_names_loop ::
  "int \<Rightarrow> string \<Rightarrow> instant \<Rightarrow> light_name_sync_entry list \<Rightarrow> (string \<rightharpoonup> light_name_state)
   \<Rightarrow> (string \<rightharpoonup> light_name_state) dbop" where
  "sync_names_loop m gateway_id nw [] rows = State_Monad.return (Inr rows)"
| "sync_names_loop m gateway_id nw (e # es) rows = (case entry_state nw e of
       None \<Rightarrow> sync_names_loop m gateway_id nw es rows
     | Some gw \<Rightarrow>
         if (case rows (le_id e) of
               None \<Rightarrow> False
             | Some cur \<Rightarrow> \<not> light_name_newer (gw\<lparr>ls_updated_by := ls_updated_by cur\<rparr>) cur)
         then sync_names_loop m gateway_id nw es rows
         else (let merged = gw\<lparr>ls_updated_by := gateway_author\<rparr> in
           andThen (put_light_name_exact m (le_id e) merged) (\<lambda>_. do {
             ignore (audit_log_portal (''gateway:'' @ gateway_id) ''light_name'');
             sync_names_loop m gateway_id nw es (rows(le_id e \<mapsto> merged)) })))"

definition sync_light_names :: "string \<Rightarrow> light_name_sync_entry list option \<Rightarrow> portal_answer io" where
  "sync_light_names gateway_id body = do {
     r \<leftarrow> machine_id_for_gateway gateway_id;
     case r of
       Inl _ \<Rightarrow> http_error 401 ''Unknown gateway''
     | Inr m \<Rightarrow> (case body of
         None \<Rightarrow> write_lt_error 400 ''invalid_body''
       | Some entries \<Rightarrow>
           if length entries > length light_name_catalog then write_lt_error 400 ''invalid_body''
           else do {
             rs \<leftarrow> list_light_names m;
             case rs of
               Inl _ \<Rightarrow> write_lt_error 503 ''names_unavailable''
             | Inr rows \<Rightarrow> do {
                 t \<leftarrow> now;
                 res \<leftarrow> sync_names_loop m gateway_id (truncate_ms t) entries rows;
                 case res of
                   Inl _ \<Rightarrow> write_lt_error 503 ''names_unavailable''
                 | Inr final \<Rightarrow> write_json 200 (NamesJson (light_name_views final)) } }) }"

section \<open>Library: the merge of light names\<close>

text \<open>
  What the synchronisation is for: of the stored state and the proposed ones, the one with the
  latest time and, at equal times, the highest version.
\<close>

definition stamp :: "light_name_state \<Rightarrow> int \<times> int" where
  "stamp s = (truncate_ms (ls_updated_at s), ls_version s)"

definition by_gateway :: "light_name_state \<Rightarrow> light_name_state" where
  "by_gateway s = s\<lparr>ls_updated_by := gateway_author\<rparr>"

definition merge_entry :: "instant \<Rightarrow> light_name_sync_entry \<Rightarrow> (string \<rightharpoonup> light_name_state) \<Rightarrow> (string \<rightharpoonup> light_name_state)" where
  "merge_entry nw e rows = (case entry_state nw e of
       None \<Rightarrow> rows
     | Some gw \<Rightarrow> (case rows (le_id e) of
           Some cur \<Rightarrow> if stamp cur < stamp gw then rows(le_id e \<mapsto> by_gateway gw) else rows
         | None \<Rightarrow> rows(le_id e \<mapsto> by_gateway gw)))"

definition merge_names :: "instant \<Rightarrow> light_name_sync_entry list \<Rightarrow> (string \<rightharpoonup> light_name_state) \<Rightarrow> (string \<rightharpoonup> light_name_state)" where
  "merge_names nw es rows = fold (merge_entry nw) es rows"

lemma stamp_by_gateway [simp]: "stamp (by_gateway s) = stamp s"
  by (simp add: stamp_def by_gateway_def)

lemma newer_stamp: "light_name_newer (gw\<lparr>ls_updated_by := ls_updated_by cur\<rparr>) cur \<longleftrightarrow> stamp cur < stamp gw"
  by (auto simp: light_name_newer_key name_key_def stamp_def)

text \<open>A later state of the names: every name that was there has a stamp at least as high.\<close>

definition names_le :: "(string \<rightharpoonup> light_name_state) \<Rightarrow> (string \<rightharpoonup> light_name_state) \<Rightarrow> bool" where
  "names_le rows rows' \<longleftrightarrow> (\<forall>i s. rows i = Some s \<longrightarrow> (\<exists>s'. rows' i = Some s' \<and> stamp s \<le> stamp s'))"

definition covers :: "instant \<Rightarrow> (string \<rightharpoonup> light_name_state) \<Rightarrow> light_name_sync_entry \<Rightarrow> bool" where
  "covers nw rows e \<longleftrightarrow> (\<forall>gw. entry_state nw e = Some gw \<longrightarrow> (\<exists>s. rows (le_id e) = Some s \<and> stamp gw \<le> stamp s))"

lemma names_le_refl: "names_le rows rows"
  by (simp add: names_le_def)

lemma names_le_trans:
  assumes "names_le r1 r2" "names_le r2 r3"
  shows "names_le r1 r3"
  unfolding names_le_def
proof (intro allI impI)
  fix i s assume "r1 i = Some s"
  then obtain s2 where s2: "r2 i = Some s2" "stamp s \<le> stamp s2" using assms(1) unfolding names_le_def by blast
  then obtain s3 where "r3 i = Some s3" "stamp s2 \<le> stamp s3" using assms(2) unfolding names_le_def by blast
  then show "\<exists>s'. r3 i = Some s' \<and> stamp s \<le> stamp s'" using s2 order_trans by blast
qed

lemma names_le_merge_entry: "names_le rows (merge_entry nw e rows)"
  by (auto simp: names_le_def merge_entry_def split: option.splits)

lemma covers_merge_entry: "covers nw (merge_entry nw e rows) e"
  by (auto simp: covers_def merge_entry_def not_less split: option.splits)

lemma covers_mono: "covers nw rows e \<Longrightarrow> names_le rows rows' \<Longrightarrow> covers nw rows' e"
  unfolding covers_def names_le_def by (meson order_trans)

lemma merge_entry_covered: "covers nw rows e \<Longrightarrow> merge_entry nw e rows = rows"
  by (auto simp: covers_def merge_entry_def split: option.splits)

lemma names_le_merge: "names_le rows (merge_names nw es rows)"
proof (induction es arbitrary: rows)
  case (Cons e es)
  show ?case using names_le_trans [OF names_le_merge_entry Cons, of rows nw e] by (simp add: merge_names_def)
qed (simp add: merge_names_def names_le_refl)

lemma covers_merge: "e \<in> set es \<Longrightarrow> covers nw (merge_names nw es rows) e"
proof (induction es arbitrary: rows)
  case (Cons e' es)
  have m: "merge_names nw (e' # es) rows = merge_names nw es (merge_entry nw e' rows)" by (simp add: merge_names_def)
  show ?case
  proof (cases "e = e'")
    case True
    then show ?thesis unfolding m using covers_mono [OF covers_merge_entry names_le_merge] by blast
  next
    case False
    then show ?thesis unfolding m using Cons by simp
  qed
qed simp

lemma merge_covered: "(\<And>e. e \<in> set es \<Longrightarrow> covers nw rows e) \<Longrightarrow> merge_names nw es rows = rows"
  by (induction es) (simp_all add: merge_names_def merge_entry_covered)

lemma merge_origin:
  "merge_names nw es rows i = Some s \<Longrightarrow>
     rows i = Some s \<or> (\<exists>e \<in> set es. le_id e = i \<and> map_option by_gateway (entry_state nw e) = Some s)"
proof (induction es arbitrary: rows)
  case (Cons e es)
  then have "merge_names nw es (merge_entry nw e rows) i = Some s" by (simp add: merge_names_def)
  from Cons.IH [OF this] show ?case
    by (auto simp: merge_entry_def split: option.splits if_splits)
qed (simp add: merge_names_def)

text \<open>The primary key of the table, and the names of one machine as a map.\<close>

definition name_row_key :: "light_name_row \<Rightarrow> int \<times> string" where
  "name_row_key r = (lnr_machine r, lnr_light r)"

definition names_unique :: "db \<Rightarrow> bool" where
  "names_unique d \<longleftrightarrow> distinct (map name_row_key (light_names d))"

definition names_of :: "db \<Rightarrow> int \<Rightarrow> (string \<rightharpoonup> light_name_state)" where
  "names_of d m = (\<lambda>i. light_state d (m, i))"

lemma foldl_map_upds:
  "foldl (\<lambda>m r. m(f r \<mapsto> g r)) m0 rs = m0 ++ map_of (rev (map (\<lambda>r. (f r, g r)) rs))"
  by (induction rs rule: rev_induct) (auto simp: map_add_def fun_eq_iff)

lemma map_of_names:
  "map_of (map (\<lambda>r. (lnr_light r, lnr_state r)) (filter (\<lambda>r. lnr_machine r = m) rs)) i
     = map_option lnr_state (find (\<lambda>r. lnr_machine r = m \<and> lnr_light r = i) rs)"
  by (induction rs) auto

lemma run_list_light_names:
  assumes "faults d = []" "names_unique d"
  shows "run_state (list_light_names m) d = (Inr (names_of d m), d)"
proof -
  let ?rs = "filter (\<lambda>r. lnr_machine r = m) (light_names d)"
  have "distinct (map lnr_light (filter (\<lambda>r. lnr_machine r = m) rs))" if "distinct (map name_row_key rs)" for rs
    using that by (induction rs) (auto simp: name_row_key_def image_iff)
  then have "distinct (map lnr_light ?rs)" using assms(2) unfolding names_unique_def by blast
  then have "distinct (map fst (map (\<lambda>r. (lnr_light r, lnr_state r)) ?rs))" by (simp add: comp_def)
  then have "map_of (rev (map (\<lambda>r. (lnr_light r, lnr_state r)) ?rs)) = map_of (map (\<lambda>r. (lnr_light r, lnr_state r)) ?rs)"
    by (subst map_of_inject_set) (simp_all add: rev_map [symmetric])
  then have "foldl (\<lambda>m r. m(lnr_light r \<mapsto> lnr_state r)) Map.empty ?rs = names_of d m"
    by (auto simp: foldl_map_upds map_of_names names_of_def light_state_def)
  then show ?thesis using assms(1) by (simp add: list_light_names_def)
qed

lemma names_unique_put:
  assumes "names_unique d"
  shows "names_unique (put_light_state k s d)"
proof -
  let ?mine = "\<lambda>r. lnr_machine r = fst k \<and> lnr_light r = snd k"
  have "map name_row_key (update_rows ?mine (\<lambda>r. r\<lparr>lnr_state := s\<rparr>) (light_names d)) = map name_row_key (light_names d)"
    by (rule map_update_rows) (simp add: name_row_key_def)
  then show ?thesis using assms
    by (auto simp: names_unique_def put_light_state_def upsert_light_name_def upsert_row_def list_ex_iff name_row_key_def)
qed

lemma names_of_put: "names_of (put_light_state (m, i) s d) m = (names_of d m)(i \<mapsto> s)"
  "m' \<noteq> m \<Longrightarrow> names_of (put_light_state (m, i) s d) m' = names_of d m'"
  by (auto simp: names_of_def light_table.look_put)

lemma run_audit_ok:
  assumes "faults d = []"
  shows "\<exists>ps. run_state (ignore (audit_log_portal who what)) d = ((), d\<lparr>portal_audit := ps\<rparr>)"
  using assms by (simp add: audit_log_portal_def) blast

lemma run_put_exact:
  "faults d = [] \<Longrightarrow> run_state (put_light_name_exact m i s) d = (Inr (), put_light_state (m, i) s d)"
  by (simp add: put_light_name_exact_def put_light_state_def)

text \<open>The loop computes the merge and writes it through; what is already covered is not written.\<close>

lemma sync_loop_merges:
  assumes "faults d = []" "names_unique d" "rows = names_of d m"
  shows "\<exists>d'. run_state (sync_names_loop m g nw es rows) d = (Inr (merge_names nw es rows), d')
    \<and> faults d' = [] \<and> names_unique d' \<and> names_of d' m = merge_names nw es rows
    \<and> (\<forall>m'. m' \<noteq> m \<longrightarrow> names_of d' m' = names_of d m') \<and> gateway_sessions d' = gateway_sessions d \<and> clock d' = clock d"
  using assms
proof (induction es arbitrary: d rows)
  case Nil
  then show ?case by (simp add: merge_names_def)
next
  case (Cons e es)
  have m: "merge_names nw (e # es) rows = merge_names nw es (merge_entry nw e rows)" by (simp add: merge_names_def)
  show ?case
  proof (cases "covers nw rows e")
    case True
    then have "sync_names_loop m g nw (e # es) rows = sync_names_loop m g nw es rows"
      by (auto simp: covers_def newer_stamp split: option.splits)
    then show ?thesis using Cons.IH [OF Cons.prems] merge_entry_covered [OF True] m by simp
  next
    case False
    then obtain gw where es: "entry_state nw e = Some gw" and lt: "\<And>cur. rows (le_id e) = Some cur \<Longrightarrow> stamp cur < stamp gw"
      unfolding covers_def using not_le by blast
    have gw: "entry_state nw e = Some gw" "merge_entry nw e rows = rows(le_id e \<mapsto> by_gateway gw)"
      and newer: "\<not> (case rows (le_id e) of None \<Rightarrow> False
          | Some cur \<Rightarrow> \<not> light_name_newer (gw\<lparr>ls_updated_by := ls_updated_by cur\<rparr>) cur)"
      using es lt by (simp_all add: merge_entry_def newer_stamp split: option.split)
    let ?d1 = "put_light_state (m, le_id e) (by_gateway gw) d"
    have f1: "faults ?d1 = []" using Cons.prems(1) by (simp add: put_light_state_def)
    obtain ps where ps: "run_state (ignore (audit_log_portal (''gateway:'' @ g) ''light_name'')) ?d1
        = ((), ?d1\<lparr>portal_audit := ps\<rparr>)" using run_audit_ok [OF f1] by blast
    let ?d2 = "?d1\<lparr>portal_audit := ps\<rparr>"
    have d2: "faults ?d2 = []" "names_unique ?d2" "names_of ?d2 k = names_of ?d1 k" for k
      using f1 names_unique_put [OF Cons.prems(2)] by (simp_all add: names_unique_def names_of_def light_state_def)
    have rows: "rows(le_id e \<mapsto> by_gateway gw) = names_of ?d2 m"
      using d2(3) names_of_put(1) Cons.prems(3) by simp
    have "run_state (sync_names_loop m g nw (e # es) rows) d
        = run_state (sync_names_loop m g nw es (rows(le_id e \<mapsto> by_gateway gw))) ?d2"
      using gw(1) newer ps by (simp add: run_put_exact [OF Cons.prems(1)] by_gateway_def Let_def)
    moreover obtain d' where "run_state (sync_names_loop m g nw es (rows(le_id e \<mapsto> by_gateway gw))) ?d2
        = (Inr (merge_names nw (e # es) rows), d')" and d': "faults d' = []" "names_unique d'"
        "names_of d' m = merge_names nw (e # es) rows" "\<forall>m'. m' \<noteq> m \<longrightarrow> names_of d' m' = names_of ?d2 m'"
        "gateway_sessions d' = gateway_sessions ?d2" "clock d' = clock ?d2"
      using Cons.IH [OF d2(1,2) rows] unfolding m gw(2) by metis
    moreover have "names_of ?d2 m' = names_of d m'" if "m' \<noteq> m" for m'
      unfolding d2(3) by (rule names_of_put(2) [OF that])
    moreover have "gateway_sessions ?d2 = gateway_sessions d" "clock ?d2 = clock d" by (simp_all add: put_light_state_def)
    ultimately show ?thesis by auto
  qed
qed

lemma sync_loop_covered:
  "(\<And>e. e \<in> set es \<Longrightarrow> covers nw rows e) \<Longrightarrow> run_state (sync_names_loop m g nw es rows) d = (Inr rows, d)"
proof (induction es)
  case (Cons e es)
  then have "covers nw rows e" by simp
  then have "sync_names_loop m g nw (e # es) rows = sync_names_loop m g nw es rows"
    by (auto simp: covers_def newer_stamp split: option.splits)
  then show ?case using Cons by simp
qed simp

lemma run_machine_ok:
  assumes "faults d = []" "find (\<lambda>s. gs_id s = g) (gateway_sessions d) = Some sess" "gs_machine sess = Some m"
  shows "run_state (machine_id_for_gateway g) d = (Inr m, d)"
  using assms by (simp add: machine_id_for_gateway_def first_row_def)

text \<open>A time that is not too far ahead is taken as it is, now and later.\<close>

definition timely :: "instant \<Rightarrow> light_name_sync_entry \<Rightarrow> bool" where
  "timely nw e \<longleftrightarrow> (case le_updated_at e of None \<Rightarrow> True | Some t \<Rightarrow> truncate_ms t \<le> nw + light_name_max_future)"

lemma entry_state_timely:
  assumes "timely nw e" "nw \<le> nw'"
  shows "entry_state nw' e = entry_state nw e"
proof (cases "le_updated_at e")
  case (Some t)
  then have c: "clamp_light_name_time (truncate_ms t) nw' = clamp_light_name_time (truncate_ms t) nw"
    using assms by (simp add: timely_def clamp_light_name_time_def)
  show ?thesis unfolding entry_state_def Some option.case c ..
qed (simp add: entry_state_def)

lemma clock_names: "names_of (d\<lparr>clock := t\<rparr>) m = names_of d m" "names_unique (d\<lparr>clock := t\<rparr>) \<longleftrightarrow> names_unique d"
  by (simp_all add: names_unique_def names_of_def light_state_def)

section \<open>Properties\<close>


definition sample_gateway_db :: db where
  "sample_gateway_db = empty_db\<lparr>gateway_sessions := [\<lparr>gs_id = ''g'', gs_token_hash = ''h'', gs_machine = Some 7,
     gs_eth0 = None, gs_eth1 = None, gs_last_seen = None\<rparr>]\<rparr>"

definition sample_entry :: light_name_sync_entry where
  "sample_entry = \<lparr>le_id = ''salon'', le_name = NameText ''Living'', le_version = 1, le_updated_at = Some 0\<rparr>"

lemma sample_entry_state: "entry_state 0 sample_entry =
    Some \<lparr>ls_name = Some ''Living'', ls_version = 1, ls_updated_at = 0, ls_updated_by = []\<rparr>"
  by code_simp


end
