(* ===== verification/Geo.thy ===== *)
theory Geo
  imports Inventory
begin

text \<open>
  Geolocation (internal/geo/ipapi.go and internal/data/legacy_iot_geo.go). The addresses of cabinets and gateways
  are looked up with a public service, in the background: a \<open>go\<close> statement adds a job to the list of the
  state and a job that runs takes it from there. \<open>net.SplitHostPort\<close> and \<open>net.ParseIP\<close> are
  written out; the service is an argument that gives a decoded reply or nothing. The texts of errors that only reach the
  log are abbreviated.
\<close>

unbundle bit_operations_syntax

section \<open>Addresses\<close>

text \<open>\<open>net.SplitHostPort\<close>, the host only.\<close>

definition split_host :: "string \<Rightarrow> string option" where
  "split_host s =
     (if CHR '':'' \<notin> set s then None
      else (let i = length s - 1 - length (takeWhile (\<lambda>c. c \<noteq> CHR '':'') (rev s)) in
        if hd s = CHR ''['' then
          (let e = length (takeWhile (\<lambda>c. c \<noteq> CHR '']'') s) in
           if e = length s \<or> e + 1 \<noteq> i then None
           else if CHR ''['' \<in> set (drop 1 s) \<or> CHR '']'' \<in> set (drop (e + 1) s) then None
           else Some (take (e - 1) (drop 1 s)))
        else (let host = take i s in
          if CHR '':'' \<in> set host \<or> CHR ''['' \<in> set s \<or> CHR '']'' \<in> set s then None
          else Some host)))"

text \<open>Four decimal fields without leading zeros, as \<open>netip\<close> reads them.\<close>

definition octet :: "string \<Rightarrow> nat option" where
  "octet s =
     (if s \<noteq> [] \<and> list_all digit s \<and> (length s = 1 \<or> hd s \<noteq> CHR ''0'') \<and> dec_val s \<le> 255
      then Some (nat (dec_val s)) else None)"

fun all_some :: "'a option list \<Rightarrow> 'a list option" where
  "all_some [] = Some []"
| "all_some (None # xs) = None"
| "all_some (Some x # xs) = map_option (Cons x) (all_some xs)"

definition parse_ipv4 :: "string \<Rightarrow> nat list option" where
  "parse_ipv4 s = (let fields = split_on CHR ''.'' s in
     if length fields = 4 then all_some (map octet fields) else None)"

definition ip_hex :: "char \<Rightarrow> bool" where
  "ip_hex c \<longleftrightarrow> digit c \<or> CHR ''a'' \<le> c \<and> c \<le> CHR ''f'' \<or> CHR ''A'' \<le> c \<and> c \<le> CHR ''F''"

definition hex_value :: "string \<Rightarrow> nat" where
  "hex_value s = foldl (\<lambda>acc c. 16 * acc + (if digit c then byte c - 48 else if CHR ''a'' \<le> c then byte c - 87 else byte c - 55)) 0 s"

text \<open>
  The loop over groups of hexadecimal digits: the bytes so far, where the ellipsis stood, and the rest of the
  text. A group followed by a dot starts a trailing IPv4 address.
\<close>

function parse_groups :: "nat list \<Rightarrow> nat option \<Rightarrow> string \<Rightarrow> (nat list \<times> nat option \<times> string) option" where
  "parse_groups ip ell s =
     (if 16 \<le> length ip then Some (ip, ell, s)
      else (let ds = takeWhile ip_hex s; rest = drop (length ds) s;
                ip' = ip @ [hex_value ds div 256, hex_value ds mod 256] in
        if ds = [] \<or> 4 < length ds then None
        else (case rest of
            [] \<Rightarrow> Some (ip', ell, [])
          | c # s1 \<Rightarrow>
              if c = CHR ''.'' then
                (if ell = None \<and> length ip \<noteq> 12 then None
                 else if 16 < length ip + 4 then None
                 else map_option (\<lambda>q. (ip @ q, ell, [])) (parse_ipv4 s))
              else if c \<noteq> CHR '':'' \<or> s1 = [] then None
              else if hd s1 = CHR '':'' then
                (if ell \<noteq> None then None
                 else if tl s1 = [] then Some (ip', Some (length ip'), [])
                 else parse_groups ip' (Some (length ip')) (tl s1))
              else parse_groups ip' ell s1)))"
  by pat_completeness auto
termination by (relation "measure (\<lambda>(ip, _, _). 16 - length ip)") auto

declare parse_groups.simps [simp del]

text \<open>An ellipsis stands for at least one group of zeros. Zones are not addresses of \<open>net.ParseIP\<close>.\<close>

definition expand_ellipsis :: "nat list \<times> nat option \<times> string \<Rightarrow> nat list option" where
  "expand_ellipsis res = (case res of (ip, ell, s) \<Rightarrow>
     if s \<noteq> [] then None
     else if length ip < 16 then
       (case ell of None \<Rightarrow> None | Some e \<Rightarrow> Some (take e ip @ replicate (16 - length ip) 0 @ drop e ip))
     else if ell \<noteq> None then None else Some ip)"

definition parse_ipv6 :: "string \<Rightarrow> nat list option" where
  "parse_ipv6 s =
     (if CHR ''%'' \<in> set s then None
      else if prefix ''::'' s then
        (if s = ''::'' then Some (replicate 16 0)
         else Option.bind (parse_groups [] (Some 0) (drop 2 s)) expand_ellipsis)
      else Option.bind (parse_groups [] None s) expand_ellipsis)"

definition v4_prefix :: "nat list" where
  "v4_prefix = replicate 10 0 @ [255, 255]"

definition parse_ip :: "string \<Rightarrow> nat list option" where
  "parse_ip s = (case find (\<lambda>c. c = CHR ''.'' \<or> c = CHR '':'' \<or> c = CHR ''%'') s of
       None \<Rightarrow> None
     | Some c \<Rightarrow>
         if c = CHR ''.'' then map_option (\<lambda>q. v4_prefix @ q) (parse_ipv4 s)
         else if c = CHR '':'' then parse_ipv6 s else None)"

definition to4 :: "nat list \<Rightarrow> nat list option" where
  "to4 ip = (if take 12 ip = v4_prefix then Some (drop 12 ip) else None)"

definition is_private :: "nat list \<Rightarrow> bool" where
  "is_private ip = (case to4 ip of
       Some q \<Rightarrow> q ! 0 = 10 \<or> q ! 0 = 172 \<and> q ! 1 AND 240 = 16 \<or> q ! 0 = 192 \<and> q ! 1 = 168
     | None \<Rightarrow> ip ! 0 AND 254 = 252)"

definition is_loopback :: "nat list \<Rightarrow> bool" where
  "is_loopback ip = (case to4 ip of Some q \<Rightarrow> q ! 0 = 127 | None \<Rightarrow> ip = replicate 15 0 @ [1])"

definition is_link_local :: "nat list \<Rightarrow> bool" where
  "is_link_local ip = (case to4 ip of
       Some q \<Rightarrow> q ! 0 = 169 \<and> q ! 1 = 254
     | None \<Rightarrow> ip ! 0 = 254 \<and> ip ! 1 AND 192 = 128)"

definition normalize_host :: "string \<Rightarrow> string" where
  "normalize_host raw = (let ip = trim_space raw in
     if ip = [] then []
     else (case split_host ip of
         Some host \<Rightarrow> host
       | None \<Rightarrow> (let before = takeWhile (\<lambda>c. c \<noteq> CHR ''%'') ip in
           if before \<noteq> [] \<and> before \<noteq> ip then before else ip)))"

definition is_lookupable :: "string \<Rightarrow> bool" where
  "is_lookupable ip = (let host = normalize_host ip in
     if host = [] \<or> host = ''127.0.0.1'' \<or> host = ''::1'' then False
     else (case parse_ip host of
         None \<Rightarrow> False
       | Some a \<Rightarrow> \<not> is_private a \<and> \<not> is_loopback a \<and> \<not> is_link_local a))"

section \<open>Lookup\<close>

record geo_reply =
  ga_status :: string
  ga_country :: string
  ga_city :: string
  ga_isp :: string
  ga_lat :: string
  ga_lon :: string

type_synonym geo_site = "string \<Rightarrow> geo_reply option"

definition ip_api_base :: string where "ip_api_base = ''http://ip-api.com/json/''"

definition lookup_ip :: "geo_site \<Rightarrow> string \<Rightarrow> goerr + geo_doc" where
  "lookup_ip site ip = (let host = normalize_host ip in
     if \<not> is_lookupable host then Inl (Errorf (''geo: skip lookup for '' @ ip))
     else (case site (ip_api_base @ host) of
         None \<Rightarrow> Inl (Errorf ''http'')
       | Some reply \<Rightarrow>
           if ga_status reply \<noteq> ''success'' then Inl (Errorf (''geo: ip-api status '' @ ga_status reply))
           else Inr \<lparr>geo_location = ga_city reply @ '', '' @ ga_country reply @ '' ('' @ ga_isp reply @ '')'',
                     geo_lat = ga_lat reply, geo_lon = ga_lon reply\<rparr>))"

section \<open>Jobs\<close>

definition go :: "geo_job \<Rightarrow> unit io" where
  "go job = State (\<lambda>d. ((), d\<lparr>geo_jobs := geo_jobs d @ [job]\<rparr>))"

definition zero_number :: "string \<Rightarrow> bool" where
  "zero_number t \<longleftrightarrow> t = [] \<or> t = ''0''"

definition coordinates_zero :: "geo_doc \<Rightarrow> bool" where
  "coordinates_zero g \<longleftrightarrow> zero_number (geo_lat g) \<and> zero_number (geo_lon g)"

definition machine_geo_empty :: "geo_doc option \<Rightarrow> bool" where
  "machine_geo_empty g = (case g of None \<Rightarrow> True | Some g \<Rightarrow> coordinates_zero g)"

definition missing_geo :: "machine_row \<Rightarrow> bool" where
  "missing_geo m \<longleftrightarrow> (case m_ip m of None \<Rightarrow> False | Some ip \<Rightarrow> ip \<notin> {[], ''-'', ''127.0.0.1''})
     \<and> (case m_geo m of None \<Rightarrow> True | Some g \<Rightarrow> zero_number (geo_lat g) \<or> zero_number (geo_lon g))"

definition backfill_missing_machine_geo :: "unit io" where
  "backfill_missing_machine_geo = do {
     r \<leftarrow> query (\<lambda>d. Inr (filter missing_geo (machines d)));
     case r of
       Inl _ \<Rightarrow> State_Monad.return ()
     | Inr rows \<Rightarrow> State (\<lambda>d. ((), d\<lparr>geo_jobs := geo_jobs d @
         map (\<lambda>m. MachineGeo (m_hashed_pkey m) (deref_string (m_ip m) []))
           (filter (\<lambda>m. is_lookupable (deref_string (m_ip m) [])) rows)\<rparr>)) }"

definition resolve_and_save_machine_geo :: "geo_site \<Rightarrow> string \<Rightarrow> string \<Rightarrow> unit io" where
  "resolve_and_save_machine_geo site hashed_pkey ip = (case lookup_ip site ip of
       Inl _ \<Rightarrow> State_Monad.return ()
     | Inr g \<Rightarrow> ignore (exec (\<lambda>d. d\<lparr>machines := update_rows (\<lambda>m. m_hashed_pkey m = hashed_pkey)
         (\<lambda>m. m\<lparr>m_geo := Some g\<rparr>) (machines d)\<rparr>)))"

definition resolve_and_save_gateway_geo :: "geo_site \<Rightarrow> string \<Rightarrow> string \<Rightarrow> unit io" where
  "resolve_and_save_gateway_geo site hostname ip = (case lookup_ip site ip of
       Inl _ \<Rightarrow> State_Monad.return ()
     | Inr g \<Rightarrow> do {
         r \<leftarrow> query (\<lambda>d. first_row (\<lambda>s. gp_hostname s = hostname) (push_status d));
         case r of
           Inl _ \<Rightarrow> State_Monad.return ()
         | Inr _ \<Rightarrow> ignore (exec (\<lambda>d. d\<lparr>push_status := update_rows (\<lambda>s. gp_hostname s = hostname)
             (\<lambda>s. s\<lparr>gp_geo := g, gp_updated_at := clock d\<rparr>) (push_status d)\<rparr>)) })"

fun run_geo_job :: "geo_site \<Rightarrow> geo_job \<Rightarrow> unit io" where
  "run_geo_job site (MachineGeo k ip) = resolve_and_save_machine_geo site k ip"
| "run_geo_job site (GatewayGeo h ip) = resolve_and_save_gateway_geo site h ip"

section \<open>Library: the bytes of an address\<close>

definition ip_bytes :: "nat list \<Rightarrow> bool" where
  "ip_bytes bs \<longleftrightarrow> list_all (\<lambda>b. b < 256) bs"

lemma ip_bytes_simps [simp]:
  "ip_bytes []" "ip_bytes (b # bs) \<longleftrightarrow> b < 256 \<and> ip_bytes bs" "ip_bytes (as @ bs) \<longleftrightarrow> ip_bytes as \<and> ip_bytes bs"
  "ip_bytes (replicate n 0)"
  by (auto simp: ip_bytes_def list_all_iff)

lemma ip_bytes_take: "ip_bytes bs \<Longrightarrow> ip_bytes (take n bs) \<and> ip_bytes (drop n bs)"
  by (metis append_take_drop_id ip_bytes_simps(3))

lemma all_some_bytes:
  assumes "all_some (map octet fs) = Some q"
  shows "length q = length fs \<and> ip_bytes q"
  using assms
proof (induction fs arbitrary: q)
  case (Cons f fs)
  then obtain x r where "octet f = Some x" "all_some (map octet fs) = Some r" "q = x # r"
    by (cases "octet f") auto
  moreover from \<open>octet f = Some x\<close> have "x < 256" by (auto simp: octet_def split: if_splits)
  ultimately show ?case using Cons.IH [of r] by simp
qed simp

lemma parse_ipv4_bytes: "parse_ipv4 s = Some q \<Longrightarrow> length q = 4 \<and> ip_bytes q"
  using all_some_bytes [of "split_on CHR ''.'' s" q] by (auto simp: parse_ipv4_def Let_def split: if_splits)

lemma ip_hex_value:
  assumes "ip_hex c"
  shows "(if digit c then byte c - 48 else if CHR ''a'' \<le> c then byte c - 87 else byte c - 55) < 16"
  using assms by (auto simp: ip_hex_def digit_def byte_def less_eq_char_def)

lemma hex_value_bound: "list_all ip_hex ds \<Longrightarrow> hex_value ds < 16 ^ length ds"
proof (induction ds rule: rev_induct)
  case (snoc c ds)
  have "hex_value (ds @ [c]) = 16 * hex_value ds
      + (if digit c then byte c - 48 else if CHR ''a'' \<le> c then byte c - 87 else byte c - 55)"
    by (simp add: hex_value_def)
  then show ?case using snoc ip_hex_value [of c] by auto
qed (simp add: hex_value_def)

lemma hex_group: "ds = takeWhile ip_hex s \<Longrightarrow> length ds \<le> 4 \<Longrightarrow> hex_value ds div 256 < 256"
proof -
  assume ds: "ds = takeWhile ip_hex s" "length ds \<le> 4"
  have "list_all ip_hex ds" unfolding ds list_all_iff by (auto dest: set_takeWhileD)
  then have "hex_value ds < 16 ^ length ds" by (rule hex_value_bound)
  also have "\<dots> \<le> 16 ^ 4" using ds(2) by (rule power_increasing) simp
  finally show ?thesis by (simp add: less_mult_imp_div_less)
qed

lemma parse_groups_bytes:
  assumes "parse_groups ip ell s = Some (ip', ell', s')" "ip_bytes ip" "length ip \<le> 16" "even (length ip)"
    "\<And>e. ell = Some e \<Longrightarrow> e \<le> length ip"
  shows "ip_bytes ip' \<and> length ip' \<le> 16 \<and> (\<forall>e. ell' = Some e \<longrightarrow> e \<le> length ip')"
  using assms
proof (induction ip ell s rule: parse_groups.induct)
  case (1 ip ell s)
  let ?ds = "takeWhile ip_hex s"
  let ?ip = "ip @ [hex_value ?ds div 256, hex_value ?ds mod 256]"
  show ?case
  proof (cases "16 \<le> length ip")
    case True
    then show ?thesis using 1(3-7) by (simp add: parse_groups.simps [of ip ell s])
  next
    case False
    then have "length ip + 2 \<le> 16" using 1(6) by presburger
    then have len: "length ?ip \<le> 16" "even (length ?ip)" using 1(6) by simp_all
    have ok: "?ds \<noteq> []" "length ?ds \<le> 4"
      using 1(3) False by (auto simp: parse_groups.simps [of ip ell s] Let_def split: if_splits)
    have bt: "ip_bytes ?ip" using 1(4) hex_group [OF refl ok(2)] by simp
    note step = 1(3) [unfolded parse_groups.simps [of ip ell s] Let_def, simplified False if_False]
    show ?thesis
    proof (cases "drop (length ?ds) s")
      case Nil
      then show ?thesis using step ok bt len 1(7) by fastforce
    next
      case (Cons c s1)
      consider (dot) "c = CHR ''.''" | (two) "c = CHR '':''" "s1 \<noteq> []" "hd s1 = CHR '':''"
        | (one) "c = CHR '':''" "s1 \<noteq> []" "hd s1 \<noteq> CHR '':''"
        using step ok Cons by (auto split: if_splits)
      then show ?thesis
      proof cases
        case dot
        then obtain q where "parse_ipv4 s = Some q" "ip' = ip @ q" "ell' = ell" "length ip + 4 \<le> 16"
          using step ok Cons by (auto split: if_splits)
        then show ?thesis using parse_ipv4_bytes [of s q] 1(4,7) by fastforce
      next
        case two
        then show ?thesis
          using step ok Cons 1(1) bt len False by (auto split: if_splits)
      next
        case one
        have "e \<le> length ?ip" if "ell = Some e" for e using 1(7) [OF that] by simp
        with one show ?thesis using step ok Cons 1(2) bt len False by simp
      qed
    qed
  qed
qed


lemma expand_ellipsis_bytes:
  assumes "parse_groups [] ell s = Some res" "expand_ellipsis res = Some a" "\<And>e. ell = Some e \<Longrightarrow> e = 0"
  shows "length a = 16 \<and> ip_bytes a"
proof -
  obtain ip e t where res: "res = (ip, e, t)" by (cases res)
  have "ip_bytes ip \<and> length ip \<le> 16 \<and> (\<forall>k. e = Some k \<longrightarrow> k \<le> length ip)"
    using parse_groups_bytes [of "[]" ell s ip e t] assms(1,3) res by simp
  then show ?thesis using assms(2) res
    by (auto simp: expand_ellipsis_def ip_bytes_take split: if_splits option.splits)
qed

lemma parse_ip_bytes:
  assumes "parse_ip s = Some a"
  shows "length a = 16 \<and> ip_bytes a"
proof -
  have v6: "length a = 16 \<and> ip_bytes a" if "parse_ipv6 s = Some a"
    using that expand_ellipsis_bytes [of "Some 0" "drop 2 s" _ a] expand_ellipsis_bytes [of None s _ a]
    by (auto simp: parse_ipv6_def bind_eq_Some_conv split: if_splits)
  show ?thesis using assms v6 parse_ipv4_bytes
    by (auto simp: parse_ip_def v4_prefix_def split: option.splits if_splits)
qed

section \<open>Library: blocks of addresses\<close>

text \<open>The reference: an address is a number of 128 bits, a block is given by its first bits.\<close>

definition addr_value :: "nat list \<Rightarrow> nat" where
  "addr_value bs = foldl (\<lambda>v b. 256 * v + b) 0 bs"

lemma addr_value_Nil [simp]: "addr_value [] = 0"
  by (simp add: addr_value_def)

lemma addr_value_snoc [simp]: "addr_value (bs @ [b]) = 256 * addr_value bs + b"
  by (simp add: addr_value_def)

lemma addr_value_bound: "ip_bytes bs \<Longrightarrow> addr_value bs < 256 ^ length bs"
proof (induction bs rule: rev_induct)
  case (snoc b bs)
  then have "addr_value bs + 1 \<le> 256 ^ length bs" by simp
  then show ?case using snoc by auto
qed simp

lemma addr_value_append: "addr_value (as @ bs) = addr_value as * 256 ^ length bs + addr_value bs"
proof (induction bs rule: rev_induct)
  case (snoc b bs)
  then show ?case by (simp flip: append_assoc add: algebra_simps)
qed simp

lemma addr_value_take:
  assumes "ip_bytes bs"
  shows "addr_value (take n bs) = addr_value bs div 256 ^ (length bs - n)"
proof -
  have "addr_value bs = addr_value (take n bs) * 256 ^ (length bs - n) + addr_value (drop n bs)"
    using addr_value_append [of "take n bs" "drop n bs"] by simp
  moreover have "addr_value (drop n bs) < 256 ^ (length bs - n)"
    using addr_value_bound [of "drop n bs"] ip_bytes_take [OF assms] by simp
  ultimately show ?thesis by simp
qed

lemma addr_value_inj: "length as = length bs \<Longrightarrow> ip_bytes as \<Longrightarrow> ip_bytes bs \<Longrightarrow> addr_value as = addr_value bs \<longleftrightarrow> as = bs"
proof (induction as arbitrary: bs rule: rev_induct)
  case (snoc a as)
  then obtain b cs where bs: "bs = cs @ [b]" by (cases bs rule: rev_cases) auto
  have "256 * x + a = 256 * y + b \<longleftrightarrow> x = y \<and> a = b" if "a < 256" "b < 256" for x y
  proof
    assume eq: "256 * x + a = 256 * y + b"
    have "(256 * x + a) div 256 = x" "(256 * y + b) div 256 = y" using that by simp_all
    then show "x = y \<and> a = b" using eq by simp
  qed simp
  then show ?case using snoc bs by simp
qed simp

definition in_block :: "nat \<Rightarrow> nat list \<Rightarrow> nat list \<Rightarrow> bool" where
  "in_block n base a \<longleftrightarrow> addr_value a div 2 ^ (128 - n) = addr_value base div 2 ^ (128 - n)"

definition v4_base :: "nat \<Rightarrow> nat \<Rightarrow> nat list" where
  "v4_base a b = v4_prefix @ [a, b, 0, 0]"

definition reserved :: "nat list \<Rightarrow> bool" where
  "reserved a \<longleftrightarrow>
     in_block 104 (v4_base 10 0) a \<or> in_block 108 (v4_base 172 16) a \<or> in_block 112 (v4_base 192 168) a
   \<or> in_block 104 (v4_base 127 0) a \<or> in_block 112 (v4_base 169 254) a
   \<or> in_block 7 (252 # replicate 15 0) a \<or> in_block 10 (254 # 128 # replicate 14 0) a
   \<or> in_block 128 (replicate 15 0 @ [1]) a"

lemma block_bits:
  assumes "length a = 16" "ip_bytes a" "length base = 16" "ip_bytes base" "n < 16" "k \<le> 8"
  shows "in_block (8 * n + k) base a \<longleftrightarrow> take n a = take n base \<and> a ! n div 2 ^ (8 - k) = base ! n div 2 ^ (8 - k)"
proof -
  have split: "addr_value c div 2 ^ (128 - (8 * n + k)) = 2 ^ k * addr_value (take n c) + c ! n div 2 ^ (8 - k)"
    if c: "length c = 16" "ip_bytes c" for c
  proof -
    have e: "128 - (8 * n + k) = 8 * (16 - Suc n) + (8 - k)" using assms(5,6) by simp
    let ?x = "addr_value (take n c)"
    have "addr_value c div 2 ^ (8 * (16 - Suc n)) = addr_value (take (Suc n) c)"
      using addr_value_take [OF c(2), of "Suc n"] c(1) by (simp add: power_mult)
    also have "\<dots> = 256 * ?x + c ! n"
      using assms(5) c(1) by (simp add: take_Suc_conv_app_nth)
    also have "256 = (2::nat) ^ (8 - k) * 2 ^ k" using assms(6) by (simp flip: power_add)
    finally have "addr_value c div 2 ^ (8 * (16 - Suc n)) = c ! n + 2 ^ (8 - k) * (2 ^ k * ?x)" by simp
    then show ?thesis unfolding e power_add div_mult2_eq by simp
  qed
  have less: "c ! n div 2 ^ (8 - k) < 2 ^ k" if "length c = 16" "ip_bytes c" for c
  proof -
    have "c ! n < 2 ^ (k + (8 - k))" using that assms(5,6) by (auto simp: ip_bytes_def list_all_length)
    then show ?thesis by (simp add: less_mult_imp_div_less power_add)
  qed
  have eq: "m * x + u = m * y + v \<longleftrightarrow> x = y \<and> u = v" if "u < m" "v < m" for m x y u v :: nat
  proof
    assume e: "m * x + u = m * y + v"
    have "(m * x + u) div m = x" "(m * y + v) div m = y" using that by simp_all
    then show "x = y \<and> u = v" using e by simp
  qed simp
  have "take n a = take n base \<longleftrightarrow> addr_value (take n a) = addr_value (take n base)"
    using addr_value_inj [of "take n a" "take n base"] assms ip_bytes_take by simp
  then show ?thesis unfolding in_block_def split [OF assms(1,2)] split [OF assms(3,4)]
    using eq [OF less [OF assms(1,2)] less [OF assms(3,4)]] by simp
qed

lemma mask_byte: "b < 256 \<Longrightarrow> j \<le> 8 \<Longrightarrow> b AND push_bit j (mask (8 - j)) = 2 ^ j * (b div 2 ^ j)" for b :: nat
proof -
  assume b: "b < 256" "j \<le> 8"
  then have t: "take_bit 8 b = b" by (simp add: take_bit_nat_eq_self)
  have "b AND push_bit j (mask (8 - j)) = push_bit j (drop_bit j b)"
    using b(2) by (subst (1 2) t [symmetric]) (auto intro!: bit_eqI simp: bit_simps)
  then show ?thesis by (simp add: push_bit_eq_mult drop_bit_eq_div mult.commute)
qed

lemma mask_tests:
  fixes b :: nat
  assumes "b < 256"
  shows "b AND 240 = 16 \<longleftrightarrow> b div 16 = 1" "b AND 254 = 252 \<longleftrightarrow> b div 2 = 126" "b AND 192 = 128 \<longleftrightarrow> b div 64 = 2"
proof -
  have "(240::nat) = push_bit 4 (mask 4)" "(254::nat) = push_bit 1 (mask 7)" "(192::nat) = push_bit 6 (mask 2)"
    by (simp_all add: mask_eq_exp_minus_1 push_bit_eq_mult)
  then show "b AND 240 = 16 \<longleftrightarrow> b div 16 = 1" "b AND 254 = 252 \<longleftrightarrow> b div 2 = 126" "b AND 192 = 128 \<longleftrightarrow> b div 64 = 2"
    using mask_byte [OF assms, of 4] mask_byte [OF assms, of 1] mask_byte [OF assms, of 6] by auto
qed

lemma reserved_iff:
  assumes "length a = 16" "ip_bytes a"
  shows "is_private a \<or> is_loopback a \<or> is_link_local a \<longleftrightarrow> reserved a"
proof -
  obtain b0 b1 b2 b3 b4 b5 b6 b7 b8 b9 b10 b11 b12 b13 b14 b15 where
    a: "a = [b0, b1, b2, b3, b4, b5, b6, b7, b8, b9, b10, b11, b12, b13, b14, b15]"
    using assms(1) by (auto simp: numeral_eq_Suc length_Suc_conv)
  note blk = block_bits [OF assms] and ev = a v4_base_def v4_prefix_def
  let ?v4 = "take 12 a = v4_prefix"
  have blocks:
    "in_block 104 (v4_base 10 0) a \<longleftrightarrow> ?v4 \<and> b12 = 10"
    "in_block 104 (v4_base 127 0) a \<longleftrightarrow> ?v4 \<and> b12 = 127"
    "in_block 108 (v4_base 172 16) a \<longleftrightarrow> ?v4 \<and> b12 = 172 \<and> b13 div 16 = 1"
    "in_block 112 (v4_base 192 168) a \<longleftrightarrow> ?v4 \<and> b12 = 192 \<and> b13 = 168"
    "in_block 112 (v4_base 169 254) a \<longleftrightarrow> ?v4 \<and> b12 = 169 \<and> b13 = 254"
    "in_block 7 (252 # replicate 15 0) a \<longleftrightarrow> b0 div 2 = 126"
    "in_block 10 (254 # 128 # replicate 14 0) a \<longleftrightarrow> b0 = 254 \<and> b1 div 64 = 2"
    "in_block 128 (replicate 15 0 @ [1]) a \<longleftrightarrow> a = replicate 15 0 @ [1]"
    using blk [of "v4_base 10 0" 12 8] blk [of "v4_base 127 0" 12 8] blk [of "v4_base 172 16" 13 4]
      blk [of "v4_base 192 168" 13 8] blk [of "v4_base 169 254" 13 8] blk [of "252 # replicate 15 0" 0 7]
      blk [of "254 # 128 # replicate 14 0" 1 2] blk [of "replicate 15 0 @ [1]" 15 8]
    by (simp_all add: ev nth_append)
  have by_: "b0 < 256" "b1 < 256" "b13 < 256" using assms(2) a by auto
  have "b0 = 0 \<and> a \<noteq> replicate 15 0 @ [1]" if ?v4
    using that by (simp add: a v4_prefix_def numeral_eq_Suc)
  then show ?thesis unfolding reserved_def blocks is_private_def is_loopback_def is_link_local_def to4_def
    using by_ by (cases ?v4) (auto simp: a mask_tests)
qed


section \<open>Library: dotted addresses\<close>

definition dotted :: "nat list \<Rightarrow> string" where
  "dotted q = join ''.'' (map digits q)"

lemma digits_no_zero: "0 < n \<Longrightarrow> hd (digits n) \<noteq> CHR ''0''"
proof (induction n rule: digits.induct)
  case (1 n)
  show ?case
  proof (cases "n < 10")
    case True
    have "list_all (\<lambda>k. char_of (48 + k) \<noteq> CHR ''0'') [1..<10]" by code_simp
    then show ?thesis using True 1(2) by (subst digits.simps) (auto simp: list_all_iff)
  next
    case False
    then show ?thesis using 1(1) digits_nonempty [of "n div 10"] by (subst digits.simps) (simp add: hd_append)
  qed
qed

lemma octet_digits: "n < 256 \<Longrightarrow> octet (digits n) = Some n"
proof -
  assume n: "n < 256"
  have "length (digits 0) = 1" by (subst digits.simps) simp
  then have "length (digits n) = 1 \<or> hd (digits n) \<noteq> CHR ''0''" using digits_no_zero [of n] by (cases "n = 0") auto
  then show ?thesis using n digits_digit [of n] digits_nonempty [of n] dec_val_digits [of n] by (simp add: octet_def)
qed

lemma all_some_octets: "ip_bytes q \<Longrightarrow> all_some (map octet (map digits q)) = Some q"
  by (induction q) (auto simp: octet_digits)

lemma parse_dotted:
  assumes "length q = 4" "ip_bytes q"
  shows "parse_ip (dotted q) = Some (v4_prefix @ q)"
proof -
  have no: "CHR ''.'' \<notin> set (digits n)" "CHR '':'' \<notin> set (digits n)" "CHR ''%'' \<notin> set (digits n)" for n
    using digits_digit [of n] by (auto simp: list_all_iff digit_def byte_def)
  have "split_on CHR ''.'' (dotted q) = map digits q"
    unfolding dotted_def using assms(1) no by (intro split_join) auto
  then have v4: "parse_ipv4 (dotted q) = Some q"
    using assms all_some_octets [of q] by (simp add: parse_ipv4_def)
  have none: "find (\<lambda>x. x = CHR ''.'' \<or> x = CHR '':'' \<or> x = CHR ''%'') (digits n) = None" for n
    using no [of n] by (auto simp: find_None_iff)
  obtain a b c d where q: "q = [a, b, c, d]" using assms(1) by (auto simp: numeral_eq_Suc length_Suc_conv)
  have "find (\<lambda>x. x = CHR ''.'' \<or> x = CHR '':'' \<or> x = CHR ''%'') (dotted q) = Some CHR ''.''"
    unfolding q dotted_def using none by (simp add: find_append)
  then show ?thesis using v4 by (simp add: parse_ip_def)
qed

section \<open>Properties\<close>



text \<open>
  The host that the service is asked about is the one before the second normalisation: what follows a zone separator inside
  brackets goes into the URL as it came.
\<close>

lemma lookup_sends_suffix:
  "normalize_host ''[8.8.8.8%/x?y]:1'' = ''8.8.8.8%/x?y'' \<and> is_lookupable ''8.8.8.8%/x?y'' \<and> parse_ip ''8.8.8.8%/x?y'' = None"
  by code_simp

end
