(* ===== verification/LegacyIot.thy ===== *)
theory LegacyIot
  imports Middleware Geo
begin

text \<open>
  The protocol of the cabinets (armoires) that talk to the portal directly: their store
  (internal/data/legacy_iot_store.go), the middleware that knows them by basic authentication
  (internal/middleware/basic_auth.go) and their handlers (internal/legacyiot). Base64 and
  \<open>LIKE\<close> are written out; JSON is a parameter that decodes a text. The lookup of coordinates runs in the
  background: a visit only adds it to the list of jobs of theory Geo.
\<close>

section \<open>Text\<close>

text \<open>\<open>base64.StdEncoding\<close>: line ends are skipped, padding is required, spare bits are not checked.\<close>

definition b64_digit :: "char \<Rightarrow> nat option" where
  "b64_digit c =
     (if CHR ''A'' \<le> c \<and> c \<le> CHR ''Z'' then Some (byte c - 65)
      else if CHR ''a'' \<le> c \<and> c \<le> CHR ''z'' then Some (byte c - 71)
      else if digit c then Some (byte c + 4)
      else if c = CHR ''+'' then Some 62
      else if c = CHR ''/'' then Some 63
      else None)"

fun b64_quads :: "string \<Rightarrow> string option" where
  "b64_quads [] = Some []"
| "b64_quads (a # b # c # e # rest) = (case (b64_digit a, b64_digit b) of
       (Some x, Some y) \<Rightarrow>
         (if c = CHR ''='' then
            (if e = CHR ''='' \<and> rest = [] then Some [char_of (x * 4 + y div 16)] else None)
          else (case b64_digit c of
              None \<Rightarrow> None
            | Some z \<Rightarrow>
                if e = CHR ''='' then
                  (if rest = [] then Some [char_of (x * 4 + y div 16), char_of (y mod 16 * 16 + z div 4)] else None)
                else (case (b64_digit e, b64_quads rest) of
                    (Some w, Some s) \<Rightarrow> Some (char_of (x * 4 + y div 16) # char_of (y mod 16 * 16 + z div 4)
                      # char_of (z mod 4 * 64 + w) # s)
                  | _ \<Rightarrow> None)))
     | _ \<Rightarrow> None)"
| "b64_quads _ = None"

definition b64_decode :: "string \<Rightarrow> string option" where
  "b64_decode s = b64_quads (filter (\<lambda>c. c \<noteq> CHR 0x0A \<and> c \<noteq> CHR 0x0D) s)"

definition client_ip_from_request :: "http_request \<Rightarrow> string" where
  "client_ip_from_request r =
     (if header r ''X-Forwarded-For'' \<noteq> [] then trim_space (hd (split_on CHR '','' (header r ''X-Forwarded-For'')))
      else if header r ''X-Real-IP'' \<noteq> [] then trim_space (header r ''X-Real-IP'')
      else (case split_host (remote_addr r) of Some host \<Rightarrow> host | None \<Rightarrow> remote_addr r))"

text \<open>\<open>LIKE\<close> of SQL, with the backslash as escape character.\<close>

fun sql_like :: "string \<Rightarrow> string \<Rightarrow> bool" where
  "sql_like [] s = (s = [])"
| "sql_like (c # p) s =
     (if c = CHR ''%'' then list_ex (sql_like p) (suffixes s)
      else if c = CHR ''_'' then (case s of [] \<Rightarrow> False | _ # t \<Rightarrow> sql_like p t)
      else if c = CHR 0x5C then (case p of [] \<Rightarrow> False
        | e # q \<Rightarrow> (case s of [] \<Rightarrow> False | x # t \<Rightarrow> x = e \<and> sql_like q t))
      else (case s of [] \<Rightarrow> False | x # t \<Rightarrow> x = c \<and> sql_like p t))"

definition quoted :: "string \<Rightarrow> string" where
  "quoted s = CHR 0x22 # s @ [CHR 0x22]"

text \<open>
  The firmware sends objects whose keys are not quoted. \<open>valid\<close> says which texts are JSON.
\<close>

definition requote :: "string \<Rightarrow> string" where
  "requote s = fold (\<lambda>(old, new). replace_all old new)
     [(''{k:'', ''{'' @ quoted ''k'' @ '':''), ('',v:'', '','' @ quoted ''v'' @ '':''),
      (''[k:'', ''[{'' @ quoted ''k'' @ '':''), (''{version:'', ''{'' @ quoted ''version'' @ '':''),
      ('',version:'', '','' @ quoted ''version'' @ '':''), ('',ek:'', '','' @ quoted ''ek'' @ '':'')] s"

definition normalize_json :: "(string \<Rightarrow> bool) \<Rightarrow> string \<Rightarrow> string option" where
  "normalize_json valid input =
     (if input = [] then None
      else (let normalized = requote input in if valid normalized then Some normalized else None))"

section \<open>Store\<close>

record legacy_machine =
  lm_hashed_pkey :: string
  lm_no_serie :: string
  lm_active :: bool

definition legacy_of :: "machine_row \<Rightarrow> legacy_machine" where
  "legacy_of m = \<lparr>lm_hashed_pkey = m_hashed_pkey m, lm_no_serie = deref_string (m_client_id m) (m_hashed_pkey m),
     lm_active = m_active m\<rparr>"

definition get_machine_by_hashed_pkey :: "string \<Rightarrow> legacy_machine option dbop" where
  "get_machine_by_hashed_pkey k = query (\<lambda>d.
     Inr (map_option legacy_of (find (\<lambda>m. m_hashed_pkey m = k) (machines d))))"

definition unknown_serie :: "string \<Rightarrow> string" where
  "unknown_serie k = ''UNKNOWN-'' @ take 8 k"

text \<open>The sequence of identifiers advances even when the key is already there.\<close>

definition insert_unknown :: "string \<Rightarrow> db \<Rightarrow> db" where
  "insert_unknown k d = (bump ''machines'' d)\<lparr>machines :=
     (if list_ex (\<lambda>m. m_hashed_pkey m = k) (machines d) then machines d
      else machines d @ [\<lparr>m_hashed_pkey = k, m_client_id = Some (unknown_serie k), m_ip = None,
        m_last_seen = Some (clock d), m_auth = None, m_active = False, m_geo = None,
        m_id = nextval ''machines'' d, m_mac = None\<rparr>])\<rparr>"

definition register_unknown_machine :: "string \<Rightarrow> legacy_machine option dbop" where
  "register_unknown_machine k = andThen (exec (insert_unknown k)) (\<lambda>_. do {
     r \<leftarrow> get_machine_by_hashed_pkey k;
     State_Monad.return (Inr (case r of
         Inl _ \<Rightarrow> Some \<lparr>lm_hashed_pkey = k, lm_no_serie = unknown_serie k, lm_active = False\<rparr>
       | Inr m \<Rightarrow> m)) })"

definition update_machine_status :: "string \<Rightarrow> string \<Rightarrow> string \<Rightarrow> string \<Rightarrow> unit io" where
  "update_machine_status k ip raw_auth raw_decoded = do {
     r \<leftarrow> query (\<lambda>d. first_row (\<lambda>m. m_hashed_pkey m = k) (machines d));
     let old_ip = (case r of Inl _ \<Rightarrow> [] | Inr m \<Rightarrow> deref_string (m_ip m) []);
     let empty = (case r of Inl _ \<Rightarrow> True | Inr m \<Rightarrow> machine_geo_empty (m_geo m));
     let trigger_geo = (old_ip \<noteq> ip \<and> is_lookupable ip \<or> empty \<and> is_lookupable ip);
     res \<leftarrow> exec (\<lambda>d. d\<lparr>machines := update_rows (\<lambda>m. m_hashed_pkey m = k)
       (\<lambda>m. m\<lparr>m_ip := Some ip, m_last_seen := Some (clock d), m_auth := Some (raw_auth, raw_decoded)\<rparr>)
       (machines d)\<rparr>);
     case res of
       Inl _ \<Rightarrow> State_Monad.return ()
     | Inr _ \<Rightarrow> if trigger_geo then go (MachineGeo k ip) else State_Monad.return () }"

definition persist_machine_mac :: "string \<Rightarrow> string \<Rightarrow> string \<Rightarrow> unit io" where
  "persist_machine_mac client_id hashed_pkey mac =
     (if mac = [] then State_Monad.return ()
      else (let hash_prefix = unknown_hash_prefix client_id in
        ignore (exec (\<lambda>d. d\<lparr>machines := update_rows
          (\<lambda>m. (client_id \<noteq> [] \<and> (m_client_id m = Some client_id \<or> itoa (m_id m) = client_id)
                \<or> hash_prefix \<noteq> [] \<and> sql_like (hash_prefix @ ''%'') (m_hashed_pkey m)
                \<or> hashed_pkey \<noteq> [] \<and> m_hashed_pkey m = hashed_pkey)
               \<and> (m_mac m = None \<or> m_mac m = Some [] \<or> m_mac m = Some mac))
          (\<lambda>m. m\<lparr>m_mac := Some mac\<rparr>) (machines d)\<rparr>))))"

definition save_client_data :: "string \<Rightarrow> string \<Rightarrow> string \<Rightarrow> exchange_kv list \<Rightarrow> unit dbop" where
  "save_client_data client_id hashed_pkey version ek = andThen
     (exec (\<lambda>d. d\<lparr>telemetry := upsert_row (\<lambda>t. tel_client_id t = client_id)
        (\<lambda>t. t\<lparr>tel_version := version, tel_ek := ek, tel_updated_at := clock d\<rparr>)
        \<lparr>tel_client_id = client_id, tel_version = version, tel_ek = ek, tel_updated_at = clock d\<rparr>
        (telemetry d)\<rparr>))
     (\<lambda>_. do {
        (let mac = parse_mac_from_ek ek in
         if mac \<noteq> [] then persist_machine_mac client_id hashed_pkey mac else State_Monad.return ());
        State_Monad.return (Inr ()) })"

definition save_gateway :: "gateway_status \<Rightarrow> unit dbop" where
  "save_gateway gw = do {
     r \<leftarrow> query (\<lambda>d. first_row (\<lambda>g. gp_hostname g = gw_hostname gw) (push_status d));
     let moved = (case r of Inl _ \<Rightarrow> True | Inr g \<Rightarrow> gw_ip gw \<noteq> gp_ip g) \<and> is_lookupable (gw_ip gw);
     let place = (case r of Inl _ \<Rightarrow> gw_geo gw | Inr g \<Rightarrow> if moved then gw_geo gw else gp_geo g);
     let trigger_geo = (case r of
         Inl _ \<Rightarrow> moved
       | Inr _ \<Rightarrow> moved \<or> geo_location place = [] \<and> coordinates_zero place \<and> is_lookupable (gw_ip gw));
     andThen (exec (\<lambda>d. d\<lparr>push_status := upsert_row (\<lambda>g. gp_hostname g = gw_hostname gw)
       (\<lambda>g. g\<lparr>gp_ip := gw_ip gw, gp_last_seen := Some (gw_last_seen gw), gp_updated_at := clock d, gp_geo := place\<rparr>)
       \<lparr>gp_hostname = gw_hostname gw, gp_ip = gw_ip gw, gp_last_seen = Some (gw_last_seen gw), gp_updated_at = clock d,
        gp_geo = place\<rparr>
       (push_status d)\<rparr>))
       (\<lambda>_. do {
          (if trigger_geo then go (GatewayGeo (gw_hostname gw) (gw_ip gw)) else State_Monad.return ());
          State_Monad.return (Inr ()) }) }"

definition bind_machine_for_portal_delivery :: "string \<Rightarrow> int \<Rightarrow> unit dbop" where
  "bind_machine_for_portal_delivery k portal_machine_id =
     (if portal_machine_id \<le> 0
      then State_Monad.return (Inl (Errorf (''invalid portal machine id '' @ itoa portal_machine_id)))
      else exec (\<lambda>d. d\<lparr>machines := update_rows (\<lambda>m. m_hashed_pkey m = k)
        (\<lambda>m. m\<lparr>m_active := True, m_client_id := Some (itoa portal_machine_id)\<rparr>) (machines d)\<rparr>))"

definition portal_machine_id_from_hashed_pkey :: "string \<Rightarrow> int dbop" where
  "portal_machine_id_from_hashed_pkey k = do {
     r \<leftarrow> query (\<lambda>d. first_row (\<lambda>m. m_hashed_pkey m = k) (machines d));
     State_Monad.return (case r of
         Inl _ \<Rightarrow> Inl (Errorf ''unknown machine'')
       | Inr row \<Rightarrow> (case machine_row_id row of Some n \<Rightarrow> Inr n | None \<Rightarrow> Inl (Errorf ''unknown machine''))) }"

definition null_string :: "string \<Rightarrow> string option" where
  "null_string s = (if s = [] \<or> s = ''-'' then None else Some s)"

text \<open>A cabinet that already has a number keeps it, an active one stays active.\<close>

definition imported :: "string \<Rightarrow> string \<Rightarrow> bool \<Rightarrow> instant \<Rightarrow> (string \<times> string) option \<Rightarrow> machine_row \<Rightarrow> machine_row" where
  "imported client_id ip is_active last_seen auth m = m\<lparr>
     m_client_id := (case m_client_id m of
         Some c \<Rightarrow> if c \<noteq> [] \<and> list_all digit c then Some c else Some client_id
       | None \<Rightarrow> Some client_id),
     m_ip := (case null_string ip of None \<Rightarrow> m_ip m | Some a \<Rightarrow> Some a),
     m_active := m_active m \<or> is_active,
     m_last_seen := Some last_seen,
     m_auth := (case auth of None \<Rightarrow> m_auth m | Some a \<Rightarrow> Some a)\<rparr>"

definition import_machine ::
  "string \<Rightarrow> string \<Rightarrow> string \<Rightarrow> bool \<Rightarrow> instant \<Rightarrow> (string \<times> string) option \<Rightarrow> unit dbop" where
  "import_machine k client_id ip is_active last_seen auth = exec (\<lambda>d. (bump ''machines'' d)\<lparr>machines :=
     upsert_row (\<lambda>m. m_hashed_pkey m = k) (imported client_id ip is_active last_seen auth)
       \<lparr>m_hashed_pkey = k, m_client_id = Some client_id, m_ip = null_string ip, m_last_seen = Some last_seen,
        m_auth = auth, m_active = is_active, m_geo = None, m_id = nextval ''machines'' d, m_mac = None\<rparr>
       (machines d)\<rparr>)"

section \<open>Basic authentication\<close>

record legacy_context =
  lc_client_id :: "string option"
  lc_hashed_pkey :: "string option"

type_synonym 'b legacy_handler = "http_request \<Rightarrow> legacy_context \<Rightarrow> 'b answer io"

definition anonymous :: legacy_context where
  "anonymous = \<lparr>lc_client_id = Some ''anonymous'', lc_hashed_pkey = None\<rparr>"

text \<open>The user name and the password of the header, put together: the key of a cabinet.\<close>

definition credentials_of :: "http_request \<Rightarrow> (string \<times> string \<times> string) option" where
  "credentials_of r =
     (if \<not> prefix ''Basic '' (header r ''Authorization'') then None
      else (let encoded = drop 6 (header r ''Authorization'') in
        case b64_decode encoded of
          None \<Rightarrow> None
        | Some credentials \<Rightarrow>
            (let user = takeWhile (\<lambda>c. c \<noteq> CHR '':'') credentials in
             if user = credentials then None
             else Some (encoded, credentials, user @ drop (length user + 1) credentials))))"

text \<open>The store behind the Go interface \<open>LegacyMachineStore\<close>.\<close>

record legacy_store =
  ls_get :: "string \<Rightarrow> legacy_machine option dbop"
  ls_register :: "string \<Rightarrow> legacy_machine option dbop"
  ls_update :: "string \<Rightarrow> string \<Rightarrow> string \<Rightarrow> string \<Rightarrow> unit io"

definition basic_auth :: "legacy_store \<Rightarrow> bool \<Rightarrow> 'b legacy_handler \<Rightarrow> http_request \<Rightarrow> 'b answer io" where
  "basic_auth store strict serve r =
     (let refuse = (if strict then State_Monad.return unauthorized else serve r anonymous) in
      case credentials_of r of
        None \<Rightarrow> refuse
      | Some (encoded, credentials, key) \<Rightarrow> do {
          found \<leftarrow> ls_get store key;
          res \<leftarrow> (case found of
              Inr (Some m) \<Rightarrow> State_Monad.return (Inr (Some m))
            | _ \<Rightarrow> ls_register store key);
          case res of
            Inl _ \<Rightarrow> refuse
          | Inr mo \<Rightarrow> do {
              ls_update store key (client_ip_from_request r) encoded credentials;
              case mo of
                None \<Rightarrow> State_Monad.return recovered
              | Some m \<Rightarrow>
                  if strict \<and> \<not> lm_active m then State_Monad.return (HttpError 403 ''Machine inactive'')
                  else serve r \<lparr>lc_client_id = Some (lm_no_serie m), lc_hashed_pkey = Some key\<rparr> } })"

definition iot_store :: legacy_store where
  "iot_store = \<lparr>ls_get = get_machine_by_hashed_pkey, ls_register = register_unknown_machine,
     ls_update = update_machine_status\<rparr>"

section \<open>Handlers\<close>

definition default_command_indices :: "int list" where
  "default_command_indices = [613, 607, 615, 590, 349, 350, 351, 352, 363, 425, 426, 920,
     566, 567, 568, 569, 570, 571, 572, 574, 575, 576, 577, 578, 582, 583, 584, 585]"

definition identity_indices :: "int list" where
  "identity_indices = [0, 1, 5, 6, 7, 8, 9, 945, 947, 948, 949, 950, 951, 952]"

record info_rotator =
  ir_slots :: "int list list"
  ir_slot :: nat

definition new_info_rotator :: info_rotator where
  "new_info_rotator = \<lparr>ir_slots = [default_command_indices, identity_indices], ir_slot = 0\<rparr>"

definition next_infos :: "info_rotator \<Rightarrow> int list \<times> info_rotator" where
  "next_infos rot =
     (if ir_slots rot = [] then (default_command_indices, rot)
      else (ir_slots rot ! (ir_slot rot mod length (ir_slots rot)), rot\<lparr>ir_slot := Suc (ir_slot rot)\<rparr>))"

datatype (plugins only: code) legacy_json =
    ServerInfosJson "int list"
  | LegacyActionsJson "(string \<times> exchange_kv list) list"
  | EmptyObject
  | NoBody

definition server_infos :: "info_rotator \<Rightarrow> legacy_json answer \<times> info_rotator" where
  "server_infos rot = (let (indices, rot') = next_infos rot in (Answer 200 (ServerInfosJson indices), rot'))"

record json_lib =
  json_valid :: "string \<Rightarrow> bool"
  json_status :: "string \<Rightarrow> (string \<times> exchange_kv list) option"

definition ctx_string :: "string option \<Rightarrow> string" where
  "ctx_string v = (case v of None \<Rightarrow> [] | Some s \<Rightarrow> s)"

definition my_status :: "json_lib \<Rightarrow> string \<Rightarrow> legacy_json legacy_handler" where
  "my_status json body r c =
     (case normalize_json (json_valid json) body of
        None \<Rightarrow> State_Monad.return (HttpError 400 ''Bad Request'')
      | Some normalized \<Rightarrow> (case json_status json normalized of
          None \<Rightarrow> State_Monad.return (HttpError 400 ''Bad Request'')
        | Some (version, ek) \<Rightarrow> do {
            ignore (save_client_data (ctx_string (lc_client_id c)) (ctx_string (lc_hashed_pkey c)) version ek);
            State_Monad.return (Answer 201 NoBody) }))"

definition my_actions :: "legacy_json legacy_handler" where
  "my_actions r c = do {
     let key = ctx_string (lc_hashed_pkey c);
     actions \<leftarrow> (if key = [] then State_Monad.return []
       else do {
         mid \<leftarrow> portal_machine_id_from_hashed_pkey key;
         case mid of
           Inl _ \<Rightarrow> State_Monad.return []
         | Inr m \<Rightarrow> do {
             res \<leftarrow> fetch_pending_actions_for_machine m 20;
             State_Monad.return (case res of Inl _ \<Rightarrow> [] | Inr as \<Rightarrow> as) } });
     State_Monad.return (Answer 200 (LegacyActionsJson (map (\<lambda>a. (ca_guid a, ca_params a)) actions))) }"

definition legacy_done :: "string \<Rightarrow> legacy_json legacy_handler" where
  "legacy_done guid r c =
     (if guid = [] then State_Monad.return (HttpError 400 ''guid required'')
      else do {
        res \<leftarrow> mark_action_done guid;
        State_Monad.return (case res of
            Inl _ \<Rightarrow> HttpError 404 ''Action not found''
          | Inr _ \<Rightarrow> Answer 200 EmptyObject) })"

text \<open>The body names the host; the address is that of the connection or of the proxy's header, unsplit.\<close>

definition gateway_infos :: "(string \<times> geo_doc) option \<Rightarrow> legacy_json legacy_handler" where
  "gateway_infos body r c = (case body of
       None \<Rightarrow> State_Monad.return (HttpError 400 ''Bad Request'')
     | Some (hostname, place) \<Rightarrow> do {
         nw \<leftarrow> now;
         ignore (save_gateway \<lparr>gw_hostname = hostname,
           gw_ip = (if header r ''X-Forwarded-For'' \<noteq> [] then header r ''X-Forwarded-For''
             else (case split_host (remote_addr r) of Some host \<Rightarrow> host | None \<Rightarrow> remote_addr r)),
           gw_last_seen = nw, gw_geo = place\<rparr>);
         State_Monad.return (Answer 200 NoBody) })"

section \<open>Library: credentials\<close>

text \<open>What a client sends: \<open>base64\<close> of the user name, a colon and the password.\<close>

definition b64_char :: "nat \<Rightarrow> char" where
  "b64_char n = char_of (if n < 26 then n + 65 else if n < 52 then n + 71 else if n < 62 then n - 4
     else if n = 62 then 43 else 47)"

fun b64_encode :: "string \<Rightarrow> string" where
  "b64_encode [] = []"
| "b64_encode [a] = [b64_char (byte a div 4), b64_char (byte a mod 4 * 16), CHR ''='', CHR ''='']"
| "b64_encode [a, b] = [b64_char (byte a div 4), b64_char (byte a mod 4 * 16 + byte b div 16),
     b64_char (byte b mod 16 * 4), CHR ''='']"
| "b64_encode (a # b # c # s) = b64_char (byte a div 4) # b64_char (byte a mod 4 * 16 + byte b div 16)
     # b64_char (byte b mod 16 * 4 + byte c div 64) # b64_char (byte c mod 64) # b64_encode s"

lemma byte_inj: "byte c = byte e \<longleftrightarrow> c = e"
  by (simp add: byte_def)

lemma byte_char: "n < 256 \<Longrightarrow> byte (char_of n) = n"
  by (simp add: byte_def)

lemma b64_digit_byte:
  "b64_digit c = (if 65 \<le> byte c \<and> byte c \<le> 90 then Some (byte c - 65)
     else if 97 \<le> byte c \<and> byte c \<le> 122 then Some (byte c - 71)
     else if 48 \<le> byte c \<and> byte c \<le> 57 then Some (byte c + 4)
     else if byte c = 43 then Some 62 else if byte c = 47 then Some 63 else None)"
proof -
  have "c = CHR ''+'' \<longleftrightarrow> byte c = 43" "c = CHR ''/'' \<longleftrightarrow> byte c = 47"
    using byte_inj [of c "CHR ''+''"] byte_inj [of c "CHR ''/''"] by (simp_all add: byte_def)
  then show ?thesis by (simp add: b64_digit_def digit_def less_eq_char_def byte_def)
qed

lemma byte_b64_char:
  "n < 64 \<Longrightarrow> byte (b64_char n) = (if n < 26 then n + 65 else if n < 52 then n + 71 else if n < 62 then n - 4
     else if n = 62 then 43 else 47)"
  by (simp add: b64_char_def byte_char)

lemma b64_digit_char: "n < 64 \<Longrightarrow> b64_digit (b64_char n) = Some n"
  unfolding b64_digit_byte by (auto simp: byte_b64_char)

lemma b64_char_plain:
  assumes "n < 64"
  shows "b64_char n \<noteq> CHR ''=''" "b64_char n \<noteq> CHR 0x0A" "b64_char n \<noteq> CHR 0x0D"
proof -
  have "byte CHR ''='' = 61" "byte CHR 0x0A = 10" "byte CHR 0x0D = 13" by (simp_all add: byte_def)
  moreover have "byte (b64_char n) \<notin> {61, 10, 13}" using assms by (auto simp: byte_b64_char)
  ultimately show "b64_char n \<noteq> CHR ''=''" "b64_char n \<noteq> CHR 0x0A" "b64_char n \<noteq> CHR 0x0D" by auto
qed

lemma byte_parts:
  "byte a div 4 < 64" "byte a mod 4 * 16 < 64" "byte a mod 4 * 16 + byte b div 16 < 64" "byte b mod 16 * 4 < 64"
  "byte b mod 16 * 4 + byte c div 64 < 64" "byte c mod 64 < 64"
proof -
  have "byte x < 256" for x by (simp add: byte_def)
  then have d: "byte x div 4 < 64" "byte x div 16 < 16" "byte x div 64 < 4" for x
    by (simp_all add: less_mult_imp_div_less)
  have m: "byte x mod 4 < 4" "byte x mod 16 < 16" "byte x mod 64 < 64" for x by simp_all
  show "byte a div 4 < 64" "byte c mod 64 < 64" by (rule d, rule m)
  show "byte a mod 4 * 16 < 64" "byte a mod 4 * 16 + byte b div 16 < 64" "byte b mod 16 * 4 < 64"
    "byte b mod 16 * 4 + byte c div 64 < 64"
    using m(1) [of a] m(2) [of b] d(2) [of b] d(3) [of c] by linarith+
qed

lemma byte_small:
  "byte b div 16 div 16 = 0" "byte b div 16 mod 16 = byte b div 16" "byte c div 64 div 4 = 0"
  "byte c div 64 mod 4 = byte c div 64"
proof -
  have "byte x < 256" for x by (simp add: byte_def)
  then have "byte x div 16 < 16" "byte x div 64 < 4" for x by (simp_all add: less_mult_imp_div_less)
  then show "byte b div 16 div 16 = 0" "byte b div 16 mod 16 = byte b div 16" "byte c div 64 div 4 = 0"
    "byte c div 64 mod 4 = byte c div 64" by simp_all
qed

lemma char_of_byte [simp]: "char_of (byte c) = c"
  by (simp add: byte_def)

lemma b64_quads_encode: "b64_quads (b64_encode s) = Some s"
  by (induction s rule: b64_encode.induct)
    (simp_all add: b64_digit_char byte_parts b64_char_plain byte_small)

lemma b64_decode_encode: "b64_decode (b64_encode s) = Some s"
proof -
  have "filter (\<lambda>c. c \<noteq> CHR 0x0A \<and> c \<noteq> CHR 0x0D) (b64_encode s) = b64_encode s"
    by (induction s rule: b64_encode.induct) (simp_all add: byte_parts b64_char_plain)
  then show ?thesis by (simp add: b64_decode_def b64_quads_encode)
qed

section \<open>Library: who may poll\<close>

text \<open>A cabinet that an administrator activated.\<close>

definition active_key :: "db \<Rightarrow> string \<Rightarrow> bool" where
  "active_key d k \<longleftrightarrow> (\<exists>m \<in> set (machines d). m_hashed_pkey m = k \<and> m_active m)"

text \<open>What a visit with the key \<open>k\<close> may change: the address, the credentials and the time of the last visit in
  the row of that key, or a new row for it, inactive, when there was none.\<close>

definition seen :: "string \<Rightarrow> machine_row \<Rightarrow> machine_row \<Rightarrow> bool" where
  "seen k m m' \<longleftrightarrow> m' = m
     \<or> m_hashed_pkey m = k \<and> (\<exists>ip t au. m' = m\<lparr>m_ip := ip, m_last_seen := t, m_auth := au\<rparr>)"

definition newcomer :: "string \<Rightarrow> machine_row list \<Rightarrow> machine_row list \<Rightarrow> bool" where
  "newcomer k ms new \<longleftrightarrow> new = []
     \<or> (\<exists>m. new = [m] \<and> m_hashed_pkey m = k \<and> \<not> m_active m \<and> k \<notin> m_hashed_pkey ` set ms)"

definition visited :: "string \<Rightarrow> db \<Rightarrow> db \<Rightarrow> bool" where
  "visited k d d' \<longleftrightarrow> (\<exists>bs ms ss js. d' = d\<lparr>faults := bs, machines := ms, serials := ss, geo_jobs := js\<rparr>)
     \<and> (\<exists>old new. machines d' = old @ new \<and> list_all2 (seen k) (machines d) old \<and> newcomer k (machines d) new)"

lemma seen_refl: "list_all2 (seen k) ms ms"
  by (simp add: list_all2_refl seen_def)

lemma seen_trans: "seen k a b \<Longrightarrow> seen k b c \<Longrightarrow> seen k a c"
  unfolding seen_def by (elim disjE conjE exE; simp) blast+

lemma seen_same: "seen k m m' \<Longrightarrow> m_hashed_pkey m' = m_hashed_pkey m \<and> m_active m' = m_active m"
  by (auto simp: seen_def)

lemma seen_keys: "list_all2 (seen k) ms ms' \<Longrightarrow>
    map (\<lambda>m. (m_hashed_pkey m, m_active m)) ms' = map (\<lambda>m. (m_hashed_pkey m, m_active m)) ms"
  by (induction rule: list_all2_induct) (auto dest: seen_same)

lemma newcomer_trans:
  assumes "newcomer k ms new" "list_all2 (seen k) ms old" "list_all2 (seen k) new new'" "newcomer k (old @ new) fresh"
  shows "newcomer k ms (new' @ fresh)"
proof -
  have keys: "m_hashed_pkey ` set old = m_hashed_pkey ` set ms"
    using arg_cong [OF seen_keys [OF assms(2)], of "\<lambda>xs. fst ` set xs"] by (simp add: image_image)
  from assms(1) consider "new = []" | m where "new = [m]" "m_hashed_pkey m = k" "\<not> m_active m" "k \<notin> m_hashed_pkey ` set ms"
    unfolding newcomer_def by blast
  then show ?thesis
  proof cases
    case 1
    then show ?thesis using assms(3,4) keys by (auto simp: newcomer_def)
  next
    case (2 m)
    then obtain m' where "new' = [m']" "seen k m m'" using assms(3) by (auto simp: list_all2_Cons1)
    moreover have "fresh = []" using assms(4) 2 by (auto simp: newcomer_def)
    ultimately show ?thesis using 2 by (auto simp: newcomer_def dest: seen_same)
  qed
qed

lemma visited_machines:
  assumes "machines d' = old @ new" "list_all2 (seen k) (machines d) old" "newcomer k (machines d) new"
    "d' = d\<lparr>faults := bs, machines := old @ new, serials := ss, geo_jobs := js\<rparr>"
  shows "visited k d d'"
  unfolding visited_def using assms by blast

lemma visited_pre: "preorder_rel (visited k)"
proof
  show "visited k d d" for d
    by (rule visited_machines [where old = "machines d" and new = "[]" and bs = "faults d" and ss = "serials d"
          and js = "geo_jobs d"]) (simp_all add: seen_refl newcomer_def)
  show "visited k d (d\<lparr>faults := bs\<rparr>)" for d bs
    by (rule visited_machines [where new = "[]" and bs = bs and ss = "serials d" and js = "geo_jobs d" and old = "machines d"])
      (simp_all add: seen_refl newcomer_def)
  show "visited k d1 d3" if v: "visited k d1 d2" "visited k d2 d3" for d1 d2 d3
  proof -
    obtain old new where 1: "machines d2 = old @ new" "list_all2 (seen k) (machines d1) old" "newcomer k (machines d1) new"
      using v(1) unfolding visited_def by blast
    obtain old2 fresh where 2: "machines d3 = old2 @ fresh" "list_all2 (seen k) (old @ new) old2" "newcomer k (old @ new) fresh"
      using v(2) 1(1) unfolding visited_def by auto
    obtain xs ys where old2: "old2 = xs @ ys" "list_all2 (seen k) old xs" "list_all2 (seen k) new ys"
      using 2(2) by (auto simp: list_all2_append1)
    have "list_all2 (seen k) (machines d1) xs" by (rule list_all2_trans [OF seen_trans 1(2) old2(2)])
    moreover have "newcomer k (machines d1) (ys @ fresh)" using newcomer_trans [OF 1(3,2) old2(3) 2(3)] .
    moreover have "\<exists>bs ms ss js. d3 = d1\<lparr>faults := bs, machines := ms, serials := ss, geo_jobs := js\<rparr>"
      using v unfolding visited_def by force
    moreover have "machines d3 = xs @ (ys @ fresh)" using 2(1) old2(1) by simp
    ultimately show ?thesis unfolding visited_def by blast
  qed
qed

lemmas visited_trans = preorder_rel_def [THEN iffD1, OF visited_pre, THEN conjunct2, THEN conjunct1, rule_format]

lemma untouched_visited: "untouched d d' \<Longrightarrow> visited k d d'"
  using visited_pre unfolding preorder_rel_def untouched_def by auto

locale cabinet_registry =
  fixes store :: legacy_store
  assumes get_frame: "run_state (ls_get store k) d = (r, d') \<Longrightarrow> untouched d d'"
    and get_active: "run_state (ls_get store k) d = (Inr (Some m), d') \<Longrightarrow> lm_active m \<Longrightarrow> active_key d k"
    and register_frame: "run_state (ls_register store k) d = (r, d') \<Longrightarrow> visited k d d'"
    and register_active: "run_state (ls_register store k) d = (Inr (Some m), d') \<Longrightarrow> lm_active m \<Longrightarrow> active_key d k"
    and update_frame: "run_state (ls_update store k ip raw cred) d = (u, d') \<Longrightarrow> visited k d d'"
begin

text \<open>Finding or registering the cabinet of a key.\<close>

lemma resolve_cabinet:
  assumes "run_state (do { found \<leftarrow> ls_get store k; case found of
      Inr (Some m) \<Rightarrow> State_Monad.return (Inr (Some m)) | _ \<Rightarrow> ls_register store k }) d = (res, d')"
  shows "visited k d d'" and "res = Inr (Some m) \<Longrightarrow> lm_active m \<Longrightarrow> active_key d k"
proof -
  obtain found d1 where get: "run_state (ls_get store k) d = (found, d1)" by fastforce
  have un: "untouched d d1" using get by (rule get_frame)
  then have key: "active_key d1 k \<longleftrightarrow> active_key d k" for k by (auto simp: untouched_def active_key_def)
  have "visited k d d' \<and> (res = Inr (Some m) \<longrightarrow> lm_active m \<longrightarrow> active_key d k)" for m
  proof (cases "\<exists>m. found = Inr (Some m)")
    case True
    then show ?thesis using assms get get_active [of k d] untouched_visited [OF un] by auto
  next
    case False
    then have "run_state (ls_register store k) d1 = (res, d')"
      using assms get by (auto split: sum.splits option.splits)
    then show ?thesis
      using register_frame [of k d1] register_active [of k d1] untouched_visited [OF un] visited_trans key by blast
  qed
  then show "visited k d d'" and "res = Inr (Some m) \<Longrightarrow> lm_active m \<Longrightarrow> active_key d k" by blast+
qed

lemma strict_cases:
  assumes "run_state (basic_auth store True serve r) d = (a, d')"
  obtains (anonymous) "credentials_of r = None" "status a = 401" "d' = d"
        | (refused) encoded credentials key where "credentials_of r = Some (encoded, credentials, key)"
            "status a \<in> {401, 403, 500}" "visited key d d'"
        | (served) encoded credentials key d1 and m :: legacy_machine where "credentials_of r = Some (encoded, credentials, key)"
            "active_key d key" "visited key d d1"
            "run_state (serve r \<lparr>lc_client_id = Some (lm_no_serie m), lc_hashed_pkey = Some key\<rparr>) d1 = (a, d')"
proof (cases "credentials_of r")
  case None
  then show thesis using assms anonymous by (auto simp: basic_auth_def unauthorized_def)
next
  case (Some c)
  obtain encoded credentials key where c: "c = (encoded, credentials, key)" by (cases c)
  let ?resolve = "do { found \<leftarrow> ls_get store key; case found of
      Inr (Some m) \<Rightarrow> State_Monad.return (Inr (Some m)) | _ \<Rightarrow> ls_register store key }"
  obtain res d1 where run: "run_state ?resolve d = (res, d1)" by fastforce
  note rc = resolve_cabinet [OF run]
  let ?upd = "ls_update store key (client_ip_from_request r) encoded credentials"
  have d2: "visited key d (snd (run_state ?upd d1))" using rc(1) update_frame visited_trans by (metis prod.collapse)
  have eq: "(a, d') = (case res of Inl _ \<Rightarrow> (unauthorized, d1) | Inr None \<Rightarrow> (recovered, snd (run_state ?upd d1))
      | Inr (Some m) \<Rightarrow> if lm_active m
          then run_state (serve r \<lparr>lc_client_id = Some (lm_no_serie m), lc_hashed_pkey = Some key\<rparr>) (snd (run_state ?upd d1))
          else (HttpError 403 ''Machine inactive'', snd (run_state ?upd d1)))"
    using assms run Some c
    by (auto simp: basic_auth_def Let_def split: prod.splits sum.splits option.splits)
  show thesis
  proof (cases "\<exists>m. res = Inr (Some m) \<and> lm_active m")
    case True
    then obtain m where m: "res = Inr (Some m)" "lm_active m" by blast
    show thesis by (rule served [of encoded credentials key "snd (run_state ?upd d1)" m])
      (use Some c rc(2) [OF m] d2 eq m in simp_all)
  next
    case False
    then have "status a \<in> {401, 403, 500} \<and> visited key d d'"
      using eq d2 rc(1) by (auto simp: unauthorized_def recovered_def split: sum.splits option.splits)
    then show thesis using refused Some c by blast
  qed
qed

end

lemma register_run:
  assumes "run_state (register_unknown_machine k) d = (r, d')"
  obtains (failed) bs e where "r = Inl e" "d' = d\<lparr>faults := bs\<rparr>"
        | (registered) bs m where "d' = (insert_unknown k d)\<lparr>faults := bs\<rparr>" "r = Inr m"
            "m = Some \<lparr>lm_hashed_pkey = k, lm_no_serie = unknown_serie k, lm_active = False\<rparr>
              \<or> m = map_option legacy_of (find (\<lambda>m. m_hashed_pkey m = k) (machines (insert_unknown k d)))"
proof -
  obtain r1 d1 where ins: "run_state (exec (insert_unknown k)) d = (r1, d1)" by fastforce
  obtain r2 d2 where get: "run_state (get_machine_by_hashed_pkey k) d1 = (r2, d2)" by fastforce
  have ins_faults: "insert_unknown k (d\<lparr>faults := bs\<rparr>) = (insert_unknown k d)\<lparr>faults := bs\<rparr>" for bs
    by (simp add: insert_unknown_def bump_def nextval_def)
  show thesis using ins
  proof (cases rule: exec_cases)
    case (conn bs)
    then show thesis using assms ins by (intro failed) (auto simp: register_unknown_machine_def)
  next
    case (ran bs)
    obtain bs2 where d2: "d2 = d1\<lparr>faults := bs2\<rparr>"
        "r2 = Inl ConnError \<or> r2 = Inr (map_option legacy_of (find (\<lambda>m. m_hashed_pkey m = k) (machines d1)))"
      using get unfolding get_machine_by_hashed_pkey_def by (cases rule: query_cases) auto
    have "r = Inr (case r2 of Inl _ \<Rightarrow> Some \<lparr>lm_hashed_pkey = k, lm_no_serie = unknown_serie k, lm_active = False\<rparr>
        | Inr m \<Rightarrow> m)" "d' = d2"
      using assms ins get ran(1) by (auto simp: register_unknown_machine_def)
    then show thesis using d2 ran(2) ins_faults by (intro registered) (auto split: sum.splits)
  qed
qed

lemma active_insert_unknown: "active_key (insert_unknown k d) j \<longleftrightarrow> active_key d j"
  by (auto simp: active_key_def insert_unknown_def bump_def)

lemma visited_insert_unknown: "visited k d (insert_unknown k d)"
proof (cases "list_ex (\<lambda>m. m_hashed_pkey m = k) (machines d)")
  case True
  then show ?thesis
    by (intro visited_machines [where new = "[]" and old = "machines d" and bs = "faults d" and js = "geo_jobs d"
          and ss = "serials (bump ''machines'' d)"])
      (simp_all add: insert_unknown_def bump_def seen_refl newcomer_def)
next
  case False
  then have "k \<notin> m_hashed_pkey ` set (machines d)" by (auto simp: list_ex_iff)
  then show ?thesis using False
    by (intro visited_machines [where new = "drop (length (machines d)) (machines (insert_unknown k d))" and old = "machines d"
          and bs = "faults d" and js = "geo_jobs d" and ss = "serials (bump ''machines'' d)"])
      (simp_all add: insert_unknown_def bump_def seen_refl newcomer_def)
qed

lemma visited_update:
  "visited k d (d\<lparr>machines := update_rows (\<lambda>m. m_hashed_pkey m = k)
     (\<lambda>m. m\<lparr>m_ip := ip, m_last_seen := t, m_auth := au\<rparr>) (machines d)\<rparr>)"
proof -
  have "list_all2 (seen k) ms (update_rows (\<lambda>m. m_hashed_pkey m = k) (\<lambda>m. m\<lparr>m_ip := ip, m_last_seen := t, m_auth := au\<rparr>) ms)" for ms
    by (induction ms) (auto simp: seen_def)
  then show ?thesis
    by (intro visited_machines [where new = "[]" and bs = "faults d" and js = "geo_jobs d" and ss = "serials d"
          and old = "update_rows (\<lambda>m. m_hashed_pkey m = k) (\<lambda>m. m\<lparr>m_ip := ip, m_last_seen := t, m_auth := au\<rparr>) (machines d)"])
      (simp_all add: newcomer_def)
qed

lemma visited_active: "visited k d d' \<Longrightarrow> active_key d' j \<longleftrightarrow> active_key d j"
proof -
  assume "visited k d d'"
  then obtain old new where v: "machines d' = old @ new" "list_all2 (seen k) (machines d) old" "newcomer k (machines d) new"
    unfolding visited_def by blast
  let ?ka = "map (\<lambda>m. (m_hashed_pkey m, m_active m))"
  have act: "active_key e j \<longleftrightarrow> (j, True) \<in> set (?ka (machines e))" for e by (auto simp: active_key_def)
  have "(j, True) \<notin> set (?ka new)" using v(3) by (auto simp: newcomer_def)
  moreover have "?ka (machines d') = ?ka (machines d) @ ?ka new" using v(1) seen_keys [OF v(2)] by simp
  ultimately show ?thesis unfolding act by simp
qed

lemma visited_jobs: "visited k d (d\<lparr>geo_jobs := js\<rparr>)"
  by (rule visited_machines [where new = "[]" and old = "machines d" and bs = "faults d" and ss = "serials d" and js = js])
    (simp_all add: seen_refl newcomer_def)

interpretation cabinets: cabinet_registry iot_store
proof
  show "untouched d d'" if "run_state (ls_get iot_store k) d = (r, d')" for k d r d'
    using that by (auto simp: iot_store_def get_machine_by_hashed_pkey_def untouched_def elim: query_cases)
  show "active_key d k" if "run_state (ls_get iot_store k) d = (Inr (Some m), d')" "lm_active m" for k d m d'
  proof -
    from that(1) obtain x where "find (\<lambda>m. m_hashed_pkey m = k) (machines d) = Some x" "m = legacy_of x"
      by (auto simp: iot_store_def get_machine_by_hashed_pkey_def elim!: query_cases dest: sym)
    then show ?thesis using that(2) by (auto simp: active_key_def legacy_of_def dest!: find_SomeD)
  qed
  show "visited k d d'" if "run_state (ls_register iot_store k) d = (r, d')" for k d r d'
    using that [unfolded iot_store_def, simplified]
  proof (cases rule: register_run)
    case (failed bs e)
    then show ?thesis by (simp add: untouched_visited)
  next
    case (registered bs m)
    have "visited k d (insert_unknown k d)" by (rule visited_insert_unknown)
    then show ?thesis using registered(1) visited_trans untouched_visited [OF untouched_faults] by blast
  qed
  show "active_key d k" if "run_state (ls_register iot_store k) d = (Inr (Some m), d')" and act: "lm_active m" for k d m d'
    using that(1) [unfolded iot_store_def, simplified]
  proof (cases rule: register_run)
    case (registered bs mo)
    then obtain x where "find (\<lambda>m. m_hashed_pkey m = k) (machines (insert_unknown k d)) = Some x" "m = legacy_of x"
      using act by (auto dest: sym)
    then have "active_key (insert_unknown k d) k"
      using act by (auto simp: active_key_def legacy_of_def dest!: find_SomeD)
    then show ?thesis by (simp add: active_insert_unknown)
  qed simp
  show "visited k d d'" if "run_state (ls_update iot_store k ip raw cred) d = (u, d')" for k ip raw cred d u d'
  proof -
    have "state_io_rel (visited k) (go job)" for job
      using visited_jobs by (simp add: go_def state_io_rel_def)
    then have "state_io_rel (visited k) (update_machine_status k ip raw cred)"
      unfolding update_machine_status_def Let_def by (intro io_intros visited_pre visited_update) auto
    then show ?thesis using that by (auto simp: iot_store_def)
  qed
qed

lemma bound_cabinet:
  assumes "find (\<lambda>m. m_hashed_pkey m = key) (machines d) = Some m" "0 < i" "in_int64 i" "faults d = []"
  defines "f \<equiv> \<lambda>m. m\<lparr>m_active := True, m_client_id := Some (itoa i)\<rparr>"
  shows "run_state (bind_machine_for_portal_delivery key i) d
      = (Inr (), d\<lparr>machines := update_rows (\<lambda>m. m_hashed_pkey m = key) f (machines d)\<rparr>)"
    and "find (\<lambda>m. m_hashed_pkey m = key) (update_rows (\<lambda>m. m_hashed_pkey m = key) f (machines d)) = Some (f m)"
    and "m_client_id x = Some (itoa i) \<Longrightarrow> machine_row_id x = Some i"
proof -
  show "run_state (bind_machine_for_portal_delivery key i) d
      = (Inr (), d\<lparr>machines := update_rows (\<lambda>m. m_hashed_pkey m = key) f (machines d)\<rparr>)"
    using assms(2,4) by (simp add: bind_machine_for_portal_delivery_def f_def)
  show "find (\<lambda>m. m_hashed_pkey m = key) (update_rows (\<lambda>m. m_hashed_pkey m = key) f (machines d)) = Some (f m)"
    using assms(1) find_SomeD [OF assms(1)] find_update_rows [of "\<lambda>m. m_hashed_pkey m = key" "\<lambda>m. m_hashed_pkey m = key" f "machines d"]
    by (simp add: f_def)
  have "sscanf_d [] = None" by code_simp
  then have "itoa i \<noteq> []" using sscanf_d_itoa [of i] assms(2,3) by auto
  then show "machine_row_id x = Some i" if "m_client_id x = Some (itoa i)" for x
    using that sscanf_d_itoa [of i] assms(2,3) by (simp add: machine_row_id_def)
qed

lemma credentials_roundtrip:
  assumes "header r ''Authorization'' = ''Basic '' @ b64_encode (user @ CHR '':'' # password)" "CHR '':'' \<notin> set user"
  shows "credentials_of r = Some (b64_encode (user @ CHR '':'' # password), user @ CHR '':'' # password, user @ password)"
proof -
  have "takeWhile (\<lambda>c. c \<noteq> CHR '':'') (user @ CHR '':'' # password) = user"
    using assms(2) by (subst takeWhile_append2) auto
  then show ?thesis using assms(1) by (simp add: credentials_of_def b64_decode_encode)
qed

text \<open>What an active cabinet's request and its poll do when every statement reaches the server.\<close>

lemma strict_run:
  assumes "credentials_of r = Some (encoded, credentials, key)" "faults d = []"
    "find (\<lambda>m. m_hashed_pkey m = key) (machines d) = Some m" "m_active m"
  obtains js where "run_state (basic_auth iot_store True serve r) d
    = run_state (serve r \<lparr>lc_client_id = Some (deref_string (m_client_id m) (m_hashed_pkey m)), lc_hashed_pkey = Some key\<rparr>)
        (d\<lparr>machines := update_rows (\<lambda>m. m_hashed_pkey m = key)
           (\<lambda>m. m\<lparr>m_ip := Some (client_ip_from_request r), m_last_seen := Some (clock d),
                 m_auth := Some (encoded, credentials)\<rparr>) (machines d), geo_jobs := js\<rparr>)"
proof -
  let ?d = "d\<lparr>machines := update_rows (\<lambda>m. m_hashed_pkey m = key)
           (\<lambda>m. m\<lparr>m_ip := Some (client_ip_from_request r), m_last_seen := Some (clock d),
                 m_auth := Some (encoded, credentials)\<rparr>) (machines d)\<rparr>"
  let ?ip = "client_ip_from_request r"
  let ?r = "first_row (\<lambda>m. m_hashed_pkey m = key) (machines d)"
  define t where "t = ((case ?r of Inl _ \<Rightarrow> [] | Inr m \<Rightarrow> deref_string (m_ip m) []) \<noteq> ?ip \<and> is_lookupable ?ip
      \<or> (case ?r of Inl _ \<Rightarrow> True | Inr m \<Rightarrow> machine_geo_empty (m_geo m)) \<and> is_lookupable ?ip)"
  have "run_state (update_machine_status key ?ip encoded credentials) d
      = run_state (if t then go (MachineGeo key ?ip) else State_Monad.return ()) ?d"
    using assms(2) unfolding update_machine_status_def Let_def t_def by simp
  then have "\<exists>js. run_state (update_machine_status key ?ip encoded credentials) d = ((), ?d\<lparr>geo_jobs := js\<rparr>)"
    by (cases t) (auto simp: go_def intro: exI [of _ "geo_jobs d"])
  then obtain js where "run_state (update_machine_status key (client_ip_from_request r) encoded credentials) d
      = ((), ?d\<lparr>geo_jobs := js\<rparr>)" by blast
  then show ?thesis using assms
    by (intro that [of js]) (simp add: basic_auth_def iot_store_def get_machine_by_hashed_pkey_def legacy_of_def)
qed

lemma my_actions_run:
  assumes "faults d = []" "lc_hashed_pkey c = Some key" "key \<noteq> []"
    "find (\<lambda>m. m_hashed_pkey m = key) (machines d) = Some m" "machine_row_id m = Some i"
  shows "run_state (my_actions r c) d
    = (Answer 200 (LegacyActionsJson (map (\<lambda>a. (ca_guid a, ca_params a)) (coalesce_pending_actions (take 20 (waiting i d))))),
       d\<lparr>cloud_actions := update_rows (\<lambda>a. ca_guid a \<in> ca_guid ` set (take 20 (waiting i d)))
          (deliver_row (clock d)) (cloud_actions d)\<rparr>)"
  using assms fetch_run_ok [OF assms(1), of i 20]
  by (simp add: my_actions_def ctx_string_def portal_machine_id_from_hashed_pkey_def first_row_def pending_for_waiting Let_def)

section \<open>Properties\<close>


definition sample_cabinet :: machine_row where
  "sample_cabinet = \<lparr>m_hashed_pkey = ''up'', m_client_id = Some ''UNKNOWN-up'', m_ip = None, m_last_seen = None,
     m_auth = None, m_active = False, m_geo = None, m_id = 7, m_mac = None\<rparr>"

definition sample_poll :: http_request where
  "sample_poll = \<lparr>header = (\<lambda>n. if n = ''Authorization'' then ''Basic '' @ b64_encode ''u:p'' else []),
     query_param = (\<lambda>_. []), remote_addr = ''10.0.0.1:99''\<rparr>"


text \<open>C32. A cabinet that an administrator binds to a machine number receives that machine's orders:
  its next poll, with its credentials in the header, answers the coalesced 20 oldest waiting actions of
  the machine, in order, and leaves exactly the others waiting.\<close>

theorem bound_cabinet_receives:
  assumes ok: "faults d = []" "action_inv d" "0 < i" "in_int64 i"
    and key: "find (\<lambda>m. m_hashed_pkey m = user @ password) (machines d) = Some m" "user @ password \<noteq> []"
    and req: "header r ''Authorization'' = ''Basic '' @ b64_encode (user @ CHR '':'' # password)" "CHR '':'' \<notin> set user"
  shows "\<exists>d1 d2. run_state (bind_machine_for_portal_delivery (user @ password) i) d = (Inr (), d1)
    \<and> run_state (basic_auth iot_store True my_actions r) d1
        = (Answer 200 (LegacyActionsJson (map (\<lambda>a. (ca_guid a, ca_params a))
             (coalesce_pending_actions (take 20 (waiting i d))))), d2)
    \<and> waiting i d2 = drop 20 (waiting i d)"
proof -
  define k where "k = user @ password"
  let ?enc = "b64_encode (user @ CHR '':'' # password)" and ?cred = "user @ CHR '':'' # password"
  let ?f = "\<lambda>m. m\<lparr>m_active := True, m_client_id := Some (itoa i)\<rparr>"
  let ?seen = "\<lambda>m. m\<lparr>m_ip := Some (client_ip_from_request r), m_last_seen := Some (clock d), m_auth := Some (?enc, ?cred)\<rparr>"
  let ?ms = "update_rows (\<lambda>m. m_hashed_pkey m = k) ?f (machines d)"
  let ?d1 = "d\<lparr>machines := ?ms\<rparr>"
  note b = bound_cabinet [OF key(1) ok(3,4,1), folded k_def]
  have f1: "find (\<lambda>m. m_hashed_pkey m = k) (machines ?d1) = Some (?f m)" using b(2) by simp
  obtain js where poll: "run_state (basic_auth iot_store True my_actions r) ?d1
      = run_state (my_actions r \<lparr>lc_client_id = Some (deref_string (m_client_id (?f m)) (m_hashed_pkey (?f m))),
          lc_hashed_pkey = Some k\<rparr>) (d\<lparr>machines := update_rows (\<lambda>m. m_hashed_pkey m = k) ?seen ?ms, geo_jobs := js\<rparr>)"
    by (rule strict_run [OF credentials_roundtrip [OF req, folded k_def] _ f1, where serve = my_actions]) (use ok(1) in simp_all)
  let ?d2 = "d\<lparr>machines := update_rows (\<lambda>m. m_hashed_pkey m = k) ?seen ?ms, geo_jobs := js\<rparr>"
  have f2: "find (\<lambda>m. m_hashed_pkey m = k) (machines ?d2) = Some (?seen (?f m))"
    using find_update_rows [of "\<lambda>m. m_hashed_pkey m = k" "\<lambda>m. m_hashed_pkey m = k" ?seen ?ms] b(2) find_SomeD [OF b(2)]
    by simp
  have w: "waiting i ?d2 = waiting i d" by (simp add: waiting_def)
  let ?d3 = "?d2\<lparr>cloud_actions := update_rows (\<lambda>a. ca_guid a \<in> ca_guid ` set (take 20 (waiting i d)))
      (deliver_row (clock d)) (cloud_actions d)\<rparr>"
  have "run_state (basic_auth iot_store True my_actions r) ?d1
      = run_state (my_actions r \<lparr>lc_client_id = Some (deref_string (m_client_id (?f m)) (m_hashed_pkey (?f m))),
          lc_hashed_pkey = Some k\<rparr>) ?d2"
    by (rule poll)
  also have "\<dots> = (Answer 200 (LegacyActionsJson (map (\<lambda>a. (ca_guid a, ca_params a))
             (coalesce_pending_actions (take 20 (waiting i d))))), ?d3)"
    using my_actions_run [OF _ _ _ f2 b(3)] ok(1) key(2) w by (simp add: k_def)
  finally have "run_state (basic_auth iot_store True my_actions r) ?d1 = \<dots>" .
  moreover have "waiting i ?d3 = drop 20 (waiting i d)" by (rule waiting_after_poll [OF ok(2)]) simp
  ultimately show ?thesis using b(1) unfolding k_def by blast
qed

theorem bound_cabinet_receives_witness:
  "\<exists>d1 d2. run_state (bind_machine_for_portal_delivery ''up'' 7)
      (empty_db\<lparr>machines := [sample_cabinet], cloud_actions := [\<lparr>ca_guid = ''g'', ca_user = 1, ca_machine = Some 7,
         ca_params = [kv 349 ''1''], ca_status = ActionPending, ca_created_at = 1, ca_delivered_at = None,
         ca_done_at = None\<rparr>]\<rparr>) = (Inr (), d1)
    \<and> run_state (basic_auth iot_store True my_actions sample_poll) d1
        = (Answer 200 (LegacyActionsJson [(''g'', [kv 349 ''1''])]), d2)
    \<and> waiting 7 d2 = []"
proof -
  let ?d = "empty_db\<lparr>machines := [sample_cabinet], cloud_actions := [\<lparr>ca_guid = ''g'', ca_user = 1, ca_machine = Some 7,
         ca_params = [kv 349 ''1''], ca_status = ActionPending, ca_created_at = 1, ca_delivered_at = None,
         ca_done_at = None\<rparr>]\<rparr>"
  have ok: "faults ?d = []" "action_inv ?d" "(0::int) < 7" "in_int64 7" by code_simp+
  have key: "find (\<lambda>m. m_hashed_pkey m = ''u'' @ ''p'') (machines ?d) = Some sample_cabinet" "''u'' @ ''p'' \<noteq> []"
    by (simp_all add: sample_cabinet_def)
  have req: "header sample_poll ''Authorization'' = ''Basic '' @ b64_encode (''u'' @ CHR '':'' # ''p'')" "CHR '':'' \<notin> set ''u''"
    by (simp_all add: sample_poll_def)
  have "map (\<lambda>a. (ca_guid a, ca_params a)) (coalesce_pending_actions (take 20 (waiting 7 ?d))) = [(''g'', [kv 349 ''1''])]"
    "drop 20 (waiting 7 ?d) = []" by code_simp+
  then show ?thesis using bound_cabinet_receives [OF ok key req] by simp
qed


end
