(* ===== verification/Mail.thy ===== *)
theory Mail
  imports Inventory UserStore
begin

text \<open>
  Mail: the templates with their store (internal/data/email_template_store.go), the rendering and the
  sending of one (internal/notify, internal/mailtpl), and the newsletters with their store
  (internal/data/newsletter_store.go). Delivery by SMTP, done by gomail, is a parameter. Go visits the entries of a map in an
  order that is not fixed, so the variables of a template are a list, in the order of that visit.
\<close>

section \<open>Rendering\<close>

type_synonym template_vars = "(string \<times> string) list"

definition word_char :: "char \<Rightarrow> bool" where
  "word_char c \<longleftrightarrow> (CHR ''a'' \<le> c \<and> c \<le> CHR ''z'') \<or> (CHR ''A'' \<le> c \<and> c \<le> CHR ''Z'') \<or> digit c \<or> c = CHR ''_''"

definition placeholder :: "string \<Rightarrow> string" where
  "placeholder k = ''{{'' @ k @ ''}}''"

text \<open>The name of the placeholder that a text starts with.\<close>

definition placeholder_at :: "string \<Rightarrow> string option" where
  "placeholder_at s = (let name = takeWhile word_char (drop 2 s) in
     if prefix ''{{'' s \<and> name \<noteq> [] \<and> prefix ''}}'' (drop (2 + length name) s) then Some name else None)"

function strip_placeholders :: "string \<Rightarrow> string" where
  "strip_placeholders s =
     (if s = [] then []
      else (case placeholder_at s of
          Some name \<Rightarrow> strip_placeholders (drop (4 + length name) s)
        | None \<Rightarrow> hd s # strip_placeholders (tl s)))"
  by pat_completeness auto
termination
  by (relation "measure length") auto

declare strip_placeholders.simps [simp del]

definition render :: "string \<Rightarrow> template_vars \<Rightarrow> string" where
  "render text vars = strip_placeholders (fold (\<lambda>(k, v). replace_all (placeholder k) v) vars text)"

definition sample_template_vars :: template_vars where
  "sample_template_vars = [(''first_name'', ''Jean''), (''last_name'', ''Dupont''),
     (''email'', ''jean.dupont@example.com''), (''role'', ''guest_local''),
     (''portal_url'', ''https://mon.essensys.fr/''), (''temporary_password'', ''MotDePasseExemple''),
     (''gateway_name'', ''essensys-gateway''), (''gateway_ip'', ''82.67.136.197''),
     (''armoire_label'', ''ARM-001''), (''armoire_ip'', ''10.0.1.42''),
     (''support_email'', ''noreply@essensys.fr'')]"

section \<open>Delivery\<close>

record smtp_env =
  smtp_host :: string
  smtp_port :: string
  smtp_user :: string
  smtp_pass :: string
  smtp_from :: string
  dial_and_send :: "string \<Rightarrow> string \<Rightarrow> string \<Rightarrow> string \<Rightarrow> goerr option"
  mail_frontend_url :: string

definition configured :: "smtp_env \<Rightarrow> bool" where
  "configured env \<longleftrightarrow> smtp_host env \<noteq> [] \<and> smtp_port env \<noteq> [] \<and> smtp_user env \<noteq> [] \<and> smtp_pass env \<noteq> []"

text \<open>\<open>None\<close> is success. The sender, the recipient, the subject and the body reach the dialer.\<close>

definition notify_send :: "smtp_env \<Rightarrow> string \<Rightarrow> string \<Rightarrow> string \<Rightarrow> goerr option" where
  "notify_send env recipient subject body =
     (if \<not> configured env then Some (Errorf ''SMTP configuration missing in environment variables'')
      else (case atoi (smtp_port env) of
          None \<Rightarrow> Some (Errorf ''invalid SMTP port'')
        | Some _ \<Rightarrow> dial_and_send env (if smtp_from env = [] then smtp_user env else smtp_from env) recipient subject body))"

section \<open>Templates\<close>

definition list_templates :: "email_template list dbop" where
  "list_templates = query (\<lambda>d. Inr (sort_key et_slug (email_templates d)))"

definition get_template :: "string \<Rightarrow> email_template dbop" where
  "get_template slug = query (\<lambda>d. case find (\<lambda>t. et_slug t = slug) (email_templates d) of
       None \<Rightarrow> Inl (Errorf ''template not found'')
     | Some t \<Rightarrow> Inr t)"

definition upsert_template :: "email_template \<Rightarrow> unit dbop" where
  "upsert_template t = exec (\<lambda>d. d\<lparr>email_templates := upsert_row (\<lambda>r. et_slug r = et_slug t)
     (\<lambda>r. r\<lparr>et_name := et_name t, et_subject := et_subject t, et_body_html := et_body_html t,
            et_body_text := et_body_text t, et_enabled := et_enabled t, et_auto_send := et_auto_send t,
            et_updated_at := clock d\<rparr>)
     (t\<lparr>et_created_at := clock d, et_updated_at := clock d\<rparr>) (email_templates d)\<rparr>)"

definition log_send :: "string \<Rightarrow> string \<Rightarrow> string \<Rightarrow> string \<Rightarrow> int option \<Rightarrow> unit dbop" where
  "log_send recipient slug st err_msg admin_id = exec (\<lambda>d. (bump ''email_send_log'' d)\<lparr>email_send_log :=
     email_send_log d @ [\<lparr>es_id = nextval ''email_send_log'' d, es_recipient = recipient, es_slug = slug,
       es_status = st, es_error = null_if_empty err_msg, es_admin = admin_id, es_created_at = clock d\<rparr>]\<rparr>)"

section \<open>Sending a template\<close>

record send_result =
  sent :: bool
  send_err :: "goerr option"

definition send_failed :: "goerr \<Rightarrow> send_result" where
  "send_failed e = \<lparr>sent = False, send_err = Some e\<rparr>"

definition log_failure :: "string \<Rightarrow> string \<Rightarrow> goerr \<Rightarrow> int option \<Rightarrow> unit io" where
  "log_failure recipient slug e actor = ignore (log_send recipient slug ''failed'' (goerr_text e) actor)"

definition template_mail :: "email_template \<Rightarrow> template_vars \<Rightarrow> string \<times> string" where
  "template_mail tpl vars =
     (let body = render (et_body_html tpl) vars in
      (render (et_subject tpl) vars,
       if body = [] \<and> et_body_text tpl \<noteq> [] then ''<pre>'' @ render (et_body_text tpl) vars @ ''</pre>'' else body))"

definition send_mail :: "smtp_env \<Rightarrow> string \<Rightarrow> string \<Rightarrow> template_vars \<Rightarrow> int option \<Rightarrow> bool \<Rightarrow> send_result io" where
  "send_mail env slug recipient vars actor require_enabled =
     (if trim_space recipient = [] then State_Monad.return (send_failed (Errorf ''no recipient''))
      else do {
        res \<leftarrow> get_template slug;
        case res of
          Inl e \<Rightarrow> State_Monad.return (send_failed e)
        | Inr tpl \<Rightarrow>
            if require_enabled \<and> \<not> et_enabled tpl
            then State_Monad.return (send_failed (Errorf (''template '' @ slug @ '' is disabled'')))
            else if \<not> configured env then do {
              log_failure recipient slug (Errorf ''SMTP configuration missing'') actor;
              State_Monad.return (send_failed (Errorf ''SMTP configuration missing'')) }
            else (let (subject, body) = template_mail tpl vars in
              case notify_send env recipient subject body of
                Some e \<Rightarrow> do {
                  log_failure recipient slug e actor;
                  State_Monad.return (send_failed e) }
              | None \<Rightarrow> do {
                  ignore (log_send recipient slug ''sent'' [] actor);
                  State_Monad.return \<lparr>sent = True, send_err = None\<rparr> }) })"

definition portal_url :: "smtp_env \<Rightarrow> string" where
  "portal_url env = (let v = trim_space (mail_frontend_url env) in if v \<noteq> [] then v else ''https://www.essensys.fr/'')"

definition support_email :: "smtp_env \<Rightarrow> string" where
  "support_email env = (let v = trim_space (smtp_from env) in if v \<noteq> [] then v else ''support@essensys.fr'')"

definition base_user_vars :: "smtp_env \<Rightarrow> user \<Rightarrow> template_vars" where
  "base_user_vars env u = [(''first_name'', if u_first_name u = [] then u_email u else u_first_name u),
     (''last_name'', u_last_name u), (''email'', u_email u), (''role'', u_role u),
     (''portal_url'', portal_url env), (''support_email'', support_email env)]"

section \<open>Newsletters\<close>

definition add_subscriber :: "string \<Rightarrow> unit dbop" where
  "add_subscriber email = exec (\<lambda>d. if list_ex (\<lambda>s. sub_email s = email) (subscribers d) then d
     else d\<lparr>subscribers := subscribers d @ [\<lparr>sub_email = email, sub_joined = clock d\<rparr>]\<rparr>)"

definition delete_subscriber :: "string \<Rightarrow> unit dbop" where
  "delete_subscriber email = andThen
     (exec_count (\<lambda>d. (d\<lparr>subscribers := filter (\<lambda>s. sub_email s \<noteq> email) (subscribers d)\<rparr>,
        length (filter (\<lambda>s. sub_email s = email) (subscribers d)))))
     (\<lambda>n. State_Monad.return (if n = 0 then Inl (Errorf ''subscriber not found'') else Inr ()))"

definition get_subscribers :: "subscriber list dbop" where
  "get_subscribers = query (\<lambda>d. Inr (order_desc sub_joined (subscribers d)))"

definition get_newsletters :: "newsletter list dbop" where
  "get_newsletters = query (\<lambda>d. Inr (order_desc nl_updated_at (newsletters d)))"

definition get_newsletter :: "string \<Rightarrow> newsletter dbop" where
  "get_newsletter i = query (\<lambda>d. case find (\<lambda>n. nl_id n = i) (newsletters d) of
       None \<Rightarrow> Inl (Errorf ''newsletter not found'')
     | Some n \<Rightarrow> Inr n)"

definition save_newsletter :: "newsletter \<Rightarrow> unit dbop" where
  "save_newsletter n = exec (\<lambda>d. d\<lparr>newsletters := upsert_row (\<lambda>r. nl_id r = nl_id n)
     (\<lambda>r. r\<lparr>nl_subject := nl_subject n, nl_content := nl_content n, nl_status := nl_status n,
            nl_version := nl_version n, nl_updated_at := nl_updated_at n, nl_sent_at := nl_sent_at n\<rparr>)
     n (newsletters d)\<rparr>)"

definition delete_newsletter :: "string \<Rightarrow> unit dbop" where
  "delete_newsletter i = andThen
     (exec_count (\<lambda>d. (d\<lparr>newsletters := filter (\<lambda>n. nl_id n \<noteq> i) (newsletters d)\<rparr>,
        length (filter (\<lambda>n. nl_id n = i) (newsletters d)))))
     (\<lambda>n. State_Monad.return (if n = 0 then Inl (Errorf ''newsletter not found'') else Inr ()))"

section \<open>Library: rendering as substitution\<close>

text \<open>
  The reference: a template is a sequence of plain texts and named variables; it is rendered by
  putting the value of each variable in its place, the empty text for one without a value.
\<close>

datatype segment = Lit string | Var string

fun seg_text :: "segment \<Rightarrow> string" where
  "seg_text (Lit s) = s"
| "seg_text (Var k) = placeholder k"

definition template_text :: "segment list \<Rightarrow> string" where
  "template_text segs = concat (map seg_text segs)"

definition var_name :: "string \<Rightarrow> bool" where
  "var_name k \<longleftrightarrow> k \<noteq> [] \<and> list_all word_char k"

definition plain_text :: "string \<Rightarrow> bool" where
  "plain_text s \<longleftrightarrow> CHR ''{'' \<notin> set s"

fun seg_ok :: "segment \<Rightarrow> bool" where
  "seg_ok (Lit s) = plain_text s"
| "seg_ok (Var k) = var_name k"

fun put_value :: "string \<Rightarrow> string \<Rightarrow> segment \<Rightarrow> segment" where
  "put_value k v (Lit s) = Lit s"
| "put_value k v (Var j) = (if j = k then Lit v else Var j)"

fun seg_value :: "template_vars \<Rightarrow> segment \<Rightarrow> string" where
  "seg_value vars (Lit s) = s"
| "seg_value vars (Var k) = (case map_of vars k of None \<Rightarrow> [] | Some v \<Rightarrow> v)"

lemma word_char_brace [simp]: "\<not> word_char CHR ''{''" "\<not> word_char CHR ''}''"
  by code_simp+

lemma var_nameD: "var_name k \<Longrightarrow> k \<noteq> [] \<and> CHR ''{'' \<notin> set k"
  by (auto simp: var_name_def list_all_iff)

lemma takeWhile_name: "var_name k \<Longrightarrow> takeWhile word_char (k @ CHR ''}'' # s) = k"
  by (simp add: var_name_def list_all_iff takeWhile_append2)

lemma template_text_simps [simp]:
  "template_text [] = []" "template_text (x # segs) = seg_text x @ template_text segs"
  by (simp_all add: template_text_def)

lemma replace_placeholder:
  assumes "list_all seg_ok segs" "var_name k"
  shows "replace_all (placeholder k) v (template_text segs) = template_text (map (put_value k v) segs)"
  using assms(1)
proof (induction segs)
  case (Cons x segs)
  have ne: "placeholder k \<noteq> []" "hd (placeholder k) = CHR ''{''" by (simp_all add: placeholder_def)
  show ?case
  proof (cases x)
    case (Lit s)
    then show ?thesis using Cons replace_all_plain [OF ne(1), of s] ne(2) by (simp add: plain_text_def)
  next
    case (Var j)
    then have j: "var_name j" using Cons.prems by simp
    show ?thesis
    proof (cases "j = k")
      case True
      then show ?thesis using Var Cons replace_all_match [OF ne(1)] by simp
    next
      case False
      let ?rest = "j @ ''}}'' @ template_text segs"
      have "\<not> prefix (placeholder k) (''{{'' @ ?rest)"
      proof
        assume "prefix (placeholder k) (''{{'' @ ?rest)"
        then obtain y where "?rest = k @ ''}}'' @ y" by (auto simp: placeholder_def prefix_def)
        then have "takeWhile word_char ?rest = takeWhile word_char (k @ ''}}'' @ y)" by simp
        then show False using takeWhile_name [OF j] takeWhile_name [OF assms(2)] False by simp
      qed
      moreover have "\<not> prefix (placeholder k) (CHR ''{'' # ?rest)"
        using var_nameD [OF j] by (cases j) (auto simp: placeholder_def)
      moreover have "replace_all (placeholder k) v (?rest) = j @ ''}}'' @ replace_all (placeholder k) v (template_text segs)"
        using replace_all_plain [OF ne(1), of "j @ ''}}''" v "template_text segs"] var_nameD [OF j] ne(2) by simp
      ultimately show ?thesis using Var False Cons by (simp add: placeholder_def replace_all_skip)
    qed
  qed
qed simp

lemma strip_plain: "plain_text p \<Longrightarrow> strip_placeholders (p @ s) = p @ strip_placeholders s"
proof (induction p)
  case (Cons c p)
  then have "placeholder_at (c # p @ s) = None" by (auto simp: placeholder_at_def plain_text_def)
  then show ?case using Cons by (subst strip_placeholders.simps) (simp add: plain_text_def)
qed simp

lemma strip_var: "var_name k \<Longrightarrow> strip_placeholders (placeholder k @ s) = strip_placeholders s"
proof -
  assume k: "var_name k"
  then have "placeholder_at (placeholder k @ s) = Some k"
    using takeWhile_name [OF k, of "CHR ''}'' # s"] by (simp add: placeholder_at_def placeholder_def var_name_def)
  moreover have "placeholder k @ s \<noteq> []" "4 + length k = length (placeholder k)" by (simp_all add: placeholder_def)
  ultimately show ?thesis by (subst strip_placeholders.simps) (simp only: option.case if_False append_eq_conv_conj, simp)
qed

lemma strip_template: "list_all seg_ok segs \<Longrightarrow> strip_placeholders (template_text segs) = concat (map (seg_value []) segs)"
proof (induction segs)
  case (Cons x segs)
  then show ?case by (cases x) (simp_all add: strip_plain strip_var)
qed (simp add: strip_placeholders.simps)

lemma put_value_ok: "list_all seg_ok segs \<Longrightarrow> plain_text v \<Longrightarrow> list_all seg_ok (map (put_value k v) segs)"
proof (induction segs)
  case (Cons x segs)
  then show ?case by (cases x) auto
qed simp

lemma seg_value_put: "seg_value vars (put_value k v x) = seg_value ((k, v) # vars) x"
  by (cases x) auto

lemma render_template:
  assumes "list_all seg_ok segs" "\<forall>(k, v) \<in> set vars. var_name k \<and> plain_text v"
  shows "render (template_text segs) vars = concat (map (seg_value vars) segs)"
  using assms
proof (induction vars arbitrary: segs)
  case (Cons b vars)
  obtain k v where b: "b = (k, v)" by (cases b)
  have "render (template_text segs) (b # vars) = render (template_text (map (put_value k v) segs)) vars"
    using Cons.prems b by (simp add: render_def replace_placeholder)
  also have "\<dots> = concat (map (seg_value vars) (map (put_value k v) segs))"
    using Cons.prems b by (intro Cons.IH put_value_ok) auto
  also have "\<dots> = concat (map (seg_value (b # vars)) segs)" by (simp add: b seg_value_put comp_def)
  finally show ?case .
qed (simp add: render_def strip_template)

section \<open>Properties\<close>




end
