(* ===== verification/Identity.thy ===== *)
theory Identity
  imports Middleware
begin

text \<open>
  Registration, sign in, remembered sessions, profiles and passwords (internal/identity: handlers.go,
  remember.go, forgot_password.go, password_reset.go, password_change.go, oauth.go, with the token
  helpers of internal/pwreset and internal/remember). Third-party code is gathered in one record of parameters:
  bcrypt, the signing of a JWT, SHA-256 in hexadecimal, Cloudflare's captcha, the exchange of a
  code with Google or Apple. bcrypt salts with random bytes, so its hash takes a draw. A handler that sends mail returns the mail
  with its answer; delivery happens in the background.
\<close>

section \<open>Parameters\<close>

text \<open>
  What the exchange of an authorisation code ends with: nothing usable, data that do not decode, or
  an address and an identifier.
\<close>

datatype oauth_result = ExchangeFailed | UndecodableData | OauthUser string string

record identity_env =
  bcrypt_hash :: "string \<Rightarrow> string \<Rightarrow> string option"
  bcrypt_ok :: "string \<Rightarrow> string \<Rightarrow> bool"
  sign_jwt :: "string \<Rightarrow> string \<Rightarrow> instant \<Rightarrow> string option"
  digest :: "string \<Rightarrow> string"
  turnstile_enforced :: bool
  turnstile :: "(string \<Rightarrow> string \<Rightarrow> bool) option"
  has_resets :: bool
  has_audit :: bool
  has_remember :: bool
  has_mailer :: bool
  reset_base_url :: string
  admin_emails :: string
  frontend_url :: string
  oauth_exchange :: "string \<Rightarrow> oauth_result"
  auth_code_url :: "string \<Rightarrow> string"
  apple_secret_ok :: bool

section \<open>Answers\<close>

datatype (plugins only: code) identity_json =
    MessageJson string
  | LoginJson string user_response bool "(string \<times> instant) option"
  | ProfileJson user_response
  | EmptyBody
  | NearbyJson string
  | TokenValidJson string
  | TokenInvalidJson string
  | Redirect string
  | RedirectWithState string string

type_synonym identity_answer = "identity_json answer"

record reset_mail =
  rm_to :: string
  rm_url :: string
  rm_expires_in :: int

abbreviation answer :: "nat \<Rightarrow> identity_json \<Rightarrow> identity_answer io" where
  "answer c b \<equiv> State_Monad.return (Answer c b)"

abbreviation message :: "nat \<Rightarrow> string \<Rightarrow> identity_answer io" where
  "message c m \<equiv> State_Monad.return (Answer c (MessageJson m))"

abbreviation error_json :: "nat \<Rightarrow> string \<Rightarrow> identity_answer io" where
  "error_json c m \<equiv> State_Monad.return (ErrorJson c m)"

abbreviation error_text :: "nat \<Rightarrow> string \<Rightarrow> identity_answer io" where
  "error_text c m \<equiv> State_Monad.return (HttpError c m)"

section \<open>Helpers\<close>

definition audit_entry :: "identity_env \<Rightarrow> int \<Rightarrow> string \<Rightarrow> string \<Rightarrow> string \<Rightarrow> string \<Rightarrow> unit io" where
  "audit_entry env user_id email action ip details =
     (if \<not> has_audit env then State_Monad.return ()
      else do {
        nw \<leftarrow> now;
        ignore (create_audit_log \<lparr>al_id = 0, al_user_id = user_id, al_username = email, al_action = action,
          al_resource_type = ''USER'', al_resource_id = itoa user_id, al_ip = ip, al_details = details,
          al_created_at = nw\<rparr>) })"

definition audit_remember :: "identity_env \<Rightarrow> int \<Rightarrow> string \<Rightarrow> string \<Rightarrow> string \<Rightarrow> string \<Rightarrow> unit io" where
  "audit_remember = audit_entry"

definition audit_reset :: "identity_env \<Rightarrow> int \<Rightarrow> string \<Rightarrow> string \<Rightarrow> string \<Rightarrow> string \<Rightarrow> unit io" where
  "audit_reset = audit_entry"

definition audit_password_changed :: "identity_env \<Rightarrow> int \<Rightarrow> string \<Rightarrow> string \<Rightarrow> unit io" where
  "audit_password_changed env user_id email ip =
     audit_entry env user_id email ''PASSWORD_CHANGED_AFTER_TEMPORARY'' ip ''Password changed, lock cleared''"

text \<open>A random token with its digest, and the same work for nothing.\<close>

definition generate_token :: "identity_env \<Rightarrow> (string \<times> string) io" where
  "generate_token env = do { plain \<leftarrow> draw; State_Monad.return (plain, digest env plain) }"

definition burn :: "unit io" where
  "burn = do { _ \<leftarrow> draw; State_Monad.return () }"

definition generate_from_password :: "identity_env \<Rightarrow> string \<Rightarrow> string option io" where
  "generate_from_password env password = do { salt \<leftarrow> draw; State_Monad.return (bcrypt_hash env salt password) }"

definition mask_email :: "string \<Rightarrow> string" where
  "mask_email email =
     (let domain = rev (takeWhile (\<lambda>c. c \<noteq> CHR ''@'') (rev email));
          local = take (length email - length domain - 1) email in
      if CHR ''@'' \<notin> set email \<or> local = [] then ''***''
      else if length local \<le> 1 then ''*@'' @ domain
      else take 1 local @ ''***@'' @ domain)"

definition expires_in_minutes :: "instant \<Rightarrow> instant \<Rightarrow> int" where
  "expires_in_minutes expires_at nw =
     (let remaining = time_sub expires_at nw in if remaining < 0 then 0 else remaining div minute)"

text \<open>\<open>url.QueryEscape\<close>, byte by byte.\<close>

definition hex_upper :: "nat \<Rightarrow> char" where
  "hex_upper n = char_of (if n < 10 then 48 + n else 55 + n)"

definition escape_byte :: "char \<Rightarrow> string" where
  "escape_byte c =
     (if (CHR ''a'' \<le> c \<and> c \<le> CHR ''z'') \<or> (CHR ''A'' \<le> c \<and> c \<le> CHR ''Z'') \<or> digit c
         \<or> c \<in> set ''-_.~'' then [c]
      else if c = CHR '' '' then ''+''
      else [CHR ''%'', hex_upper (byte c div 16), hex_upper (byte c mod 16)])"

definition query_escape :: "string \<Rightarrow> string" where
  "query_escape s = concat (map escape_byte s)"

definition trim_right_slash :: "string \<Rightarrow> string" where
  "trim_right_slash s = rev (dropWhile (\<lambda>c. c = CHR ''/'') (rev s))"

definition default_reset_origin :: string where
  "default_reset_origin = ''https://www.essensys.fr''"

definition reset_link_base_url :: "string \<Rightarrow> string" where
  "reset_link_base_url env_value =
     (let base = trim_space env_value in if base \<noteq> [] then trim_right_slash base else default_reset_origin)"

definition build_reset_url :: "string \<Rightarrow> string \<Rightarrow> string" where
  "build_reset_url base0 token =
     (let base = (if base0 = [] then default_reset_origin else base0) in
      trim_right_slash base @ ''/reset-password?token='' @ query_escape token)"

section \<open>Captcha\<close>

text \<open>Why a captcha is refused; \<open>None\<close> when it passes or is not asked for.\<close>

datatype captcha_refusal = CaptchaMissing | CaptchaNotConfigured | CaptchaFailed

definition check_captcha :: "identity_env \<Rightarrow> string \<Rightarrow> string \<Rightarrow> captcha_refusal option" where
  "check_captcha env raw ip =
     (if \<not> turnstile_enforced env then None
      else (let token = trim_space raw in
        if token = [] then Some CaptchaMissing
        else (case turnstile env of
            None \<Rightarrow> Some CaptchaNotConfigured
          | Some verify \<Rightarrow> if verify token ip then None else Some CaptchaFailed)))"

section \<open>Registration\<close>

definition new_account :: "instant \<Rightarrow> string \<Rightarrow> string \<Rightarrow> string \<Rightarrow> string \<Rightarrow> string \<Rightarrow> string \<Rightarrow> string \<Rightarrow> user" where
  "new_account nw email hash role first_name last_name provider provider_id =
     \<lparr>u_id = 0, u_email = email, u_password_hash = hash, u_role = role, u_first_name = first_name,
      u_last_name = last_name, u_provider = provider, u_provider_id = provider_id, u_created_at = nw,
      u_last_login = nw, u_forbidden_at = None, u_machine = None, u_gateway = None, u_armoire = None,
      u_pw_change_required_at = None, u_temp_expires_at = None, u_temp_issued_by = None\<rparr>"

definition register :: "identity_env \<Rightarrow> http_request \<Rightarrow> register_request option \<Rightarrow> identity_answer io" where
  "register env r body = (case body of
       None \<Rightarrow> message 400 ''Invalid request body''
     | Some req \<Rightarrow>
         if rr_email req = [] \<or> rr_password req = [] then message 400 ''Email and password are required''
         else if trim_space (rr_website req) \<noteq> [] then message 400 ''Invalid request''
         else (case check_captcha env (rr_turnstile_token req) (client_ip r) of
             Some CaptchaMissing \<Rightarrow> message 400 ''Captcha verification required''
           | Some _ \<Rightarrow> message 403 ''Captcha verification failed''
           | None \<Rightarrow> do {
               existing \<leftarrow> get_user_by_email (rr_email req);
               case existing of
                 Inl _ \<Rightarrow> message 500 ''Database error''
               | Inr (Some _) \<Rightarrow> message 409 ''User already exists''
               | Inr None \<Rightarrow> do {
                   hashed \<leftarrow> generate_from_password env (rr_password req);
                   case hashed of
                     None \<Rightarrow> message 500 ''Failed to process password''
                   | Some hash \<Rightarrow> do {
                       nw \<leftarrow> now;
                       res \<leftarrow> create_user (new_account nw (rr_email req) hash role_guest_local
                         (rr_first_name req) (rr_last_name req) provider_email []);
                       case res of
                         Inl _ \<Rightarrow> message 500 ''Failed to create user''
                       | Inr _ \<Rightarrow> message 201 ''User registered successfully'' } } }))"

section \<open>Sign in and remembered sessions\<close>

definition max_user_agent_len :: nat where "max_user_agent_len = 255"

definition issue_remember_session :: "identity_env \<Rightarrow> int \<Rightarrow> http_request \<Rightarrow> (string \<times> instant) dbop" where
  "issue_remember_session env user_id r = do {
     (plain, th) \<leftarrow> generate_token env;
     nw \<leftarrow> now;
     let expires_at = nw + remember_lifetime;
     let ua = take max_user_agent_len (header r ''User-Agent'');
     andThen (create_remember_session user_id th expires_at ua nw) (\<lambda>_.
       State_Monad.return (Inr (plain, expires_at))) }"

definition jwt_lifetime :: duration where "jwt_lifetime = 24 * hour"

definition login :: "identity_env \<Rightarrow> http_request \<Rightarrow> login_request option \<Rightarrow> identity_answer io" where
  "login env r body = (case body of
       None \<Rightarrow> error_text 400 ''Invalid request body''
     | Some req \<Rightarrow> do {
         res \<leftarrow> get_user_by_email (lo_email req);
         case res of
           Inl _ \<Rightarrow> error_text 500 ''Database error''
         | Inr None \<Rightarrow> error_text 401 ''Invalid credentials''
         | Inr (Some u) \<Rightarrow>
             if is_user_forbidden (Some u) then State_Monad.return account_forbidden
             else if u_provider u \<noteq> provider_email \<and> u_password_hash u = []
               then error_text 401 (''Please login with '' @ u_provider u)
             else if \<not> bcrypt_ok env (u_password_hash u) (lo_password req) then error_text 401 ''Invalid credentials''
             else do {
               nw \<leftarrow> now;
               if temp_password_expired (Some u) nw then error_json 401 ''temporary_password_expired''
               else do {
                 ignore (update_last_login (u_id u));
                 (case sign_jwt env (u_email u) (u_role u) (nw + jwt_lifetime) of
                    None \<Rightarrow> error_text 500 ''Failed to generate token''
                  | Some token \<Rightarrow>
                      (let resp = LoginJson token (user_to_response (Some u)) (password_change_required (Some u)) in
                       if lo_remember_me req \<and> has_remember env then do {
                         sess \<leftarrow> issue_remember_session env (u_id u) r;
                         case sess of
                           Inl _ \<Rightarrow> error_text 500 ''Failed to create session''
                         | Inr s \<Rightarrow> do {
                             audit_remember env (u_id u) (u_email u) ''REMEMBER_SESSION_CREATED'' (client_ip r)
                               ''30-day remembered session created'';
                             answer 200 (resp (Some s)) } }
                       else answer 200 (resp None))) } } })"

definition remember_invalid :: "identity_answer io" where
  "remember_invalid = error_json 401 ''remember_invalid''"

definition remember_refresh :: "identity_env \<Rightarrow> http_request \<Rightarrow> string option \<Rightarrow> identity_answer io" where
  "remember_refresh env r body =
     (if \<not> has_remember env then error_json 503 ''unavailable''
      else (case body of
          None \<Rightarrow> error_json 400 ''invalid_request''
        | Some token \<Rightarrow>
            (let plain = trim_space token in
             if plain = [] then remember_invalid
             else do {
               res \<leftarrow> get_remember_session_by_hash (digest env plain);
               case res of
                 Inl _ \<Rightarrow> error_json 500 ''server_error''
               | Inr so \<Rightarrow> do {
                   nw \<leftarrow> now;
                   if \<not> remember_session_usable so nw then remember_invalid
                   else (let s = the so in do {
                     uo \<leftarrow> get_user_by_id (rs_user s);
                     case uo of
                       Inl _ \<Rightarrow> error_json 500 ''server_error''
                     | Inr None \<Rightarrow> remember_invalid
                     | Inr (Some u) \<Rightarrow>
                         if is_user_forbidden (Some u) then State_Monad.return account_forbidden
                         else (case sign_jwt env (u_email u) (u_role u) (nw + jwt_lifetime) of
                             None \<Rightarrow> error_json 500 ''server_error''
                           | Some jwt \<Rightarrow> do {
                               ignore (touch_remember_session (rs_id s) nw);
                               answer 200 (LoginJson jwt (user_to_response (Some u))
                                 (password_change_required (Some u)) None) }) }) } })))"

definition logout :: "identity_env \<Rightarrow> http_request \<Rightarrow> string option \<Rightarrow> identity_answer io" where
  "logout env r body =
     (if \<not> has_remember env then answer 200 EmptyBody
      else (case body of
          None \<Rightarrow> answer 200 EmptyBody
        | Some token \<Rightarrow>
            (let plain = trim_space token in
             if plain = [] then answer 200 EmptyBody
             else do {
               nw \<leftarrow> now;
               res \<leftarrow> revoke_by_hash (digest env plain) nw;
               case res of
                 Inl _ \<Rightarrow> answer 200 EmptyBody
               | Inr _ \<Rightarrow> do {
                   audit_remember env 0 [] ''REMEMBER_SESSION_REVOKED'' (client_ip r)
                     ''remembered session revoked at logout'';
                   answer 200 EmptyBody } })))"

section \<open>Profiles\<close>

text \<open>\<open>if err != nil || user == nil\<close>: the same answer for both.\<close>

definition with_account :: "string \<Rightarrow> identity_answer io \<Rightarrow> (user \<Rightarrow> identity_answer io) \<Rightarrow> identity_answer io" where
  "with_account email missing body = do {
     r \<leftarrow> get_user_by_email email;
     case r of Inr (Some u) \<Rightarrow> body u | _ \<Rightarrow> missing }"

definition get_profile :: "string \<Rightarrow> identity_answer io" where
  "get_profile email = with_account email (error_text 404 ''User not found'')
     (\<lambda>u. answer 200 (ProfileJson (user_to_response (Some u))))"

record profile_request =
  pr_first_name :: string
  pr_last_name :: string
  pr_password :: string

definition update_profile :: "identity_env \<Rightarrow> string \<Rightarrow> profile_request option \<Rightarrow> identity_answer io" where
  "update_profile env email body = with_account email (error_text 404 ''User not found'') (\<lambda>u. case body of
       None \<Rightarrow> error_text 400 ''Bad Request''
     | Some req \<Rightarrow> do {
         hashed \<leftarrow> (if pr_password req = [] then State_Monad.return (Some [])
                    else generate_from_password env (pr_password req));
         case hashed of
           None \<Rightarrow> error_text 500 ''Server Error''
         | Some hash \<Rightarrow> do {
             r \<leftarrow> update_user (u_id u) (pr_first_name req) (pr_last_name req) hash;
             case r of
               Inl _ \<Rightarrow> error_text 500 ''Internal Server Error''
             | Inr _ \<Rightarrow> answer 200 EmptyBody } })"

definition delete_profile :: "string \<Rightarrow> identity_answer io" where
  "delete_profile email = with_account email (error_text 404 ''User not found'') (\<lambda>u. do {
     r \<leftarrow> delete_user (u_id u);
     case r of
       Inl _ \<Rightarrow> error_text 500 ''Internal Server Error''
     | Inr _ \<Rightarrow> answer 200 EmptyBody })"

definition update_profile_links :: "string \<Rightarrow> (int option \<times> string option) option \<Rightarrow> identity_answer io" where
  "update_profile_links email body = with_account email (error_text 404 ''User not found'') (\<lambda>u. case body of
       None \<Rightarrow> error_text 400 ''Bad Request''
     | Some (machine_id, gateway_id) \<Rightarrow> do {
         r \<leftarrow> update_user_links (u_id u) machine_id gateway_id None;
         case r of
           Inl _ \<Rightarrow> error_text 500 ''Internal Server Error''
         | Inr _ \<Rightarrow> answer 200 EmptyBody })"

definition nearby_devices :: "http_request \<Rightarrow> identity_answer io" where
  "nearby_devices r = answer 200 (NearbyJson (client_ip r))"

section \<open>Forgotten passwords\<close>

definition forgot_message :: string where
  "forgot_message = ''Si un compte existe pour cette adresse, un email de r'' @ [CHR 0xC3, CHR 0xA9]
     @ ''initialisation a '' @ [CHR 0xC3, CHR 0xA9] @ ''t'' @ [CHR 0xC3, CHR 0xA9] @ '' envoy''
     @ [CHR 0xC3, CHR 0xA9] @ ''.''"

definition max_tokens_per_account_per_hour :: int where "max_tokens_per_account_per_hour = 3"

definition reset_mail_for :: "identity_env \<Rightarrow> user \<Rightarrow> string \<Rightarrow> instant \<Rightarrow> instant \<Rightarrow> reset_mail" where
  "reset_mail_for env u plain expires_at nw =
     \<lparr>rm_to = u_email u, rm_url = build_reset_url (reset_link_base_url (reset_base_url env)) plain,
      rm_expires_in = expires_in_minutes expires_at nw\<rparr>"

definition dispatch_mail :: "identity_env \<Rightarrow> user \<Rightarrow> string \<Rightarrow> instant \<Rightarrow> reset_mail option io" where
  "dispatch_mail env u plain expires_at =
     (if \<not> has_mailer env then State_Monad.return None
      else do { nw \<leftarrow> now; State_Monad.return (Some (reset_mail_for env u plain expires_at nw)) })"

definition issue_reset_if_eligible :: "identity_env \<Rightarrow> string \<Rightarrow> string \<Rightarrow> reset_mail option io" where
  "issue_reset_if_eligible env email ip = do {
     res \<leftarrow> get_user_by_email email;
     case res of
       Inl _ \<Rightarrow> do { audit_reset env 0 email ''PASSWORD_RESET_REQUESTED'' ip ''lookup error'';
                     State_Monad.return None }
     | Inr None \<Rightarrow> do { burn; audit_reset env 0 email ''PASSWORD_RESET_REQUESTED'' ip ''unknown address'';
                        State_Monad.return None }
     | Inr (Some u) \<Rightarrow>
         if is_user_forbidden (Some u) then do {
           burn; audit_reset env (u_id u) (u_email u) ''PASSWORD_RESET_REQUESTED'' ip ''account forbidden'';
           State_Monad.return None }
         else do {
           recent \<leftarrow> count_recent_for_user (u_id u) hour;
           if (case recent of Inl _ \<Rightarrow> False | Inr n \<Rightarrow> n \<ge> max_tokens_per_account_per_hour) then do {
             burn;
             audit_reset env (u_id u) (u_email u) ''PASSWORD_RESET_THROTTLED_ACCOUNT'' ip
               (''already issued '' @ itoa (case recent of Inl _ \<Rightarrow> 0 | Inr n \<Rightarrow> n) @ '' in the last hour'');
             State_Monad.return None }
           else do {
             issued \<leftarrow> issue_reset_token (digest env) (u_id u) ip;
             case issued of
               Inl _ \<Rightarrow> do { audit_reset env (u_id u) (u_email u) ''PASSWORD_RESET_REQUESTED'' ip ''issue failed'';
                             State_Monad.return None }
             | Inr (plain, expires_at) \<Rightarrow> do {
                 audit_reset env (u_id u) (u_email u) ''PASSWORD_RESET_REQUESTED'' ip ''reset link issued'';
                 dispatch_mail env u plain expires_at } } } }"

record forgot_request =
  fr_email :: string
  fr_turnstile_token :: string

definition forgot_password ::
  "identity_env \<Rightarrow> http_request \<Rightarrow> forgot_request option \<Rightarrow> (identity_answer \<times> reset_mail option) io" where
  "forgot_password env r body =
     (let refuse = (\<lambda>code err. State_Monad.return (ErrorJson code err, None)); ip = client_ip r in
      case body of
        None \<Rightarrow> refuse 400 ''invalid_request''
      | Some req \<Rightarrow>
          (let email = trim_space (fr_email req) in
           if email = [] \<or> CHR ''@'' \<notin> set email then refuse 400 ''invalid_email''
           else (case check_captcha env (fr_turnstile_token req) ip of
               Some CaptchaMissing \<Rightarrow> do {
                 audit_reset env 0 email ''PASSWORD_RESET_BLOCKED_TURNSTILE'' ip ''missing token'';
                 refuse 400 ''captcha_required'' }
             | Some CaptchaNotConfigured \<Rightarrow> do {
                 audit_reset env 0 email ''PASSWORD_RESET_BLOCKED_TURNSTILE'' ip ''not configured'';
                 refuse 403 ''captcha_failed'' }
             | Some CaptchaFailed \<Rightarrow> do {
                 audit_reset env 0 email ''PASSWORD_RESET_BLOCKED_TURNSTILE'' ip ''verify failed'';
                 refuse 403 ''captcha_failed'' }
             | None \<Rightarrow>
                 if \<not> has_resets env then refuse 503 ''unavailable''
                 else do {
                   mail \<leftarrow> issue_reset_if_eligible env email ip;
                   State_Monad.return (Answer 202 (MessageJson forgot_message), mail) })))"

section \<open>Reset and change of a password\<close>

definition validate_reset_token :: "identity_env \<Rightarrow> string \<Rightarrow> identity_answer io" where
  "validate_reset_token env token_param =
     (if \<not> has_resets env then answer 503 (TokenInvalidJson ''unavailable'')
      else (let plain = trim_space token_param in
        if plain = [] then answer 400 (TokenInvalidJson ''invalid'')
        else do {
          res \<leftarrow> get_reset_token_by_hash (digest env plain);
          case res of
            Inl _ \<Rightarrow> answer 500 (TokenInvalidJson ''error'')
          | Inr None \<Rightarrow> answer 400 (TokenInvalidJson ''invalid'')
          | Inr (Some tok) \<Rightarrow> do {
              nw \<leftarrow> now;
              case reset_token_state (Some tok) nw of
                TokenExpired \<Rightarrow> answer 410 (TokenInvalidJson ''expired'')
              | TokenUsed \<Rightarrow> answer 410 (TokenInvalidJson ''used'')
              | TokenInvalidated \<Rightarrow> answer 410 (TokenInvalidJson ''used'')
              | TokenValid \<Rightarrow> do {
                  uo \<leftarrow> get_user_by_id (rt_user tok);
                  case uo of
                    Inr (Some u) \<Rightarrow> answer 200 (TokenValidJson (mask_email (u_email u)))
                  | _ \<Rightarrow> answer 400 (TokenInvalidJson ''invalid'') } } }))"

definition password_updated :: string where
  "password_updated = ''Mot de passe mis '' @ [CHR 0xC3, CHR 0xA0] @ '' jour.''"

definition reset_password ::
  "identity_env \<Rightarrow> http_request \<Rightarrow> (string \<times> string) option \<Rightarrow> identity_answer io" where
  "reset_password env r body =
     (if \<not> has_resets env then error_json 503 ''unavailable''
      else (case body of
          None \<Rightarrow> error_json 400 ''invalid_request''
        | Some (token, password) \<Rightarrow>
            (let ip = client_ip r; plain = trim_space token; th = digest env plain in
             if plain = [] then do {
               audit_reset env 0 [] ''PASSWORD_RESET_TOKEN_INVALID'' ip ''empty token'';
               error_json 400 ''invalid_token'' }
             else do {
               res \<leftarrow> get_reset_token_by_hash th;
               case res of
                 Inl _ \<Rightarrow> error_json 500 ''server_error''
               | Inr tok \<Rightarrow> do {
                   nw \<leftarrow> now;
                   if \<not> reset_token_usable tok nw then do {
                     audit_reset env 0 [] ''PASSWORD_RESET_TOKEN_INVALID'' ip ''token not usable'';
                     error_json 400 ''invalid_token'' }
                   else do {
                     uo \<leftarrow> get_user_by_id (rt_user (the tok));
                     case uo of
                       Inl _ \<Rightarrow> error_json 500 ''server_error''
                     | Inr None \<Rightarrow> do {
                         audit_reset env 0 [] ''PASSWORD_RESET_TOKEN_INVALID'' ip ''user missing'';
                         error_json 400 ''invalid_token'' }
                     | Inr (Some u) \<Rightarrow>
                         if is_user_forbidden (Some u) then do {
                           ignore (invalidate_for_user (u_id u));
                           audit_reset env (u_id u) (u_email u) ''PASSWORD_RESET_TOKEN_INVALID'' ip ''account forbidden'';
                           error_json 403 ''account_forbidden'' }
                         else if rune_count password < min_password_length then error_json 400 ''weak_password''
                         else if u_password_hash u \<noteq> [] \<and> bcrypt_ok env (u_password_hash u) password
                           then error_json 400 ''password_reused''
                         else do {
                           hashed \<leftarrow> generate_from_password env password;
                           case hashed of
                             None \<Rightarrow> error_json 500 ''server_error''
                           | Some hash \<Rightarrow> do {
                               consumed \<leftarrow> consume_and_set_password th hash ip;
                               case consumed of
                                 Inl _ \<Rightarrow> do {
                                   audit_reset env (u_id u) (u_email u) ''PASSWORD_RESET_TOKEN_INVALID'' ip ''consume failed'';
                                   error_json 400 ''invalid_token'' }
                               | Inr i \<Rightarrow> do {
                                   audit_reset env i (u_email u) ''PASSWORD_RESET_COMPLETED'' ip ''password updated'';
                                   message 200 password_updated } } } } } })))"

definition change_password ::
  "identity_env \<Rightarrow> http_request \<Rightarrow> string \<Rightarrow> (string \<times> string) option \<Rightarrow> identity_answer io" where
  "change_password env r email body = with_account email (error_json 401 ''unauthorized'') (\<lambda>u. case body of
       None \<Rightarrow> error_json 400 ''invalid_request''
     | Some (current, new) \<Rightarrow>
         if \<not> bcrypt_ok env (u_password_hash u) current then error_json 401 ''invalid_current_password''
         else if rune_count new < min_password_length then error_json 400 ''weak_password''
         else if new = current then error_json 400 ''password_reused''
         else do {
           hashed \<leftarrow> generate_from_password env new;
           case hashed of
             None \<Rightarrow> error_json 500 ''server_error''
           | Some hash \<Rightarrow> do {
               res \<leftarrow> clear_password_change_required (u_id u) hash;
               case res of
                 Inl _ \<Rightarrow> error_json 500 ''server_error''
               | Inr _ \<Rightarrow> do {
                   audit_password_changed env (u_id u) (u_email u) (client_ip r);
                   message 200 password_updated } } })"

section \<open>Google and Apple\<close>

definition forbidden_redirect_path :: string where "forbidden_redirect_path = ''/maintenance/''"

definition is_admin_email :: "string \<Rightarrow> string \<Rightarrow> bool" where
  "is_admin_email email admin_list \<longleftrightarrow>
     list_ex (\<lambda>admin. trim_space admin = email) (split_on CHR '','' admin_list)"

definition oauth_login :: "identity_env \<Rightarrow> identity_answer io" where
  "oauth_login env = do { st \<leftarrow> draw; answer 307 (RedirectWithState (auth_code_url env st) st) }"

text \<open>
  What both callbacks do once they know an address: create the account or refuse a forbidden one,
  then hand over a token in the fragment of the redirection. \<open>code\<close> is the status of the
  provider's redirections.
\<close>

definition oauth_finish ::
  "identity_env \<Rightarrow> nat \<Rightarrow> string \<Rightarrow> string \<Rightarrow> string \<Rightarrow> identity_answer io" where
  "oauth_finish env code provider email provider_id = do {
     res \<leftarrow> get_user_by_email email;
     let finish = (\<lambda>role. do {
         nw \<leftarrow> now;
         case sign_jwt env email role (nw + jwt_lifetime) of
           None \<Rightarrow> error_text 500 ''Internal Server Error''
         | Some token \<Rightarrow>
             answer code (Redirect ((if frontend_url env = [] then ''/'' else frontend_url env)
               @ ''admin#token='' @ token @ ''&role='' @ role)) });
     case res of
       Inl _ \<Rightarrow> answer code (Redirect ''/'')
     | Inr None \<Rightarrow> do {
         let role = (if is_admin_email email (admin_emails env) then role_admin_global else role_user);
         nw \<leftarrow> now;
         created \<leftarrow> create_user (new_account nw email [] role [] [] provider provider_id);
         case created of
           Inl _ \<Rightarrow> answer code (Redirect ''/'')
         | Inr _ \<Rightarrow> finish role }
     | Inr (Some u) \<Rightarrow>
         if is_user_forbidden (Some u) then answer 307 (Redirect forbidden_redirect_path)
         else do {
           ignore (update_last_login (u_id u));
           finish (u_role u) } }"

record oauth_callback_request =
  oc_cookie :: "string option"
  oc_state :: string
  oc_code :: string

definition google_callback :: "identity_env \<Rightarrow> oauth_callback_request \<Rightarrow> identity_answer io" where
  "google_callback env req = (case oc_cookie req of
       None \<Rightarrow> answer 307 (Redirect ''/'')
     | Some cookie \<Rightarrow>
         if oc_state req \<noteq> cookie then answer 307 (Redirect ''/'')
         else (case oauth_exchange env (oc_code req) of
             ExchangeFailed \<Rightarrow> answer 307 (Redirect ''/'')
           | UndecodableData \<Rightarrow> error_text 500 ''Failed to parse user data''
           | OauthUser email i \<Rightarrow> oauth_finish env 307 provider_google email i))"

text \<open>
  Apple's identity token is read without verification of its signature, as it comes over TLS from the
  token endpoint; a token without an \<open>email\<close> claim gives the empty address.
\<close>

definition apple_callback :: "identity_env \<Rightarrow> oauth_callback_request \<Rightarrow> identity_answer io" where
  "apple_callback env req = (case oc_cookie req of
       None \<Rightarrow> answer 307 (Redirect ''/'')
     | Some cookie \<Rightarrow>
         if oc_state req \<noteq> cookie then answer 303 (Redirect ''/'')
         else if oc_code req = [] then error_text 400 ''No code returned from Apple''
         else if \<not> apple_secret_ok env then error_text 500 ''Internal Server Error''
         else (case oauth_exchange env (oc_code req) of
             ExchangeFailed \<Rightarrow> answer 307 (Redirect ''/'')
           | UndecodableData \<Rightarrow> answer 303 (Redirect ''/'')
           | OauthUser email _ \<Rightarrow> oauth_finish env 303 provider_apple email []))"

section \<open>Library: runs of the identity handlers\<close>

text \<open>What an audit entry leaves alone.\<close>

definition account_view :: "db \<Rightarrow> instant \<times> user list \<times> reset_token list \<times> remember_session list \<times> nat" where
  "account_view d = (clock d, users d, reset_tokens d, remember_sessions d, draws d)"

lemma audit_entry_view: "keeps account_view (audit_entry env i e a ip s)"
  unfolding audit_entry_def create_audit_log_def
  by (intro keepsI io_intros keeps_preorder) (simp_all add: account_view_def bump_def)

lemma audit_entry_ok: "faults d = [] \<Longrightarrow> faults (snd (run_state (audit_entry env i e a ip s) d)) = []"
  by (simp add: audit_entry_def create_audit_log_def bump_def)

lemmas audit_defs = audit_reset_def audit_remember_def audit_password_changed_def

lemma audit_view: "account_view (snd (run_state (audit_entry env i e a ip s) d)) = account_view d"
  by (rule keepsD_snd [OF audit_entry_view])

lemma untouched_view: "untouched d d' \<Longrightarrow> account_view d' = account_view d"
  by (auto simp: untouched_def account_view_def)

text \<open>A mail leaves only for a live account whose quota is not used up, and it carries the stored token.\<close>

definition recent_tokens :: "db \<Rightarrow> int \<Rightarrow> reset_token list" where
  "recent_tokens d i = filter (\<lambda>t. rt_user t = i \<and> rt_created_at t > clock d - hour) (reset_tokens d)"

text \<open>The statement that counts the links already issued fails, after the look-up of the account.\<close>

definition count_fails :: "int \<Rightarrow> string \<Rightarrow> db \<Rightarrow> bool" where
  "count_fails i email d \<longleftrightarrow> (\<exists>e. fst (run_state (count_recent_for_user i hour)
     (snd (run_state (get_user_by_email email) d))) = Inl e)"

lemma count_ok: "faults d = [] \<Longrightarrow> \<not> count_fails i email d"
  by (simp add: count_fails_def get_user_by_email_def count_recent_for_user_def)

definition mail_justified :: "identity_env \<Rightarrow> string \<Rightarrow> reset_mail \<Rightarrow> db \<Rightarrow> db \<Rightarrow> bool" where
  "mail_justified env email mail d d' \<longleftrightarrow> (\<exists>u plain t.
     live_account d email u \<and> rm_to mail = email
     \<and> rm_url mail = build_reset_url (reset_link_base_url (reset_base_url env)) plain \<and> rm_expires_in mail = 60
     \<and> find (\<lambda>t. rt_hash t = digest env plain) (reset_tokens d') = Some t
     \<and> rt_user t = u_id u
     \<and> (\<forall>c. reset_token_usable (Some t) c \<longleftrightarrow> c < clock d + pwreset_ttl)
     \<and> (length (recent_tokens d (u_id u)) < 3 \<or> count_fails (u_id u) email d))"

lemma expires_in_ttl: "expires_in_minutes (t + pwreset_ttl) t = 60"
  by (simp add: expires_in_minutes_def time_sub_def pwreset_ttl_def duration_defs max_duration_def min_duration_def Let_def)

lemma count_recent_run:
  assumes "run_state (count_recent_for_user i hour) d = (rc, d')"
  shows "untouched d d'"
    and "rc = Inr n \<Longrightarrow> n = int (length (recent_tokens d i))"
  using assms unfolding count_recent_for_user_def
  by (auto simp: untouched_def recent_tokens_def elim: query_cases)

lemma issue_mail:
  assumes "run_state (issue_reset_if_eligible env email ip) d = (Some mail, d')"
  shows "mail_justified env email mail d d'"
proof -
  obtain res d1 where get: "run_state (get_user_by_email email) d = (res, d1)" by fastforce
  have "\<exists>u. res = Inr (Some u) \<and> \<not> is_user_forbidden (Some u)"
    using assms get by (auto simp: issue_reset_if_eligible_def split: sum.splits option.splits if_splits prod.splits)
  then obtain u where u: "res = Inr (Some u)" "\<not> is_user_forbidden (Some u)" by blast
  obtain rc d2 where cnt: "run_state (count_recent_for_user (u_id u) hour) d1 = (rc, d2)" by fastforce
  have "\<exists>plain e. \<exists>d3. run_state (issue_reset_token (digest env) (u_id u) ip) d2 = (Inr (plain, e), d3)
      \<and> \<not> (case rc of Inl _ \<Rightarrow> False | Inr n \<Rightarrow> n \<ge> max_tokens_per_account_per_hour)
      \<and> run_state (dispatch_mail env u plain e) (snd (run_state (audit_entry env (u_id u) (u_email u)
          ''PASSWORD_RESET_REQUESTED'' ip ''reset link issued'') d3)) = (Some mail, d')"
    using assms get u cnt
    by (auto simp: issue_reset_if_eligible_def audit_defs split: sum.splits if_splits prod.splits)
  then obtain plain e d3 where iss: "run_state (issue_reset_token (digest env) (u_id u) ip) d2 = (Inr (plain, e), d3)"
    and low: "\<not> (case rc of Inl _ \<Rightarrow> False | Inr n \<Rightarrow> n \<ge> max_tokens_per_account_per_hour)"
    and disp: "run_state (dispatch_mail env u plain e) (snd (run_state (audit_entry env (u_id u) (u_email u)
          ''PASSWORD_RESET_REQUESTED'' ip ''reset link issued'') d3)) = (Some mail, d')"
    by blast
  let ?d4 = "snd (run_state (audit_entry env (u_id u) (u_email u) ''PASSWORD_RESET_REQUESTED'' ip ''reset link issued'') d3)"
  have un: "untouched d d1" "untouched d1 d2" using accounts.get_frame [OF get] count_recent_run(1) [OF cnt] by simp_all
  have d2: "clock d2 = clock d" "account_view d1 = account_view d" using un by (auto simp: untouched_def account_view_def)
  have d4: "reset_tokens ?d4 = reset_tokens d3" "clock ?d4 = clock d3"
    using audit_view [of env "u_id u" "u_email u" "''PASSWORD_RESET_REQUESTED''" ip "''reset link issued''" d3]
    by (auto simp: account_view_def)
  have m: "d' = ?d4" "mail = reset_mail_for env u plain e (clock d3)"
    using disp d4(2) by (auto simp: dispatch_mail_def split: if_splits)
  have acc: "u \<in> set (users d) \<and> u_email u = email" using accounts.get_sound get u(1) by blast
  have quota: "length (recent_tokens d (u_id u)) < 3 \<or> count_fails (u_id u) email d"
  proof (cases rc)
    case (Inl e)
    then show ?thesis using get cnt by (simp add: count_fails_def)
  next
    case (Inr n)
    have "recent_tokens d1 (u_id u) = recent_tokens d (u_id u)" using un(1) by (auto simp: untouched_def recent_tokens_def)
    then show ?thesis using count_recent_run(2) [OF cnt Inr] low Inr by (simp add: max_tokens_per_account_per_hour_def)
  qed
  show ?thesis using iss
  proof (rule issue_cases)
    fix t
    assume t: "e = clock d2 + pwreset_ttl" "rt_user t = u_id u" "reset_token_usable (Some t) (clock d2)"
      "rt_expires_at t = e"
      "find (\<lambda>t. rt_hash t = digest env plain) (reset_tokens d3) = Some t" "clock d3 = clock d2"
    then show ?thesis unfolding mail_justified_def
      using m d4(1) d2(1) acc u(2) quota expires_in_ttl
      by (intro exI [of _ u] exI [of _ plain] exI [of _ t])
        (simp add: live_account_def is_user_forbidden_def reset_mail_for_def reset_token_usable_iff)
  qed
qed


text \<open>Who gets a token.\<close>

lemma login_token:
  assumes "run_state (login env r (Some req)) d = (Answer 200 (LoginJson tok resp must sess), d')"
  shows "\<exists>u. live_account d (lo_email req) u \<and> bcrypt_ok env (u_password_hash u) (lo_password req)
    \<and> \<not> temp_password_expired (Some u) (clock d)
    \<and> sign_jwt env (u_email u) (u_role u) (clock d + jwt_lifetime) = Some tok
    \<and> (must \<longleftrightarrow> u_pw_change_required_at u \<noteq> None)"
proof -
  obtain res d1 where get: "run_state (get_user_by_email (lo_email req)) d = (res, d1)" by fastforce
  have cl: "clock d1 = clock d" using accounts.get_frame [OF get] by (auto simp: untouched_def)
  obtain u where u: "res = Inr (Some u)"
    using assms get by (auto simp: login_def split: sum.splits option.splits)
  have "u \<in> set (users d) \<and> u_email u = lo_email req" using accounts.get_sound get u by blast
  moreover have "\<not> is_user_forbidden (Some u) \<and> bcrypt_ok env (u_password_hash u) (lo_password req)
      \<and> \<not> temp_password_expired (Some u) (clock d1)
      \<and> sign_jwt env (u_email u) (u_role u) (clock d1 + jwt_lifetime) = Some tok \<and> must = password_change_required (Some u)"
    using assms get u
    by (auto simp: login_def account_forbidden_def Let_def split: if_splits option.splits sum.splits prod.splits)
  ultimately show ?thesis using cl
    by (auto simp: live_account_def is_user_forbidden_def password_change_required_def)
qed

lemma refresh_token:
  assumes "run_state (remember_refresh env r (Some t)) d = (Answer 200 (LoginJson tok resp must sess), d')"
  shows "\<exists>s u. s \<in> set (remember_sessions d) \<and> rs_hash s = digest env (trim_space t)
    \<and> remember_session_usable (Some s) (clock d) \<and> u_id u = rs_user s \<and> live_account d (u_email u) u
    \<and> sign_jwt env (u_email u) (u_role u) (clock d + jwt_lifetime) = Some tok"
proof -
  obtain res d1 where get: "run_state (get_remember_session_by_hash (digest env (trim_space t))) d = (res, d1)" by fastforce
  have "\<exists>so. res = Inr so \<and> remember_session_usable so (clock d1)"
    using assms get by (auto simp: remember_refresh_def remember_invalid_def Let_def split: if_splits sum.splits)
  then obtain s where s: "res = Inr (Some s)" "remember_session_usable (Some s) (clock d1)"
    by (auto simp: remember_session_usable_def split: option.splits)
  have d1: "untouched d d1" "find (\<lambda>s. rs_hash s = digest env (trim_space t)) (remember_sessions d) = Some s"
    using get s(1) unfolding get_remember_session_by_hash_def untouched_def by (auto elim!: query_cases)
  obtain uo d2 where usr: "run_state (get_user_by_id (rs_user s)) d1 = (uo, d2)" by fastforce
  have "\<exists>u. uo = Inr (Some u) \<and> \<not> is_user_forbidden (Some u)
      \<and> sign_jwt env (u_email u) (u_role u) (clock d1 + jwt_lifetime) = Some tok"
    using assms get s usr
    by (auto simp: remember_refresh_def remember_invalid_def account_forbidden_def Let_def
        split: if_splits sum.splits option.splits)
  then obtain u where u: "uo = Inr (Some u)" "\<not> is_user_forbidden (Some u)"
      "sign_jwt env (u_email u) (u_role u) (clock d1 + jwt_lifetime) = Some tok" by blast
  have "find (\<lambda>u. u_id u = rs_user s) (users d1) = Some u"
    using usr u(1) unfolding get_user_by_id_def by (auto elim!: query_cases)
  moreover have "users d1 = users d" "clock d1 = clock d" using d1(1) by (auto simp: untouched_def)
  ultimately show ?thesis
    using d1(2) s(2) u(2,3) by (auto simp: live_account_def is_user_forbidden_def dest!: find_SomeD)
qed

lemma logout_refuses:
  assumes "faults d = []" "has_remember env"
  shows "fst (run_state (remember_refresh env r (Some t)) ((snd (run_state (logout env r (Some t)) d))\<lparr>clock := c\<rparr>))
    = ErrorJson 401 ''remember_invalid''"
proof (cases "trim_space t = []")
  case True
  then show ?thesis using assms(2) by (simp add: remember_refresh_def remember_invalid_def)
next
  case False
  let ?h = "digest env (trim_space t)" and ?d1 = "snd (run_state (logout env r (Some t)) d)"
  let ?ss = "update_rows (\<lambda>s. rs_hash s = ?h \<and> rs_revoked_at s = None) (\<lambda>s. s\<lparr>rs_revoked_at := Some (clock d)\<rparr>)
      (remember_sessions d)"
  let ?d0 = "d\<lparr>remember_sessions := ?ss\<rparr>"
  let ?m = "audit_entry env 0 [] ''REMEMBER_SESSION_REVOKED'' (client_ip r) ''remembered session revoked at logout''"
  have "?d1 = snd (run_state ?m ?d0)"
    using assms False by (simp add: logout_def Let_def revoke_by_hash_def audit_defs split: prod.splits)
  then have d1: "remember_sessions ?d1 = ?ss" "faults ?d1 = []"
    using audit_view [of env 0 "[]" "''REMEMBER_SESSION_REVOKED''" "client_ip r"
        "''remembered session revoked at logout''" ?d0] audit_entry_ok [of ?d0] assms(1)
    by (auto simp: account_view_def)
  have "rs_revoked_at s \<noteq> None" if s: "s \<in> set ?ss" "rs_hash s = ?h" for s
  proof -
    obtain q where "s = (if rs_hash q = ?h \<and> rs_revoked_at q = None then q\<lparr>rs_revoked_at := Some (clock d)\<rparr> else q)"
      using s(1) unfolding in_set_update_rows by blast
    then show ?thesis using s(2) by (cases "rs_hash q = ?h \<and> rs_revoked_at q = None") auto
  qed
  then have "\<not> remember_session_usable (find (\<lambda>s. rs_hash s = ?h) ?ss) c"
    by (cases "find (\<lambda>s. rs_hash s = ?h) ?ss") (auto simp: remember_session_usable_def dest!: find_SomeD)
  then show ?thesis using assms(2) False d1
    by (simp add: remember_refresh_def remember_invalid_def get_remember_session_by_hash_def Let_def)
qed

section \<open>Properties\<close>


text \<open>A sample deployment: a transparent hash, a transparent digest, no captcha.\<close>

definition sample_env :: identity_env where
  "sample_env = \<lparr>bcrypt_hash = (\<lambda>_ p. Some (''h'' @ p)), bcrypt_ok = (\<lambda>h p. h = ''h'' @ p),
     sign_jwt = (\<lambda>e r _. Some (e @ r)), digest = (\<lambda>s. ''d'' @ s), turnstile_enforced = False, turnstile = None,
     has_resets = True, has_audit = True, has_remember = True, has_mailer = True, reset_base_url = [],
     admin_emails = [], frontend_url = [], oauth_exchange = (\<lambda>_. OauthUser [] []), auth_code_url = (\<lambda>s. s),
     apple_secret_ok = True\<rparr>"

definition sample_accounts :: db where
  "sample_accounts = sample_db\<lparr>random := (\<lambda>n. if n = 0 then ''k'' else ''s'')\<rparr>"

definition sample_forgot :: forgot_request where
  "sample_forgot = \<lparr>fr_email = ''a@b'', fr_turnstile_token = []\<rparr>"

lemmas sample_identity = sample_env_def sample_accounts_def sample_defs

lemma sample_trim: "trim_space ''a@b'' = ''a@b''" "trim_space ''k'' = ''k''"
  by code_simp+


text \<open>C25. Tokens are issued only to those they belong to. Signing in yields a token only for a live account of that
  address whose stored hash the password matches and whose temporary password, if any, has not ended; the
  token names that account and its current role, for 24 hours. A remembered session yields a token only
  while it is neither revoked nor over and its account is live; once the session is signed out,
  it yields none.\<close>

theorem sign_in_sound:
  shows "(run_state (login env r (Some req)) d = (Answer 200 (LoginJson tok resp must sess), d') \<longrightarrow>
      (\<exists>u. live_account d (lo_email req) u \<and> bcrypt_ok env (u_password_hash u) (lo_password req)
        \<and> \<not> temp_password_expired (Some u) (clock d)
        \<and> sign_jwt env (u_email u) (u_role u) (clock d + jwt_lifetime) = Some tok
        \<and> (must \<longleftrightarrow> u_pw_change_required_at u \<noteq> None)))
    \<and> (run_state (remember_refresh env r (Some t)) d = (Answer 200 (LoginJson tok resp must sess), d') \<longrightarrow>
      (\<exists>s u. s \<in> set (remember_sessions d) \<and> rs_hash s = digest env (trim_space t)
        \<and> remember_session_usable (Some s) (clock d) \<and> u_id u = rs_user s \<and> live_account d (u_email u) u
        \<and> sign_jwt env (u_email u) (u_role u) (clock d + jwt_lifetime) = Some tok))
    \<and> (faults d = [] \<and> has_remember env \<longrightarrow>
        fst (run_state (remember_refresh env r (Some t)) ((snd (run_state (logout env r (Some t)) d))\<lparr>clock := c\<rparr>))
          = ErrorJson 401 ''remember_invalid'')"
  by (intro conjI impI login_token refresh_token logout_refuses; simp)

theorem sign_in_sound_witness:
  "\<exists>u. live_account (sample_accounts\<lparr>users := [sample_user\<lparr>u_password_hash := ''hpw''\<rparr>]\<rparr>) ''a@b'' u
     \<and> bcrypt_ok sample_env (u_password_hash u) ''pw''"
proof -
  let ?req = "\<lparr>lo_email = ''a@b'', lo_password = ''pw'', lo_remember_me = False\<rparr>"
  let ?u = "sample_user\<lparr>u_password_hash := ''hpw''\<rparr>"
  let ?d = "sample_accounts\<lparr>users := [sample_user\<lparr>u_password_hash := ''hpw''\<rparr>]\<rparr>"
  have run: "run_state (login sample_env sample_request (Some ?req)) ?d
      = (Answer 200 (LoginJson ''a@buser'' (user_to_response (Some ?u)) False None),
         snd (run_state (login sample_env sample_request (Some ?req)) ?d))"
    by (simp add: login_def sample_identity get_user_by_email_def is_user_forbidden_def temp_password_expired_def
        provider_email_def update_last_login_def update_user_row_def password_change_required_def Let_def)
  show ?thesis using run conjunct1 [OF sign_in_sound, of sample_env sample_request ?req ?d] by fastforce
qed


section \<open>Library: the way back in\<close>

text \<open>The documented behaviour of bcrypt: a hash is not empty and matches the password it was made from.\<close>

definition bcrypt_law :: "identity_env \<Rightarrow> bool" where
  "bcrypt_law env \<longleftrightarrow> (\<forall>salt p h. bcrypt_hash env salt p = Some h \<longrightarrow> h \<noteq> [] \<and> bcrypt_ok env h p)"

lemma find_refine: "find p xs = Some x \<Longrightarrow> (\<And>y. q y \<Longrightarrow> p y) \<Longrightarrow> q x \<Longrightarrow> find q xs = Some x"
  by (induction xs) (auto split: if_splits)

lemma issue_ok:
  assumes "faults d = []" "list_ex (\<lambda>u. u_id u = i) (users d)"
    "\<not> list_ex (\<lambda>t. rt_hash t = dg (random d (draws d))) (reset_tokens d)"
  shows "\<exists>d'. run_state (issue_reset_token dg i ip) d = (Inr (random d (draws d), clock d + pwreset_ttl), d')
    \<and> faults d' = [] \<and> random d' = random d"
proof -
  have "list_ex (\<lambda>t. rt_hash t = h) (update_rows (outstanding i) (\<lambda>t. t\<lparr>rt_invalidated_at := Some n\<rparr>) ts)
      = list_ex (\<lambda>t. rt_hash t = h) ts" for h n ts
    by (induction ts) auto
  then show ?thesis using assms
    by (simp add: issue_reset_token_def invalidate_for_user_def invalidate_tokens_def create_reset_token_def Let_def
        purge_older_than_def bump_def)
qed

lemma forgot_ok:
  assumes ok: "faults d = []" "has_resets env" "has_mailer env" "check_captcha env (fr_turnstile_token req) (client_ip r) = None"
    and req: "trim_space (fr_email req) = email" "CHR ''@'' \<in> set email"
    and acc: "find (\<lambda>u. u_email u = email) (users d) = Some u" "u_forbidden_at u = None"
    and few: "length (recent_tokens d (u_id u)) < 3"
    and fresh: "\<not> list_ex (\<lambda>t. rt_hash t = digest env (random d (draws d))) (reset_tokens d)"
  obtains mail d' t where
    "run_state (forgot_password env r (Some req)) d = ((Answer 202 (MessageJson forgot_message), Some mail), d')"
    "rm_to mail = email" "rm_url mail = build_reset_url (reset_link_base_url (reset_base_url env)) (random d (draws d))"
    "faults d' = []" "users d' = users d" "rt_user t = u_id u" "reset_token_usable (Some t) (clock d)"
    "rt_expires_at t = clock d + pwreset_ttl"
    "find (\<lambda>t. rt_hash t = digest env (random d (draws d))) (reset_tokens d') = Some t"
proof -
  let ?p = "random d (draws d)" and ?ip = "client_ip r"
  have "list_ex (\<lambda>v. u_id v = u_id u) (users d)" using find_SomeD [OF acc(1)] by (auto simp: list_ex_iff)
  then obtain d1 where iss: "run_state (issue_reset_token (digest env) (u_id u) ?ip) d = (Inr (?p, clock d + pwreset_ttl), d1)"
    "faults d1 = []"
    using issue_ok [where dg = "digest env", OF ok(1) _ fresh] by blast
  let ?d2 = "snd (run_state (audit_entry env (u_id u) (u_email u) ''PASSWORD_RESET_REQUESTED'' ?ip ''reset link issued'') d1)"
  have d2: "account_view ?d2 = account_view d1" "faults ?d2 = []" using audit_view audit_entry_ok iss(2) by simp_all
  have cnt: "run_state (count_recent_for_user (u_id u) hour) d = (Inr (int (length (recent_tokens d (u_id u)))), d)"
    using ok(1) by (simp add: count_recent_for_user_def recent_tokens_def)
  have "email \<noteq> []" using req(2) by auto
  then have run: "run_state (forgot_password env r (Some req)) d = ((Answer 202 (MessageJson forgot_message),
      Some (reset_mail_for env u ?p (clock d + pwreset_ttl) (clock ?d2))), ?d2)"
    using ok req acc few iss(1) cnt
    by (simp add: forgot_password_def Let_def issue_reset_if_eligible_def run_get_user_ok
        is_user_forbidden_def max_tokens_per_account_per_hour_def audit_defs dispatch_mail_def split: prod.splits)
  show thesis using iss(1)
  proof (rule issue_cases)
    fix t assume "rt_user t = u_id u" "reset_token_usable (Some t) (clock d)" "rt_expires_at t = clock d + pwreset_ttl"
      "find (\<lambda>t. rt_hash t = digest env ?p) (reset_tokens d1) = Some t" "users d1 = users d"
    then show thesis
      using that [OF run] d2 find_SomeD [OF acc(1)] by (simp add: account_view_def reset_mail_for_def)
  qed
qed


lemma reset_ok:
  assumes ok: "faults d = []" "has_resets env" "trim_space token = token" "token \<noteq> []"
    and tok: "find (\<lambda>t. rt_hash t = digest env token) (reset_tokens d) = Some t" "reset_token_usable (Some t) (clock d)"
    and acc: "find (\<lambda>u. u_id u = rt_user t) (users d) = Some u" "u_forbidden_at u = None"
    and pw: "min_password_length \<le> rune_count password" "\<not> bcrypt_ok env (u_password_hash u) password"
      "bcrypt_hash env (random d (draws d)) password = Some h"
  obtains d' where "run_state (reset_password env r (Some (token, password))) d = (Answer 200 (MessageJson password_updated), d')"
    "faults d' = []" "clock d' = clock d"
    "users d' = update_rows (\<lambda>v. u_id v = u_id u) (\<lambda>v. v\<lparr>u_password_hash := h\<rparr>) (users d)"
proof -
  let ?th = "digest env token" and ?ip = "client_ip r" and ?i = "rt_user t" and ?d0 = "d\<lparr>draws := Suc (draws d)\<rparr>"
  have cons: "find (consumable ?th (clock d)) (reset_tokens d) = Some t"
    using tok by (rule_tac find_refine [of "\<lambda>t. rt_hash t = ?th"]) (auto simp: consumable_def reset_token_usable_iff dest: find_SomeD)
  have id: "u_id u = ?i" using find_SomeD [OF acc(1)] by simp
  let ?d1 = "revoke_all_remember ?i (invalidate_tokens ?i (update_user_row ?i (\<lambda>u. u\<lparr>u_password_hash := h\<rparr>)
      (snd (consume_token ?th ?ip ?d0))))"
  have run1: "run_state (consume_and_set_password ?th h ?ip) ?d0 = (Inr ?i, ?d1)"
    unfolding consume_and_set_password_def
    by (rule run_tx_ok) (use ok(1) cons in \<open>simp_all add: consume_token_def update_user_row_def invalidate_tokens_def
      revoke_all_remember_def\<close>)
  have d1: "users ?d1 = update_rows (\<lambda>v. u_id v = ?i) (\<lambda>v. v\<lparr>u_password_hash := h\<rparr>) (users d)" "faults ?d1 = []"
    "clock ?d1 = clock d"
    using cons ok(1) by (simp_all add: revoke_all_remember_def invalidate_tokens_def update_user_row_def consume_token_def)
  let ?d2 = "snd (run_state (audit_entry env ?i (u_email u) ''PASSWORD_RESET_COMPLETED'' ?ip ''password updated'') ?d1)"
  have d2: "account_view ?d2 = account_view ?d1" "faults ?d2 = []" using audit_view audit_entry_ok d1(2) by simp_all
  have "run_state (reset_password env r (Some (token, password))) d = (Answer 200 (MessageJson password_updated), ?d2)"
    using ok tok acc pw run1
    by (simp add: reset_password_def Let_def get_reset_token_by_hash_def get_user_by_id_def is_user_forbidden_def
        generate_from_password_def audit_defs split: prod.splits)
  then show thesis using that d2 d1 id by (simp add: account_view_def)
qed

lemma login_ok:
  assumes ok: "faults d = []" "find (\<lambda>u. u_email u = email) (users d) = Some u" "u_forbidden_at u = None"
    and pw: "u_password_hash u \<noteq> []" "bcrypt_ok env (u_password_hash u) password"
    and jwt: "sign_jwt env email (u_role u) (clock d + jwt_lifetime) = Some tok"
  shows "fst (run_state (login env r (Some \<lparr>lo_email = email, lo_password = password, lo_remember_me = False\<rparr>)) d)
    = (if temp_password_expired (Some u) (clock d) then ErrorJson 401 ''temporary_password_expired''
       else Answer 200 (LoginJson tok (user_to_response (Some u)) (password_change_required (Some u)) None))"
  using assms find_SomeD [OF ok(2)]
  by (simp add: login_def run_get_user_ok is_user_forbidden_def update_last_login_def Let_def)


text \<open>C26. The way back in works end to end: for a live account with quota left, the form, once its captcha is
  passed or where none is asked, sends a mail
  whose link, followed within 60 minutes with an acceptable new password, sets that password, and the
  account then signs in with it, unless it still carries the end of an expired temporary password, which a reset
  does not clear: then signing in is refused.\<close>

theorem password_reset_round_trip:
  assumes ok: "faults d = []" "has_resets env" "has_mailer env"
      "check_captcha env (fr_turnstile_token req) (client_ip r) = None" "bcrypt_law env"
    and req: "trim_space (fr_email req) = email" "CHR ''@'' \<in> set email"
    and acc: "find (\<lambda>u. u_email u = email) (users d) = Some u" "find (\<lambda>v. u_id v = u_id u) (users d) = Some u"
      "u_forbidden_at u = None"
    and few: "length (recent_tokens d (u_id u)) < 3"
    and tok: "token = random d (draws d)" "trim_space token = token" "token \<noteq> []"
      "\<not> list_ex (\<lambda>t. rt_hash t = digest env token) (reset_tokens d)"
    and time: "c < clock d + pwreset_ttl"
    and pw: "min_password_length \<le> rune_count password" "\<not> bcrypt_ok env (u_password_hash u) password"
      "\<forall>salt. bcrypt_hash env salt password \<noteq> None"
    and jwt: "sign_jwt env email (u_role u) (c + jwt_lifetime) = Some jwt"
  shows "\<exists>mail d1 d2.
    run_state (forgot_password env r (Some req)) d = ((Answer 202 (MessageJson forgot_message), Some mail), d1)
    \<and> rm_to mail = email \<and> rm_url mail = build_reset_url (reset_link_base_url (reset_base_url env)) token
    \<and> run_state (reset_password env r (Some (token, password))) (d1\<lparr>clock := c\<rparr>)
        = (Answer 200 (MessageJson password_updated), d2)
    \<and> fst (run_state (login env r (Some \<lparr>lo_email = email, lo_password = password, lo_remember_me = False\<rparr>)) d2)
        = (if temp_password_expired (Some u) c then ErrorJson 401 ''temporary_password_expired''
           else Answer 200 (LoginJson jwt (user_to_response (Some u)) (password_change_required (Some u)) None))"
proof -
  obtain mail d1 t where f: "run_state (forgot_password env r (Some req)) d = ((Answer 202 (MessageJson forgot_message), Some mail), d1)"
    "rm_to mail = email" "rm_url mail = build_reset_url (reset_link_base_url (reset_base_url env)) token"
    and d1: "faults d1 = []" "users d1 = users d"
    and t: "rt_user t = u_id u" "reset_token_usable (Some t) (clock d)" "rt_expires_at t = clock d + pwreset_ttl"
      "find (\<lambda>t. rt_hash t = digest env token) (reset_tokens d1) = Some t"
    using forgot_ok [OF ok(1-4) req acc(1,3) few tok(4) [unfolded tok(1)]] tok(1) by metis
  let ?d1 = "d1\<lparr>clock := c\<rparr>"
  obtain h where h: "bcrypt_hash env (random ?d1 (draws ?d1)) password = Some h" using pw(3) by blast
  have hyp: "faults ?d1 = []" "find (\<lambda>t. rt_hash t = digest env token) (reset_tokens ?d1) = Some t"
    "reset_token_usable (Some t) (clock ?d1)" "find (\<lambda>v. u_id v = rt_user t) (users ?d1) = Some u"
    using d1 t acc(2) time by (simp_all add: reset_token_usable_iff)
  obtain d2 where r: "run_state (reset_password env r (Some (token, password))) ?d1 = (Answer 200 (MessageJson password_updated), d2)"
    and d2: "faults d2 = []" "clock d2 = clock ?d1"
      "users d2 = update_rows (\<lambda>v. u_id v = u_id u) (\<lambda>v. v\<lparr>u_password_hash := h\<rparr>) (users ?d1)"
    using reset_ok [OF hyp(1) ok(2) tok(2,3) hyp(2-4) acc(3) pw(1,2) h] by metis
  let ?u = "u\<lparr>u_password_hash := h\<rparr>"
  have "find (\<lambda>v. u_email v = email) (users d2) = Some ?u"
    unfolding d2(3) by (subst find_update_rows) (use acc(1) d1(2) in simp_all)
  moreover have "u_password_hash ?u \<noteq> []" "bcrypt_ok env (u_password_hash ?u) password"
    using h ok(5) unfolding bcrypt_law_def by auto
  ultimately have login: "fst (run_state (login env r (Some \<lparr>lo_email = email, lo_password = password, lo_remember_me = False\<rparr>)) d2)
      = (if temp_password_expired (Some ?u) (clock d2) then ErrorJson 401 ''temporary_password_expired''
         else Answer 200 (LoginJson jwt (user_to_response (Some ?u)) (password_change_required (Some ?u)) None))"
    using d2(1,2) acc(3) jwt by (intro login_ok) simp_all
  have same: "temp_password_expired (Some ?u) (clock d2) = temp_password_expired (Some u) c"
    "user_to_response (Some ?u) = user_to_response (Some u)" "password_change_required (Some ?u) = password_change_required (Some u)"
    using d2(2) by (simp_all add: temp_password_expired_def user_to_response_def password_change_required_def)
  show ?thesis using f r login unfolding same by blast
qed

text \<open>The sample deployment with its captcha on.\<close>

definition sample_captcha_env :: identity_env where
  "sample_captcha_env = sample_env\<lparr>turnstile_enforced := True, turnstile := Some (\<lambda>tok _. tok = ''ok'')\<rparr>"

definition sample_captcha_forgot :: forgot_request where
  "sample_captcha_forgot = sample_forgot\<lparr>fr_turnstile_token := ''ok''\<rparr>"

lemma sample_trim_ok: "trim_space ''ok'' = ''ok''"
  by code_simp

lemmas sample_captcha = sample_captcha_env_def sample_captcha_forgot_def sample_forgot_def sample_trim_ok

theorem password_reset_round_trip_witness:
  "\<exists>mail d1 d2.
    run_state (forgot_password sample_captcha_env sample_request (Some sample_captcha_forgot)) sample_accounts
      = ((Answer 202 (MessageJson forgot_message), Some mail), d1)
    \<and> rm_url mail = build_reset_url (reset_link_base_url []) ''k''
    \<and> run_state (reset_password sample_captcha_env sample_request (Some (''k'', ''longenough''))) (d1\<lparr>clock := 5\<rparr>)
      = (Answer 200 (MessageJson password_updated), d2)
    \<and> fst (run_state (login sample_captcha_env sample_request
        (Some \<lparr>lo_email = ''a@b'', lo_password = ''longenough'', lo_remember_me = False\<rparr>)) d2)
      = Answer 200 (LoginJson ''a@buser'' (user_to_response (Some sample_user)) False None)"
proof -
  have env: "has_resets sample_captcha_env" "has_mailer sample_captcha_env" "check_captcha sample_captcha_env (fr_turnstile_token sample_captcha_forgot) (client_ip sample_request) = None" "bcrypt_law sample_captcha_env"
    "\<forall>salt. bcrypt_hash sample_captcha_env salt ''longenough'' \<noteq> None" "reset_base_url sample_captcha_env = []"
    "sign_jwt sample_captcha_env ''a@b'' (u_role sample_user) (5 + jwt_lifetime) = Some ''a@buser''"
    "\<not> bcrypt_ok sample_captcha_env (u_password_hash sample_user) ''longenough''"
    by (simp_all add: bcrypt_law_def sample_captcha sample_env_def sample_user_def check_captcha_def)
  have db: "faults sample_accounts = []" "find (\<lambda>u. u_email u = ''a@b'') (users sample_accounts) = Some sample_user"
    "find (\<lambda>v. u_id v = u_id sample_user) (users sample_accounts) = Some sample_user" "u_forbidden_at sample_user = None"
    "length (recent_tokens sample_accounts (u_id sample_user)) < 3" "''k'' = random sample_accounts (draws sample_accounts)"
    "\<not> list_ex (\<lambda>t. rt_hash t = digest sample_captcha_env ''k'') (reset_tokens sample_accounts)"
    "5 < clock sample_accounts + pwreset_ttl"
    by (simp_all add: recent_tokens_def sample_identity sample_captcha_env_def pwreset_ttl_def duration_defs)
  have req: "trim_space (fr_email sample_captcha_forgot) = ''a@b''" "CHR ''@'' \<in> set ''a@b''" "''k'' \<noteq> []"
    by (simp_all add: sample_captcha_forgot_def sample_forgot_def sample_trim)
  have "min_password_length \<le> rune_count ''longenough''" by code_simp
  from password_reset_round_trip [OF db(1) env(1-4) req(1,2) db(2-6) sample_trim(2) req(3) db(7,8) this env(8,5,7)]
  have "\<exists>mail d1 d2.
      run_state (forgot_password sample_captcha_env sample_request (Some sample_captcha_forgot)) sample_accounts
        = ((Answer 202 (MessageJson forgot_message), Some mail), d1)
      \<and> rm_to mail = ''a@b'' \<and> rm_url mail = build_reset_url (reset_link_base_url []) ''k''
      \<and> run_state (reset_password sample_captcha_env sample_request (Some (''k'', ''longenough''))) (d1\<lparr>clock := 5\<rparr>)
        = (Answer 200 (MessageJson password_updated), d2)
      \<and> fst (run_state (login sample_captcha_env sample_request
          (Some \<lparr>lo_email = ''a@b'', lo_password = ''longenough'', lo_remember_me = False\<rparr>)) d2)
        = Answer 200 (LoginJson ''a@buser'' (user_to_response (Some sample_user)) False None)"
    by (simp only: env(6)) (simp add: sample_user_def temp_password_expired_def password_change_required_def)
  then show ?thesis by blast
qed


section \<open>Library: the change of a password\<close>

lemma write_credential_ok:
  "faults d = [] \<Longrightarrow> run_state (write_credential i f) d = (Inr (), revoke_all_remember i (update_user_row i (f (clock d)) d))"
  unfolding write_credential_def by (rule run_tx_ok) (simp_all add: revoke_all_remember_def update_user_row_def)

text \<open>\<open>ChangePassword\<close> writes the new hash and nothing else, or leaves the tables alone.\<close>

lemma change_password_cases:
  assumes "faults d = []" "find (\<lambda>u. u_email u = email) (users d) = Some u"
    and run: "run_state (change_password env r email body) d = (a, d')"
  obtains (kept) "status a \<noteq> 200" "users d' = users d" "remember_sessions d' = remember_sessions d"
        | (changed) current new h where "a = Answer 200 (MessageJson password_updated)" "body = Some (current, new)"
            "bcrypt_ok env (u_password_hash u) current" "min_password_length \<le> rune_count new" "new \<noteq> current"
            "bcrypt_hash env (random d (draws d)) new = Some h" "faults d' = []"
            "users d' = users (update_user_row (u_id u) (\<lambda>u. u\<lparr>u_password_hash := h, u_pw_change_required_at := None,
               u_temp_expires_at := None, u_temp_issued_by := None\<rparr>) d)"
            "no_session d' (u_id u)"
proof (cases "\<exists>current new h. body = Some (current, new) \<and> bcrypt_ok env (u_password_hash u) current
    \<and> min_password_length \<le> rune_count new \<and> new \<noteq> current \<and> bcrypt_hash env (random d (draws d)) new = Some h")
  case False
  then have "status a \<noteq> 200 \<and> users d' = users d \<and> remember_sessions d' = remember_sessions d"
    using assms
    by (auto simp: change_password_def with_account_def run_get_user_ok generate_from_password_def
        split: option.splits if_splits)
  then show thesis using kept by blast
next
  case True
  then obtain current new h where b: "body = Some (current, new)" "bcrypt_ok env (u_password_hash u) current"
      "min_password_length \<le> rune_count new" "new \<noteq> current" "bcrypt_hash env (random d (draws d)) new = Some h" by blast
  let ?f = "\<lambda>u. u\<lparr>u_password_hash := h, u_pw_change_required_at := None, u_temp_expires_at := None, u_temp_issued_by := None\<rparr>"
  let ?d1 = "revoke_all_remember (u_id u) (update_user_row (u_id u) ?f (d\<lparr>draws := Suc (draws d)\<rparr>))"
  let ?d2 = "snd (run_state (audit_entry env (u_id u) (u_email u) ''PASSWORD_CHANGED_AFTER_TEMPORARY'' (client_ip r)
      ''Password changed, lock cleared'') ?d1)"
  have "a = Answer 200 (MessageJson password_updated)" "d' = ?d2"
    using assms b
    by (auto simp: change_password_def with_account_def run_get_user_ok generate_from_password_def audit_defs
        clear_password_change_required_def write_credential_ok split: prod.splits)
  moreover have f1: "faults ?d1 = []" using assms(1) by (simp add: revoke_all_remember_def update_user_row_def)
  have v: "account_view ?d2 = account_view ?d1" "faults ?d2 = []" using audit_view audit_entry_ok [OF f1] by simp_all
  have "users ?d2 = users (update_user_row (u_id u) ?f d)"
    using v(1) by (simp add: account_view_def revoke_all_remember_def update_user_row_def)
  moreover have "no_session ?d2 (u_id u)"
    using v(1) no_session_revoke_all [of "u_id u"] by (simp add: account_view_def no_session_def)
  ultimately show thesis using changed [OF _ b] v(2) by simp
qed

text \<open>Changing the password gives the account back: when \<open>ChangePassword\<close> answers 200, the current
  password was presented and the new one differs from it and has at least eight characters; the account then has the
  new hash, its lock and its temporary password are cleared, none of its remembered sessions is
  usable, and its user routes are served again. Any other answer leaves account and sessions as they were.\<close>

theorem change_password_unlocks:
  fixes g :: "'b handler"
  assumes d: "faults d = []" "find (\<lambda>u. u_email u = email) (users d) = Some u" "u_forbidden_at u = None" "email \<noteq> []"
    and run: "run_state (change_password env r email body) d = (a, d')"
    and token: "bearer q \<noteq> []" "parse True (bearer q) = Some claims" "cl_sub claims = Some email"
  shows "(status a = 200 \<longrightarrow> (\<exists>current new u'. body = Some (current, new) \<and> bcrypt_ok env (u_password_hash u) current
        \<and> 8 \<le> rune_count new \<and> new \<noteq> current \<and> find (\<lambda>u. u_email u = email) (users d') = Some u'
        \<and> bcrypt_hash env (random d (draws d)) new = Some (u_password_hash u')
        \<and> u_pw_change_required_at u' = None \<and> u_temp_expires_at u' = None
        \<and> (\<forall>s t. s \<in> set (remember_sessions d') \<and> rs_user s = u_id u \<longrightarrow> \<not> remember_session_usable (Some s) t)
        \<and> run_state (user_jwt_with_store parse (Some get_user_by_email) g q c) d'
            = run_state (g q (with_user_context c email (u_role u))) d'))
    \<and> (status a \<noteq> 200 \<longrightarrow> users d' = users d \<and> remember_sessions d' = remember_sessions d)"
  using d(1,2) run
proof (cases rule: change_password_cases)
  case (changed current new h)
  let ?f = "\<lambda>u. u\<lparr>u_password_hash := h, u_pw_change_required_at := None, u_temp_expires_at := None, u_temp_issued_by := None\<rparr>"
  have u': "find (\<lambda>u. u_email u = email) (users d') = Some (?f u)"
    unfolding changed(8) update_user_row_def
    using d(2) find_update_rows [of "\<lambda>v. u_id v = u_id u" "\<lambda>u. u_email u = email" ?f "users d"] by simp
  have "run_state (user_jwt_with_store parse (Some get_user_by_email) g q c) d'
      = run_state (g q (with_user_context c email (u_role u))) d'"
    using token d(3,4) u' changed(7)
    by (simp add: guard_defs Let_def run_get_user_ok is_user_forbidden_def password_change_required_def)
  then show ?thesis using changed u'
    by (auto simp: no_session_def min_password_length_def)
qed simp

theorem change_password_unlocks_witness:
  "\<exists>d'. run_state (change_password sample_env sample_request ''a@b'' (Some (''pw'', ''longenough'')))
        (sample_accounts\<lparr>users := [sample_user\<lparr>u_password_hash := ''hpw'', u_pw_change_required_at := Some 3\<rparr>]\<rparr>)
      = (Answer 200 (MessageJson password_updated), d')
    \<and> run_state (user_jwt_with_store sample_claims (Some get_user_by_email)
        (\<lambda>_ c. State_Monad.return (Answer 200 (ctx_role c))) sample_request background) d' = (Answer 200 (Some ''user''), d')"
proof -
  let ?u = "sample_user\<lparr>u_password_hash := ''hpw'', u_pw_change_required_at := Some 3\<rparr>"
  let ?d = "sample_accounts\<lparr>users := [?u]\<rparr>"
  let ?cl = "\<lparr>cl_sub = Some ''a@b'', cl_role = Some role_admin_global\<rparr>"
  have len: "\<not> rune_count ''longenough'' < min_password_length" by code_simp
  have d: "faults ?d = []" "find (\<lambda>u. u_email u = ''a@b'') (users ?d) = Some ?u" "u_forbidden_at ?u = None" "''a@b'' \<noteq> []"
    by (simp_all add: sample_identity)
  have "fst (run_state (change_password sample_env sample_request ''a@b'' (Some (''pw'', ''longenough''))) ?d)
      = Answer 200 (MessageJson password_updated)"
    using d len by (simp add: change_password_def with_account_def run_get_user_ok sample_env_def generate_from_password_def
        clear_password_change_required_def write_credential_ok case_prod_beta)
  then obtain d' where run: "run_state (change_password sample_env sample_request ''a@b'' (Some (''pw'', ''longenough''))) ?d
      = (Answer 200 (MessageJson password_updated), d')"
    by (metis prod.collapse)
  have tok: "bearer sample_request \<noteq> []" "sample_claims True (bearer sample_request) = Some ?cl" "cl_sub ?cl = Some ''a@b''"
    by (simp_all add: sample_claims_def)
  show ?thesis
    using run change_password_unlocks [where parse = sample_claims, OF d run tok, of "\<lambda>_ c. State_Monad.return (Answer 200 (ctx_role c))" background]
    by (auto simp: with_user_context_def sample_user_def)
qed

section \<open>Addresses of administrators\<close>

text \<open>
  \<open>strings.Split\<close> of the empty list gives one empty item: with \<open>ADMIN_EMAILS\<close> unset, or with a
  trailing comma, the empty address counts as an administrator's. Google's or Apple's data without an address then
  create an administrator with an empty address, whose token passes \<open>AdminAuthWithStore\<close> without a
  look at any account.
\<close>

lemma empty_address_is_admin: "is_admin_email [] []" "is_admin_email [] ''a@b,''"
  by code_simp+

lemma empty_address_becomes_admin:
  assumes "faults d = []" "find (\<lambda>u. u_email u = []) (users d) = None" "admin_emails env = []"
    "oc_cookie req = Some (oc_state req)" "oc_code req \<noteq> []" "apple_secret_ok env"
    "oauth_exchange env (oc_code req) = OauthUser [] i"
    "sign_jwt env [] role_admin_global (clock d + jwt_lifetime) = Some tok"
  shows "\<exists>d' u. run_state (apple_callback env req) d = (Answer 303 (Redirect ((if frontend_url env = [] then ''/'' else frontend_url env)
        @ ''admin#token='' @ tok @ ''&role='' @ role_admin_global)), d')
    \<and> u \<in> set (users d') \<and> u_email u = [] \<and> u_role u = role_admin_global"
proof -
  have "\<not> list_ex (\<lambda>v. u_email v = []) (users d)" using assms(2) by (auto simp: find_None_iff list_ex_iff)
  then show ?thesis using assms empty_address_is_admin(1)
    by (simp add: apple_callback_def oauth_finish_def run_get_user_ok Let_def create_user_def new_account_def bump_def)
      (rule exI, rule conjI, rule disjI1, rule refl, simp)
qed

lemma empty_subject_passes:
  assumes "bearer r \<noteq> []" "bearer r \<noteq> expected" "parse True (bearer r) = Some claims"
    "cl_sub claims = Some []" "cl_role claims = Some role_admin_global"
  shows "run_state (admin_auth_with_store expected parse (Some get_user_by_email) h r c) d
    = run_state (h r (with_user_context c [] role_admin_global)) d"
  using assms
  by (simp add: guard_defs Let_def str_claim_def admin_role_def with_user_context_def)


end
