(* ===== verification/AdminMail.thy ===== *)
theory AdminMail
  imports Mail Identity SyncStore
begin

text \<open>
  The part of the administration that sends mail (internal/admin: transactional.go, email_handlers.go,
  newsletter.go, with \<open>logAudit\<close>, \<open>clientIP\<close> and \<open>requireAdminGlobal\<close>). The stores that a deployment may
  leave out are flags; using one that is missing dereferences a nil pointer.
\<close>

record admin_env =
  ident :: identity_env
  smtp :: smtp_env
  admin_token :: string
  has_inventory :: bool
  has_iot :: bool
  has_news :: bool
  has_templates :: bool
  has_portal :: bool

datatype (plugins only: code) admin_json =
    OkBody
  | StatsJson admin_stats
  | MachinesJson "machine_detail list"
  | GatewaysJson "gateway_status list"
  | UsersJson "user list"
  | AuditJson "audit_log list"
  | UserCreatedJson bool "string option"
  | TempPasswordJson string instant bool "string option"
  | ResetSentJson bool "string option" instant
  | EmailHealthJson bool string
  | TemplatesJson "email_template list"
  | TemplateJson "email_template option"
  | PreviewJson string string
  | TestSentJson string
  | ResentJson bool string
  | ProfilesJson "sync_profile list"
  | ProfileJson sync_profile
  | DeletedJson
  | RunStartedJson sync_run
  | RunsJson "sync_run list"
  | RunJson sync_run
  | SubscribedJson
  | SubscribersJson "subscriber list"
  | NewslettersJson "newsletter list"
  | NewsletterJson newsletter

type_synonym admin_answer = "admin_json answer"

abbreviation reply :: "nat \<Rightarrow> admin_json \<Rightarrow> admin_answer io" where
  "reply c b \<equiv> State_Monad.return (Answer c b)"

abbreviation refuse_with :: "nat \<Rightarrow> string \<Rightarrow> admin_answer io" where
  "refuse_with c m \<equiv> State_Monad.return (HttpError c m)"

definition internal_error :: "admin_answer io" where
  "internal_error = refuse_with 500 ''Internal Server Error''"

section \<open>Shared steps\<close>

definition admin_client_ip :: "http_request \<Rightarrow> string" where
  "admin_client_ip r = (if header r ''X-Forwarded-For'' \<noteq> [] then header r ''X-Forwarded-For'' else remote_addr r)"

definition log_audit :: "admin_env \<Rightarrow> int \<Rightarrow> string \<Rightarrow> string \<Rightarrow> string \<Rightarrow> string \<Rightarrow> string \<Rightarrow> string \<Rightarrow> unit io" where
  "log_audit env user_id username action resource_type resource_id ip details =
     (if \<not> has_audit (ident env) then State_Monad.return ()
      else do {
        nw \<leftarrow> now;
        ignore (create_audit_log \<lparr>al_id = 0, al_user_id = user_id, al_username = username, al_action = action,
          al_resource_type = resource_type, al_resource_id = resource_id, al_ip = ip, al_details = details,
          al_created_at = nw\<rparr>) })"

text \<open>The account behind the request; any failure to find it answers 401.\<close>

definition with_caller :: "string \<Rightarrow> (user \<Rightarrow> admin_answer io) \<Rightarrow> admin_answer io" where
  "with_caller email body = do {
     r \<leftarrow> get_user_by_email email;
     case r of Inr (Some u) \<Rightarrow> body u | _ \<Rightarrow> refuse_with 401 ''Unauthorized'' }"

definition require_admin_global :: "string \<Rightarrow> (user \<Rightarrow> admin_answer io) \<Rightarrow> admin_answer io" where
  "require_admin_global email body = with_caller email (\<lambda>u.
     if u_role u \<noteq> role_admin_global then refuse_with 403 ''Forbidden'' else body u)"

section \<open>Transactional mail\<close>

definition password_fallback :: string where
  "password_fallback = ''contactez votre administrateur''"

definition set_var :: "string \<Rightarrow> string \<Rightarrow> template_vars \<Rightarrow> template_vars" where
  "set_var k v vars = (k, v) # filter (\<lambda>p. fst p \<noteq> k) vars"

definition contains_text :: "string \<Rightarrow> string \<Rightarrow> bool" where
  "contains_text part s \<longleftrightarrow> list_ex (prefix part) (suffixes s)"

definition gateway_vars :: "string \<Rightarrow> gateway_status list \<Rightarrow> template_vars \<Rightarrow> template_vars" where
  "gateway_vars g gateways vars = (case find (\<lambda>s. gw_hostname s = g) gateways of
       Some s \<Rightarrow> set_var ''gateway_ip'' (gw_ip s) (set_var ''gateway_name'' (gw_hostname s) vars)
     | None \<Rightarrow> set_var ''gateway_name'' g vars)"

definition armoire_vars :: "int \<Rightarrow> machine_detail list \<Rightarrow> template_vars \<Rightarrow> template_vars" where
  "armoire_vars i machines' vars = (case find (\<lambda>m. md_id m = i) machines' of
       Some m \<Rightarrow> set_var ''armoire_ip'' (md_ip m) (set_var ''armoire_label'' (md_no_serie m) vars)
     | None \<Rightarrow> vars)"

definition enrich_device_vars :: "admin_env \<Rightarrow> user \<Rightarrow> template_vars \<Rightarrow> template_vars io" where
  "enrich_device_vars env u vars =
     (if \<not> has_inventory env then State_Monad.return vars
      else do {
        vars1 \<leftarrow> (case u_gateway u of
            Some g \<Rightarrow> if g = [] then State_Monad.return vars
              else do {
                r \<leftarrow> get_gateways;
                State_Monad.return (case r of Inl _ \<Rightarrow> vars | Inr gs \<Rightarrow> gateway_vars g gs vars) }
          | None \<Rightarrow> State_Monad.return vars);
        (case u_armoire u of
            None \<Rightarrow> State_Monad.return vars1
          | Some i \<Rightarrow> do {
              r \<leftarrow> get_machines;
              State_Monad.return (case r of Inl _ \<Rightarrow> vars1 | Inr ms \<Rightarrow> armoire_vars i ms vars1) }) })"

definition build_template_vars :: "admin_env \<Rightarrow> user \<Rightarrow> string \<Rightarrow> template_vars io" where
  "build_template_vars env u temp_password = enrich_device_vars env u
     (base_user_vars (smtp env) u @ [(''temporary_password'', temp_password), (''gateway_name'', []),
       (''gateway_ip'', []), (''armoire_label'', []), (''armoire_ip'', [])])"

definition send_template_email_with_vars ::
  "admin_env \<Rightarrow> string \<Rightarrow> user \<Rightarrow> string \<Rightarrow> template_vars \<Rightarrow> int \<Rightarrow> string \<Rightarrow> string \<Rightarrow> bool \<Rightarrow> send_result io" where
  "send_template_email_with_vars env slug u temp_password extra admin_id admin_email ip require_enabled =
     (if \<not> has_templates env then State_Monad.return (send_failed (Errorf ''email service unavailable''))
      else do {
        res \<leftarrow> get_template slug;
        case res of
          Inl e \<Rightarrow> State_Monad.return (send_failed e)
        | Inr tpl \<Rightarrow> do {
            let pwd0 = trim_space temp_password;
            let pwd = (if pwd0 = [] \<and> contains_text (placeholder ''temporary_password'') (et_body_html tpl @ et_subject tpl)
                       then password_fallback else pwd0);
            vars0 \<leftarrow> build_template_vars env u pwd;
            let vars = fold (\<lambda>(k, v). set_var k v) extra vars0;
            out \<leftarrow> send_mail (smtp env) slug (u_email u) vars (if admin_id = 0 then None else Some admin_id) require_enabled;
            let details = ''to='' @ u_email u @ '' template='' @ slug;
            case send_err out of
              Some e \<Rightarrow> do {
                log_audit env admin_id admin_email ''EMAIL_SEND_FAILED'' ''EMAIL'' slug ip details;
                State_Monad.return (send_failed e) }
            | None \<Rightarrow> do {
                log_audit env admin_id admin_email ''EMAIL_SENT'' ''EMAIL'' slug ip details;
                State_Monad.return \<lparr>sent = sent out, send_err = None\<rparr> } } })"

definition send_template_email ::
  "admin_env \<Rightarrow> string \<Rightarrow> user \<Rightarrow> string \<Rightarrow> int \<Rightarrow> string \<Rightarrow> string \<Rightarrow> bool \<Rightarrow> send_result io" where
  "send_template_email env slug u temp_password admin_id admin_email ip require_enabled =
     send_template_email_with_vars env slug u temp_password [] admin_id admin_email ip require_enabled"

definition try_auto_send :: "admin_env \<Rightarrow> string \<Rightarrow> user \<Rightarrow> string \<Rightarrow> int \<Rightarrow> string \<Rightarrow> string \<Rightarrow> send_result io" where
  "try_auto_send env slug u temp_password admin_id admin_email ip =
     (let nothing = \<lparr>sent = False, send_err = None\<rparr> in
      if \<not> has_templates env then State_Monad.return nothing
      else do {
        res \<leftarrow> get_template slug;
        case res of
          Inl _ \<Rightarrow> State_Monad.return nothing
        | Inr tpl \<Rightarrow>
            if \<not> et_enabled tpl \<or> \<not> et_auto_send tpl then State_Monad.return nothing
            else send_template_email env slug u temp_password admin_id admin_email ip True })"

section \<open>Templates\<close>

definition email_health :: "admin_env \<Rightarrow> admin_answer io" where
  "email_health env = reply 200 (EmailHealthJson (configured (smtp env)) (smtp_from (smtp env)))"

definition list_email_templates :: "admin_env \<Rightarrow> string \<Rightarrow> admin_answer io" where
  "list_email_templates env email = require_admin_global email (\<lambda>_.
     if \<not> has_templates env then reply 200 (TemplatesJson [])
     else do {
       r \<leftarrow> list_templates;
       case r of Inl _ \<Rightarrow> internal_error | Inr ts \<Rightarrow> reply 200 (TemplatesJson ts) })"

definition get_email_template :: "admin_env \<Rightarrow> string \<Rightarrow> string \<Rightarrow> admin_answer io" where
  "get_email_template env email slug = require_admin_global email (\<lambda>_.
     if \<not> has_templates env then State_Monad.return recovered
     else do {
       r \<leftarrow> get_template slug;
       case r of Inl _ \<Rightarrow> refuse_with 404 ''Not Found'' | Inr t \<Rightarrow> reply 200 (TemplateJson (Some t)) })"

definition put_email_template :: "admin_env \<Rightarrow> string \<Rightarrow> string \<Rightarrow> email_template option \<Rightarrow> admin_answer io" where
  "put_email_template env email slug body = require_admin_global email (\<lambda>_. case body of
       None \<Rightarrow> refuse_with 400 ''Bad Request''
     | Some req \<Rightarrow>
         if \<not> has_templates env then State_Monad.return recovered
         else do {
           r \<leftarrow> upsert_template (req\<lparr>et_slug := slug, et_name := if et_name req = [] then slug else et_name req\<rparr>);
           case r of
             Inl _ \<Rightarrow> refuse_with 500 ''Failed to save template''
           | Inr _ \<Rightarrow> do {
               t \<leftarrow> get_template slug;
               reply 200 (TemplateJson (case t of Inl _ \<Rightarrow> None | Inr t \<Rightarrow> Some t)) } })"

definition preview_email_template :: "admin_env \<Rightarrow> string \<Rightarrow> string \<Rightarrow> template_vars \<Rightarrow> admin_answer io" where
  "preview_email_template env email slug body_vars = require_admin_global email (\<lambda>_.
     if \<not> has_templates env then State_Monad.return recovered
     else do {
       r \<leftarrow> get_template slug;
       case r of
         Inl _ \<Rightarrow> refuse_with 404 ''Not Found''
       | Inr t \<Rightarrow>
           (let vars = (if body_vars \<noteq> [] then body_vars else sample_template_vars);
                html = render (et_body_html t) vars in
            reply 200 (PreviewJson (render (et_subject t) vars)
              (if html = [] then render (et_body_text t) vars else html))) })"

definition test_email_template :: "admin_env \<Rightarrow> string \<Rightarrow> string option \<Rightarrow> admin_answer io" where
  "test_email_template env email slug = require_admin_global email (\<lambda>admin.
     if (case slug of None \<Rightarrow> True | Some s \<Rightarrow> s = []) then refuse_with 400 ''template_slug required''
     else if \<not> has_templates env then State_Monad.return recovered
     else do {
       r \<leftarrow> get_template (the slug);
       case r of
         Inl _ \<Rightarrow> refuse_with 404 ''Not Found''
       | Inr t \<Rightarrow>
           if \<not> configured (smtp env) then refuse_with 503 ''SMTP configuration missing''
           else (let vars = set_var ''email'' (u_email admin) sample_template_vars;
                     html = render (et_body_html t) vars in
             case notify_send (smtp env) (u_email admin) (''[TEST] '' @ render (et_subject t) vars)
                    (if html = [] then render (et_body_text t) vars else html) of
               Some e \<Rightarrow> refuse_with 500 (goerr_text e)
             | None \<Rightarrow> reply 200 (TestSentJson (u_email admin))) })"

definition resend_user_email :: "admin_env \<Rightarrow> http_request \<Rightarrow> string \<Rightarrow> string \<Rightarrow> (string \<times> string) option \<Rightarrow> admin_answer io" where
  "resend_user_email env r email id_str body = require_admin_global email (\<lambda>admin. case atoi id_str of
       None \<Rightarrow> refuse_with 400 ''Invalid User ID''
     | Some user_id \<Rightarrow> do {
         uo \<leftarrow> get_user_by_id user_id;
         case uo of
           Inr (Some u) \<Rightarrow>
             (case body of
                None \<Rightarrow> refuse_with 400 ''template_slug required''
              | Some (slug, password) \<Rightarrow>
                  if slug = [] then refuse_with 400 ''template_slug required''
                  else do {
                    res \<leftarrow> send_template_email env slug u password (u_id admin) (u_email admin) (admin_client_ip r) False;
                    case send_err res of
                      Some e \<Rightarrow> refuse_with 500 (goerr_text e)
                    | None \<Rightarrow> reply 200 (ResentJson (sent res) (u_email u)) })
         | _ \<Rightarrow> refuse_with 404 ''User not found'' })"

section \<open>Newsletters\<close>

definition subscribe :: "admin_env \<Rightarrow> string option \<Rightarrow> admin_answer io" where
  "subscribe env body =
     (if \<not> has_news env then refuse_with 503 ''Service Unavailable''
      else (case body of
          None \<Rightarrow> refuse_with 400 ''Bad Request''
        | Some email \<Rightarrow>
            if email = [] then refuse_with 400 ''Email required''
            else do {
              r \<leftarrow> add_subscriber email;
              case r of Inl _ \<Rightarrow> internal_error | Inr _ \<Rightarrow> reply 200 SubscribedJson }))"

definition list_subscribers :: "admin_env \<Rightarrow> admin_answer io" where
  "list_subscribers env =
     (if \<not> has_news env then reply 200 (SubscribersJson [])
      else do {
        r \<leftarrow> get_subscribers;
        case r of Inl _ \<Rightarrow> internal_error | Inr ss \<Rightarrow> reply 200 (SubscribersJson ss) })"

definition h_add_subscriber :: "admin_env \<Rightarrow> string option \<Rightarrow> admin_answer io" where
  "h_add_subscriber env body =
     (if \<not> has_news env then refuse_with 503 ''Service Unavailable''
      else (case body of
          None \<Rightarrow> refuse_with 400 ''Bad Request''
        | Some email \<Rightarrow>
            if email = [] then refuse_with 400 ''Email required''
            else do {
              r \<leftarrow> add_subscriber email;
              case r of Inl _ \<Rightarrow> refuse_with 500 ''Failed to add'' | Inr _ \<Rightarrow> reply 200 OkBody }))"

definition h_delete_subscriber :: "admin_env \<Rightarrow> http_request \<Rightarrow> admin_answer io" where
  "h_delete_subscriber env r =
     (if \<not> has_news env then refuse_with 503 ''Service Unavailable''
      else (let email = query_param r ''email'' in
        if email = [] then refuse_with 400 ''Email query param required''
        else do {
          res \<leftarrow> delete_subscriber email;
          case res of
            Inl e \<Rightarrow> refuse_with 500 (''Failed to delete: '' @ goerr_text e)
          | Inr _ \<Rightarrow> reply 200 OkBody }))"

definition list_newsletters :: "admin_env \<Rightarrow> admin_answer io" where
  "list_newsletters env =
     (if \<not> has_news env then reply 200 (NewslettersJson [])
      else do {
        r \<leftarrow> get_newsletters;
        case r of Inl _ \<Rightarrow> internal_error | Inr ns \<Rightarrow> reply 200 (NewslettersJson ns) })"

definition draft :: "instant \<Rightarrow> newsletter" where
  "draft nw = \<lparr>nl_id = itoa nw, nl_subject = ''Nouvelle Newsletter'',
     nl_content = ''# Nouveau Brouillon'' @ [CHR 0x0A, CHR 0x0A] @ ''Commencez '' @ [CHR 0xC3, CHR 0xA0] @ '' r''
       @ [CHR 0xC3, CHR 0xA9] @ ''diger ici...'',
     nl_status = ''draft'', nl_version = 1, nl_created_at = nw, nl_updated_at = nw, nl_sent_at = None\<rparr>"

definition create_newsletter :: "admin_env \<Rightarrow> admin_answer io" where
  "create_newsletter env =
     (if \<not> has_news env then State_Monad.return recovered
      else do {
        nw \<leftarrow> now;
        r \<leftarrow> save_newsletter (draft nw);
        case r of Inl _ \<Rightarrow> refuse_with 500 ''Failed to create'' | Inr _ \<Rightarrow> reply 200 (NewsletterJson (draft nw)) })"

record newsletter_request =
  nr_subject :: string
  nr_content :: string
  nr_status :: string

definition update_newsletter :: "admin_env \<Rightarrow> string \<Rightarrow> newsletter_request option \<Rightarrow> admin_answer io" where
  "update_newsletter env i body =
     (if \<not> has_news env then State_Monad.return recovered
      else do {
        res \<leftarrow> get_newsletter i;
        case res of
          Inl _ \<Rightarrow> refuse_with 404 ''Not Found''
        | Inr current \<Rightarrow>
            if nl_status current = ''sent'' then refuse_with 403 ''Cannot edit sent newsletter''
            else (case body of
                None \<Rightarrow> refuse_with 400 ''Bad Request''
              | Some req \<Rightarrow> do {
                  nw \<leftarrow> now;
                  let n = current\<lparr>nl_subject := nr_subject req, nl_content := nr_content req, nl_updated_at := nw,
                    nl_version := nl_version current + 1,
                    nl_status := if nr_status req = ''draft'' \<or> nr_status req = ''ready'' then nr_status req
                      else nl_status current\<rparr>;
                  r \<leftarrow> save_newsletter n;
                  case r of Inl _ \<Rightarrow> refuse_with 500 ''Failed to save'' | Inr _ \<Rightarrow> reply 200 (NewsletterJson n) }) })"

definition h_delete_newsletter :: "admin_env \<Rightarrow> string \<Rightarrow> admin_answer io" where
  "h_delete_newsletter env i =
     (if \<not> has_news env then State_Monad.return recovered
      else do {
        r \<leftarrow> delete_newsletter i;
        case r of Inl _ \<Rightarrow> refuse_with 500 ''Failed to delete'' | Inr _ \<Rightarrow> reply 200 OkBody })"

text \<open>The recipients that a delivery reaches and those it does not.\<close>

definition delivered :: "smtp_env \<Rightarrow> newsletter \<Rightarrow> subscriber list \<Rightarrow> nat \<times> nat" where
  "delivered env n subs = (let ok = (\<lambda>s. notify_send env (sub_email s) (nl_subject n) (nl_content n) = None) in
     (length (filter ok subs), length (filter (\<lambda>s. \<not> ok s) subs)))"

definition send_newsletter :: "admin_env \<Rightarrow> string \<Rightarrow> admin_answer io" where
  "send_newsletter env i =
     (if \<not> has_news env then State_Monad.return recovered
      else do {
        res \<leftarrow> get_newsletter i;
        case res of
          Inl _ \<Rightarrow> refuse_with 404 ''Not Found''
        | Inr n \<Rightarrow>
            if nl_status n \<noteq> ''ready'' \<and> nl_status n \<noteq> ''sent''
            then refuse_with 400 ''Newsletter must be 'ready' or 'sent' to send''
            else do {
              rs \<leftarrow> get_subscribers;
              let (success, fail) = delivered (smtp env) n (case rs of Inl _ \<Rightarrow> [] | Inr ss \<Rightarrow> ss);
              if success = 0 \<and> fail > 0 \<and> smtp_host (smtp env) = [] then refuse_with 500 ''SMTP Configuration Missing''
              else do {
                nw \<leftarrow> now;
                let n' = n\<lparr>nl_status := ''sent'', nl_sent_at := Some nw, nl_updated_at := nw\<rparr>;
                r \<leftarrow> save_newsletter n';
                case r of Inl _ \<Rightarrow> refuse_with 500 ''Failed to save status'' | Inr _ \<Rightarrow> reply 200 (NewsletterJson n') } } })"

section \<open>Library: side effects\<close>

text \<open>Audit entries, the log of mails and the inventory may change; everything else stays.\<close>

definition side :: "db \<Rightarrow> db \<Rightarrow> bool" where
  "side d d' \<longleftrightarrow> (\<exists>bs ms al el ss. d' = d\<lparr>faults := bs, machines := ms, audit_logs := al, email_send_log := el, serials := ss\<rparr>
     \<and> (\<forall>t. t \<notin> {''audit_logs'', ''email_send_log'', ''machines''} \<longrightarrow> ss t = serials d t))"

lemma sideI:
  assumes "d' = d\<lparr>faults := bs, machines := ms, audit_logs := al, email_send_log := el, serials := ss\<rparr>"
    "\<And>t. t \<notin> {''audit_logs'', ''email_send_log'', ''machines''} \<Longrightarrow> ss t = serials d t"
  shows "side d d'"
  using assms unfolding side_def by blast

lemma side_pre: "preorder_rel side"
proof
  show "side d d" for d
    by (rule sideI [where bs = "faults d" and ms = "machines d" and al = "audit_logs d" and el = "email_send_log d" and ss = "serials d"]) simp_all
  show "side d (d\<lparr>faults := bs\<rparr>)" for d bs
    by (rule sideI [where bs = bs and ms = "machines d" and al = "audit_logs d" and el = "email_send_log d" and ss = "serials d"]) simp_all
  show "side d1 d3" if s: "side d1 d2" "side d2 d3" for d1 d2 d3
  proof -
    let ?own = "{''audit_logs'', ''email_send_log'', ''machines''}"
    obtain bs ms al el ss where 1: "d2 = d1\<lparr>faults := bs, machines := ms, audit_logs := al, email_send_log := el, serials := ss\<rparr>"
      "\<And>t. t \<notin> ?own \<Longrightarrow> ss t = serials d1 t"
      using s(1) unfolding side_def by blast
    obtain bs' ms' al' el' ss' where 2: "d3 = d2\<lparr>faults := bs', machines := ms', audit_logs := al', email_send_log := el', serials := ss'\<rparr>"
      "\<And>t. t \<notin> ?own \<Longrightarrow> ss' t = serials d2 t"
      using s(2) unfolding side_def by blast
    have "serials d2 = ss" by (simp add: 1(1))
    then show ?thesis using 1(2) 2(2)
      by (intro sideI [where bs = bs' and ms = ms' and al = al' and el = el' and ss = ss']) (simp_all add: 1(1) 2(1))
  qed
qed

lemma side_machines: "side d (d\<lparr>machines := ms\<rparr>)"
  by (rule sideI [where bs = "faults d" and ms = ms and al = "audit_logs d" and el = "email_send_log d" and ss = "serials d"]) simp_all

lemma side_audit: "side d ((bump ''audit_logs'' d)\<lparr>audit_logs := al\<rparr>)"
  by (rule sideI [where bs = "faults d" and ms = "machines d" and al = al and el = "email_send_log d" and ss = "serials (bump ''audit_logs'' d)"])
    (simp_all add: bump_def)

lemma side_sent: "side d ((bump ''email_send_log'' d)\<lparr>email_send_log := el\<rparr>)"
  by (rule sideI [where bs = "faults d" and ms = "machines d" and al = "audit_logs d" and el = el and ss = "serials (bump ''email_send_log'' d)"])
    (simp_all add: bump_def)

lemma side_macs: "macs_filled d d' \<Longrightarrow> side d d'"
  unfolding macs_filled_def
  by (auto intro!: sideI [where al = "audit_logs d" and el = "email_send_log d" and ss = "serials d"])

lemma sideD:
  assumes "side d d'"
  shows "clock d' = clock d" "users d' = users d" "reset_tokens d' = reset_tokens d" "remember_sessions d' = remember_sessions d"
    "cloud_actions d' = cloud_actions d" "sync_runs d' = sync_runs d" "draws d' = draws d" "random d' = random d"
    "link_requests d' = link_requests d" "gateway_sessions d' = gateway_sessions d" "sync_profiles d' = sync_profiles d"
    "serials d' ''remember_sessions'' = serials d ''remember_sessions''"
    "serials d' ''password_reset_tokens'' = serials d ''password_reset_tokens''"
proof -
  obtain bs ms al el ss where d': "d' = d\<lparr>faults := bs, machines := ms, audit_logs := al, email_send_log := el, serials := ss\<rparr>"
    and ss: "\<And>t. t \<notin> {''audit_logs'', ''email_send_log'', ''machines''} \<Longrightarrow> ss t = serials d t"
    using assms unfolding side_def by blast
  show "clock d' = clock d" "users d' = users d" "reset_tokens d' = reset_tokens d" "remember_sessions d' = remember_sessions d"
    "cloud_actions d' = cloud_actions d" "sync_runs d' = sync_runs d" "draws d' = draws d" "random d' = random d"
    "link_requests d' = link_requests d" "gateway_sessions d' = gateway_sessions d" "sync_profiles d' = sync_profiles d"
    unfolding d' by simp_all
  show "serials d' ''remember_sessions'' = serials d ''remember_sessions''"
    "serials d' ''password_reset_tokens'' = serials d ''password_reset_tokens''"
    using ss unfolding d' by simp_all
qed

lemma get_machines_side: "state_io_rel side get_machines"
  using get_machines_frame side_macs unfolding state_io_rel_def by blast

lemma log_audit_side: "state_io_rel side (log_audit env i n a rt ri ip s)"
  unfolding log_audit_def create_audit_log_def by (intro io_intros side_pre side_audit)

lemma audit_entry_side: "state_io_rel side (audit_entry env i e a ip s)"
  unfolding audit_entry_def create_audit_log_def by (intro io_intros side_pre side_audit)

lemma send_mail_side: "state_io_rel side (send_mail env slug rcpt vars actor req)"
  unfolding send_mail_def get_template_def log_failure_def log_send_def Let_def
  by (intro io_intros side_pre side_sent)

lemma send_template_side:
  "state_io_rel side (send_template_email_with_vars env slug u pw extra i e ip req)"
  unfolding send_template_email_with_vars_def build_template_vars_def enrich_device_vars_def get_template_def
    get_gateways_def Let_def
  by (intro io_intros side_pre log_audit_side send_mail_side get_machines_side)

lemma try_auto_send_side: "state_io_rel side (try_auto_send env slug u pw i e ip)"
  unfolding try_auto_send_def send_template_email_def get_template_def Let_def
  by (intro io_intros side_pre send_template_side)

lemmas side_intros = log_audit_side send_template_side try_auto_send_side

lemma untouched_side: "untouched d d' \<Longrightarrow> side d d'"
  using side_pre unfolding preorder_rel_def untouched_def by auto

lemma side_run: "state_io_rel side m \<Longrightarrow> side d (snd (run_state m d))"
  unfolding state_io_rel_def by blast

end
