(* ===== verification/Admin.thy ===== *)
theory Admin
  imports AdminMail LegacyIot
begin

text \<open>
  The administration of accounts, links and synchronisation profiles (internal/admin: authz.go, handlers.go,
  temporary_password.go, password_reset.go, sync_handlers.go, with the generator of
  internal/temppass). \<open>email\<close> is the address that the middlewares put into the context, empty for the shared token;
  \<open>id_str\<close> is the parameter of the route. \<open>rand.Int\<close> is read as the remainder of a draw, and the audit entry of a temporary
  password is kept without the time of its expiry.
\<close>

section \<open>Who may do what to whom\<close>

datatype authz_error = StoreError goerr | ErrForbidden | ErrNotFound | ErrSelfAction | ErrLastAdmin | ErrInvalidRole

datatype admin_action = ActionUpdateRole | ActionUpdateLinks | ActionForbid | ActionUnforbid | ActionDelete

definition is_privileged_role :: "string \<Rightarrow> bool" where
  "is_privileged_role role \<longleftrightarrow> role = role_admin_global \<or> role = role_admin_local \<or> role = role_support"

definition is_local_manageable_role :: "string \<Rightarrow> bool" where
  "is_local_manageable_role role \<longleftrightarrow> role = role_user \<or> role = role_guest_local"

definition caller_owns_target :: "user \<Rightarrow> user \<Rightarrow> bool" where
  "caller_owns_target caller target = (case (u_machine caller, u_machine target) of
       (Some m, Some n) \<Rightarrow> m = n
     | _ \<Rightarrow> False)"

definition authorize_admin_target ::
  "user \<Rightarrow> int \<Rightarrow> admin_action \<Rightarrow> string \<Rightarrow> (authz_error + user) io" where
  "authorize_admin_target caller target_id action new_role = do {
     r \<leftarrow> get_user_by_id target_id;
     case r of
       Inl e \<Rightarrow> State_Monad.return (Inl (StoreError e))
     | Inr None \<Rightarrow> State_Monad.return (Inl ErrNotFound)
     | Inr (Some target) \<Rightarrow>
         if u_role caller = role_admin_global then
           (case action of
              ActionDelete \<Rightarrow>
                if u_id caller = u_id target then State_Monad.return (Inl ErrSelfAction)
                else if u_role target = role_admin_global then do {
                  c \<leftarrow> count_admin_global;
                  State_Monad.return (case c of
                      Inl e \<Rightarrow> Inl (StoreError e)
                    | Inr n \<Rightarrow> if n \<le> 1 then Inl ErrLastAdmin else Inr target) }
                else State_Monad.return (Inr target)
            | ActionForbid \<Rightarrow> State_Monad.return (if u_id caller = u_id target then Inl ErrSelfAction else Inr target)
            | ActionUnforbid \<Rightarrow> State_Monad.return (if u_id caller = u_id target then Inl ErrSelfAction else Inr target)
            | ActionUpdateRole \<Rightarrow> State_Monad.return (Inr target)
            | ActionUpdateLinks \<Rightarrow> State_Monad.return (Inr target))
         else if u_role caller = role_admin_local then
           State_Monad.return (
             if \<not> caller_owns_target caller target then Inl ErrForbidden
             else if is_privileged_role (u_role target) then Inl ErrForbidden
             else if action = ActionUpdateRole
               then (if \<not> is_local_manageable_role new_role then Inl ErrInvalidRole else Inr target)
             else (if \<not> is_local_manageable_role (u_role target) then Inl ErrForbidden else Inr target))
         else State_Monad.return (Inl ErrForbidden) }"

definition write_authz_error :: "authz_error \<Rightarrow> admin_answer" where
  "write_authz_error e = (case e of
       ErrNotFound \<Rightarrow> HttpError 404 ''User not found''
     | ErrSelfAction \<Rightarrow> HttpError 403 ''Forbidden: cannot perform this action on your own account''
     | ErrLastAdmin \<Rightarrow> HttpError 409 ''Conflict: cannot remove the last global admin''
     | ErrInvalidRole \<Rightarrow> HttpError 403 ''Forbidden: invalid role for local admin''
     | ErrForbidden \<Rightarrow> HttpError 403 ''Forbidden: Insufficient Permissions''
     | StoreError _ \<Rightarrow> HttpError 500 ''Internal Server Error'')"

text \<open>\<open>authorizeUserAction\<close>: the caller, the parsed identifier, the decision.\<close>

definition authorize_user_action ::
  "string \<Rightarrow> string \<Rightarrow> admin_action \<Rightarrow> (user \<Rightarrow> user \<Rightarrow> admin_answer io) \<Rightarrow> admin_answer io" where
  "authorize_user_action email id_str action body = with_caller email (\<lambda>caller. case atoi id_str of
       None \<Rightarrow> refuse_with 400 ''Invalid User ID''
     | Some target_id \<Rightarrow> do {
         r \<leftarrow> authorize_admin_target caller target_id action [];
         case r of
           Inl e \<Rightarrow> State_Monad.return (write_authz_error e)
         | Inr target \<Rightarrow> body caller target })"

section \<open>Accounts\<close>

definition admin_login :: "admin_env \<Rightarrow> string option \<Rightarrow> admin_answer io" where
  "admin_login env body = (case body of
       None \<Rightarrow> refuse_with 400 ''Bad Request''
     | Some token \<Rightarrow>
         if admin_token env = [] \<or> token \<noteq> admin_token env then refuse_with 401 ''Invalid Token''
         else reply 200 OkBody)"

definition stats :: "admin_env \<Rightarrow> admin_answer io" where
  "stats env =
     (if \<not> has_inventory env
      then reply 200 (StatsJson \<lparr>as_connected_clients = 0, as_total_machines = 0, as_total_gateways = 0\<rparr>)
      else do {
        r \<leftarrow> get_stats;
        case r of Inl _ \<Rightarrow> internal_error | Inr s \<Rightarrow> reply 200 (StatsJson s) })"

definition h_machines :: "admin_env \<Rightarrow> admin_answer io" where
  "h_machines env =
     (if \<not> has_inventory env then reply 200 (MachinesJson [])
      else do {
        r \<leftarrow> get_machines;
        case r of Inl _ \<Rightarrow> internal_error | Inr ms \<Rightarrow> reply 200 (MachinesJson ms) })"

definition h_gateways :: "admin_env \<Rightarrow> admin_answer io" where
  "h_gateways env =
     (if \<not> has_inventory env then reply 200 (GatewaysJson [])
      else do {
        r \<leftarrow> get_gateways;
        case r of Inl _ \<Rightarrow> internal_error | Inr gs \<Rightarrow> reply 200 (GatewaysJson gs) })"

definition users_answer :: "user list dbop \<Rightarrow> admin_answer io" where
  "users_answer m = do { r \<leftarrow> m; case r of Inl _ \<Rightarrow> internal_error | Inr us \<Rightarrow> reply 200 (UsersJson us) }"

definition get_users :: "string option \<Rightarrow> admin_answer io" where
  "get_users ctx =
     (if (case ctx of None \<Rightarrow> True | Some e \<Rightarrow> e = []) then refuse_with 401 ''Unauthorized''
      else with_caller (the ctx) (\<lambda>u.
        if u_role u = role_admin_global then users_answer get_all_users
        else if u_role u = role_admin_local then
          (case u_machine u of
             None \<Rightarrow> reply 200 (UsersJson [])
           | Some m \<Rightarrow> users_answer (get_users_by_machine_id m))
        else refuse_with 403 ''Forbidden''))"

definition h_update_user_role ::
  "admin_env \<Rightarrow> http_request \<Rightarrow> string \<Rightarrow> string \<Rightarrow> string option \<Rightarrow> admin_answer io" where
  "h_update_user_role env r email id_str body = with_caller email (\<lambda>caller. case atoi id_str of
       None \<Rightarrow> refuse_with 400 ''Invalid User ID''
     | Some target_id \<Rightarrow> (case body of
         None \<Rightarrow> refuse_with 400 ''Bad Request''
       | Some role \<Rightarrow> do {
           a \<leftarrow> authorize_admin_target caller target_id ActionUpdateRole role;
           case a of
             Inl e \<Rightarrow> State_Monad.return (write_authz_error e)
           | Inr _ \<Rightarrow> do {
               res \<leftarrow> update_user_role target_id role;
               case res of
                 Inl _ \<Rightarrow> internal_error
               | Inr _ \<Rightarrow> do {
                   log_audit env (u_id caller) (u_email caller) ''UPDATE_ROLE'' ''USER'' id_str (admin_client_ip r)
                     (''Updated role for user '' @ id_str @ '' to '' @ role);
                   reply 200 OkBody } } }))"

definition email_slug_user_welcome :: string where "email_slug_user_welcome = ''user_welcome''"
definition email_slug_device_allocation :: string where "email_slug_device_allocation = ''device_allocation''"
definition email_slug_password_reset :: string where "email_slug_password_reset = ''password_reset''"
definition email_slug_temporary_password :: string where "email_slug_temporary_password = ''temporary_password''"

definition admin_create_user ::
  "admin_env \<Rightarrow> http_request \<Rightarrow> string \<Rightarrow> register_request option \<Rightarrow> admin_answer io" where
  "admin_create_user env r admin_email body = do {
     admin_id \<leftarrow> (if admin_email = [] then State_Monad.return 0
       else do {
         u \<leftarrow> get_user_by_email admin_email;
         State_Monad.return (case u of Inr (Some u) \<Rightarrow> u_id u | _ \<Rightarrow> 0) });
     case body of
       None \<Rightarrow> refuse_with 400 ''Invalid request body''
     | Some req \<Rightarrow>
         if rr_email req = [] \<or> rr_password req = [] then refuse_with 400 ''Email and password are required''
         else do {
           existing \<leftarrow> get_user_by_email (rr_email req);
           case existing of
             Inl _ \<Rightarrow> refuse_with 500 ''Database error''
           | Inr (Some _) \<Rightarrow> refuse_with 409 ''User already exists''
           | Inr None \<Rightarrow> do {
               hashed \<leftarrow> generate_from_password (ident env) (rr_password req);
               case hashed of
                 None \<Rightarrow> refuse_with 500 ''Failed to process password''
               | Some hash \<Rightarrow> do {
                   nw \<leftarrow> now;
                   let u = new_account nw (rr_email req) hash role_guest_local (rr_first_name req) (rr_last_name req)
                     provider_email [];
                   res \<leftarrow> create_user u;
                   case res of
                     Inl _ \<Rightarrow> refuse_with 500 ''Failed to create user''
                   | Inr i \<Rightarrow> do {
                       log_audit env admin_id admin_email ''CREATE_USER'' ''USER'' (u_email u) (admin_client_ip r)
                         ''Created user by admin'';
                       out \<leftarrow> try_auto_send env email_slug_user_welcome (u\<lparr>u_id := i\<rparr>) (rr_password req) admin_id
                         admin_email (admin_client_ip r);
                       reply 200 (UserCreatedJson (sent out) (map_option goerr_text (send_err out))) } } } } }"

text \<open>
  A cabinet linked without a usable gateway is activated for direct polling, under the number that
  the portal uses for it.
\<close>

definition bind_armoire_for_portal_delivery ::
  "admin_env \<Rightarrow> int option \<Rightarrow> int option \<Rightarrow> string option \<Rightarrow> unit dbop" where
  "bind_armoire_for_portal_delivery env machine_id armoire_id gateway_id =
     (let portal_id = (case armoire_id of
            Some a \<Rightarrow> if a > 0 then a else (case machine_id of Some m \<Rightarrow> if m > 0 then m else 0 | None \<Rightarrow> 0)
          | None \<Rightarrow> (case machine_id of Some m \<Rightarrow> if m > 0 then m else 0 | None \<Rightarrow> 0)) in
      if \<not> has_inventory env \<or> \<not> has_iot env then State_Monad.return (Inr ())
      else if is_remote_eligible_gateway gateway_id then State_Monad.return (Inr ())
      else if portal_id \<le> 0 then State_Monad.return (Inr ())
      else andThen (hashed_pkey_by_inventory_id portal_id) (\<lambda>k. bind_machine_for_portal_delivery k portal_id))"

definition h_update_user_links ::
  "admin_env \<Rightarrow> http_request \<Rightarrow> string \<Rightarrow> string \<Rightarrow> (int option \<times> string option \<times> int option) option \<Rightarrow> admin_answer io" where
  "h_update_user_links env r email id_str body = with_caller email (\<lambda>caller. case atoi id_str of
       None \<Rightarrow> refuse_with 400 ''Invalid User ID''
     | Some target_id \<Rightarrow> do {
         a \<leftarrow> authorize_admin_target caller target_id ActionUpdateLinks [];
         case a of
           Inl e \<Rightarrow> State_Monad.return (write_authz_error e)
         | Inr _ \<Rightarrow> (case body of
             None \<Rightarrow> refuse_with 400 ''Bad Request''
           | Some (machine_id, gateway_id, armoire_id) \<Rightarrow>
               if gateway_id \<noteq> None \<and> \<not> is_remote_eligible_gateway gateway_id \<and> (armoire_id \<noteq> None \<or> machine_id \<noteq> None)
               then refuse_with 400 remote_blocked_message
               else (case validate_admin_user_links machine_id gateway_id armoire_id of
                   Some e \<Rightarrow> refuse_with 400 (goerr_text e)
                 | None \<Rightarrow> do {
                     t \<leftarrow> get_user_by_id target_id;
                     case t of
                       Inr (Some target) \<Rightarrow> do {
                         res \<leftarrow> update_user_links target_id machine_id gateway_id armoire_id;
                         case res of
                           Inl _ \<Rightarrow> internal_error
                         | Inr _ \<Rightarrow> do {
                             ignore (bind_armoire_for_portal_delivery env machine_id armoire_id gateway_id);
                             _ \<leftarrow> try_auto_send env email_slug_device_allocation target [] (u_id caller) email (admin_client_ip r);
                             reply 200 OkBody } }
                     | _ \<Rightarrow> refuse_with 404 ''User not found'' })) })"

definition h_forbid_user :: "admin_env \<Rightarrow> http_request \<Rightarrow> string \<Rightarrow> string \<Rightarrow> admin_answer io" where
  "h_forbid_user env r email id_str = authorize_user_action email id_str ActionForbid (\<lambda>caller target.
     if is_user_forbidden (Some target) then refuse_with 409 ''User already forbidden''
     else do {
       res \<leftarrow> forbid_user (u_id target);
       case res of
         Inl _ \<Rightarrow> internal_error
       | Inr _ \<Rightarrow> do {
           log_audit env (u_id caller) (u_email caller) ''FORBID_USER'' ''USER'' id_str (admin_client_ip r)
             (''Forbidden user '' @ u_email target);
           reply 204 OkBody } })"

definition h_unforbid_user :: "admin_env \<Rightarrow> http_request \<Rightarrow> string \<Rightarrow> string \<Rightarrow> admin_answer io" where
  "h_unforbid_user env r email id_str = authorize_user_action email id_str ActionUnforbid (\<lambda>caller target.
     if \<not> is_user_forbidden (Some target) then refuse_with 409 ''User is not forbidden''
     else do {
       res \<leftarrow> unforbid_user (u_id target);
       case res of
         Inl _ \<Rightarrow> internal_error
       | Inr _ \<Rightarrow> do {
           log_audit env (u_id caller) (u_email caller) ''UNFORBID_USER'' ''USER'' id_str (admin_client_ip r)
             (''Re-enabled user '' @ u_email target);
           reply 204 OkBody } })"

definition h_delete_user :: "admin_env \<Rightarrow> http_request \<Rightarrow> string \<Rightarrow> string \<Rightarrow> admin_answer io" where
  "h_delete_user env r email id_str = authorize_user_action email id_str ActionDelete (\<lambda>caller target. do {
     res \<leftarrow> delete_user (u_id target);
     case res of
       Inl _ \<Rightarrow> internal_error
     | Inr _ \<Rightarrow> do {
         log_audit env (u_id caller) (u_email caller) ''DELETE_USER'' ''USER'' id_str (admin_client_ip r)
           (''Deleted user '' @ u_email target);
         reply 204 OkBody } })"

definition int_param :: "http_request \<Rightarrow> string \<Rightarrow> int \<Rightarrow> int" where
  "int_param r name fallback = (case atoi (query_param r name) of Some n \<Rightarrow> n | None \<Rightarrow> fallback)"

definition h_audit_logs :: "admin_env \<Rightarrow> http_request \<Rightarrow> string \<Rightarrow> admin_answer io" where
  "h_audit_logs env r email =
     (if \<not> has_audit (ident env) then refuse_with 503 ''Audit Store not initialized''
      else with_caller email (\<lambda>u.
        (let filter0 = \<lparr>af_limit = int_param r ''limit'' 100, af_offset = int_param r ''offset'' 0, af_machine = 0, af_user = 0\<rparr>;
             show = (\<lambda>flt. do {
               res \<leftarrow> get_audit_logs flt;
               case res of Inl _ \<Rightarrow> internal_error | Inr ls \<Rightarrow> reply 200 (AuditJson ls) }) in
         if u_role u = role_admin_global then show filter0
         else if u_role u = role_admin_local then
           (case u_machine u of
              Some m \<Rightarrow> show (filter0\<lparr>af_machine := m\<rparr>)
            | None \<Rightarrow> reply 200 (AuditJson []))
         else if u_role u = role_user then show (filter0\<lparr>af_user := u_id u\<rparr>)
         else refuse_with 403 ''Forbidden'')))"

section \<open>Temporary passwords and reset links\<close>

definition temppass_alphabet :: string where
  "temppass_alphabet = ''ABCDEFGHJKLMNPQRSTUVWXYZabcdefghijkmnopqrstuvwxyz23456789''"

definition temppass_length :: nat where "temppass_length = 12"

text \<open>Twelve numbers below the size of the alphabet, read off a draw of random bytes.\<close>

definition temppass_of :: "string \<Rightarrow> string" where
  "temppass_of bytes = map (\<lambda>i. temppass_alphabet
     ! ((if i < length bytes then byte (bytes ! i) else 0) mod length temppass_alphabet)) [0..<temppass_length]"

definition temppass_generate :: "string io" where
  "temppass_generate = do { bytes \<leftarrow> draw; State_Monad.return (temppass_of bytes) }"

definition temporary_password_validity :: duration where "temporary_password_validity = 72 * hour"

definition format_validity :: "duration \<Rightarrow> string" where
  "format_validity d = (let hours = d div hour in if hours = 1 then ''1 heure'' else itoa hours @ '' heures'')"

definition login_url :: "identity_env \<Rightarrow> string" where
  "login_url env = reset_link_base_url (reset_base_url env) @ ''/login''"

definition account_forbidden_conflict :: "admin_answer io" where
  "account_forbidden_conflict = State_Monad.return (ErrorJson 409 ''account_forbidden'')"

definition issue_temporary_password ::
  "admin_env \<Rightarrow> http_request \<Rightarrow> string \<Rightarrow> string \<Rightarrow> bool \<Rightarrow> admin_answer io" where
  "issue_temporary_password env r email id_str send_email = require_admin_global email (\<lambda>admin. case atoi id_str of
       None \<Rightarrow> refuse_with 400 ''Invalid User ID''
     | Some user_id \<Rightarrow> do {
         uo \<leftarrow> get_user_by_id user_id;
         case uo of
           Inr (Some u) \<Rightarrow>
             if is_user_forbidden (Some u) then account_forbidden_conflict
             else do {
               plain \<leftarrow> temppass_generate;
               hashed \<leftarrow> generate_from_password (ident env) plain;
               case hashed of
                 None \<Rightarrow> internal_error
               | Some hash \<Rightarrow> do {
                   nw \<leftarrow> now;
                   let expires_at = nw + temporary_password_validity;
                   res \<leftarrow> set_temporary_password (u_id u) hash expires_at (u_id admin);
                   case res of
                     Inl _ \<Rightarrow> internal_error
                   | Inr _ \<Rightarrow> do {
                       (if has_resets (ident env) then ignore (invalidate_for_user (u_id u)) else State_Monad.return ());
                       log_audit env (u_id admin) (u_email admin) ''TEMPORARY_PASSWORD_ISSUED'' ''USER'' id_str
                         (admin_client_ip r) (''Temporary password issued for '' @ u_email u);
                       out \<leftarrow> (if send_email then send_template_email_with_vars env email_slug_temporary_password u plain
                           [(''login_url'', login_url (ident env)), (''expires_in'', format_validity temporary_password_validity)]
                           (u_id admin) (u_email admin) (admin_client_ip r) True
                         else State_Monad.return \<lparr>sent = False, send_err = None\<rparr>);
                       reply 200 (TempPasswordJson plain expires_at (sent out \<and> send_err out = None)
                         (map_option goerr_text (send_err out))) } } }
         | _ \<Rightarrow> refuse_with 404 ''User not found'' })"

definition send_password_reset :: "admin_env \<Rightarrow> http_request \<Rightarrow> string \<Rightarrow> string \<Rightarrow> admin_answer io" where
  "send_password_reset env r email id_str = require_admin_global email (\<lambda>admin.
     if \<not> has_resets (ident env) then refuse_with 503 ''Password reset store not initialized''
     else (case atoi id_str of
         None \<Rightarrow> refuse_with 400 ''Invalid User ID''
       | Some user_id \<Rightarrow> do {
           uo \<leftarrow> get_user_by_id user_id;
           case uo of
             Inr (Some u) \<Rightarrow>
               if is_user_forbidden (Some u) then account_forbidden_conflict
               else do {
                 res \<leftarrow> issue_reset_token (digest (ident env)) (u_id u) (admin_client_ip r);
                 case res of
                   Inl _ \<Rightarrow> internal_error
                 | Inr (plain, expires_at) \<Rightarrow> do {
                     log_audit env (u_id admin) (u_email admin) ''PASSWORD_RESET_REQUESTED_BY_ADMIN'' ''USER'' id_str
                       (admin_client_ip r) (''Reset link issued for '' @ u_email u);
                     nw \<leftarrow> now;
                     out \<leftarrow> send_template_email_with_vars env email_slug_password_reset u []
                       [(''reset_url'', build_reset_url (reset_link_base_url (reset_base_url (ident env))) plain),
                        (''expires_in'', itoa (expires_in_minutes expires_at nw)), (''temporary_password'', [])]
                       (u_id admin) (u_email admin) (admin_client_ip r) True;
                     (case send_err out of
                        Some e \<Rightarrow> reply 200 (ResetSentJson False (Some (goerr_text e)) expires_at)
                      | None \<Rightarrow> reply 200 (ResetSentJson (sent out) None expires_at)) } }
           | _ \<Rightarrow> refuse_with 404 ''User not found'' }))"

section \<open>Synchronisation profiles\<close>

definition default_interval :: "upsert_sync_profile_request \<Rightarrow> upsert_sync_profile_request" where
  "default_interval req = (if uq_interval req \<le> 0 then req\<lparr>uq_interval := 3\<rparr> else req)"

definition h_list_sync_profiles :: "admin_env \<Rightarrow> http_request \<Rightarrow> string \<Rightarrow> admin_answer io" where
  "h_list_sync_profiles env r email = require_admin_global email (\<lambda>_.
     if \<not> has_portal env then reply 200 (ProfilesJson [])
     else do {
       res \<leftarrow> list_sync_profiles (query_param r ''gateway_id'');
       case res of Inl _ \<Rightarrow> refuse_with 500 ''List failed'' | Inr ps \<Rightarrow> reply 200 (ProfilesJson ps) })"

definition h_create_sync_profile :: "admin_env \<Rightarrow> string \<Rightarrow> upsert_sync_profile_request option \<Rightarrow> admin_answer io" where
  "h_create_sync_profile env email body = require_admin_global email (\<lambda>_. case body of
       None \<Rightarrow> refuse_with 400 ''Bad Request''
     | Some req \<Rightarrow>
         if uq_name req = [] \<or> uq_ranges req = [] then refuse_with 400 ''name and index_ranges required''
         else if \<not> has_portal env then State_Monad.return recovered
         else do {
           res \<leftarrow> create_sync_profile (default_interval req);
           case res of Inl e \<Rightarrow> refuse_with 400 (goerr_text e) | Inr p \<Rightarrow> reply 201 (AdminMail.ProfileJson p) })"

definition h_update_sync_profile ::
  "admin_env \<Rightarrow> string \<Rightarrow> string \<Rightarrow> upsert_sync_profile_request option \<Rightarrow> admin_answer io" where
  "h_update_sync_profile env email pid body = require_admin_global email (\<lambda>_. case body of
       None \<Rightarrow> refuse_with 400 ''Bad Request''
     | Some req \<Rightarrow>
         if \<not> has_portal env then State_Monad.return recovered
         else do {
           res \<leftarrow> update_sync_profile pid (default_interval req);
           case res of Inl e \<Rightarrow> refuse_with 400 (goerr_text e) | Inr p \<Rightarrow> reply 200 (AdminMail.ProfileJson p) })"

definition h_delete_sync_profile :: "admin_env \<Rightarrow> string \<Rightarrow> string \<Rightarrow> admin_answer io" where
  "h_delete_sync_profile env email pid = require_admin_global email (\<lambda>_.
     if \<not> has_portal env then State_Monad.return recovered
     else do {
       res \<leftarrow> delete_sync_profile pid;
       case res of Inl e \<Rightarrow> refuse_with 404 (goerr_text e) | Inr _ \<Rightarrow> reply 200 DeletedJson })"

definition utf8_dash :: string where "utf8_dash = [CHR 0xE2, CHR 0x80, CHR 0x94]"
definition utf8_dot :: string where "utf8_dot = [CHR 0xC2, CHR 0xB7]"

definition run_message :: "sync_profile \<Rightarrow> string" where
  "run_message p =
     ''Sync demand'' @ [CHR 0xC3, CHR 0xA9] @ ''e depuis admin '' @ utf8_dash @ '' '' @ sp_name p
     @ (if sp_pull p then '' '' @ utf8_dot @ '' '' @ itoa (expected_index_count (sp_ranges p)) @ '' octets '' @ utf8_dot @ '' ''
          @ itoa (pull_chunk_count (sp_ranges p)) @ '' cycle(s) firmware'' else [])"

definition run_sync_profile :: "admin_env \<Rightarrow> http_request \<Rightarrow> string \<Rightarrow> string \<Rightarrow> admin_answer io" where
  "run_sync_profile env r email pid = require_admin_global email (\<lambda>_.
     if \<not> has_portal env then State_Monad.return recovered
     else do {
       res \<leftarrow> get_sync_profile pid;
       case res of
         Inl _ \<Rightarrow> refuse_with 404 ''Not found''
       | Inr p \<Rightarrow>
           (let gateway_id = (if query_param r ''gateway_id'' \<noteq> [] then query_param r ''gateway_id'' else sp_gateway p) in
            if gateway_id = [] then refuse_with 400 ''gateway_id required (set on profile or ?gateway_id=)''
            else do {
              run \<leftarrow> create_sync_run pid gateway_id (expected_index_count (sp_ranges p)) (run_message p);
              case run of
                Inl _ \<Rightarrow> refuse_with 500 ''Create run failed''
              | Inr rn \<Rightarrow> reply 202 (RunStartedJson rn) }) })"

definition list_sync_profile_runs :: "admin_env \<Rightarrow> http_request \<Rightarrow> string \<Rightarrow> string \<Rightarrow> admin_answer io" where
  "list_sync_profile_runs env r email pid = require_admin_global email (\<lambda>_.
     if \<not> has_portal env then State_Monad.return recovered
     else do {
       let n = int_param r ''limit'' 20;
       res \<leftarrow> list_sync_runs_for_profile pid (if n > 0 then n else 20);
       case res of Inl _ \<Rightarrow> refuse_with 500 ''List failed'' | Inr rs \<Rightarrow> reply 200 (RunsJson rs) })"

definition h_get_sync_run :: "admin_env \<Rightarrow> string \<Rightarrow> string \<Rightarrow> admin_answer io" where
  "h_get_sync_run env email run_id = require_admin_global email (\<lambda>_.
     if \<not> has_portal env then State_Monad.return recovered
     else do {
       res \<leftarrow> get_sync_run run_id;
       case res of Inl _ \<Rightarrow> refuse_with 404 ''Not found'' | Inr rn \<Rightarrow> reply 200 (RunJson rn) })"

section \<open>Library: decisions and effects\<close>

text \<open>What a permission rests on.\<close>

definition allowed :: "user \<Rightarrow> user \<Rightarrow> admin_action \<Rightarrow> string \<Rightarrow> bool" where
  "allowed caller target action new_role \<longleftrightarrow>
     u_role caller = role_admin_global \<and> (action \<in> {ActionDelete, ActionForbid, ActionUnforbid} \<longrightarrow> u_id caller \<noteq> u_id target)
     \<or> u_role caller = role_admin_local \<and> caller_owns_target caller target \<and> \<not> is_privileged_role (u_role target)
       \<and> is_local_manageable_role (if action = ActionUpdateRole then new_role else u_role target)"

text \<open>What the action does to the table of accounts: one row goes, and the others at most forget who
  issued their temporary password, or one row is rewritten with its identifier kept and its role
  changed by no action but the change of a role.\<close>

definition core :: "user \<Rightarrow> user" where
  "core u = u\<lparr>u_temp_issued_by := None\<rparr>"

definition acted :: "admin_action \<Rightarrow> string \<Rightarrow> int \<Rightarrow> db \<Rightarrow> db \<Rightarrow> bool" where
  "acted action new_role i d d' \<longleftrightarrow>
     action = ActionDelete \<and> map core (users d') = map core (filter (\<lambda>u. u_id u \<noteq> i) (users d))
     \<or> (\<exists>g. users d' = update_rows (\<lambda>u. u_id u = i) g (users d)
         \<and> (\<forall>u. u_id (g u) = u_id u \<and> u_role (g u) = (if action = ActionUpdateRole then new_role else u_role u)))"

lemma with_caller_cases:
  assumes "run_state (with_caller email body) d = (a, d')"
  obtains (refused) "untouched d d'" "status a = 401"
        | (known) u d1 where "untouched d d1" "u \<in> set (users d)" "u_email u = email" "run_state (body u) d1 = (a, d')"
proof -
  obtain res d1 where get: "run_state (get_user_by_email email) d = (res, d1)" by fastforce
  have un: "untouched d d1" using accounts.get_frame [OF get] .
  show thesis
  proof (cases "\<exists>u. res = Inr (Some u)")
    case True
    then obtain u where u: "res = Inr (Some u)" by blast
    then have "u \<in> set (users d) \<and> u_email u = email" using accounts.get_sound get by blast
    then show thesis using known [OF un, of u] assms get u by (simp add: with_caller_def)
  next
    case False
    then have "d' = d1 \<and> status a = 401"
      using assms get by (auto simp: with_caller_def split: sum.splits option.splits)
    then show thesis using refused un by simp
  qed
qed

lemma get_user_by_id_cases:
  assumes "run_state (get_user_by_id i) d = (r, d')"
  shows "untouched d d'" and "r = Inr (Some u) \<Longrightarrow> u \<in> set (users d) \<and> u_id u = i"
  using assms unfolding get_user_by_id_def
  by (auto simp: untouched_def elim!: query_cases dest!: sym [of "Some _"] find_SomeD)

lemma authorize_cases:
  assumes "run_state (authorize_admin_target caller i action new_role) d = (res, d')"
  shows "untouched d d'"
    and "res = Inr t \<Longrightarrow> t \<in> set (users d) \<and> u_id t = i \<and> allowed caller t action new_role"
proof -
  obtain r d1 where get: "run_state (get_user_by_id i) d = (r, d1)" by fastforce
  note g = get_user_by_id_cases [OF get]
  obtain c d2 where cnt: "run_state count_admin_global d1 = (c, d2)" by fastforce
  then have un2: "untouched d1 d2" unfolding count_admin_global_def untouched_def by (auto elim: query_cases)
  have dd: "d' = d1 \<or> d' = d2"
    using assms get cnt
    by (auto simp: authorize_admin_target_def split: sum.splits option.splits if_splits admin_action.splits)
  then show "untouched d d'" using g(1) untouched_trans [OF g(1) un2] by auto
  show "t \<in> set (users d) \<and> u_id t = i \<and> allowed caller t action new_role" if "res = Inr t"
  proof -
    have "r = Inr (Some t) \<and> allowed caller t action new_role"
      using assms get cnt that
      by (auto simp: authorize_admin_target_def allowed_def split: sum.splits option.splits if_splits admin_action.splits)
    then show ?thesis using g(2) by blast
  qed
qed

lemma untouched_users: "untouched d d' \<Longrightarrow> users d' = users d"
  by (auto simp: untouched_def)

lemma bind_armoire_side: "state_io_rel side (bind_armoire_for_portal_delivery env m a g)"
  unfolding bind_armoire_for_portal_delivery_def hashed_pkey_by_inventory_id_def bind_machine_for_portal_delivery_def Let_def
  by (intro io_intros side_pre side_machines)

text \<open>The five operations on another account: refused without a trace on the accounts, or permitted and done.\<close>

definition admin_outcome :: "string \<Rightarrow> admin_action \<Rightarrow> string \<Rightarrow> db \<Rightarrow> db \<Rightarrow> bool" where
  "admin_outcome email action new_role d d' \<longleftrightarrow> users d' = users d
     \<or> (\<exists>caller target. caller \<in> set (users d) \<and> u_email caller = email \<and> target \<in> set (users d)
         \<and> allowed caller target action new_role \<and> acted action new_role (u_id target) d d')"

lemma acted_row:
  assumes "users d' = update_rows (\<lambda>u. u_id u = i) g (users d)"
    "\<And>u. u_id (g u) = u_id u \<and> u_role (g u) = (if action = ActionUpdateRole then new_role else u_role u)"
  shows "acted action new_role i d d'"
  using assms unfolding acted_def by blast

text \<open>Every permitted action ends in one statement on the accounts and side effects.\<close>

lemma exec_then_side:
  assumes run: "run_state (do { res \<leftarrow> exec f; case res of Inl _ \<Rightarrow> internal_error | Inr _ \<Rightarrow> rest }) d = (a, d')"
    and rest: "state_io_rel side rest"
  shows "users d' = users d \<or> (\<exists>bs. users d' = users (f (d\<lparr>faults := bs\<rparr>)))"
proof -
  obtain r d1 where 1: "run_state (exec f) d = (r, d1)" by fastforce
  from 1 show ?thesis
  proof (cases rule: exec_cases)
    case (conn bs)
    then show ?thesis using run 1 by (auto simp: internal_error_def)
  next
    case (ran bs)
    then have "run_state rest d1 = (a, d')" using run 1 by simp
    then have "side d1 d'" using rest by blast
    then show ?thesis using ran sideD(2) by blast
  qed
qed

lemma authorized_cases:
  assumes "run_state (authorize_user_action email id_str action body) d = (a, d')"
  obtains (refused) "users d' = users d" "status a \<in> {400, 401, 403, 404, 409, 500}"
        | (permitted) caller target d1 where "caller \<in> set (users d)" "u_email caller = email" "target \<in> set (users d)"
            "allowed caller target action []" "untouched d d1" "run_state (body caller target) d1 = (a, d')"
  using assms unfolding authorize_user_action_def
proof (cases rule: with_caller_cases)
  case refused
  then show thesis using that(1) untouched_users by simp
next
  case (known u d1)
  show thesis
  proof (cases "atoi id_str")
    case None
    then show thesis using known that(1) untouched_users by auto
  next
    case (Some i)
    obtain res d2 where auth: "run_state (authorize_admin_target u i action []) d1 = (res, d2)" by fastforce
    note c = authorize_cases [OF auth]
    have un: "untouched d d2" using known(1) c(1) by (rule untouched_trans)
    show thesis
    proof (cases res)
      case (Inl e)
      then have "a = write_authz_error e" "d' = d2" using known(4) Some auth by simp_all
      moreover have "status (write_authz_error e) \<in> {400, 401, 403, 404, 409, 500}"
        by (cases e) (simp_all add: write_authz_error_def)
      ultimately show thesis using that(1) untouched_users [OF un] by simp
    next
      case (Inr t)
      then have "t \<in> set (users d)" "allowed u t action []" using c(2) untouched_users [OF known(1)] by auto
      then show thesis using that(2) [OF known(2,3), of t d2] un known(4) Some auth Inr by simp
    qed
  qed
qed

lemma acted_cong: "users e = users d \<Longrightarrow> users e' = users d' \<Longrightarrow> acted action role i e e' = acted action role i d d'"
  by (simp add: acted_def)

lemma exec_acted:
  assumes run: "run_state (if c then State_Monad.return x
      else do { res \<leftarrow> exec f; case res of Inl _ \<Rightarrow> internal_error | Inr _ \<Rightarrow> rest }) d = (a, d')"
    and rest: "state_io_rel side rest" and f: "\<And>d. acted action role i d (f d)"
  shows "users d' = users d \<or> acted action role i d d'"
proof (cases c)
  case True
  then show ?thesis using run by simp
next
  case False
  then consider "users d' = users d" | bs where "users d' = users (f (d\<lparr>faults := bs\<rparr>))"
    using exec_then_side [OF _ rest, of f d a d'] run by auto
  then show ?thesis
  proof cases
    case 2
    then show ?thesis using acted_cong [of "d\<lparr>faults := bs\<rparr>" d "f (d\<lparr>faults := bs\<rparr>)" d'] f [of "d\<lparr>faults := bs\<rparr>"] by simp
  qed simp
qed

lemma acted_update_row:
  assumes "\<And>u. u_id (g u) = u_id u \<and> u_role (g u) = (if action = ActionUpdateRole then role else u_role u)"
  shows "acted action role i d (update_user_row i g d)"
  using assms by (intro acted_row [where g = g]) (simp_all add: update_user_row_def)

lemma action_outcome:
  assumes "run_state (authorize_user_action email id_str action body) d = (a, d')"
    and body: "\<And>caller target d1 a d'. run_state (body caller target) d1 = (a, d') \<Longrightarrow>
      users d' = users d1 \<or> acted action [] (u_id target) d1 d'"
  shows "admin_outcome email action [] d d'"
  using assms(1)
proof (cases rule: authorized_cases)
  case (permitted caller target d1)
  have "users d1 = users d" using permitted(5) by (rule untouched_users)
  then have "users d' = users d \<or> acted action [] (u_id target) d d'"
    using body [OF permitted(6)] acted_cong [of d1 d d' d'] by simp
  then show ?thesis using permitted(1-4) unfolding admin_outcome_def by blast
qed (simp add: admin_outcome_def)

lemma forbid_outcome: "run_state (h_forbid_user env r email id_str) d = (a, d') \<Longrightarrow> admin_outcome email ActionForbid [] d d'"
  unfolding h_forbid_user_def forbid_user_def
  by (erule action_outcome, erule exec_acted)
    (intro io_intros side_pre log_audit_side, rule acted_update_row, simp)

lemma unforbid_outcome: "run_state (h_unforbid_user env r email id_str) d = (a, d') \<Longrightarrow> admin_outcome email ActionUnforbid [] d d'"
  unfolding h_unforbid_user_def unforbid_user_def
  by (erule action_outcome, erule exec_acted)
    (intro io_intros side_pre log_audit_side, rule acted_update_row, simp)

lemma delete_outcome: "run_state (h_delete_user env r email id_str) d = (a, d') \<Longrightarrow> admin_outcome email ActionDelete [] d d'"
  unfolding h_delete_user_def delete_user_def
  by (erule action_outcome, rule exec_acted [where c = False], simp)
    (intro io_intros side_pre log_audit_side, auto simp: acted_def core_def update_rows_def)

text \<open>The two operations with a body take the decision themselves.\<close>

lemma decided_outcome:
  assumes run: "run_state (with_caller email (\<lambda>caller. case atoi id_str of
       None \<Rightarrow> refuse_with 400 ''Invalid User ID''
     | Some target_id \<Rightarrow> do {
         res \<leftarrow> authorize_admin_target caller target_id action role;
         case res of Inl e \<Rightarrow> State_Monad.return (write_authz_error e) | Inr _ \<Rightarrow> body caller target_id })) d = (a, d')"
    and body: "\<And>caller i d1 a d'. run_state (body caller i) d1 = (a, d') \<Longrightarrow> users d' = users d1 \<or> acted action role i d1 d'"
  shows "admin_outcome email action role d d'"
  using run
proof (cases rule: with_caller_cases)
  case refused
  then show ?thesis by (simp add: admin_outcome_def untouched_users)
next
  case (known u d1)
  have same: "users d1 = users d" using known(1) by (rule untouched_users)
  show ?thesis
  proof (cases "atoi id_str")
    case None
    then show ?thesis using known(4) same by (simp add: admin_outcome_def)
  next
    case (Some i)
    obtain res d2 where auth: "run_state (authorize_admin_target u i action role) d1 = (res, d2)" by fastforce
    note c = authorize_cases [OF auth]
    have same2: "users d2 = users d" using untouched_users [OF c(1)] same by simp
    show ?thesis
    proof (cases res)
      case (Inl e)
      then show ?thesis using known(4) Some auth same2 by (simp add: admin_outcome_def)
    next
      case (Inr t)
      then have t: "t \<in> set (users d)" "u_id t = i" "allowed u t action role" using c(2) same by auto
      have "users d' = users d2 \<or> acted action role i d2 d'" using body known(4) Some auth Inr by simp
      then have "users d' = users d \<or> acted action role i d d'" using same2 acted_cong [of d2 d d' d'] by simp
      then show ?thesis using known(2,3) t unfolding admin_outcome_def by blast
    qed
  qed
qed

lemma role_outcome:
  assumes "run_state (h_update_user_role env r email id_str (Some role)) d = (a, d')"
  shows "admin_outcome email ActionUpdateRole role d d'"
proof -
  have "users d2 = users d1 \<or> acted ActionUpdateRole role i d1 d2"
    if "run_state (do { res \<leftarrow> update_user_role i role; case res of Inl _ \<Rightarrow> internal_error
      | Inr _ \<Rightarrow> do { log_audit env (u_id caller) (u_email caller) ''UPDATE_ROLE'' ''USER'' id_str (admin_client_ip r)
                     (''Updated role for user '' @ id_str @ '' to '' @ role);
                   reply 200 OkBody } }) d1 = (b, d2)" for caller i d1 b d2
    using that unfolding update_user_role_def
    by (intro exec_acted [where c = False]) (simp, intro io_intros side_pre log_audit_side, rule acted_update_row, simp)
  then show ?thesis using assms unfolding h_update_user_role_def option.case by (rule decided_outcome [rotated])
qed

lemma links_outcome:
  assumes "run_state (h_update_user_links env r email id_str body) d = (a, d')"
  shows "admin_outcome email ActionUpdateLinks [] d d'"
  using assms unfolding h_update_user_links_def
proof (rule decided_outcome)
  fix caller i d1 b d2
  assume run: "run_state (case body of
             None \<Rightarrow> refuse_with 400 ''Bad Request''
           | Some (machine_id, gateway_id, armoire_id) \<Rightarrow>
               if gateway_id \<noteq> None \<and> \<not> is_remote_eligible_gateway gateway_id \<and> (armoire_id \<noteq> None \<or> machine_id \<noteq> None)
               then refuse_with 400 remote_blocked_message
               else (case validate_admin_user_links machine_id gateway_id armoire_id of
                   Some e \<Rightarrow> refuse_with 400 (goerr_text e)
                 | None \<Rightarrow> do {
                     t \<leftarrow> get_user_by_id i;
                     case t of
                       Inr (Some target) \<Rightarrow> do {
                         res \<leftarrow> update_user_links i machine_id gateway_id armoire_id;
                         case res of
                           Inl _ \<Rightarrow> internal_error
                         | Inr _ \<Rightarrow> do {
                             ignore (bind_armoire_for_portal_delivery env machine_id armoire_id gateway_id);
                             _ \<leftarrow> try_auto_send env email_slug_device_allocation target [] (u_id caller) email (admin_client_ip r);
                             reply 200 OkBody } }
                     | _ \<Rightarrow> refuse_with 404 ''User not found'' })) d1 = (b, d2)"
  show "users d2 = users d1 \<or> acted ActionUpdateLinks [] i d1 d2"
  proof (cases "users d2 = users d1")
    case False
    then obtain m g ar where b: "body = Some (m, g, ar)" using run by (cases body) auto
    obtain t d3 where get: "run_state (get_user_by_id i) d1 = (t, d3)" by fastforce
    have same: "users d3 = users d1" using get_user_by_id_cases(1) [OF get] by (rule untouched_users)
    then obtain target where t: "t = Inr (Some target)"
      using run b get False by (auto split: if_splits option.splits sum.splits)
    have "run_state (do { res \<leftarrow> update_user_links i m g ar; case res of Inl _ \<Rightarrow> internal_error
        | Inr _ \<Rightarrow> do {
             ignore (bind_armoire_for_portal_delivery env m ar g);
             _ \<leftarrow> try_auto_send env email_slug_device_allocation target [] (u_id caller) email (admin_client_ip r);
             reply 200 OkBody } }) d3 = (b, d2)"
      using run b get t False by (auto split: if_splits option.splits)
    then have "users d2 = users d3 \<or> acted ActionUpdateLinks [] i d3 d2"
      unfolding update_user_links_def
      by (intro exec_acted [where c = False])
        (simp, intro io_intros side_pre bind_armoire_side try_auto_send_side, rule acted_update_row, simp)
    then show ?thesis using same acted_cong [of d3 d1 d2 d2] by simp
  qed simp
qed


lemma role_outcome_any:
  assumes "run_state (h_update_user_role env r email id_str body) d = (a, d')"
  shows "\<exists>role. admin_outcome email ActionUpdateRole role d d'"
proof (cases body)
  case None
  from assms show ?thesis unfolding h_update_user_role_def None
    by (cases rule: with_caller_cases) (auto simp: admin_outcome_def untouched_users split: option.splits)
qed (use assms role_outcome in blast)

text \<open>A row that is not the target's stays.\<close>

lemma acted_others:
  assumes "acted action new_role i d d'" "u \<in> set (users d)" "u_id u \<noteq> i"
  shows "\<exists>v \<in> set (users d'). core v = core u"
  using assms(1) unfolding acted_def
proof (elim disjE conjE exE)
  assume "map core (users d') = map core (filter (\<lambda>u. u_id u \<noteq> i) (users d))"
  then have "core ` set (users d') = core ` set (filter (\<lambda>u. u_id u \<noteq> i) (users d))" by (metis set_map)
  then have "core u \<in> core ` set (users d')" using assms(2,3) by auto
  then show ?thesis by force
next
  fix g assume "users d' = update_rows (\<lambda>u. u_id u = i) g (users d)"
  then have "u \<in> set (users d')" using assms(2,3) by (force simp: update_rows_def)
  then show ?thesis by blast
qed

lemma acted_roles:
  assumes "acted action new_role i d d'" "v \<in> set (users d')"
  shows "\<exists>u \<in> set (users d). u_id u = u_id v
    \<and> (u_role u = u_role v \<or> action = ActionUpdateRole \<and> u_id v = i \<and> u_role v = new_role)"
  using assms(1) unfolding acted_def
proof (elim disjE conjE exE)
  assume "map core (users d') = map core (filter (\<lambda>u. u_id u \<noteq> i) (users d))"
  then have "core ` set (users d') = core ` set (filter (\<lambda>u. u_id u \<noteq> i) (users d))" by (metis set_map)
  then obtain u where "u \<in> set (users d)" "core u = core v" using assms(2) by force
  moreover have "u_id (core w) = u_id w" "u_role (core w) = u_role w" for w by (simp_all add: core_def)
  ultimately show ?thesis by metis
next
  fix g assume "users d' = update_rows (\<lambda>u. u_id u = i) g (users d)"
    and "\<forall>u. u_id (g u) = u_id u \<and> u_role (g u) = (if action = ActionUpdateRole then new_role else u_role u)"
  moreover obtain u where "u \<in> set (users d)" "v = (if u_id u = i then g u else u)"
    using assms(2) calculation(1) by (auto simp: update_rows_def)
  ultimately show ?thesis by (intro bexI [of _ u]) simp_all
qed

lemma find_distinct: "distinct (map f xs) \<Longrightarrow> x \<in> set xs \<Longrightarrow> find (\<lambda>y. f y = f x) xs = Some x"
  by (induction xs) (auto simp: image_iff)

lemma same_user: "distinct (map u_id us) \<Longrightarrow> u \<in> set us \<Longrightarrow> v \<in> set us \<Longrightarrow> u_id u = u_id v \<Longrightarrow> u = v"
  by (metis distinct_map inj_on_def)

lemma same_address: "distinct (map u_email us) \<Longrightarrow> u \<in> set us \<Longrightarrow> v \<in> set us \<Longrightarrow> u_email u = u_email v \<Longrightarrow> u = v"
  by (metis distinct_map inj_on_def)

lemma admin_roles_distinct: "role_admin_global \<noteq> role_admin_local" "is_privileged_role role_admin_global"
  "is_local_manageable_role r \<Longrightarrow> \<not> is_privileged_role r"
  by (auto simp: is_local_manageable_role_def is_privileged_role_def role_defs)

text \<open>The requests on \<open>/admin/users/{id}\<close>: those that a local administrator may send about its own people, and those
  for global administrators.\<close>

definition managing_requests ::
  "admin_env \<Rightarrow> http_request \<Rightarrow> string \<Rightarrow> string \<Rightarrow> admin_answer io set" where
  "managing_requests env r email id_str =
     {h_forbid_user env r email id_str, h_unforbid_user env r email id_str, h_delete_user env r email id_str}
     \<union> range (h_update_user_role env r email id_str) \<union> range (h_update_user_links env r email id_str)"

definition credential_requests ::
  "admin_env \<Rightarrow> http_request \<Rightarrow> string \<Rightarrow> string \<Rightarrow> admin_answer io set" where
  "credential_requests env r email id_str =
     insert (send_password_reset env r email id_str)
       (range (issue_temporary_password env r email id_str) \<union> range (resend_user_email env r email id_str))"

definition account_requests ::
  "admin_env \<Rightarrow> http_request \<Rightarrow> string \<Rightarrow> string \<Rightarrow> admin_answer io set" where
  "account_requests env r email id_str = managing_requests env r email id_str \<union> credential_requests env r email id_str"

lemma account_request_outcome:
  assumes "m \<in> managing_requests env r email id_str" "run_state m d = (a, d')"
  shows "\<exists>action role. admin_outcome email action role d d'"
  using assms unfolding managing_requests_def
  by (auto dest: forbid_outcome unforbid_outcome delete_outcome links_outcome) (blast dest: role_outcome_any)

lemma global_only:
  assumes "\<forall>u \<in> set (users d). u_email u = email \<longrightarrow> u_role u \<noteq> role_admin_global"
    and run: "run_state (require_admin_global email body) d = (a, d')"
  shows "status a \<in> {401, 403} \<and> untouched d d'"
proof -
  obtain res d1 where get: "run_state (get_user_by_email email) d = (res, d1)" by fastforce
  have "\<not> (\<exists>u. res = Inr (Some u) \<and> u_role u = role_admin_global)"
    using accounts.get_sound get assms(1) by blast
  then show ?thesis using run get accounts.get_frame [OF get]
    by (auto simp: require_admin_global_def with_caller_def split: sum.splits option.splits if_splits)
qed

lemma credential_request_refused:
  assumes "\<forall>u \<in> set (users d). u_email u = email \<longrightarrow> u_role u \<noteq> role_admin_global"
    and "m \<in> credential_requests env r email id_str" "run_state m d = (a, d')"
  shows "status a \<in> {401, 403} \<and> untouched d d'"
proof -
  obtain body where "m = require_admin_global email body"
    using assms(2) unfolding credential_requests_def send_password_reset_def issue_temporary_password_def resend_user_email_def
    by blast
  then show ?thesis using global_only [OF assms(1)] assms(3) by blast
qed

section \<open>Properties\<close>

text \<open>C28. A local administrator is confined: whatever request on an account it sends, for whatever
  identifier and body, an account that is not on its own cabinet, and every account with a privileged role, stays as it
  was (but for the note of who issued its temporary password, when that issuer is deleted), and no
  account gains the role of an administrator or of the support. The requests for a reset link, for a temporary
  password and for sending a mail again are refused to it altogether and change no table.\<close>

theorem local_admin_confined:
  assumes rows: "distinct (map u_id (users d))" "distinct (map u_email (users d))"
    and caller: "caller \<in> set (users d)" "u_email caller = email" "u_role caller = role_admin_local"
    and run: "m \<in> account_requests env r email id_str" "run_state m d = (a, d')"
  shows "(\<forall>u \<in> set (users d). \<not> caller_owns_target caller u \<or> is_privileged_role (u_role u)
      \<longrightarrow> (\<exists>v \<in> set (users d'). v\<lparr>u_temp_issued_by := None\<rparr> = u\<lparr>u_temp_issued_by := None\<rparr>))
    \<and> (\<forall>v \<in> set (users d'). is_privileged_role (u_role v)
      \<longrightarrow> (\<exists>u \<in> set (users d). u_id u = u_id v \<and> u_role u = u_role v))
    \<and> (m \<in> credential_requests env r email id_str \<longrightarrow> status a \<in> {401, 403} \<and> untouched d d')"
proof -
  have "\<forall>u \<in> set (users d). u_email u = email \<longrightarrow> u_role u \<noteq> role_admin_global"
    using same_address [OF rows(2) _ caller(1)] caller(2,3) admin_roles_distinct(1) by metis
  then have cred: "m \<in> credential_requests env r email id_str \<longrightarrow> status a \<in> {401, 403} \<and> untouched d d'"
    using credential_request_refused run(2) by blast
  then have "users d' = users d \<or> (\<exists>action role. admin_outcome email action role d d')"
    using account_request_outcome run unfolding account_requests_def by (auto simp: untouched_def)
  then consider "users d' = users d" | c target action role where "c \<in> set (users d)" "u_email c = email" "target \<in> set (users d)"
      "allowed c target action role" "acted action role (u_id target) d d'"
    unfolding admin_outcome_def by blast
  then show ?thesis
  proof cases
    case (2 c target action role)
    have "c = caller" using same_address [OF rows(2) 2(1) caller(1)] 2(2) caller(2) by simp
    then have t: "caller_owns_target caller target" "\<not> is_privileged_role (u_role target)"
      "action = ActionUpdateRole \<longrightarrow> \<not> is_privileged_role role"
      using 2(4) caller(3) admin_roles_distinct by (auto simp: allowed_def)
    have "\<exists>v \<in> set (users d'). core v = core u"
      if "u \<in> set (users d)" "\<not> caller_owns_target caller u \<or> is_privileged_role (u_role u)" for u
    proof (rule acted_others [OF 2(5) that(1)])
      show "u_id u \<noteq> u_id target" using same_user [OF rows(1) that(1) 2(3)] that(2) t by auto
    qed
    moreover have "\<exists>u \<in> set (users d). u_id u = u_id v \<and> u_role u = u_role v"
      if "v \<in> set (users d')" "is_privileged_role (u_role v)" for v
      using acted_roles [OF 2(5) that(1)] that(2) t(3) by auto
    ultimately show ?thesis using cred unfolding core_def by blast
  qed (use cred in auto)
qed

text \<open>C29. The administration cannot lock itself out by suspending or deleting accounts: a request to suspend, to
  re-enable or to delete an account, sent by a caller that is not suspended, leaves a global administrator that is
  not suspended, when there was one.\<close>

theorem admin_survives:
  assumes rows: "distinct (map u_id (users d))"
    and caller: "\<forall>u \<in> set (users d). u_email u = email \<longrightarrow> u_forbidden_at u = None"
    and admin: "\<exists>u \<in> set (users d). u_role u = role_admin_global \<and> u_forbidden_at u = None"
    and run: "m \<in> {h_forbid_user env r email id_str, h_unforbid_user env r email id_str, h_delete_user env r email id_str}"
      "run_state m d = (a, d')"
  shows "\<exists>u \<in> set (users d'). u_role u = role_admin_global \<and> u_forbidden_at u = None"
proof -
  obtain action where o: "admin_outcome email action [] d d'" "action \<in> {ActionForbid, ActionUnforbid, ActionDelete}"
    using run by (auto dest: forbid_outcome unforbid_outcome delete_outcome)
  then consider "users d' = users d" | c target where "c \<in> set (users d)" "u_email c = email" "target \<in> set (users d)"
      "allowed c target action []" "acted action [] (u_id target) d d'"
    unfolding admin_outcome_def by blast
  then show ?thesis
  proof cases
    case 1
    then show ?thesis using admin by simp
  next
    case (2 c target)
    obtain w where w: "w \<in> set (users d)" "u_role w = role_admin_global" "u_forbidden_at w = None" "u_id w \<noteq> u_id target"
    proof (cases "u_role c = role_admin_global")
      case True
      then show thesis using that [of c] 2 caller o(2) admin_roles_distinct(1) by (auto simp: allowed_def)
    next
      case False
      obtain w where w: "w \<in> set (users d)" "u_role w = role_admin_global" "u_forbidden_at w = None" using admin by blast
      have "\<not> is_privileged_role (u_role target)" using False 2(4) by (auto simp: allowed_def)
      then have "u_id w \<noteq> u_id target" using same_user [OF rows w(1) 2(3)] w(2) admin_roles_distinct(2) by auto
      then show thesis using that w by blast
    qed
    then obtain v where "v \<in> set (users d')" "core v = core w" using acted_others [OF 2(5)] by blast
    moreover have "u_role (core x) = u_role x" "u_forbidden_at (core x) = u_forbidden_at x" for x by (simp_all add: core_def)
    ultimately show ?thesis using w by metis
  qed
qed


subsection \<open>Temporary passwords\<close>

lemma side_trans: "side d1 d2 \<Longrightarrow> side d2 d3 \<Longrightarrow> side d1 d3"
  using side_pre unfolding preorder_rel_def by blast

lemma side_ran: "state_io_rel side m \<Longrightarrow> run_state m d = (x, d') \<Longrightarrow> side d d'"
  unfolding state_io_rel_def by (metis snd_conv)

lemma none_outstanding: "list_all (\<lambda>t. \<not> outstanding i t) (reset_tokens (invalidate_tokens i d))"
  by (simp add: invalidate_tokens_def update_rows_def list.pred_map comp_def outstanding_def) (simp add: list_all_iff)

lemma temppass_shape:
  "length (temppass_of bytes) = 12" "set (temppass_of bytes) \<subseteq> set temppass_alphabet"
proof -
  have "length temppass_alphabet = 57" by code_simp
  then show "length (temppass_of bytes) = 12" "set (temppass_of bytes) \<subseteq> set temppass_alphabet"
    by (auto simp: temppass_of_def temppass_length_def)
qed

lemma temppass_unambiguous: "set temppass_alphabet \<inter> set ''O0Il1'' = {}"
  by code_simp

lemma issue_temporary_password_ok:
  assumes ok: "faults d = []" "find (\<lambda>u. u_email u = email) (users d) = Some admin" "u_role admin = role_admin_global"
    and u: "atoi id_str = Some i" "find (\<lambda>u. u_id u = i) (users d) = Some u" "u_forbidden_at u = None"
    and plain: "plain = temppass_of (random d (draws d))"
    and h: "bcrypt_hash (ident env) (random d (Suc (draws d))) plain = Some h"
  obtains mailed err d' where
    "run_state (issue_temporary_password env r email id_str send_email) d
      = (Answer 200 (TempPasswordJson plain (clock d + temporary_password_validity) mailed err), d')"
    "users d' = update_rows (\<lambda>v. u_id v = i) (\<lambda>v. v\<lparr>u_password_hash := h, u_pw_change_required_at := Some (clock d),
       u_temp_expires_at := Some (clock d + temporary_password_validity), u_temp_issued_by := Some (u_id admin)\<rparr>) (users d)"
    "no_session d' i" "has_resets (ident env) \<Longrightarrow> list_all (\<lambda>t. \<not> outstanding i t) (reset_tokens d')"
proof -
  let ?f = "\<lambda>v. v\<lparr>u_password_hash := h, u_pw_change_required_at := Some (clock d),
       u_temp_expires_at := Some (clock d + temporary_password_validity), u_temp_issued_by := Some (u_id admin)\<rparr>"
  define d1 where "d1 = revoke_all_remember i (update_user_row i ?f (d\<lparr>draws := Suc (Suc (draws d))\<rparr>))"
  define d2 where "d2 = (if has_resets (ident env) then invalidate_tokens i d1 else d1)"
  have id: "u_id u = i" using find_SomeD [OF u(2)] by simp
  obtain x d3 where log: "run_state (log_audit env (u_id admin) (u_email admin) ''TEMPORARY_PASSWORD_ISSUED'' ''USER'' id_str
      (admin_client_ip r) (''Temporary password issued for '' @ u_email u)) d2 = (x, d3)" by (rule prod.exhaust)
  let ?mail = "if send_email then send_template_email_with_vars env email_slug_temporary_password u plain
      [(''login_url'', login_url (ident env)), (''expires_in'', format_validity temporary_password_validity)]
      (u_id admin) (u_email admin) (admin_client_ip r) True else State_Monad.return \<lparr>sent = False, send_err = None\<rparr>"
  obtain out d4 where mail: "run_state ?mail d3 = (out, d4)" by (rule prod.exhaust)
  have "state_io_rel side ?mail" by (intro io_intros side_pre send_template_side)
  then have "side d3 d4" using mail by (rule side_ran)
  then have "side d2 d4" by (rule side_trans [OF side_ran [OF log_audit_side log]])
  note s = sideD [OF this]
  have faultless: "faults d1 = []" using ok(1) by (simp add: d1_def revoke_all_remember_def update_user_row_def)
  have "run_state (issue_temporary_password env r email id_str send_email) d
      = (Answer 200 (TempPasswordJson plain (clock d + temporary_password_validity)
          (sent out \<and> send_err out = None) (map_option goerr_text (send_err out))), d4)"
    using ok u id h log mail faultless
    by (simp add: issue_temporary_password_def require_admin_global_def with_caller_def run_get_user_ok get_user_by_id_def
        is_user_forbidden_def temppass_generate_def plain [symmetric] generate_from_password_def set_temporary_password_def
        write_credential_ok invalidate_for_user_def d2_def d1_def [symmetric] Let_def split: if_splits)
      (elim conjE, hypsubst, simp)+
  moreover have "users d2 = update_rows (\<lambda>v. u_id v = i) ?f (users d)"
    by (simp add: d1_def d2_def invalidate_tokens_def revoke_all_remember_def update_user_row_def)
  moreover have "no_session d2 i" using no_session_revoke_all [of i "update_user_row i ?f (d\<lparr>draws := Suc (Suc (draws d))\<rparr>)"]
    by (simp add: d1_def d2_def invalidate_tokens_def no_session_def)
  moreover have "list_all (\<lambda>t. \<not> outstanding i t) (reset_tokens d2)" if r: "has_resets (ident env)"
    using r none_outstanding [of i d1] by (simp add: d2_def)
  ultimately show thesis using that s by (simp add: no_session_def)
qed

text \<open>C30. A temporary password does what it promises: a global administrator's request for a live account answers
  with twelve characters without \<open>O\<close>, \<open>0\<close>, \<open>I\<close>, \<open>l\<close> or \<open>1\<close> and an end 72 hours later; no remembered session of
  the account stays usable and no link mailed before can reset it; until that end the
  account signs in with the password and is told to change it, afterwards signing in is refused.\<close>

theorem temporary_password_issued:
  assumes ok: "faults d = []" "bcrypt_law (ident env)" "distinct (map u_id (users d))" "distinct (map u_email (users d))"
    and admin: "find (\<lambda>u. u_email u = email) (users d) = Some admin" "u_role admin = role_admin_global"
    and u: "u \<in> set (users d)" "atoi id_str = Some (u_id u)" "u_forbidden_at u = None"
    and h: "\<forall>salt p. length p = 12 \<longrightarrow> bcrypt_hash (ident env) salt p \<noteq> None"
  shows "\<exists>plain mailed err d'. run_state (issue_temporary_password env r email id_str send_email) d
        = (Answer 200 (TempPasswordJson plain (clock d + 72 * hour) mailed err), d')
    \<and> length plain = 12 \<and> set plain \<inter> set ''O0Il1'' = {}
    \<and> (\<forall>s t. s \<in> set (remember_sessions d') \<and> rs_user s = u_id u \<longrightarrow> \<not> remember_session_usable (Some s) t)
    \<and> (\<forall>k t. has_resets (ident env) \<and> k \<in> set (reset_tokens d') \<and> rt_user k = u_id u \<longrightarrow> \<not> reset_token_usable (Some k) t)
    \<and> (\<forall>c q tok. sign_jwt (ident env) (u_email u) (u_role u) (c + jwt_lifetime) = Some tok \<longrightarrow>
        fst (run_state (login (ident env) q (Some \<lparr>lo_email = u_email u, lo_password = plain, lo_remember_me = False\<rparr>))
          (d'\<lparr>clock := c, faults := []\<rparr>))
        = (if c > clock d + 72 * hour then ErrorJson 401 ''temporary_password_expired''
           else Answer 200 (LoginJson tok (user_to_response (Some u)) True None)))"
proof -
  let ?i = "u_id u" let ?plain = "temppass_of (random d (draws d))"
  have plain: "length ?plain = 12" "set ?plain \<inter> set ''O0Il1'' = {}"
    using temppass_shape [of "random d (draws d)"] temppass_unambiguous by blast+
  obtain hash where hash: "bcrypt_hash (ident env) (random d (Suc (draws d))) ?plain = Some hash" using h plain(1) by blast
  let ?g = "\<lambda>v. v\<lparr>u_password_hash := hash, u_pw_change_required_at := Some (clock d),
       u_temp_expires_at := Some (clock d + temporary_password_validity), u_temp_issued_by := Some (u_id admin)\<rparr>"
  have find: "find (\<lambda>v. u_id v = ?i) (users d) = Some u" "find (\<lambda>v. u_email v = u_email u) (users d) = Some u"
    using find_distinct [OF ok(3) u(1)] find_distinct [OF ok(4) u(1)] by simp_all
  obtain mailed err d' where
    run: "run_state (issue_temporary_password env r email id_str send_email) d
      = (Answer 200 (TempPasswordJson ?plain (clock d + temporary_password_validity) mailed err), d')"
    and users: "users d' = update_rows (\<lambda>v. u_id v = ?i) ?g (users d)"
    and rest: "no_session d' ?i" "has_resets (ident env) \<Longrightarrow> list_all (\<lambda>t. \<not> outstanding ?i t) (reset_tokens d')"
    using issue_temporary_password_ok [OF ok(1) admin u(2) find(1) u(3) refl hash] by metis
  have found: "find (\<lambda>v. u_email v = u_email u) (users d') = Some (?g u)"
    unfolding users by (subst find_update_rows) (use find(2) in simp_all)
  have "bcrypt_ok (ident env) hash ?plain" "hash \<noteq> []" using hash ok(2) unfolding bcrypt_law_def by auto
  then have "fst (run_state (login (ident env) q (Some \<lparr>lo_email = u_email u, lo_password = ?plain, lo_remember_me = False\<rparr>))
          (d'\<lparr>clock := c, faults := []\<rparr>))
        = (if c > clock d + 72 * hour then ErrorJson 401 ''temporary_password_expired''
           else Answer 200 (LoginJson tok (user_to_response (Some u)) True None))"
    if "sign_jwt (ident env) (u_email u) (u_role u) (c + jwt_lifetime) = Some tok" for c q tok
    using that found u(3)
    by (subst login_ok [where u = "?g u" and tok = tok])
      (simp_all add: temp_password_expired_def password_change_required_def user_to_response_def temporary_password_validity_def)
  moreover have "\<not> reset_token_usable (Some k) t" if "has_resets (ident env) \<and> k \<in> set (reset_tokens d') \<and> rt_user k = ?i" for k t
    using rest(2) that by (auto simp: list_all_iff outstanding_def reset_token_usable_iff)
  moreover have "\<not> remember_session_usable (Some s) t" if "s \<in> set (remember_sessions d') \<and> rs_user s = ?i" for s t
    using rest(1) that by (auto simp: no_session_def)
  ultimately show ?thesis using run plain unfolding temporary_password_validity_def by blast
qed


subsection \<open>Routes for global administrators\<close>

definition global_requests :: "admin_env \<Rightarrow> http_request \<Rightarrow> string \<Rightarrow> admin_answer io set" where
  "global_requests env r email =
     {list_email_templates env email, h_list_sync_profiles env r email}
     \<union> range (get_email_template env email)
     \<union> range (\<lambda>(slug, body). put_email_template env email slug body)
     \<union> range (\<lambda>(slug, vars). preview_email_template env email slug vars)
     \<union> range (test_email_template env email)
     \<union> range (\<lambda>(i, body). resend_user_email env r email i body)
     \<union> range (\<lambda>(i, send). issue_temporary_password env r email i send)
     \<union> range (send_password_reset env r email)
     \<union> range (h_create_sync_profile env email)
     \<union> range (\<lambda>(i, body). h_update_sync_profile env email i body)
     \<union> range (h_delete_sync_profile env email)
     \<union> range (run_sync_profile env r email)
     \<union> range (list_sync_profile_runs env r email)
     \<union> range (h_get_sync_run env email)"

lemma global_request_guarded: "m \<in> global_requests env r email \<Longrightarrow> \<exists>body. m = require_admin_global email body"
  unfolding global_requests_def list_email_templates_def h_list_sync_profiles_def get_email_template_def
    put_email_template_def preview_email_template_def test_email_template_def resend_user_email_def
    issue_temporary_password_def send_password_reset_def h_create_sync_profile_def h_update_sync_profile_def
    h_delete_sync_profile_def run_sync_profile_def list_sync_profile_runs_def h_get_sync_run_def
  by (elim UnE insertE emptyE rangeE; simp only: split_beta; blast)

text \<open>The templates, the temporary passwords, the reset links and the synchronisation profiles are open to global
  administrators only: with an address that is not the one of such an account, each of these
  requests answers 401 or 403 and changes nothing, whatever role the token names.\<close>

theorem global_admin_routes_guarded:
  assumes run: "m \<in> global_requests env r email" "run_state m d = (a, d')"
    and caller: "\<forall>u \<in> set (users d). u_email u = email \<longrightarrow> u_role u \<noteq> role_admin_global"
  shows "status a \<in> {401, 403} \<and> (\<exists>bs. d' = d\<lparr>faults := bs\<rparr>)"
proof -
  obtain body where "m = require_admin_global email body" using global_request_guarded [OF run(1)] by blast
  with run(2) have "run_state (with_caller email (\<lambda>u. if u_role u \<noteq> role_admin_global then refuse_with 403 ''Forbidden'' else body u)) d
      = (a, d')" by (simp add: require_admin_global_def)
  then show ?thesis
  proof (cases rule: with_caller_cases)
    case refused
    then show ?thesis by (auto simp: untouched_def)
  next
    case (known u d1)
    then have "u_role u \<noteq> role_admin_global" using caller by blast
    then show ?thesis using known by (auto simp: untouched_def)
  qed
qed

section \<open>Witnesses\<close>

definition sample_staff :: db where
  "sample_staff = sample_accounts\<lparr>users := [sample_user\<lparr>u_id := 2, u_email := ''l'', u_role := role_admin_local, u_machine := Some 7\<rparr>,
     sample_user\<lparr>u_id := 3, u_email := ''g'', u_role := role_admin_global, u_machine := Some 7\<rparr>,
     sample_user\<lparr>u_machine := Some 7\<rparr>]\<rparr>"

definition sample_admin_env :: admin_env where
  "sample_admin_env = \<lparr>ident = sample_env, smtp = \<lparr>smtp_host = [], smtp_port = [], smtp_user = [], smtp_pass = [], smtp_from = [],
       dial_and_send = (\<lambda>_ _ _ _. None), mail_frontend_url = []\<rparr>, admin_token = ''t'', has_inventory = True, has_iot = True,
     has_news = True, has_templates = True, has_portal = True\<rparr>"

lemma sample_staff_rows:
  "distinct (map u_id (users sample_staff))" "distinct (map u_email (users sample_staff))" "faults sample_staff = []"
  by (simp_all add: sample_staff_def sample_identity)

theorem local_admin_confined_witness:
  "\<exists>v \<in> set (users (snd (run_state (h_delete_user sample_admin_env sample_request ''l'' ''3'') sample_staff))).
     u_id v = 3 \<and> u_role v = role_admin_global"
proof -
  let ?l = "sample_user\<lparr>u_id := 2, u_email := ''l'', u_role := role_admin_local, u_machine := Some 7\<rparr>"
  let ?g = "sample_user\<lparr>u_id := 3, u_email := ''g'', u_role := role_admin_global, u_machine := Some 7\<rparr>"
  let ?m = "h_delete_user sample_admin_env sample_request ''l'' ''3''"
  obtain a d' where run: "run_state ?m sample_staff = (a, d')" by fastforce
  have l: "?l \<in> set (users sample_staff)" "u_email ?l = ''l''" "u_role ?l = role_admin_local" by (simp_all add: sample_staff_def)
  have m: "?m \<in> account_requests sample_admin_env sample_request ''l'' ''3''" by (simp add: account_requests_def managing_requests_def)
  have g: "?g \<in> set (users sample_staff)" "is_privileged_role (u_role ?g)" by (simp_all add: sample_staff_def admin_roles_distinct)
  obtain v where v: "v \<in> set (users d')" "v\<lparr>u_temp_issued_by := None\<rparr> = ?g\<lparr>u_temp_issued_by := None\<rparr>"
    using local_admin_confined [OF sample_staff_rows(1,2) l m run] g by blast
  have "u_id v = u_id (v\<lparr>u_temp_issued_by := None\<rparr>)" "u_role v = u_role (v\<lparr>u_temp_issued_by := None\<rparr>)" by simp_all
  then have "u_id v = 3 \<and> u_role v = role_admin_global" unfolding v(2) by simp
  then show ?thesis using v(1) run by auto
qed

theorem admin_survives_witness:
  "\<exists>u \<in> set (users (snd (run_state (h_forbid_user sample_admin_env sample_request ''g'' ''3'') sample_staff))).
     u_role u = role_admin_global \<and> u_forbidden_at u = None"
proof -
  obtain a d' where run: "run_state (h_forbid_user sample_admin_env sample_request ''g'' ''3'') sample_staff = (a, d')" by fastforce
  have "\<forall>u \<in> set (users sample_staff). u_email u = ''g'' \<longrightarrow> u_forbidden_at u = None"
    "\<exists>u \<in> set (users sample_staff). u_role u = role_admin_global \<and> u_forbidden_at u = None"
    by (simp_all add: sample_staff_def sample_user_def)
  from admin_survives [where env = sample_admin_env and r = sample_request and id_str = "''3''", OF sample_staff_rows(1) this _ run]
  show ?thesis using run by simp
qed

theorem temporary_password_issued_witness:
  "\<exists>plain mailed err d'. run_state (issue_temporary_password sample_admin_env sample_request ''g'' ''1'' False) sample_staff
        = (Answer 200 (TempPasswordJson plain (72 * hour) mailed err), d')
     \<and> fst (run_state (login sample_env sample_request (Some \<lparr>lo_email = ''a@b'', lo_password = plain, lo_remember_me = False\<rparr>))
          (d'\<lparr>clock := 9, faults := []\<rparr>))
        = Answer 200 (LoginJson ''a@buser'' (user_to_response (Some (sample_user\<lparr>u_machine := Some 7\<rparr>))) True None)"
proof -
  let ?u = "sample_user\<lparr>u_machine := Some 7\<rparr>"
  let ?g = "sample_user\<lparr>u_id := 3, u_email := ''g'', u_role := role_admin_global, u_machine := Some 7\<rparr>"
  have env: "bcrypt_law (ident sample_admin_env)" "\<forall>salt p. length p = 12 \<longrightarrow> bcrypt_hash (ident sample_admin_env) salt p \<noteq> None"
    "ident sample_admin_env = sample_env" "clock sample_staff = 0" "9 \<le> 72 * hour"
    "sign_jwt sample_env ''a@b'' (u_role ?u) (9 + jwt_lifetime) = Some ''a@buser''" "u_email ?u = ''a@b''"
    by (simp_all add: sample_admin_env_def bcrypt_law_def sample_env_def sample_staff_def sample_identity duration_defs)
  have d: "find (\<lambda>u. u_email u = ''g'') (users sample_staff) = Some ?g" "u_role ?g = role_admin_global"
    "?u \<in> set (users sample_staff)" "u_forbidden_at ?u = None"
    by (simp_all add: sample_staff_def sample_user_def)
  have "atoi ''1'' = Some 1" by code_simp
  then have i: "atoi ''1'' = Some (u_id ?u)" by (simp add: sample_user_def)
  show ?thesis
    using temporary_password_issued [OF sample_staff_rows(3) env(1) sample_staff_rows(1,2) d(1-3) i d(4) env(2),
        of sample_request False] env(4-7)
    unfolding env(3) by (metis add_0 linorder_not_less)
qed

theorem global_admin_routes_guarded_witness:
  "status (fst (run_state (send_password_reset sample_admin_env sample_request ''l'' ''1'') sample_staff)) \<in> {401, 403}"
proof -
  let ?m = "send_password_reset sample_admin_env sample_request ''l'' ''1''"
  obtain a d' where run: "run_state ?m sample_staff = (a, d')" by fastforce
  have "?m \<in> global_requests sample_admin_env sample_request ''l''" by (simp add: global_requests_def)
  moreover have "\<forall>u \<in> set (users sample_staff). u_email u = ''l'' \<longrightarrow> u_role u \<noteq> role_admin_global"
    by (simp add: sample_staff_def sample_user_def role_defs)
  ultimately show ?thesis using global_admin_routes_guarded [OF _ run] run by simp
qed

section \<open>The last administrator\<close>

text \<open>
  The guard on the last global administrator covers the deletion only: the change of a role lets the only one
  demote itself.
\<close>

lemma last_admin_may_resign:
  assumes "faults d = []" "users d = [u]" "u_role u = role_admin_global" "atoi id_str = Some (u_id u)"
  shows "\<exists>d'. run_state (h_update_user_role env r (u_email u) id_str (Some role_user)) d = (Answer 200 OkBody, d')
    \<and> users d' = [u\<lparr>u_role := role_user\<rparr>]"
proof -
  let ?d1 = "update_user_row (u_id u) (\<lambda>u. u\<lparr>u_role := role_user\<rparr>) d"
  let ?log = "log_audit env (u_id u) (u_email u) ''UPDATE_ROLE'' ''USER'' id_str (admin_client_ip r)
     (''Updated role for user '' @ id_str @ '' to '' @ role_user)"
  obtain x d' where log: "run_state ?log ?d1 = (x, d')" by (rule prod.exhaust)
  have "users d' = users ?d1" using side_ran [OF log_audit_side log] by (rule sideD(2))
  moreover have "run_state (h_update_user_role env r (u_email u) id_str (Some role_user)) d = (Answer 200 OkBody, d')"
    using assms log
    by (simp add: h_update_user_role_def with_caller_def run_get_user_ok authorize_admin_target_def get_user_by_id_def
        update_user_role_def)
  ultimately show ?thesis using assms(2) by (simp add: update_user_row_def update_rows_def)
qed


end
