(* ===== verification/Regexp.thy ===== *)
theory Regexp
  imports GoText
begin

text \<open>
  The part of Go's package regexp that the program uses. A text is a list of runes; a cursor is a place in a text: the
  rune before it, if any, and the runes after it. \<open>ends\<close> gives the cursors where a match from a cursor
  may end, in the order of preference of package regexp (leftmost-first, greedy repetition), and
  is compared with the relation \<open>matches\<close>, which says what an expression means.
\<close>

section \<open>Expressions\<close>

type_synonym rune = nat
type_synonym cursor = "rune option \<times> rune list"

datatype regex =
    Empty
  | Class "rune \<Rightarrow> bool"
  | Boundary
  | Begin
  | Seq regex regex
  | Alt regex regex
  | Star regex

definition word_rune :: "rune \<Rightarrow> bool" where
  "word_rune r \<longleftrightarrow> 48 \<le> r \<and> r \<le> 57 \<or> 65 \<le> r \<and> r \<le> 90 \<or> r = 95 \<or> 97 \<le> r \<and> r \<le> 122"

definition boundary :: "cursor \<Rightarrow> bool" where
  "boundary c \<longleftrightarrow> (case fst c of None \<Rightarrow> False | Some r \<Rightarrow> word_rune r) \<noteq> (case snd c of [] \<Rightarrow> False | r # _ \<Rightarrow> word_rune r)"

function ends :: "regex \<Rightarrow> cursor \<Rightarrow> cursor list"
  and ends_list :: "regex \<Rightarrow> cursor list \<Rightarrow> cursor list"
  and star_list :: "regex \<Rightarrow> nat \<Rightarrow> cursor list \<Rightarrow> cursor list" where
  "ends Empty c = [c]"
| "ends (Class P) c = (case snd c of [] \<Rightarrow> [] | r # t \<Rightarrow> if P r then [(Some r, t)] else [])"
| "ends Boundary c = (if boundary c then [c] else [])"
| "ends Begin c = (if fst c = None then [c] else [])"
| "ends (Seq a b) c = ends_list b (ends a c)"
| "ends (Alt a b) c = ends a c @ ends b c"
| "ends (Star a) c = star_list a (length (snd c)) (ends a c) @ [c]"
| "ends_list a [] = []"
| "ends_list a (c # cs) = ends a c @ ends_list a cs"
| "star_list a n [] = []"
| "star_list a n (e # es) = (if length (snd e) < n then ends (Star a) e else []) @ star_list a n es"
  by pat_completeness auto
termination
  by (relation "measures [\<lambda>x. case x of Inl (a, c) \<Rightarrow> 2 * size a | Inr (Inl (a, cs)) \<Rightarrow> 2 * size a + 1 | Inr (Inr (a, n, es)) \<Rightarrow> 2 * size (Star a),
      \<lambda>x. case x of Inl (a, c) \<Rightarrow> length (snd c) | Inr (Inl (a, cs)) \<Rightarrow> 0 | Inr (Inr (a, n, es)) \<Rightarrow> n,
      \<lambda>x. case x of Inl (a, c) \<Rightarrow> 1 | Inr (Inl (a, cs)) \<Rightarrow> 0 | Inr (Inr (a, n, es)) \<Rightarrow> 0,
      \<lambda>x. case x of Inl (a, c) \<Rightarrow> 0 | Inr (Inl (a, cs)) \<Rightarrow> length cs | Inr (Inr (a, n, es)) \<Rightarrow> length es]") auto

lemma ends_list_eq: "ends_list a cs = concat (map (ends a) cs)"
  by (induction cs) auto

lemma star_list_eq: "star_list a n es = concat (map (ends (Star a)) (filter (\<lambda>e. length (snd e) < n) es))"
  by (induction es) auto

text \<open>Every place of a text, from the left; \<open>MatchString\<close>; \<open>FindAllStringSubmatch\<close> for an expression
  \<open>pre(group)\<close> that consumes at least one rune: the texts of the group, from the left, without overlap.\<close>

fun places :: "rune option \<Rightarrow> rune list \<Rightarrow> cursor list" where
  "places p [] = [(p, [])]"
| "places p (r # t) = (p, r # t) # places (Some r) t"

definition match_string :: "regex \<Rightarrow> rune list \<Rightarrow> bool" where
  "match_string a t = list_ex (\<lambda>c. ends a c \<noteq> []) (places None t)"

definition capture :: "regex \<Rightarrow> regex \<Rightarrow> cursor \<Rightarrow> (rune list \<times> cursor) option" where
  "capture pre grp c = (case concat (map (\<lambda>m. map (\<lambda>e. (take (length (snd m) - length (snd e)) (snd m), e)) (ends grp m)) (ends pre c)) of
       [] \<Rightarrow> None
     | x # _ \<Rightarrow> Some x)"

function find_all :: "regex \<Rightarrow> regex \<Rightarrow> cursor \<Rightarrow> rune list list" where
  "find_all pre grp c = (case capture pre grp c of
       Some (s, e) \<Rightarrow> if length (snd e) < length (snd c) then s # find_all pre grp e
         else (case snd c of [] \<Rightarrow> [s] | r # t \<Rightarrow> s # find_all pre grp (Some r, t))
     | None \<Rightarrow> (case snd c of [] \<Rightarrow> [] | r # t \<Rightarrow> find_all pre grp (Some r, t)))"
  by pat_completeness auto
termination
  by (relation "measure (\<lambda>(pre, grp, c). length (snd c))") auto

section \<open>Notation of patterns\<close>

definition range_of :: "rune \<Rightarrow> rune \<Rightarrow> rune \<Rightarrow> bool" where
  "range_of lo hi r \<longleftrightarrow> lo \<le> r \<and> r \<le> hi"

definition one_of :: "string \<Rightarrow> rune \<Rightarrow> bool" where
  "one_of s r \<longleftrightarrow> r \<in> set (map byte s)"

definition letter_rune :: "rune \<Rightarrow> bool" where "letter_rune = range_of 97 122"
definition digit_rune :: "rune \<Rightarrow> bool" where "digit_rune = range_of 48 57"
definition space_rune :: "rune \<Rightarrow> bool" where "space_rune r \<longleftrightarrow> r = 9 \<or> r = 10 \<or> r = 12 \<or> r = 13 \<or> r = 32"
definition either_of :: "(rune \<Rightarrow> bool) \<Rightarrow> (rune \<Rightarrow> bool) \<Rightarrow> rune \<Rightarrow> bool" where "either_of P Q r \<longleftrightarrow> P r \<or> Q r"
definition none_of :: "(rune \<Rightarrow> bool) \<Rightarrow> rune \<Rightarrow> bool" where "none_of P r \<longleftrightarrow> \<not> P r"

definition lit :: "string \<Rightarrow> regex" where
  "lit s = foldr (\<lambda>c a. Seq (Class (one_of [c])) a) s Empty"

fun alts :: "regex list \<Rightarrow> regex" where
  "alts [] = Class (\<lambda>_. False)"
| "alts [a] = a"
| "alts (a # as) = Alt a (alts as)"

definition seqs :: "regex list \<Rightarrow> regex" where
  "seqs as = foldr Seq as Empty"

definition maybe :: "regex \<Rightarrow> regex" where "maybe a = Alt a Empty"
definition plus :: "regex \<Rightarrow> regex" where "plus a = Seq a (Star a)"

primrec exactly :: "nat \<Rightarrow> regex \<Rightarrow> regex" where
  "exactly 0 a = Empty"
| "exactly (Suc n) a = Seq a (exactly n a)"

primrec up_to :: "nat \<Rightarrow> regex \<Rightarrow> regex" where
  "up_to 0 a = Empty"
| "up_to (Suc n) a = Alt (Seq a (up_to n a)) Empty"

definition at_least :: "nat \<Rightarrow> regex \<Rightarrow> regex" where
  "at_least n a = Seq (exactly n a) (Star a)"

section \<open>Meaning\<close>

inductive matches :: "regex \<Rightarrow> cursor \<Rightarrow> cursor \<Rightarrow> bool" where
  m_empty: "matches Empty c c"
| m_class: "P r \<Longrightarrow> matches (Class P) (p, r # t) (Some r, t)"
| m_boundary: "boundary c \<Longrightarrow> matches Boundary c c"
| m_begin: "matches Begin (None, t) (None, t)"
| m_seq: "matches a c e \<Longrightarrow> matches b e f \<Longrightarrow> matches (Seq a b) c f"
| m_left: "matches a c e \<Longrightarrow> matches (Alt a b) c e"
| m_right: "matches b c e \<Longrightarrow> matches (Alt a b) c e"
| m_done: "matches (Star a) c c"
| m_more: "matches a c e \<Longrightarrow> matches (Star a) e f \<Longrightarrow> matches (Star a) c f"

inductive_simps matches_simps:
  "matches Empty c e" "matches (Class P) c e" "matches Boundary c e" "matches Begin c e"
  "matches (Seq a b) c e" "matches (Alt a b) c e"

text \<open>A cursor moves over the runes that are matched.\<close>

definition advance :: "cursor \<Rightarrow> rune list \<Rightarrow> rune list \<Rightarrow> cursor" where
  "advance c x t = (if x = [] then fst c else Some (last x), t)"

lemma advance_simps [simp]:
  "snd (advance c x t) = t" "advance c [] (snd c) = c" "advance (p, t) [] t = (p, t)" "advance c [r] t = (Some r, t)"
  "advance (advance c x t) y u = advance c (x @ y) u"
  by (simp_all add: advance_def)

lemma stays: "\<exists>x t. snd c = x @ t \<and> c = advance c x t"
  by (rule exI [of _ "[]"], rule exI [of _ "snd c"]) simp

lemma matches_prefix: "matches a c e \<Longrightarrow> \<exists>x t. snd c = x @ t \<and> e = advance c x t"
proof (induction rule: matches.induct)
  case (m_class P r p t)
  show ?case by (rule exI [of _ "[r]"], rule exI [of _ t]) simp
next
  case (m_seq a c e b f)
  then obtain x t y u where "snd c = x @ t" "e = advance c x t" "snd e = y @ u" "f = advance e y u" by blast
  then show ?case by (intro exI [of _ "x @ y"] exI [of _ u]) simp
next
  case (m_more a c e f)
  then obtain x t y u where "snd c = x @ t" "e = advance c x t" "snd e = y @ u" "f = advance e y u" by blast
  then show ?case by (intro exI [of _ "x @ y"] exI [of _ u]) simp
qed (rule stays | assumption)+

lemma matches_stuck:
  assumes "matches a c e" "\<not> length (snd e) < length (snd c)"
  shows "e = c"
proof -
  obtain x t where "snd c = x @ t" "e = advance c x t" using matches_prefix [OF assms(1)] by blast
  moreover from this have "x = []" using assms(2) by simp
  ultimately show ?thesis by (cases c) simp
qed

lemma ends_sound: "e \<in> set (ends a c) \<Longrightarrow> matches a c e"
proof (induction a arbitrary: c e)
  case (Class P)
  then show ?case by (cases c) (auto intro: matches.intros split: list.splits if_splits)
next
  case Begin
  then show ?case by (cases c) (auto intro: matches.intros split: if_splits)
next
  case (Seq a b)
  then obtain f where "f \<in> set (ends a c)" "e \<in> set (ends b f)" by (auto simp: ends_list_eq)
  then show ?case using Seq.IH by (blast intro: m_seq)
next
  case (Star a)
  show ?case using Star.prems
  proof (induction "length (snd c)" arbitrary: c rule: less_induct)
    case less
    then consider "e = c" | f where "f \<in> set (ends a c)" "length (snd f) < length (snd c)" "e \<in> set (ends (Star a) f)"
      by (auto simp del: ends.simps simp: ends.simps(7) [of a c] star_list_eq)
    then show ?case using less.hyps Star.IH by cases (blast intro: m_done m_more)+
  qed
qed (auto intro: matches.intros split: if_splits)

lemma ends_complete: "matches a c e \<Longrightarrow> e \<in> set (ends a c)"
proof (induction rule: matches.induct)
  case (m_seq a c e b f)
  then show ?case by (auto simp: ends_list_eq)
next
  case (m_more a c e f)
  show ?case
  proof (cases "length (snd e) < length (snd c)")
    case True
    then have "f \<in> set (star_list a (length (snd c)) (ends a c))"
      unfolding star_list_eq set_concat set_map by (intro UN_I [of "ends (Star a) e"] imageI) (use m_more in simp_all)
    then show ?thesis by simp
  next
    case False
    then have "e = c" by (rule matches_stuck [OF m_more(1)])
    then show ?thesis using m_more by simp
  qed
qed auto

lemma ends_iff: "e \<in> set (ends a c) \<longleftrightarrow> matches a c e"
  using ends_sound ends_complete by blast

lemma ends_nonempty: "ends a c \<noteq> [] \<longleftrightarrow> (\<exists>e. matches a c e)"
  unfolding ends_iff [symmetric] by (cases "ends a c") auto

lemma places_iff: "c \<in> set (places p t) \<longleftrightarrow> (\<exists>x y. t = x @ y \<and> c = advance (p, t) x y)"
proof (induction t arbitrary: p)
  case Nil
  then show ?case by (auto simp: advance_def)
next
  case (Cons r t)
  have eq: "(\<exists>x y. r # t = x @ y \<and> c = advance (p, r # t) x y)
      \<longleftrightarrow> c = (p, r # t) \<or> (\<exists>x y. t = x @ y \<and> c = advance (p, r # t) (r # x) y)"
  proof
    assume "\<exists>x y. r # t = x @ y \<and> c = advance (p, r # t) x y"
    then obtain x y where xy: "r # t = x @ y" "c = advance (p, r # t) x y" by blast
    then show "c = (p, r # t) \<or> (\<exists>x y. t = x @ y \<and> c = advance (p, r # t) (r # x) y)" by (cases x) auto
  next
    assume "c = (p, r # t) \<or> (\<exists>x y. t = x @ y \<and> c = advance (p, r # t) (r # x) y)"
    then show "\<exists>x y. r # t = x @ y \<and> c = advance (p, r # t) x y"
      by (elim disjE exE conjE) (rule exI [of _ "[]"], simp, rule exI, rule exI, rule conjI [rotated], assumption, simp)
  qed
  have "advance (p, r # t) (r # x) y = advance (Some r, t) x y" for x y by (simp add: advance_def)
  then show ?case unfolding eq using Cons by simp
qed

lemma match_string_iff: "match_string a t \<longleftrightarrow> (\<exists>x y e. t = x @ y \<and> matches a (advance (None, t) x y) e)"
  unfolding match_string_def list_ex_iff ends_nonempty Bex_def places_iff by blast

section \<open>Runs of a class\<close>

lemma advance_Cons: "advance (p, r # x @ t) (r # x) t = advance (Some r, x @ t) x t"
  by (simp add: advance_def)

lemma match_star_class: "list_all P x \<Longrightarrow> matches (Star (Class P)) (p, x @ t) (advance (p, x @ t) x t)"
proof (induction x arbitrary: p)
  case Nil
  then show ?case using m_done [of _ "(p, t)"] by simp
next
  case (Cons r x)
  then have "matches (Class P) (p, r # x @ t) (Some r, x @ t)" by (simp add: m_class)
  then show ?case using Cons.IH [of "Some r"] Cons.prems m_more by (simp add: advance_Cons)
qed

lemma match_exactly_class:
  "list_all P x \<Longrightarrow> matches (exactly (length x) (Class P)) (p, x @ t) (advance (p, x @ t) x t)"
proof (induction x arbitrary: p)
  case Nil
  then show ?case by (simp add: m_empty)
next
  case (Cons r x)
  then have "matches (Class P) (p, r # x @ t) (Some r, x @ t)" by (simp add: m_class)
  then show ?case using Cons.IH [of "Some r"] Cons.prems m_seq by (simp add: advance_Cons)
qed

lemma match_at_least_class:
  assumes "list_all P x" "n \<le> length x"
  shows "matches (at_least n (Class P)) (p, x @ t) (advance (p, x @ t) x t)"
proof -
  let ?u = "take n x" and ?v = "drop n x"
  have uv: "list_all P ?u" "list_all P ?v" "length ?u = n" "x @ t = ?u @ ?v @ t" using assms by (auto simp: list_all_iff dest: in_set_takeD in_set_dropD)
  let ?c = "advance (p, x @ t) ?u (?v @ t)"
  have "matches (exactly n (Class P)) (p, x @ t) ?c" using match_exactly_class [OF uv(1), of p "?v @ t"] unfolding uv(3) uv(4) [symmetric] .
  moreover have "matches (Star (Class P)) ?c (advance ?c ?v t)"
    using match_star_class [OF uv(2), of "fst ?c" t] by (simp add: advance_def)
  ultimately show ?thesis unfolding at_least_def by (auto intro: m_seq)
qed

lemma match_plus_class: "list_all P x \<Longrightarrow> x \<noteq> [] \<Longrightarrow> matches (plus (Class P)) (p, x @ t) (advance (p, x @ t) x t)"
  using match_at_least_class [of P x "Suc 0" p t]
  by (cases x) (auto simp: at_least_def plus_def matches_simps)

lemma match_lit: "matches (lit s) (p, map byte s @ t) (advance (p, map byte s @ t) (map byte s) t)"
proof (induction s arbitrary: p)
  case Nil
  then show ?case by (simp add: lit_def m_empty)
next
  case (Cons c s)
  have "matches (Class (one_of [c])) (p, byte c # map byte s @ t) (Some (byte c), map byte s @ t)"
    by (simp add: m_class one_of_def)
  then show ?case using Cons [of "Some (byte c)"] m_seq by (simp add: lit_def advance_Cons)
qed

text \<open>Matches follow each other along a text.\<close>

lemma match_seqs_Nil: "matches (seqs []) c c"
  by (simp add: seqs_def m_empty)

lemma match_seqs_Cons: "matches a c e \<Longrightarrow> matches (seqs as) e f \<Longrightarrow> matches (seqs (a # as)) c f"
  by (auto simp: seqs_def intro: m_seq)

section \<open>Short texts\<close>

text \<open>The least number of runes that a match takes.\<close>

primrec min_len :: "regex \<Rightarrow> nat" where
  "min_len Empty = 0"
| "min_len (Class P) = 1"
| "min_len Boundary = 0"
| "min_len Begin = 0"
| "min_len (Seq a b) = min_len a + min_len b"
| "min_len (Alt a b) = min (min_len a) (min_len b)"
| "min_len (Star a) = 0"

lemma matches_min_len: "matches a c e \<Longrightarrow> min_len a + length (snd e) \<le> length (snd c)"
  by (induction rule: matches.induct) auto

lemma no_short_match: "length t < min_len a \<Longrightarrow> \<not> match_string a t"
  unfolding match_string_iff using matches_min_len by fastforce

lemma no_short_capture: "length (snd c) < min_len pre + min_len grp \<Longrightarrow> capture pre grp c = None"
proof -
  assume short: "length (snd c) < min_len pre + min_len grp"
  have "ends grp m = []" if "m \<in> set (ends pre c)" for m
    using ends_nonempty [of grp m] matches_min_len [of grp m] matches_min_len [OF ends_sound [OF that]] short by fastforce
  then have "concat (map (\<lambda>m. map (\<lambda>e. (take (length (snd m) - length (snd e)) (snd m), e)) (ends grp m)) (ends pre c)) = []"
    by simp
  then show ?thesis unfolding capture_def by (simp only: list.case)
qed

lemma no_short_find: "length t < min_len pre + min_len grp \<Longrightarrow> find_all pre grp (p, t) = []"
proof (induction t arbitrary: p)
  case Nil
  then show ?case using no_short_capture [of "(p, [])"] by simp
next
  case (Cons r t)
  then show ?case using no_short_capture [of "(p, r # t)"] by simp
qed

end
