(* ===== verification/Sensitive.thy ===== *)
theory Sensitive
  imports Regexp
begin

text \<open>
  The refusal of sensitive text in support reports (internal/support/sensitive.go): the patterns, the
  folding of case and accents before they run, and the category of the first one found.
\<close>

section \<open>Normalisation\<close>

text \<open>
  \<open>strings.ToLower\<close> on one rune, for the runes that it or the folding of accents sends into ASCII; the
  patterns do not tell other runes outside ASCII apart.
\<close>

definition lower_case :: "rune \<Rightarrow> rune" where
  "lower_case r =
     (if 65 \<le> r \<and> r \<le> 90 \<or> 192 \<le> r \<and> r \<le> 222 \<and> r \<noteq> 215 then r + 32
      else if r = 376 then 255 else if r = 338 then 339 else if r = 304 then 105 else if r = 8490 then 107 else r)"

definition accents :: "(rune list \<times> string) list" where
  "accents = [([224, 226, 228, 225], ''a''), ([231], ''c''), ([233, 232, 234, 235], ''e''), ([238, 239, 237], ''i''),
     ([244, 246, 243], ''o''), ([249, 251, 252, 250], ''u''), ([255], ''y''), ([339], ''oe''), ([230], ''ae''),
     ([8217], [CHR 0x27])]"

definition fold_accent :: "rune \<Rightarrow> rune list" where
  "fold_accent r = (case find (\<lambda>p. r \<in> set (fst p)) accents of None \<Rightarrow> [r] | Some p \<Rightarrow> map byte (snd p))"

definition normalise :: "string \<Rightarrow> rune list" where
  "normalise s = concat (map (\<lambda>p. fold_accent (lower_case (fst p))) (runes s))"

lemma runes_ascii: "byte c < 128 \<Longrightarrow> runes (c # s) = (byte c, 1) # runes s"
  by (subst runes.simps) (simp add: Let_def width_def)

lemma normalise_ascii:
  assumes "list_all (\<lambda>c. byte c < 128 \<and> \<not> (65 \<le> byte c \<and> byte c \<le> 90)) s"
  shows "normalise s = map byte s"
proof -
  have "fold_accent (lower_case r) = [r]" if "r < 128 \<and> \<not> (65 \<le> r \<and> r \<le> 90)" for r
    using that by (auto simp: lower_case_def fold_accent_def accents_def)
  then show ?thesis using assms by (induction s) (simp_all add: normalise_def runes_ascii)
qed

section \<open>Patterns\<close>

definition category_password :: string where "category_password = ''password''"
definition category_secret :: string where "category_secret = ''secret''"
definition category_postal_address :: string where "category_postal_address = ''postal_address''"
definition category_email :: string where "category_email = ''email''"

datatype rule = Pattern string regex | Postcode string regex regex

fun rule_category :: "rule \<Rightarrow> string" where
  "rule_category (Pattern c _) = c"
| "rule_category (Postcode c _ _) = c"

definition spaces :: regex where "spaces = Star (Class space_rune)"
definition not_space :: regex where "not_space = Class (none_of space_rune)"
definition words :: "string list \<Rightarrow> regex" where "words ws = alts (map lit ws)"
definition az09 :: "string \<Rightarrow> rune \<Rightarrow> bool" where
  "az09 extra = either_of letter_rune (either_of digit_rune (one_of extra))"
definition space_or_dash :: regex where "space_or_dash = Class (one_of '' -'')"
definition mot_de_passe :: regex where
  "mot_de_passe = seqs [lit ''mot'', space_or_dash, lit ''de'', space_or_dash, lit ''passe'']"

definition password_given :: regex where
  "password_given = seqs [Boundary,
     alts [mot_de_passe, words [''mdp'', ''password'', ''passwd'', ''pwd'', ''passcode'', ''pin''],
       seqs [lit ''code d'', maybe (lit [CHR 0x27]), lit ''acces''], words [''code acces'', ''code wifi'', ''cle wifi'']],
     spaces, maybe (words [''est'', ''is'']), spaces, Class (one_of '':=''), spaces, plus not_space]"

definition password_is :: regex where
  "password_is = seqs [Boundary, Alt mot_de_passe (words [''mdp'', ''password'', ''passwd'']),
     plus (Class space_rune), words [''est'', ''is'', ''c'' @ [CHR 0x27] @ ''est''], plus (Class space_rune), at_least 4 not_space]"

definition json_web_token :: regex where
  "json_web_token = (let part = at_least 8 (Class (az09 ''_-'')) in seqs [lit ''eyj'', part, lit ''.'', part, lit ''.'', part])"

definition private_key :: regex where
  "private_key = seqs [lit ''-----begin '', Star (Class (either_of letter_rune (one_of '' ''))), lit ''private key-----'']"

definition provider_key :: regex where
  "provider_key = alts [
     seqs [Boundary, words [''ghp'', ''gho'', ''ghs'', ''ghu'', ''ghr''], lit ''_'', at_least 20 (Class (az09 []))],
     seqs [Boundary, lit ''github_pat_'', at_least 20 (Class (az09 ''_''))],
     seqs [Boundary, lit ''sk-'', at_least 20 (Class (az09 ''_-''))],
     seqs [Boundary, lit ''akia'', exactly 16 (Class (az09 [])), Boundary],
     seqs [Boundary, lit ''nrak-'', at_least 20 (Class (az09 []))],
     seqs [Boundary, lit ''nrjs-'', at_least 10 (Class (az09 []))],
     seqs [Boundary, lit ''atatt'', at_least 20 (Class (az09 ''_=-''))]]"

definition hex_secret :: regex where
  "hex_secret = seqs [Boundary, at_least 32 (Class (either_of digit_rune (range_of 97 102))), Boundary]"

definition base64_secret :: regex where
  "base64_secret = Seq (at_least 40 (Class (az09 ''+/''))) (up_to 2 (lit ''=''))"

definition email_address :: regex where
  "email_address = seqs [plus (Class (az09 ''._%+-'')), lit ''@'', plus (Class (az09 ''.-'')), lit ''.'',
     at_least 2 (Class letter_rune)]"

definition street :: regex where
  "street = seqs [Boundary, Class digit_rune, up_to 3 (Class digit_rune), spaces, maybe (words [''bis'', ''ter'']), spaces,
     maybe (lit '',''), spaces,
     alts [words [''rue'', ''avenue'', ''av'', ''bd'', ''boulevard'', ''chemin'', ''allee'', ''impasse'', ''place'', ''route'', ''quai'', ''cours''],
       seqs [lit ''lieu'', space_or_dash, lit ''dit''],
       words [''residence'', ''square'', ''chaussee'', ''faubourg'', ''hameau'', ''lotissement'', ''sentier'', ''voie'']],
     Boundary, maybe (lit ''.''), plus (Class space_rune), plus not_space]"

definition postcode :: regex where
  "postcode = seqs [Alt Begin (Class (none_of (either_of digit_rune (one_of ''.,:'')))), exactly 5 (Class digit_rune), plus (Class space_rune)]"

definition city :: regex where
  "city = Seq (Class letter_rune) (at_least 2 (Class (either_of letter_rune (one_of [CHR 0x27, CHR ''-'']))))"

definition rules :: "rule list" where
  "rules = [Pattern category_password password_given, Pattern category_password password_is,
     Pattern category_secret json_web_token, Pattern category_secret private_key, Pattern category_secret provider_key,
     Pattern category_secret hex_secret, Pattern category_secret base64_secret, Pattern category_email email_address,
     Pattern category_postal_address street, Postcode category_postal_address postcode city]"

definition not_city_words :: "string list" where
  "not_city_words = [''ms'', ''sec'', ''secondes'', ''seconds'', ''minutes'', ''octets'', ''bytes'', ''lux'', ''watts'', ''kwh'',
     ''requetes'', ''requests'', ''lignes'', ''lines'', ''fois'', ''times'', ''tours'', ''points'', ''erreurs'', ''errors'',
     ''messages'', ''euros'', ''eur'', ''port'', ''ports'', ''tests'', ''items'', ''entrees'']"

fun hits :: "rune list \<Rightarrow> rule \<Rightarrow> bool" where
  "hits n (Pattern _ a) = match_string a n"
| "hits n (Postcode _ pre grp) = list_ex (\<lambda>w. w \<notin> set (map (map byte) not_city_words)) (find_all pre grp (None, n))"

definition detect_sensitive :: "string \<Rightarrow> string" where
  "detect_sensitive s = (case find (hits (normalise s)) rules of None \<Rightarrow> [] | Some r \<Rightarrow> rule_category r)"

section \<open>What is refused\<close>

text \<open>Nothing sensitive is found exactly when no pattern has a match anywhere in the normalised text, and every word
  found after five digits is a technical one.\<close>

lemma detect_sensitive_spec:
  "detect_sensitive s = [] \<longleftrightarrow>
     (\<forall>c a. Pattern c a \<in> set rules \<longrightarrow> \<not> (\<exists>x y e. normalise s = x @ y \<and> matches a (advance (None, normalise s) x y) e))
     \<and> (\<forall>w \<in> set (find_all postcode city (None, normalise s)). w \<in> set (map (map byte) not_city_words))"
proof -
  have "rule_category r \<noteq> []" if "r \<in> set rules" for r
    using that by (auto simp: rules_def category_password_def category_secret_def category_email_def category_postal_address_def)
  then have "detect_sensitive s = [] \<longleftrightarrow> (\<forall>r \<in> set rules. \<not> hits (normalise s) r)"
    unfolding detect_sensitive_def by (auto simp: find_None_iff split: option.splits dest: find_SomeD)
  also have "\<dots> \<longleftrightarrow> (\<forall>c a. Pattern c a \<in> set rules \<longrightarrow> \<not> match_string a (normalise s))
      \<and> (\<forall>c a b. Postcode c a b \<in> set rules \<longrightarrow> \<not> hits (normalise s) (Postcode c a b))"
    by (metis hits.simps(1) rule.exhaust)
  also have "(\<forall>c a b. Postcode c a b \<in> set rules \<longrightarrow> \<not> hits (normalise s) (Postcode c a b))
      \<longleftrightarrow> (\<forall>w \<in> set (find_all postcode city (None, normalise s)). w \<in> set (map (map byte) not_city_words))"
    by (auto simp: rules_def list_ex_iff simp del: find_all.simps)
  finally show ?thesis unfolding match_string_iff .
qed

lemma pattern_refused:
  assumes "Pattern c a \<in> set rules" "normalise s = x @ y" "matches a (advance (None, normalise s) x y) e"
  shows "detect_sensitive s \<noteq> []"
  using assms detect_sensitive_spec by blast

lemma match_email:
  assumes "list_all (az09 ''._%+-'') u" "u \<noteq> []" "list_all (az09 ''.-'') v" "v \<noteq> []" "list_all letter_rune w" "2 \<le> length w"
  shows "\<exists>e. matches email_address (p, u @ map byte ''@'' @ v @ map byte ''.'' @ w @ t) e"
  unfolding email_address_def
  by (rule exI, (rule match_seqs_Cons, rule match_plus_class match_lit match_at_least_class, ((rule assms)+)?, unfold advance_def)+)
    (rule match_seqs_Nil)

text \<open>A text that mentions an e-mail address, and one with a run of at least forty letters, digits, plus signs and slashes.\<close>

definition mentions_email :: "string \<Rightarrow> bool" where
  "mentions_email s \<longleftrightarrow> (\<exists>x u v w y. normalise s = x @ u @ map byte ''@'' @ v @ map byte ''.'' @ w @ y
     \<and> list_all (az09 ''._%+-'') u \<and> u \<noteq> [] \<and> list_all (az09 ''.-'') v \<and> v \<noteq> [] \<and> list_all letter_rune w \<and> 2 \<le> length w)"

definition mentions_key :: "string \<Rightarrow> bool" where
  "mentions_key s \<longleftrightarrow> (\<exists>x u y. normalise s = x @ u @ y \<and> list_all (az09 ''+/'') u \<and> 40 \<le> length u)"

lemma email_refused:
  assumes "mentions_email s"
  shows "detect_sensitive s \<noteq> []"
proof -
  obtain x u v w y where s: "normalise s = x @ u @ map byte ''@'' @ v @ map byte ''.'' @ w @ y"
    "list_all (az09 ''._%+-'') u" "u \<noteq> []" "list_all (az09 ''.-'') v" "v \<noteq> []" "list_all letter_rune w" "2 \<le> length w"
    using assms unfolding mentions_email_def by blast
  let ?y = "u @ map byte ''@'' @ v @ map byte ''.'' @ w @ y"
  obtain e where "matches email_address (advance (None, normalise s) x ?y) e"
    using match_email [OF s(2-7)] unfolding advance_def by blast
  moreover have "Pattern category_email email_address \<in> set rules" by (simp add: rules_def)
  ultimately show ?thesis using pattern_refused s(1) by blast
qed

lemma long_run_refused:
  assumes "mentions_key s"
  shows "detect_sensitive s \<noteq> []"
proof -
  obtain x u y where s: "normalise s = x @ u @ y" "list_all (az09 ''+/'') u" "40 \<le> length u"
    using assms unfolding mentions_key_def by blast
  let ?c = "advance (None, normalise s) x (u @ y)"
  have "matches (at_least 40 (Class (az09 ''+/''))) ?c (advance ?c u y)"
    using match_at_least_class [OF s(2,3), of "fst ?c" y] by (simp add: advance_def)
  moreover have "matches (up_to 2 b) d d" for b d by (simp add: numeral_2_eq_2 m_right m_empty)
  ultimately have "matches base64_secret ?c (advance ?c u y)" unfolding base64_secret_def by (rule m_seq)
  moreover have "Pattern category_secret base64_secret \<in> set rules" by (simp add: rules_def)
  ultimately show ?thesis using pattern_refused s(1) by blast
qed


text \<open>A text of fewer than five runes is never refused.\<close>

lemma short_text_safe:
  assumes "length (normalise s) < 5"
  shows "detect_sensitive s = []"
proof -
  have "list_all (\<lambda>r. case r of Pattern _ a \<Rightarrow> 5 \<le> min_len a | Postcode _ a b \<Rightarrow> 5 \<le> min_len a + min_len b) rules"
    by code_simp
  then have "\<not> hits (normalise s) r" if "r \<in> set rules" for r
    using that assms no_short_match [of "normalise s"] no_short_find [of "normalise s"]
    by (cases r) (fastforce simp: list_all_iff simp del: find_all.simps)+
  then have "find (hits (normalise s)) rules = None" unfolding find_None_iff by blast
  then show ?thesis unfolding detect_sensitive_def by simp
qed


end
