(* ===== verification/Reports.thy ===== *)
theory Reports
  imports Sensitive Middleware
begin

text \<open>
  Support reports as they are stored and as they are shown (internal/data/support_report_store.go,
  internal/support: render.go, pseudonym.go): the table with its statuses, the text of the issue that is opened for a report, and
  the references that stand for the account and the report. HMAC with SHA-256 is a parameter.
\<close>

section \<open>Store\<close>

definition support_status_pending :: string where "support_status_pending = ''pending''"
definition support_status_open :: string where "support_status_open = ''open''"
definition support_status_resolved :: string where "support_status_resolved = ''resolved''"
definition support_status_closed :: string where "support_status_closed = ''closed''"

definition kind_bug :: string where "kind_bug = ''bug''"
definition kind_incident :: string where "kind_incident = ''incident''"

text \<open>\<open>Create\<close> returns the row with what the database filled in.\<close>

definition create_report :: "string \<Rightarrow> int \<Rightarrow> string \<Rightarrow> string \<Rightarrow> payload \<Rightarrow> support_report dbop" where
  "create_report ref user_id kind title payload = sql (\<lambda>d.
     if list_ex (\<lambda>r. rp_ref r = ref) (support_reports d) then (Inl UniqueViolation, d)
     else if \<not> list_ex (\<lambda>u. u_id u = user_id) (users d) then (Inl ForeignKeyViolation, d)
     else if kind \<noteq> kind_bug \<and> kind \<noteq> kind_incident then (Inl CheckViolation, d)
     else (let r = \<lparr>rp_id = nextval ''support_reports'' d, rp_ref = ref, rp_user = user_id, rp_kind = kind, rp_title = title,
             rp_payload = payload, rp_status = support_status_pending, rp_repo = None, rp_issue_number = None,
             rp_issue_url = None, rp_attempts = 0, rp_last_error = None, rp_created_at = clock d,
             rp_updated_at = clock d, rp_synced_at = None\<rparr> in
       (Inr r, (bump ''support_reports'' d)\<lparr>support_reports := support_reports d @ [r]\<rparr>)))"

definition list_by_user :: "int \<Rightarrow> support_report list dbop" where
  "list_by_user user_id = query (\<lambda>d. Inr (limit_rows 200
     (order_desc rp_created_at (order_desc rp_id (filter (\<lambda>r. rp_user r = user_id) (support_reports d))))))"

definition reports_since :: "int \<Rightarrow> instant \<Rightarrow> db \<Rightarrow> support_report list" where
  "reports_since user_id since d = filter (\<lambda>r. rp_user r = user_id \<and> since < rp_created_at r) (support_reports d)"

definition count_since :: "int \<Rightarrow> instant \<Rightarrow> (int \<times> instant) dbop" where
  "count_since user_id since = query (\<lambda>d. let rs = reports_since user_id since d in
     Inr (int (length rs), if rs = [] then zero_time else Min (set (map rp_created_at rs))))"

definition set_report :: "int \<Rightarrow> (support_report \<Rightarrow> support_report) \<Rightarrow> db \<Rightarrow> db" where
  "set_report i f d = d\<lparr>support_reports := update_rows (\<lambda>r. rp_id r = i) f (support_reports d)\<rparr>"

definition mark_sent :: "int \<Rightarrow> string \<Rightarrow> int \<Rightarrow> string \<Rightarrow> unit dbop" where
  "mark_sent i repo number url = exec (\<lambda>d. set_report i (\<lambda>r. r\<lparr>rp_status := support_status_open, rp_repo := Some repo,
     rp_issue_number := Some number, rp_issue_url := Some url, rp_payload := Cleared, rp_last_error := None,
     rp_attempts := rp_attempts r + 1, rp_updated_at := clock d, rp_synced_at := Some (clock d)\<rparr>) d)"

definition mark_failed :: "int \<Rightarrow> string \<Rightarrow> unit dbop" where
  "mark_failed i msg = exec (\<lambda>d. set_report i (\<lambda>r. r\<lparr>rp_attempts := rp_attempts r + 1, rp_last_error := Some (take 300 msg),
     rp_updated_at := clock d\<rparr>) d)"

definition backoff :: "int \<Rightarrow> duration" where
  "backoff attempts = minute * 2 ^ nat (attempts - 1)"

definition list_pending :: "int \<Rightarrow> support_report list dbop" where
  "list_pending limit = query (\<lambda>d. Inr (limit_rows limit (order_asc rp_created_at (filter (\<lambda>r.
     rp_status r = support_status_pending \<and> rp_attempts r < 10
     \<and> (rp_attempts r = 0 \<or> rp_updated_at r < clock d - backoff (rp_attempts r))) (support_reports d)))))"

text \<open>\<open>NULLS FIRST\<close>: the reports never read back come first.\<close>

definition list_open_to_sync :: "instant \<Rightarrow> int \<Rightarrow> support_report list dbop" where
  "list_open_to_sync older_than limit = query (\<lambda>d.
     let rs = filter (\<lambda>r. rp_status r = support_status_open
           \<and> (case rp_synced_at r of None \<Rightarrow> True | Some t \<Rightarrow> t < older_than)) (support_reports d) in
     Inr (limit_rows limit (filter (\<lambda>r. rp_synced_at r = None) rs
       @ order_asc (\<lambda>r. the (rp_synced_at r)) (filter (\<lambda>r. rp_synced_at r \<noteq> None) rs))))"

definition update_report_status :: "int \<Rightarrow> string \<Rightarrow> unit dbop" where
  "update_report_status i st = exec (\<lambda>d. set_report i (\<lambda>r. r\<lparr>rp_status := st, rp_synced_at := Some (clock d),
     rp_updated_at := if rp_status r = st then rp_updated_at r else clock d\<rparr>) d)"

text \<open>
  \<open>WithSyncLock\<close>: a dedicated connection, \<open>pg_try_advisory_lock\<close> on it, the body, and the unlock, whose error is ignored.
\<close>

definition err_sync_lock_busy :: goerr where
  "err_sync_lock_busy = Errorf ''support sync lock held by another instance''"

definition with_sync_lock :: "unit dbop \<Rightarrow> unit dbop" where
  "with_sync_lock body = andThen (exec id) (\<lambda>_. andThen (query (\<lambda>d. Inr (\<not> sync_lock_held d))) (\<lambda>got.
     if got then do { r \<leftarrow> body; ignore (exec id); State_Monad.return r }
     else State_Monad.return (Inl err_sync_lock_busy)))"

section \<open>References\<close>

text \<open>\<open>base32.StdEncoding\<close> without padding.\<close>

definition b32_alphabet :: string where "b32_alphabet = ''ABCDEFGHIJKLMNOPQRSTUVWXYZ234567''"

definition byte_bits :: "char \<Rightarrow> bool list" where
  "byte_bits c = map (\<lambda>i. odd (byte c div 2 ^ i)) [7, 6, 5, 4, 3, 2, 1, 0]"

definition bits_value :: "bool list \<Rightarrow> nat" where
  "bits_value bs = foldl (\<lambda>n b. 2 * n + (if b then 1 else 0)) 0 bs"

fun b32_digits :: "bool list \<Rightarrow> string" where
  "b32_digits [] = []"
| "b32_digits (b # bs) = b32_alphabet ! (bits_value (take 5 (b # bs @ [False, False, False, False])) mod 32) # b32_digits (drop 4 bs)"

definition b32_encode :: "string \<Rightarrow> string" where
  "b32_encode s = b32_digits (concat (map byte_bits s))"

definition user_pseudonym :: "(string \<Rightarrow> string \<Rightarrow> string) \<Rightarrow> string \<Rightarrow> int \<Rightarrow> string" where
  "user_pseudonym hmac key user_id = ''U-'' @ take 8 (b32_encode (hmac key (itoa user_id)))"

text \<open>Five random bytes, read off a draw.\<close>

definition new_report_ref :: "string io" where
  "new_report_ref = do { bytes \<leftarrow> draw; State_Monad.return (''R-'' @ b32_encode (take 5 (bytes @ replicate 5 (CHR 0x00)))) }"

section \<open>Rendering\<close>

definition e_acute :: string where "e_acute = [CHR 0xC3, CHR 0xA9]"
definition nl :: string where "nl = [CHR 0x0A]"

definition app_labels :: "(string \<times> string) list" where
  "app_labels = [(''web'', ''Portail web''), (''ios'', ''App iPhone''), (''android'', ''App Android''),
     (''gateway'', ''Gateway locale''), (''other'', ''Autre'')]"

definition mode_labels :: "(string \<times> string) list" where
  "mode_labels = [(''cloud'', ''Cloud (mon.essensys.fr)''), (''lan'', ''R'' @ e_acute @ ''seau local''), (''unknown'', ''Je ne sais pas'')]"

definition impact_labels :: "(string \<times> string) list" where
  "impact_labels = [(''module'', ''Un module''), (''local'', ''Toute la domotique locale''),
     (''remote'', ''Acc'' @ [CHR 0xC3, CHR 0xA8] @ ''s distant / portail cloud''),
     (''hardware'', ''Mat'' @ e_acute @ ''riel, alimentation ou r'' @ e_acute @ ''seau''), (''unknown'', ''Je ne sais pas'')]"

text \<open>A Go map gives the empty string for a missing key.\<close>

definition label_of :: "(string \<times> string) list \<Rightarrow> string \<Rightarrow> string" where
  "label_of labels k = (case map_of labels k of None \<Rightarrow> [] | Some v \<Rightarrow> v)"

definition zero_width_space :: string where "zero_width_space = [CHR 0xE2, CHR 0x80, CHR 0x8B]"

definition neutralise :: "string \<Rightarrow> string" where
  "neutralise s = replace_char (CHR ''@'') (CHR ''@'' # zero_width_space) (replace_char (CHR ''>'') ''&gt;''
     (replace_char (CHR ''<'') ''&lt;'' (replace_char (CHR ''&'') ''&amp;'' s)))"

definition issue_title :: "string \<Rightarrow> string \<Rightarrow> string" where
  "issue_title kind title = (if kind = kind_incident then ''[Incident] '' else ''[Bug] '')
     @ replace_char (CHR 0x0A) '' '' (neutralise (trim_space title))"

definition body_row :: "string \<Rightarrow> string \<Rightarrow> string" where
  "body_row label v = (if v = [] then [] else ''| '' @ label @ '' | '' @ replace_char (CHR ''|'') [CHR 0x5C, CHR ''|''] (neutralise v) @ '' |'' @ nl)"

definition body_section :: "string \<Rightarrow> string \<Rightarrow> string" where
  "body_section title v = (if trim_space v = [] then [] else nl @ ''### '' @ title @ nl @ nl @ neutralise (trim_space v) @ nl)"

definition issue_body :: "string \<Rightarrow> report_fields \<Rightarrow> string \<Rightarrow> string \<Rightarrow> string" where
  "issue_body kind f user_ref report_ref =
     ''| Champ | Valeur |'' @ nl @ ''|---|---|'' @ nl
     @ (if kind = kind_bug
        then body_row ''Application'' (label_of app_labels (rf_app f)) @ body_row ''Version'' (rf_version f)
          @ body_row ''Connexion'' (label_of mode_labels (rf_mode f))
        else body_row ''Impact'' (label_of impact_labels (rf_impact f)) @ body_row ''Depuis'' (rf_since f)
          @ body_row ''Connexion'' (label_of mode_labels (rf_mode f)))
     @ body_section ''Ce qui se passe'' (rf_actual f)
     @ body_section (''Ce qui '' @ e_acute @ ''tait attendu'') (rf_expected f)
     @ body_section ([CHR 0xC3, CHR 0x89] @ ''tapes pour reproduire'') (rf_steps f)
     @ body_section (''Ce qui a d'' @ e_acute @ ''j'' @ [CHR 0xC3, CHR 0xA0] @ '' '' @ e_acute @ ''t'' @ e_acute @ '' essay'' @ e_acute) (rf_tried f)
     @ nl @ ''---'' @ nl @ ''Signal'' @ e_acute @ '' depuis www.essensys.fr par un utilisateur Essensys ('' @ user_ref @ '', r'' @ e_acute
     @ ''f. '' @ report_ref @ '').'' @ nl"

section \<open>Library: neutral text\<close>

text \<open>Text that a site shows as it is written: no angle bracket, and no at sign that could start a mention.\<close>

fun neutral :: "string \<Rightarrow> bool" where
  "neutral [] = True"
| "neutral (c # s) \<longleftrightarrow> c \<noteq> CHR ''<'' \<and> c \<noteq> CHR ''>'' \<and> (c = CHR ''@'' \<longrightarrow> prefix zero_width_space s) \<and> neutral s"

lemma prefix_replace_char: "c \<notin> set p \<Longrightarrow> prefix p s \<Longrightarrow> prefix p (replace_char c r s)"
proof (induction p arbitrary: s)
  case (Cons x p)
  then obtain t where "s = x # t" "prefix p t" by (cases s) auto
  then show ?case using Cons by (auto simp: replace_char_def)
qed simp

lemma neutral_append: "neutral s \<Longrightarrow> neutral t \<Longrightarrow> neutral (s @ t)"
  by (induction s) (auto simp: prefix_def)

lemma neutral_plain: "CHR ''<'' \<notin> set s \<Longrightarrow> CHR ''>'' \<notin> set s \<Longrightarrow> CHR ''@'' \<notin> set s \<Longrightarrow> neutral s"
  by (induction s) auto

lemma neutral_replace_char:
  assumes "neutral s" "neutral r" "c \<notin> set (CHR ''@'' # zero_width_space)"
  shows "neutral (replace_char c r s)"
  using assms(1)
proof (induction s)
  case (Cons x s)
  then have IH: "neutral (replace_char c r s)" by simp
  show ?case
  proof (cases "x = c")
    case True
    then show ?thesis using IH assms(2) neutral_append by (simp add: replace_char_def)
  next
    case False
    then have "replace_char c r (x # s) = x # replace_char c r s" by (simp add: replace_char_def)
    then show ?thesis using IH Cons.prems prefix_replace_char [of c zero_width_space s r] assms(3) by simp
  qed
qed (simp add: replace_char_def)

lemma set_replace_char: "set (replace_char c r s) \<subseteq> set r \<union> (set s - {c})"
  by (auto simp: replace_char_def)

lemma neutral_mention:
  assumes "CHR ''<'' \<notin> set s" "CHR ''>'' \<notin> set s"
  shows "neutral (replace_char (CHR ''@'') (CHR ''@'' # zero_width_space) s)"
  using assms by (induction s) (auto simp: replace_char_def zero_width_space_def)

lemma neutral_neutralise: "neutral (neutralise s)"
  unfolding neutralise_def
  by (rule neutral_mention; rule contra_subsetD [OF set_replace_char]; simp; intro disjI2 contra_subsetD [OF set_replace_char]; simp)

lemma neutral_title: "neutral (issue_title kind title)"
  unfolding issue_title_def
  by (intro neutral_append neutral_replace_char neutral_neutralise) (auto simp: zero_width_space_def)

lemma neutral_body:
  assumes "neutral user_ref" "neutral report_ref"
  shows "neutral (issue_body kind f user_ref report_ref)"
proof -
  have row: "neutral (body_row l v)" if "neutral l" for l v
    unfolding body_row_def nl_def using that
    by (auto intro!: neutral_append neutral_replace_char neutral_neutralise simp: zero_width_space_def)
  have sect: "neutral (body_section l v)" if "neutral l" for l v
    unfolding body_section_def nl_def using that by (auto intro!: neutral_append neutral_neutralise)
  show ?thesis unfolding issue_body_def
    by (intro neutral_append if_splits assms row sect) (auto simp: nl_def e_acute_def intro!: neutral_append row)
qed

text \<open>The references are made of letters and digits.\<close>

lemma b32_chars: "set (b32_encode s) \<subseteq> set b32_alphabet"
proof -
  have len: "length b32_alphabet = 32" by code_simp
  have "set (b32_digits bs) \<subseteq> set b32_alphabet" for bs
    by (induction bs rule: b32_digits.induct) (auto simp: len)
  then show ?thesis by (simp add: b32_encode_def)
qed

lemma neutral_b32: "set s \<subseteq> set (b32_encode t) \<Longrightarrow> neutral s"
proof (rule neutral_plain)
  assume "set s \<subseteq> set (b32_encode t)"
  then have "set s \<subseteq> set b32_alphabet" using b32_chars by blast
  then show "CHR ''<'' \<notin> set s" "CHR ''>'' \<notin> set s" "CHR ''@'' \<notin> set s" by (auto simp: b32_alphabet_def)
qed

lemma neutral_pseudonym: "neutral (user_pseudonym hmac key i)"
  unfolding user_pseudonym_def by (rule neutral_append) (auto intro: neutral_b32 dest: in_set_takeD)

lemma neutral_ref: "neutral (''R-'' @ b32_encode s)"
  by (rule neutral_append) (auto intro: neutral_b32)

end
