(* ===== verification/Support.thy ===== *)
theory Support
  imports Reports
begin

text \<open>
  Support reports (internal/support: github.go, service.go, syncer.go, routes.go): the client of the GitHub App
  with its cached token, the service that validates, stores and publishes a report, the step of the worker that retries and
  reads states back, and the two routes. The replies of GitHub are a parameter, a function of the call and of the number of calls
  before it; signing the JWT of the App is another. \<open>Run\<close> calls the step of the worker at intervals. The sentence that goes with an error is a function of its reason or
  category and is not repeated here.
\<close>

section \<open>GitHub\<close>

record gh_issue =
  gi_number :: int
  gi_node_id :: string
  gi_html_url :: string
  gi_state :: string
  gi_state_reason :: string

datatype gh_error = ApiError int string | OtherError goerr

definition zero_issue :: gh_issue where
  "zero_issue = \<lparr>gi_number = 0, gi_node_id = [], gi_html_url = [], gi_state = [], gi_state_reason = []\<rparr>"

text \<open>A reply with its decoded body; \<open>BadReply\<close> does not decode. Fields that a body does not have stay zero.\<close>

datatype api_body =
    TokenReply string instant
  | IssueReply gh_issue
  | GraphReply "string list"
  | MessageReply string
  | BadReply

datatype api_reply = NoReply goerr | Reply int api_body

record app_client =
  ap_app_id :: string
  ap_installation :: string
  ap_sign :: "string \<Rightarrow> instant \<Rightarrow> instant \<Rightarrow> string option"
  ap_http :: "nat \<Rightarrow> api_call \<Rightarrow> api_reply"

definition app_jwt :: "app_client \<Rightarrow> instant \<Rightarrow> string option" where
  "app_jwt c nw = ap_sign c (ap_app_id c) (nw - 60 * second) (nw + 9 * minute)"

definition message_of :: "api_body \<Rightarrow> string" where
  "message_of b = (case b of MessageReply m \<Rightarrow> m | _ \<Rightarrow> [])"

definition api_do :: "app_client \<Rightarrow> string \<Rightarrow> string \<Rightarrow> string \<Rightarrow> call_body \<Rightarrow> (gh_error + api_body) io" where
  "api_do c method path tok body = State (\<lambda>d.
     let call = \<lparr>ac_method = method, ac_path = path, ac_bearer = tok, ac_body = body\<rparr> in
     (case ap_http c (length (api_calls d)) call of
        NoReply e \<Rightarrow> Inl (OtherError e)
      | Reply st b \<Rightarrow> if st < 200 \<or> st > 299 then Inl (ApiError st (message_of b)) else Inr b,
      d\<lparr>api_calls := api_calls d @ [call]\<rparr>))"

definition unreadable :: gh_error where "unreadable = OtherError (Errorf ''json'')"

definition cached_token :: "instant \<Rightarrow> string option io" where
  "cached_token nw = State (\<lambda>d. (if app_token d \<noteq> [] \<and> nw < app_token_exp d - 5 * minute then Some (app_token d) else None, d))"

definition store_token :: "string \<Rightarrow> instant \<Rightarrow> unit io" where
  "store_token tok expires = State (\<lambda>d. ((), d\<lparr>app_token := tok, app_token_exp := expires\<rparr>))"

definition installation_token :: "app_client \<Rightarrow> (gh_error + string) io" where
  "installation_token c = do {
     nw \<leftarrow> now;
     cached \<leftarrow> cached_token nw;
     case cached of
       Some tok \<Rightarrow> State_Monad.return (Inr tok)
     | None \<Rightarrow> (case app_jwt c nw of
         None \<Rightarrow> State_Monad.return (Inl (OtherError (Errorf ''jwt'')))
       | Some signed \<Rightarrow> do {
           r \<leftarrow> api_do c ''POST'' (''/app/installations/'' @ ap_installation c @ ''/access_tokens'') signed NoCallBody;
           case r of
             Inl e \<Rightarrow> State_Monad.return (Inl e)
           | Inr BadReply \<Rightarrow> State_Monad.return (Inl unreadable)
           | Inr b \<Rightarrow> (let (tok, expires) = (case b of TokenReply tok expires \<Rightarrow> (tok, expires) | _ \<Rightarrow> ([], zero_time)) in do {
               store_token tok expires;
               State_Monad.return (Inr tok) }) }) }"

definition authed :: "app_client \<Rightarrow> string \<Rightarrow> string \<Rightarrow> call_body \<Rightarrow> (gh_error + api_body) io" where
  "authed c method path body = do {
     t \<leftarrow> installation_token c;
     case t of Inl e \<Rightarrow> State_Monad.return (Inl e) | Inr tok \<Rightarrow> api_do c method path tok body }"

definition issue_of :: "gh_error + api_body \<Rightarrow> gh_error + gh_issue" where
  "issue_of r = (case r of
       Inl e \<Rightarrow> Inl e
     | Inr b \<Rightarrow> (case b of BadReply \<Rightarrow> Inl unreadable | IssueReply i \<Rightarrow> Inr i | _ \<Rightarrow> Inr zero_issue))"

definition issues_path :: "string \<Rightarrow> string" where
  "issues_path repo = ''/repos/'' @ repo @ ''/issues''"

definition create_issue :: "app_client \<Rightarrow> string \<Rightarrow> issue_input \<Rightarrow> (gh_error + gh_issue) io" where
  "create_issue c repo inp = do {
     r \<leftarrow> authed c ''POST'' (issues_path repo) (IssueCall inp);
     if (case r of Inl (ApiError st _) \<Rightarrow> st = 422 | _ \<Rightarrow> False) \<and> ii_type inp \<noteq> []
     then do {
       r' \<leftarrow> authed c ''POST'' (issues_path repo) (IssueCall (inp\<lparr>ii_type := []\<rparr>));
       State_Monad.return (issue_of r') }
     else State_Monad.return (issue_of r) }"

definition get_issue :: "app_client \<Rightarrow> string \<Rightarrow> int \<Rightarrow> (gh_error + gh_issue) io" where
  "get_issue c repo number = do {
     r \<leftarrow> authed c ''GET'' (issues_path repo @ ''/'' @ itoa number) NoCallBody;
     State_Monad.return (issue_of r) }"

definition add_to_project :: "app_client \<Rightarrow> string \<Rightarrow> string \<Rightarrow> gh_error option io" where
  "add_to_project c project_id node_id = do {
     r \<leftarrow> authed c ''POST'' ''/graphql'' (GraphCall project_id node_id);
     State_Monad.return (case r of
         Inl e \<Rightarrow> Some e
       | Inr BadReply \<Rightarrow> Some unreadable
       | Inr (GraphReply (m # _)) \<Rightarrow> Some (ApiError 200 m)
       | Inr _ \<Rightarrow> None) }"

text \<open>The Go interface \<open>GitHub\<close>.\<close>

record github =
  gh_create :: "string \<Rightarrow> issue_input \<Rightarrow> (gh_error + gh_issue) io"
  gh_project :: "string \<Rightarrow> string \<Rightarrow> gh_error option io"
  gh_get :: "string \<Rightarrow> int \<Rightarrow> (gh_error + gh_issue) io"

definition app_github :: "app_client \<Rightarrow> github" where
  "app_github c = \<lparr>gh_create = create_issue c, gh_project = add_to_project c, gh_get = get_issue c\<rparr>"

section \<open>Service\<close>

definition label_to_triage :: string where "label_to_triage = ''a-valider''"
definition max_title_len :: nat where "max_title_len = 120"
definition max_text_len :: nat where "max_text_len = 4000"
definition default_limit :: int where "default_limit = 5"
definition default_window :: duration where "default_window = 24 * hour"

record support_settings =
  pseudonym_key :: string
  public_repo :: string
  private_repo :: string
  project_id :: string
  st_limit :: int
  st_window :: duration

text \<open>\<open>closed_order\<close> is the order in which Go visits the entries of the map of closed fields.\<close>

record support_env =
  settings :: support_settings
  gh :: "github option"
  hmac_sha256 :: "string \<Rightarrow> string \<Rightarrow> string"
  closed_order :: "string list"

definition new_service :: "support_env \<Rightarrow> support_env" where
  "new_service env = (let s = settings env in env\<lparr>settings := s\<lparr>
     st_limit := if st_limit s \<le> 0 then default_limit else st_limit s,
     st_window := if st_window s \<le> 0 then default_window else st_window s\<rparr>\<rparr>)"

record report_input =
  in_kind :: string
  in_title :: string
  in_fields :: report_fields

datatype submit_error =
    FieldError string string
  | SensitiveError string string
  | RateLimitError instant
  | StoreFailed goerr

definition allowed_values :: "string \<Rightarrow> string list" where
  "allowed_values name =
     (if name = ''app'' then [''web'', ''ios'', ''android'', ''gateway'', ''other'']
      else if name = ''mode'' then [''cloud'', ''lan'', ''unknown'']
      else if name = ''impact'' then [''module'', ''local'', ''remote'', ''hardware'', ''unknown''] else [])"

definition closed_value :: "report_fields \<Rightarrow> string \<Rightarrow> string" where
  "closed_value f name = (if name = ''app'' then rf_app f else if name = ''mode'' then rf_mode f
     else if name = ''impact'' then rf_impact f else [])"

definition free_texts :: "report_fields \<Rightarrow> (string \<times> string) list" where
  "free_texts f = [(''version'', rf_version f), (''since'', rf_since f), (''actual'', rf_actual f),
     (''expected'', rf_expected f), (''steps'', rf_steps f), (''tried'', rf_tried f)]"

text \<open>\<open>validate\<close> trims the title in place: the input it accepts is returned.\<close>

definition validate_report :: "string list \<Rightarrow> report_input \<Rightarrow> submit_error + report_input" where
  "validate_report order inp0 =
     (let inp = inp0\<lparr>in_title := trim_space (in_title inp0)\<rparr>; f = in_fields inp;
          bad_closed = find (\<lambda>name. closed_value f name \<noteq> [] \<and> closed_value f name \<notin> set (allowed_values name)) order;
          long = find (\<lambda>p. rune_count (snd p) > max_text_len) (free_texts f);
          sensitive = find (\<lambda>p. detect_sensitive (snd p) \<noteq> []) ((''title'', in_title inp) # free_texts f) in
      if in_kind inp \<noteq> kind_bug \<and> in_kind inp \<noteq> kind_incident then Inl (FieldError ''kind'' ''invalid'')
      else if in_title inp = [] then Inl (FieldError ''title'' ''required'')
      else if rune_count (in_title inp) > max_title_len then Inl (FieldError ''title'' ''too_long'')
      else if trim_space (rf_actual f) = [] then Inl (FieldError ''actual'' ''required'')
      else (case bad_closed of
          Some name \<Rightarrow> Inl (FieldError name ''invalid'')
        | None \<Rightarrow>
            if in_kind inp = kind_bug \<and> rf_app f = [] then Inl (FieldError ''app'' ''required'')
            else if in_kind inp = kind_incident \<and> rf_impact f = [] then Inl (FieldError ''impact'' ''required'')
            else (case long of
                Some (name, _) \<Rightarrow> Inl (FieldError name ''too_long'')
              | None \<Rightarrow> (case sensitive of
                  Some (name, v) \<Rightarrow> Inl (SensitiveError name (detect_sensitive v))
                | None \<Rightarrow> Inr inp))))"

definition repo_for :: "support_settings \<Rightarrow> string \<Rightarrow> string" where
  "repo_for s kind = (if kind = kind_incident then private_repo s else public_repo s)"

definition api_error_text :: "int \<Rightarrow> string \<Rightarrow> string" where
  "api_error_text st msg = ''github: '' @ itoa st @ '' '' @ msg"

definition error_summary :: "gh_error \<Rightarrow> string" where
  "error_summary e = (case e of ApiError st msg \<Rightarrow> api_error_text st msg | OtherError _ \<Rightarrow> ''transport error'')"

definition issue_input_of :: "support_env \<Rightarrow> support_report \<Rightarrow> report_fields \<Rightarrow> issue_input" where
  "issue_input_of env rep f =
     \<lparr>ii_title = issue_title (rp_kind rep) (rp_title rep),
      ii_body = issue_body (rp_kind rep) f (user_pseudonym (hmac_sha256 env) (pseudonym_key (settings env)) (rp_user rep)) (rp_ref rep),
      ii_labels = [if rp_kind rep = kind_incident then ''incident'' else ''bug'', ''via-portal'', label_to_triage],
      ii_type = if rp_kind rep = kind_incident then ''Support'' else ''Bug''\<rparr>"

text \<open>\<open>json.Unmarshal\<close> of a cleared payload gives empty fields.\<close>

definition fields_of :: "payload \<Rightarrow> report_fields option" where
  "fields_of p = (case p of
       Form f \<Rightarrow> Some f
     | Cleared \<Rightarrow> Some \<lparr>rf_app = [], rf_version = [], rf_mode = [], rf_since = [], rf_impact = [], rf_actual = [],
         rf_expected = [], rf_steps = [], rf_tried = []\<rparr>
     | OtherJson \<Rightarrow> None)"

text \<open>The report as it stands in memory after \<open>send\<close>; its errors are logged and nothing else.\<close>

definition send :: "support_env \<Rightarrow> github \<Rightarrow> support_report \<Rightarrow> support_report io" where
  "send env g rep = (case fields_of (rp_payload rep) of
       None \<Rightarrow> do { ignore (mark_failed (rp_id rep) ''payload: unreadable''); State_Monad.return rep }
     | Some f \<Rightarrow> do {
         let repo = repo_for (settings env) (rp_kind rep);
         created \<leftarrow> gh_create g repo (issue_input_of env rep f);
         case created of
           Inl e \<Rightarrow> do { ignore (mark_failed (rp_id rep) (error_summary e)); State_Monad.return rep }
         | Inr iss \<Rightarrow> do {
             (if project_id (settings env) \<noteq> [] \<and> gi_node_id iss \<noteq> []
              then do { _ \<leftarrow> gh_project g (project_id (settings env)) (gi_node_id iss); State_Monad.return () }
              else State_Monad.return ());
             res \<leftarrow> mark_sent (rp_id rep) repo (gi_number iss) (gi_html_url iss);
             State_Monad.return (case res of
                 Inl _ \<Rightarrow> rep
               | Inr _ \<Rightarrow> rep\<lparr>rp_status := support_status_open, rp_repo := Some repo, rp_issue_url := Some (gi_html_url iss)\<rparr>) } })"

definition submit :: "support_env \<Rightarrow> user \<Rightarrow> report_input \<Rightarrow> (submit_error + support_report) io" where
  "submit env u inp0 = (case validate_report (closed_order env) inp0 of
       Inl e \<Rightarrow> State_Monad.return (Inl e)
     | Inr inp \<Rightarrow> do {
         nw \<leftarrow> now;
         counted \<leftarrow> count_since (u_id u) (nw - st_window (settings env));
         case counted of
           Inl e \<Rightarrow> State_Monad.return (Inl (StoreFailed e))
         | Inr (n, oldest) \<Rightarrow>
             if n \<ge> st_limit (settings env) then State_Monad.return (Inl (RateLimitError (oldest + st_window (settings env))))
             else do {
               ref \<leftarrow> new_report_ref;
               created \<leftarrow> create_report ref (u_id u) (in_kind inp) (in_title inp) (Form (in_fields inp));
               case created of
                 Inl e \<Rightarrow> State_Monad.return (Inl (StoreFailed e))
               | Inr rep \<Rightarrow> (case gh env of
                     None \<Rightarrow> State_Monad.return (Inr rep)
                   | Some g \<Rightarrow> do { rep' \<leftarrow> send env g rep; State_Monad.return (Inr rep') }) } })"

definition status_from_issue :: "gh_issue \<Rightarrow> string" where
  "status_from_issue iss = (if gi_state iss \<noteq> ''closed'' then support_status_open
     else if gi_state_reason iss = ''completed'' then support_status_resolved else support_status_closed)"

section \<open>Worker\<close>

definition sync_interval :: duration where "sync_interval = 5 * minute"
definition refresh_after :: duration where "refresh_after = 10 * minute"

fun send_all :: "support_env \<Rightarrow> github \<Rightarrow> support_report list \<Rightarrow> unit io" where
  "send_all env g [] = State_Monad.return ()"
| "send_all env g (r # rs) = do { _ \<leftarrow> send env g r; send_all env g rs }"

fun refresh_all :: "github \<Rightarrow> support_report list \<Rightarrow> unit dbop" where
  "refresh_all g [] = State_Monad.return (Inr ())"
| "refresh_all g (r # rs) = (case (rp_repo r, rp_issue_number r) of
       (Some repo, Some number) \<Rightarrow> do {
         iss \<leftarrow> gh_get g repo number;
         case iss of
           Inl _ \<Rightarrow> refresh_all g rs
         | Inr iss \<Rightarrow> andThen (update_report_status (rp_id r) (status_from_issue iss)) (\<lambda>_. refresh_all g rs) }
     | _ \<Rightarrow> refresh_all g rs)"

definition sync_once :: "support_env \<Rightarrow> unit dbop" where
  "sync_once env = (case gh env of
       None \<Rightarrow> State_Monad.return (Inr ())
     | Some g \<Rightarrow> do {
         r \<leftarrow> with_sync_lock (andThen (list_pending 50) (\<lambda>pending. do {
           send_all env g pending;
           nw \<leftarrow> now;
           andThen (list_open_to_sync (nw - refresh_after) 100) (refresh_all g) }));
         State_Monad.return (if r = Inl err_sync_lock_busy then Inr () else r) })"

section \<open>Routes\<close>

record report_view =
  rv_ref :: string
  rv_kind :: string
  rv_title :: string
  rv_status :: string
  rv_created_at :: instant
  rv_issue_url :: string

definition report_view_of :: "support_report \<Rightarrow> report_view" where
  "report_view_of r = \<lparr>rv_ref = rp_ref r, rv_kind = rp_kind r, rv_title = rp_title r, rv_status = rp_status r,
     rv_created_at = rp_created_at r,
     rv_issue_url = if rp_kind r = kind_bug then (case rp_issue_url r of None \<Rightarrow> [] | Some url \<Rightarrow> url) else []\<rparr>"

datatype (plugins only: code) support_json =
    InvalidJson
  | InvalidField string string
  | SensitiveContent string string
  | RateLimited int instant
  | ReportJson report_view
  | ReportsJson "report_view list"

text \<open>Seconds until an instant, rounded up, at least one.\<close>

definition retry_after :: "instant \<Rightarrow> instant \<Rightarrow> int" where
  "retry_after nw retry_at = max 1 (- ((nw - retry_at) div second))"

definition with_current_user :: "string \<Rightarrow> (user \<Rightarrow> support_json answer io) \<Rightarrow> support_json answer io" where
  "with_current_user email body = do {
     r \<leftarrow> get_user_by_email email;
     case r of
       Inl _ \<Rightarrow> State_Monad.return (HttpError 500 ''Internal Server Error'')
     | Inr None \<Rightarrow> State_Monad.return (HttpError 401 ''Unauthorized'')
     | Inr (Some u) \<Rightarrow> body u }"

definition h_create_report :: "support_env \<Rightarrow> string \<Rightarrow> report_input option \<Rightarrow> support_json answer io" where
  "h_create_report env email body = with_current_user email (\<lambda>u. case body of
       None \<Rightarrow> State_Monad.return (Answer 400 InvalidJson)
     | Some inp \<Rightarrow> do {
         r \<leftarrow> submit env u inp;
         nw \<leftarrow> now;
         State_Monad.return (case r of
             Inl (FieldError field reason) \<Rightarrow> Answer 400 (InvalidField field reason)
           | Inl (SensitiveError field category) \<Rightarrow> Answer 422 (SensitiveContent field category)
           | Inl (RateLimitError retry_at) \<Rightarrow> Answer 429 (RateLimited (retry_after nw retry_at) retry_at)
           | Inl (StoreFailed _) \<Rightarrow> HttpError 500 ''Internal Server Error''
           | Inr rep \<Rightarrow> Answer 201 (ReportJson (report_view_of rep))) })"

definition h_list_reports :: "string \<Rightarrow> support_json answer io" where
  "h_list_reports email = with_current_user email (\<lambda>u. do {
     r \<leftarrow> list_by_user (u_id u);
     State_Monad.return (case r of
         Inl _ \<Rightarrow> HttpError 500 ''Internal Server Error''
       | Inr rs \<Rightarrow> Answer 200 (ReportsJson (map report_view_of rs))) })"

section \<open>Library: what reaches GitHub\<close>

text \<open>The calls that a program makes satisfy \<open>P\<close>; beside them only the installation token may change.\<close>

definition called :: "(api_call \<Rightarrow> bool) \<Rightarrow> db \<Rightarrow> db \<Rightarrow> bool" where
  "called P d d' \<longleftrightarrow> (\<exists>bs cs tok t. d' = d\<lparr>faults := bs, api_calls := api_calls d @ cs, app_token := tok, app_token_exp := t\<rparr>
     \<and> list_all P cs)"

lemma calledI: "d' = d\<lparr>faults := bs, api_calls := api_calls d @ cs, app_token := tok, app_token_exp := t\<rparr> \<Longrightarrow> list_all P cs
  \<Longrightarrow> called P d d'"
  unfolding called_def by blast

lemma called_pre: "preorder_rel (called P)"
proof
  show "called P d d" for d
    by (rule calledI [where bs = "faults d" and cs = "[]" and tok = "app_token d" and t = "app_token_exp d"]) simp_all
  show "called P d (d\<lparr>faults := bs\<rparr>)" for d bs
    by (rule calledI [where bs = bs and cs = "[]" and tok = "app_token d" and t = "app_token_exp d"]) simp_all
  show "called P d1 d3" if steps: "called P d1 d2" "called P d2 d3" for d1 d2 d3
  proof -
    obtain bs cs tok t where 1: "d2 = d1\<lparr>faults := bs, api_calls := api_calls d1 @ cs, app_token := tok, app_token_exp := t\<rparr>" "list_all P cs"
      using steps(1) unfolding called_def by blast
    obtain bs' cs' tok' t' where 2: "d3 = d2\<lparr>faults := bs', api_calls := api_calls d2 @ cs', app_token := tok', app_token_exp := t'\<rparr>"
      "list_all P cs'"
      using steps(2) unfolding called_def by blast
    show ?thesis using 1 2
      by (intro calledI [where bs = bs' and cs = "cs @ cs'" and tok = tok' and t = t']) simp_all
  qed
qed

lemma calledD:
  assumes "called P d d'"
  shows "support_reports d' = support_reports d" "serials d' = serials d" "clock d' = clock d" "users d' = users d"
    "sync_lock_held d' = sync_lock_held d" "\<exists>cs. api_calls d' = api_calls d @ cs \<and> list_all P cs"
  using assms unfolding called_def by auto

text \<open>No call opens an issue; the only issue opened is the given one, with or without its type.\<close>

definition no_issue :: "api_call \<Rightarrow> bool" where
  "no_issue c \<longleftrightarrow> (\<forall>ii. ac_body c \<noteq> IssueCall ii)"

definition only_issue :: "string \<Rightarrow> issue_input \<Rightarrow> api_call \<Rightarrow> bool" where
  "only_issue repo inp c \<longleftrightarrow> (\<forall>ii. ac_body c = IssueCall ii \<longrightarrow>
     ac_path c = issues_path repo \<and> ii_title ii = ii_title inp \<and> ii_body ii = ii_body inp)"

lemma called_one: "P c \<Longrightarrow> called P d (d\<lparr>api_calls := api_calls d @ [c]\<rparr>)"
  by (rule calledI [where bs = "faults d" and cs = "[c]" and tok = "app_token d" and t = "app_token_exp d"]) simp_all

lemma called_token: "called P d (d\<lparr>app_token := tok, app_token_exp := t\<rparr>)"
  by (rule calledI [where bs = "faults d" and cs = "[]" and tok = tok and t = t]) simp_all

lemma api_do_called:
  "P \<lparr>ac_method = m, ac_path = path, ac_bearer = tok, ac_body = body\<rparr> \<Longrightarrow> state_io_rel (called P) (api_do c m path tok body)"
  unfolding state_io_rel_def api_do_def Let_def by (simp add: called_one)

lemma cached_token_called: "state_io_rel (called P) (cached_token nw)"
  using called_pre [of P] unfolding state_io_rel_def cached_token_def preorder_rel_def by simp

lemma store_token_called: "state_io_rel (called P) (store_token tok t)"
  unfolding state_io_rel_def store_token_def by (simp add: called_token)

lemma io_api_body:
  assumes "\<And>tok t. b = TokenReply tok t \<Longrightarrow> state_io_rel R (f1 tok t)" "\<And>i. b = IssueReply i \<Longrightarrow> state_io_rel R (f2 i)"
    "\<And>e. b = GraphReply e \<Longrightarrow> state_io_rel R (f3 e)" "\<And>m. b = MessageReply m \<Longrightarrow> state_io_rel R (f4 m)" "state_io_rel R f5"
  shows "state_io_rel R (case b of TokenReply tok t \<Rightarrow> f1 tok t | IssueReply i \<Rightarrow> f2 i | GraphReply e \<Rightarrow> f3 e | MessageReply m \<Rightarrow> f4 m
    | BadReply \<Rightarrow> f5)"
  using assms by (cases b) simp_all

lemma installation_token_called:
  assumes "\<And>m path tok. P \<lparr>ac_method = m, ac_path = path, ac_bearer = tok, ac_body = NoCallBody\<rparr>"
  shows "state_io_rel (called P) (installation_token c)"
  unfolding installation_token_def Let_def
  by (intro io_intros called_pre cached_token_called api_do_called store_token_called io_api_body assms)

lemma authed_called:
  assumes "\<And>m path tok. P \<lparr>ac_method = m, ac_path = path, ac_bearer = tok, ac_body = NoCallBody\<rparr>"
    "\<And>tok. P \<lparr>ac_method = m, ac_path = path, ac_bearer = tok, ac_body = body\<rparr>"
  shows "state_io_rel (called P) (authed c m path body)"
  unfolding authed_def by (intro io_intros called_pre installation_token_called api_do_called assms)

text \<open>The contract of the interface \<open>GitHub\<close>, and the client that implements it.\<close>

locale github_api =
  fixes g :: github
  assumes create_calls: "state_io_rel (called (only_issue repo inp)) (gh_create g repo inp)"
    and project_calls: "state_io_rel (called no_issue) (gh_project g p n)"
    and get_calls: "state_io_rel (called no_issue) (gh_get g repo number)"
begin

lemma create_run: "run_state (gh_create g repo inp) d = (r, d') \<Longrightarrow> called (only_issue repo inp) d d'"
  using create_calls unfolding state_io_rel_def by (metis snd_conv)

lemma get_run: "run_state (gh_get g repo number) d = (r, d') \<Longrightarrow> called no_issue d d'"
  using get_calls unfolding state_io_rel_def by (metis snd_conv)

lemma project_run: "run_state (gh_project g p n) d = (r, d') \<Longrightarrow> called no_issue d d'"
  using project_calls unfolding state_io_rel_def by (metis snd_conv)

end

interpretation app: github_api "app_github c" for c
proof
  show "state_io_rel (called (only_issue repo inp)) (gh_create (app_github c) repo inp)" for repo inp
    unfolding app_github_def create_issue_def
    by simp (intro io_intros called_pre authed_called; simp add: only_issue_def)
  show "state_io_rel (called no_issue) (gh_project (app_github c) p n)" for p n
    unfolding app_github_def add_to_project_def
    by simp (intro io_intros called_pre authed_called; simp add: no_issue_def)
  show "state_io_rel (called no_issue) (gh_get (app_github c) repo number)" for repo number
    unfolding app_github_def get_issue_def
    by simp (intro io_intros called_pre authed_called; simp add: no_issue_def)
qed


text \<open>What may be published: the issue of an incident in the private repository and any other in the public one, with neutral
  text.\<close>

definition proper_call :: "support_env \<Rightarrow> api_call \<Rightarrow> bool" where
  "proper_call env c \<longleftrightarrow> (\<forall>ii. ac_body c = IssueCall ii \<longrightarrow> neutral (ii_title ii) \<and> neutral (ii_body ii)
     \<and> ac_path c = issues_path (if prefix ''[Incident] '' (ii_title ii) then private_repo (settings env) else public_repo (settings env)))"

definition published :: "support_env \<Rightarrow> db \<Rightarrow> db \<Rightarrow> bool" where
  "published env d d' \<longleftrightarrow> (\<exists>cs. api_calls d' = api_calls d @ cs \<and> list_all (proper_call env) cs)"

lemma published_same: "api_calls d' = api_calls d \<Longrightarrow> published env d d'"
  by (simp add: published_def)

lemma published_pre: "preorder_rel (published env)"
proof
  show "published env d1 d3" if "published env d1 d2" "published env d2 d3" for d1 d2 d3
    using that unfolding published_def by (metis append.assoc list_all_append)
qed (simp_all add: published_same)

lemma called_published: "called P d d' \<Longrightarrow> (\<And>c. P c \<Longrightarrow> proper_call env c) \<Longrightarrow> published env d d'"
  using calledD(6) unfolding published_def by (metis list_all_iff)

lemma io_published: "state_io_rel (called P) m \<Longrightarrow> (\<And>c. P c \<Longrightarrow> proper_call env c) \<Longrightarrow> state_io_rel (published env) m"
  unfolding state_io_rel_def using called_published by blast

lemma no_issue_proper: "no_issue c \<Longrightarrow> proper_call env c"
  by (simp add: no_issue_def proper_call_def)

lemma title_prefix: "prefix ''[Incident] '' (issue_title kind title) \<longleftrightarrow> kind = kind_incident"
  by (simp add: issue_title_def prefix_def)

lemma only_issue_proper:
  assumes "only_issue (repo_for (settings env) (rp_kind rep)) (issue_input_of env rep f) c" "neutral (rp_ref rep)"
  shows "proper_call env c"
  using assms
  by (auto simp: only_issue_def proper_call_def issue_input_of_def title_prefix repo_for_def
      intro!: neutral_title neutral_body neutral_pseudonym)

context github_api
begin

lemma send_published: "neutral (rp_ref rep) \<Longrightarrow> state_io_rel (published env) (send env g rep)"
  unfolding send_def mark_failed_def mark_sent_def set_report_def Let_def
  by (intro io_intros published_pre published_same io_published [OF create_calls] io_published [OF project_calls])
    (auto intro: only_issue_proper no_issue_proper)

lemma send_all_published: "list_all (\<lambda>r. neutral (rp_ref r)) rs \<Longrightarrow> state_io_rel (published env) (send_all env g rs)"
  by (induction rs) (auto intro!: io_bind published_pre send_published io_return)

lemma refresh_published: "state_io_rel (published env) (refresh_all g rs)"
proof (induction rs)
  case (Cons r rs)
  show ?case unfolding refresh_all.simps update_report_status_def set_report_def
    by (intro io_intros published_pre published_same Cons io_published [OF get_calls]) (simp_all add: no_issue_proper)
qed (simp add: published_pre io_return)

end


section \<open>Library: the life of a report\<close>

text \<open>From pending to open to resolved or closed, never back; a finished report is left alone.\<close>

definition status_le :: "string \<Rightarrow> string \<Rightarrow> bool" where
  "status_le s t \<longleftrightarrow> s = t \<or> s = support_status_pending \<or> s = support_status_open \<and> t \<noteq> support_status_pending"

definition moved :: "support_report \<Rightarrow> support_report \<Rightarrow> bool" where
  "moved r r' \<longleftrightarrow> rp_id r' = rp_id r \<and> rp_ref r' = rp_ref r \<and> rp_user r' = rp_user r \<and> rp_kind r' = rp_kind r
     \<and> rp_title r' = rp_title r \<and> rp_created_at r' = rp_created_at r \<and> status_le (rp_status r) (rp_status r')
     \<and> (rp_status r \<notin> {support_status_pending, support_status_open} \<longrightarrow> r' = r)"

definition report_wf :: "support_report \<Rightarrow> bool" where
  "report_wf r \<longleftrightarrow> rp_status r \<in> {support_status_pending, support_status_open, support_status_resolved, support_status_closed}
     \<and> (rp_status r \<noteq> support_status_pending \<longrightarrow> rp_payload r = Cleared \<and> rp_repo r \<noteq> None \<and> rp_issue_number r \<noteq> None)
     \<and> rp_payload r \<noteq> OtherJson \<and> neutral (rp_ref r)"

definition report_inv :: "db \<Rightarrow> bool" where
  "report_inv d \<longleftrightarrow> distinct (map rp_id (support_reports d)) \<and> list_all report_wf (support_reports d)
     \<and> list_all (\<lambda>r. rp_id r \<le> serials d ''support_reports'') (support_reports d)"

definition reports_le :: "db \<Rightarrow> db \<Rightarrow> bool" where
  "reports_le d d' \<longleftrightarrow> (\<forall>r \<in> set (support_reports d). \<exists>r' \<in> set (support_reports d'). moved r r')"

lemmas support_status_defs = support_status_pending_def support_status_open_def support_status_resolved_def support_status_closed_def

lemma moved_refl: "moved r r"
  by (simp add: moved_def status_le_def)

lemma moved_trans: "moved r s \<Longrightarrow> moved s t \<Longrightarrow> moved r t"
  by (auto simp: moved_def status_le_def)

lemma reports_le_refl: "reports_le d d"
  using moved_refl unfolding reports_le_def by blast

lemma reports_le_trans: "reports_le d e \<Longrightarrow> reports_le e f \<Longrightarrow> reports_le d f"
  using moved_trans unfolding reports_le_def by meson

text \<open>A program that rewritten the report of one number, moving it from the given status.\<close>

definition rewritten :: "string \<Rightarrow> int \<Rightarrow> db \<Rightarrow> db \<Rightarrow> bool" where
  "rewritten s i d d' \<longleftrightarrow> (\<exists>f. support_reports d' = update_rows (\<lambda>r. rp_id r = i) f (support_reports d)
     \<and> serials d' ''support_reports'' = serials d ''support_reports''
     \<and> (\<forall>r. rp_user (f r) = rp_user r \<and> rp_created_at (f r) = rp_created_at r)
     \<and> (\<forall>r. report_wf r \<longrightarrow> rp_status r = s \<longrightarrow> moved r (f r) \<and> report_wf (f r)))"

definition in_status :: "string \<Rightarrow> int \<Rightarrow> db \<Rightarrow> bool" where
  "in_status s i d \<longleftrightarrow> (\<forall>r \<in> set (support_reports d). rp_id r = i \<longrightarrow> rp_status r = s)"

lemma update_rows_none: "update_rows p (\<lambda>r. r) rs = rs"
  by (induction rs) (simp_all add: update_rows_def)

lemma rewritten_same:
  "support_reports d' = support_reports d \<Longrightarrow> serials d' ''support_reports'' = serials d ''support_reports'' \<Longrightarrow> rewritten s i d d'"
  unfolding rewritten_def by (rule exI [of _ "\<lambda>r. r"]) (simp add: update_rows_none moved_refl)

lemma rewritten_progress:
  assumes "rewritten s i d d'" "report_inv d" "in_status s i d"
  shows "report_inv d'" "reports_le d d'" "j \<noteq> i \<Longrightarrow> in_status t j d \<Longrightarrow> in_status t j d'"
proof -
  obtain f where f: "support_reports d' = update_rows (\<lambda>r. rp_id r = i) f (support_reports d)"
    "serials d' ''support_reports'' = serials d ''support_reports''"
    and step: "\<And>r. report_wf r \<Longrightarrow> rp_status r = s \<Longrightarrow> moved r (f r) \<and> report_wf (f r)"
    using assms(1) unfolding rewritten_def by blast
  define h where "h r = (if rp_id r = i then f r else r)" for r
  have rows: "support_reports d' = map h (support_reports d)" using f(1) by (simp add: update_rows_def h_def)
  have h: "moved r (h r) \<and> report_wf (h r)" if "r \<in> set (support_reports d)" for r
    using that assms(2,3) step moved_refl by (auto simp: h_def report_inv_def in_status_def list_all_iff)
  have ids: "map rp_id (map h (support_reports d)) = map rp_id (support_reports d)" using h by (auto simp: moved_def)
  show "report_inv d'" using assms(2) h f(2)
    unfolding report_inv_def rows ids by (auto simp: list_all_iff moved_def)
  show "reports_le d d'" using h unfolding reports_le_def rows by auto
  show "in_status t j d'" if "j \<noteq> i" "in_status t j d"
  proof -
    have "h r = r" if "rp_id (h r) = j" "r \<in> set (support_reports d)" for r
      using that h [OF that(2)] \<open>j \<noteq> i\<close> by (auto simp: h_def moved_def)
    then show ?thesis using that(2) unfolding in_status_def rows by (metis (no_types, lifting) imageE list.set_map)
  qed
qed

lemma rewritten_set_report:
  assumes "\<And>r. rp_user (f r) = rp_user r \<and> rp_created_at (f r) = rp_created_at r"
    "\<And>r. report_wf r \<Longrightarrow> rp_status r = s \<Longrightarrow> moved r (f r) \<and> report_wf (f r)"
  shows "rewritten s i d (set_report i f d)"
  unfolding rewritten_def using assms by (intro exI [of _ f]) (simp add: set_report_def)

lemma rewritten_exec:
  assumes "\<And>d r. rp_user (f d r) = rp_user r \<and> rp_created_at (f d r) = rp_created_at r"
    "\<And>d r. report_wf r \<Longrightarrow> rp_status r = s \<Longrightarrow> moved r (f d r) \<and> report_wf (f d r)"
    "run_state (exec (\<lambda>d. set_report i (f d) d)) d = (x, d')"
  shows "rewritten s i d d'"
  using assms(3)
proof (cases rule: exec_cases)
  case (conn bs)
  then show ?thesis by (simp add: rewritten_same)
next
  case (ran bs)
  have "rewritten s i (d\<lparr>faults := bs\<rparr>) d'" unfolding ran(2) by (rule rewritten_set_report) (use assms(1,2) in auto)
  then show ?thesis by (simp add: rewritten_def)
qed

lemma mark_failed_rewritten: "run_state (mark_failed i msg) d = (x, d') \<Longrightarrow> rewritten support_status_pending i d d'"
  unfolding mark_failed_def
  by (erule rewritten_exec [rotated 2]) (auto simp: moved_def report_wf_def status_le_def)

lemma mark_sent_rewritten: "run_state (mark_sent i repo n url) d = (x, d') \<Longrightarrow> rewritten support_status_pending i d d'"
  unfolding mark_sent_def
  by (erule rewritten_exec [rotated 2]) (auto simp: moved_def report_wf_def status_le_def support_status_defs)

lemma update_status_rewritten:
  assumes "run_state (update_report_status i (status_from_issue iss)) d = (x, d')"
  shows "rewritten support_status_open i d d'"
  using assms unfolding update_report_status_def
  by (rule rewritten_exec [rotated 2])
    (auto simp: moved_def report_wf_def status_le_def status_from_issue_def support_status_defs)


lemma rewritten_called: "called P d e \<Longrightarrow> rewritten s i e d' \<Longrightarrow> rewritten s i d d'"
  using calledD(1,2) by (simp add: rewritten_def)

context github_api
begin

lemma send_rewritten:
  assumes "run_state (send env g rep) d = (x, d')"
  shows "rewritten support_status_pending (rp_id rep) d d'"
proof (cases "fields_of (rp_payload rep)")
  case None
  then show ?thesis
    using assms mark_failed_rewritten [of "rp_id rep" "''payload: unreadable''" d "fst (run_state (mark_failed (rp_id rep) ''payload: unreadable'') d)"]
    by (auto simp: send_def)
next
  case (Some f)
  let ?repo = "repo_for (settings env) (rp_kind rep)" and ?i = "rp_id rep"
  obtain created d1 where c: "run_state (gh_create g ?repo (issue_input_of env rep f)) d = (created, d1)" by fastforce
  note call = create_run [OF c]
  show ?thesis
  proof (cases created)
    case (Inl e)
    have "rewritten support_status_pending ?i d1 d'"
      using assms c Some Inl mark_failed_rewritten [of ?i "error_summary e" d1 "fst (run_state (mark_failed ?i (error_summary e)) d1)"]
      by (auto simp: send_def Let_def)
    then show ?thesis by (rule rewritten_called [OF call])
  next
    case (Inr iss)
    obtain d2 where p: "snd (run_state (if project_id (settings env) \<noteq> [] \<and> gi_node_id iss \<noteq> []
        then do { _ \<leftarrow> gh_project g (project_id (settings env)) (gi_node_id iss); State_Monad.return () }
        else State_Monad.return ()) d1) = d2" by blast
    then have call2: "called no_issue d1 d2"
      using project_run [of "project_id (settings env)" "gi_node_id iss" d1] called_pre [of no_issue]
      by (auto simp: preorder_rel_def split: prod.splits if_splits)
    obtain r where "run_state (mark_sent ?i ?repo (gi_number iss) (gi_html_url iss)) d2 = (r, d')"
      using assms c Some Inr p by (auto simp: send_def Let_def split: prod.splits)
    then have "rewritten support_status_pending ?i d2 d'" by (rule mark_sent_rewritten)
    then show ?thesis using rewritten_called call call2 by blast
  qed
qed

lemma send_all_progress:
  assumes "run_state (send_all env g rs) d = (x, d')" "report_inv d" "distinct (map rp_id rs)"
    "list_all (\<lambda>r. in_status support_status_pending (rp_id r) d) rs"
  shows "report_inv d' \<and> reports_le d d'"
  using assms
proof (induction rs arbitrary: d)
  case Nil
  then show ?case by (simp add: reports_le_refl)
next
  case (Cons r rs)
  obtain y d1 where s: "run_state (send env g r) d = (y, d1)" by fastforce
  have step: "report_inv d1" "reports_le d d1" "\<And>j. j \<noteq> rp_id r \<Longrightarrow> in_status support_status_pending j d \<Longrightarrow> in_status support_status_pending j d1"
    using rewritten_progress [OF send_rewritten [OF s] Cons.prems(2)] Cons.prems(4) by auto
  have "list_all (\<lambda>r. in_status support_status_pending (rp_id r) d1) rs"
    using Cons.prems(3,4) step(3) by (auto simp: list_all_iff image_iff)
  then have "report_inv d' \<and> reports_le d1 d'" using Cons.IH [of d1] Cons.prems s step(1) by simp
  then show ?case using step(2) reports_le_trans by blast
qed

lemma refresh_progress:
  assumes "run_state (refresh_all g rs) d = (x, d')" "report_inv d" "distinct (map rp_id rs)"
    "list_all (\<lambda>r. in_status support_status_open (rp_id r) d) rs"
  shows "report_inv d' \<and> reports_le d d'"
  using assms
proof (induction rs arbitrary: d)
  case Nil
  then show ?case by (simp add: reports_le_refl)
next
  case (Cons r rs)
  have go: "report_inv d' \<and> reports_le d d'"
    if run: "run_state (refresh_all g rs) e = (x, d')" and e: "support_reports e = support_reports d" "serials e = serials d" for e
  proof -
    have "report_inv e" "list_all (\<lambda>r. in_status support_status_open (rp_id r) e) rs"
      using Cons.prems(2,4) e by (simp_all add: report_inv_def in_status_def)
    then have "report_inv d' \<and> reports_le e d'" using Cons.IH [OF run] Cons.prems(3) by simp
    then show ?thesis using e by (simp add: reports_le_def)
  qed
  show ?case
  proof (cases "\<exists>repo n. rp_repo r = Some repo \<and> rp_issue_number r = Some n")
    case False
    then have "run_state (refresh_all g rs) d = (x, d')" using Cons.prems(1) by (auto split: option.splits)
    then show ?thesis using go by simp
  next
    case True
    then obtain repo n where rn: "rp_repo r = Some repo" "rp_issue_number r = Some n" by blast
    obtain iss d1 where get: "run_state (gh_get g repo n) d = (iss, d1)" by fastforce
    note c = calledD [OF get_run [OF get]]
    show ?thesis
    proof (cases iss)
      case (Inl e)
      then have "run_state (refresh_all g rs) d1 = (x, d')" using Cons.prems(1) rn get by simp
      then show ?thesis using go c(1,2) by simp
    next
      case (Inr i)
      obtain u d2 where upd: "run_state (update_report_status (rp_id r) (status_from_issue i)) d1 = (u, d2)" by fastforce
      have inv: "report_inv d1" "in_status support_status_open (rp_id r) d1"
        using Cons.prems(2,4) c by (simp_all add: report_inv_def in_status_def)
      note step = rewritten_progress [OF update_status_rewritten [OF upd] inv]
      have le: "reports_le d d2" using step(2) c(1) by (simp add: reports_le_def)
      show ?thesis
      proof (cases u)
        case (Inl e)
        then have "d' = d2" using Cons.prems(1) rn get Inr upd by simp
        then show ?thesis using step(1) le by simp
      next
        case (Inr w)
        have "in_status support_status_open (rp_id q) d2" if "q \<in> set rs" for q
          using that step(3) [of "rp_id q" support_status_open] Cons.prems(3,4) c(1) by (auto simp: list_all_iff in_status_def image_iff)
        then have "report_inv d' \<and> reports_le d2 d'"
          using Cons.IH [of d2] Cons.prems(1,3) rn get \<open>iss = Inr i\<close> upd Inr step(1) by (simp add: list_all_iff)
        then show ?thesis using le reports_le_trans by blast
      qed
    qed
  qed
qed

end


text \<open>The rows that the worker reads: distinct, with the status asked for.\<close>

lemma listed_ids: "distinct ys \<Longrightarrow> set ys \<subseteq> set xs \<Longrightarrow> distinct (map f xs) \<Longrightarrow> distinct (map f ys)"
  by (metis distinct_map inj_on_subset)

definition listed :: "string \<Rightarrow> support_report list \<Rightarrow> db \<Rightarrow> bool" where
  "listed s rs d \<longleftrightarrow> distinct (map rp_id rs) \<and> set rs \<subseteq> set (support_reports d) \<and> list_all (\<lambda>r. rp_status r = s) rs"

lemma listedI:
  assumes "report_inv d" "distinct rs" "\<And>r. r \<in> set rs \<Longrightarrow> r \<in> set (support_reports d) \<and> rp_status r = s"
  shows "listed s rs d"
  using assms listed_ids [OF assms(2), of "support_reports d" rp_id] by (auto simp: listed_def list_all_iff report_inv_def)

lemma listed_in_status:
  assumes "listed s rs d" "report_inv d"
  shows "list_all (\<lambda>r. in_status s (rp_id r) d) rs"
  using assms unfolding listed_def in_status_def report_inv_def list_all_iff distinct_map inj_on_def by (metis subsetD)

lemma report_inv_distinct: "report_inv d \<Longrightarrow> distinct (support_reports d)"
  by (simp add: report_inv_def distinct_map)

lemma set_limit: "x \<in> set (limit_rows n xs) \<Longrightarrow> x \<in> set xs"
  by (auto simp: limit_rows_def dest: in_set_takeD)

lemma list_pending_run:
  assumes "run_state (list_pending n) d = (Inr rs, d')" "report_inv d"
  shows "listed support_status_pending rs d"
proof -
  obtain bs where "rs = limit_rows n (order_asc rp_created_at (filter (\<lambda>r. rp_status r = support_status_pending \<and> rp_attempts r < 10
     \<and> (rp_attempts r = 0 \<or> rp_updated_at r < clock d - backoff (rp_attempts r))) (support_reports d)))"
    using assms(1) unfolding list_pending_def by (auto elim!: query_Inr)
  then show ?thesis using report_inv_distinct [OF assms(2)]
    by (intro listedI [OF assms(2)]) (auto simp: order_asc_def limit_rows_def dest: in_set_takeD)
qed

lemma list_open_run:
  assumes "run_state (list_open_to_sync t n) d = (Inr rs, d')" "report_inv d"
  shows "listed support_status_open rs d"
proof -
  let ?rs = "filter (\<lambda>r. rp_status r = support_status_open \<and> (case rp_synced_at r of None \<Rightarrow> True | Some u \<Rightarrow> u < t)) (support_reports d)"
  have "rs = limit_rows n (filter (\<lambda>r. rp_synced_at r = None) ?rs
      @ order_asc (\<lambda>r. the (rp_synced_at r)) (filter (\<lambda>r. rp_synced_at r \<noteq> None) ?rs))"
    using assms(1) unfolding list_open_to_sync_def Let_def by (auto elim!: query_Inr)
  then show ?thesis using report_inv_distinct [OF assms(2)]
    by (intro listedI [OF assms(2)]) (auto simp: order_asc_def limit_rows_def dest!: in_set_takeD)
qed

lemma listed_same: "support_reports e = support_reports d \<Longrightarrow> listed s rs e = listed s rs d"
  by (simp add: listed_def)

lemma lock_cases:
  assumes "run_state (with_sync_lock body) d = (r, d')"
  obtains (busy) e where "untouched d d'" "r = Inl e"
        | (held) d1 d2 where "untouched d d1" "run_state body d1 = (r, d2)" "untouched d2 d'"
proof -
  obtain r1 d1 where 1: "run_state (exec id) d = (r1, d1)" by fastforce
  then have un1: "untouched d d1" by (cases rule: exec_cases) (auto simp: untouched_def)
  obtain r2 d2 where 2: "run_state (query (\<lambda>d. Inr (\<not> sync_lock_held d))) d1 = (r2, d2)" by fastforce
  then have un2: "untouched d d2" using un1 untouched_trans by (auto simp: untouched_def elim!: query_cases)
  show thesis
  proof (cases "r1 = Inr () \<and> r2 = Inr True")
    case False
    then have "\<exists>e. r = Inl e" "d' = d1 \<or> d' = d2"
      using assms 1 2 by (auto simp: with_sync_lock_def split: sum.splits)
    then show thesis using busy un1 un2 by blast
  next
    case True
    obtain x d3 where 3: "run_state body d2 = (x, d3)" by fastforce
    obtain y d4 where 4: "run_state (exec id) d3 = (y, d4)" by fastforce
    then have un4: "untouched d3 d4" by (cases rule: exec_cases) (auto simp: untouched_def)
    have "r = x" "d' = d4" using assms 1 2 3 4 True by (auto simp: with_sync_lock_def)
    then show thesis using held un2 3 un4 by blast
  qed
qed

definition sound_step :: "support_env \<Rightarrow> db \<Rightarrow> db \<Rightarrow> bool" where
  "sound_step env d d' \<longleftrightarrow> (report_inv d \<longrightarrow> report_inv d' \<and> reports_le d d' \<and> published env d d')"

lemma sound_same:
  "support_reports d' = support_reports d \<Longrightarrow> serials d' ''support_reports'' = serials d ''support_reports'' \<Longrightarrow> api_calls d' = api_calls d
    \<Longrightarrow> sound_step env d d'"
  by (simp add: sound_step_def report_inv_def reports_le_def published_same) (use moved_refl in blast)

lemma untouched_sound: "untouched d d' \<Longrightarrow> sound_step env d d'"
  by (rule sound_same) (auto simp: untouched_def)

lemma sound_trans: "sound_step env d e \<Longrightarrow> sound_step env e f \<Longrightarrow> sound_step env d f"
  using reports_le_trans published_pre [of env] unfolding sound_step_def preorder_rel_def by blast

context github_api
begin

lemma worker_sound:
  assumes "run_state (andThen (list_pending 50) (\<lambda>pending. do {
      send_all env g pending; nw \<leftarrow> now; andThen (list_open_to_sync (nw - refresh_after) 100) (refresh_all g) })) d = (r, d')"
  shows "sound_step env d d'"
  unfolding sound_step_def
proof
  assume inv: "report_inv d"
  obtain p d1 where 1: "run_state (list_pending 50) d = (p, d1)" by fastforce
  have un1: "untouched d d1" using 1 unfolding list_pending_def by (auto simp: untouched_def elim!: query_cases)
  note s1 = untouched_sound [OF un1, of env, unfolded sound_step_def, rule_format, OF inv]
  show "report_inv d' \<and> reports_le d d' \<and> published env d d'"
  proof (cases p)
    case (Inl e)
    then show ?thesis using assms 1 s1 by simp
  next
    case (Inr pending)
    have l: "listed support_status_pending pending d1"
      using list_pending_run [of 50 d pending d1] 1 Inr inv un1 listed_same [of d1 d] by (auto simp: untouched_def)
    obtain d2 where 2: "run_state (send_all env g pending) d1 = ((), d2)" by (metis old.unit.exhaust surj_pair)
    have neutral_refs: "list_all (\<lambda>r. neutral (rp_ref r)) pending"
      using l s1 by (auto simp: listed_def report_inv_def report_wf_def list_all_iff)
    have s2: "report_inv d2 \<and> reports_le d1 d2 \<and> published env d1 d2"
      using send_all_progress [OF 2] s1 l listed_in_status [OF l] send_all_published [OF neutral_refs, of env] 2
      by (auto simp: listed_def)
    obtain q d3 where 3: "run_state (list_open_to_sync (clock d2 - refresh_after) 100) d2 = (q, d3)" by fastforce
    have un3: "untouched d2 d3" using 3 unfolding list_open_to_sync_def by (auto simp: untouched_def elim!: query_cases)
    note s3 = untouched_sound [OF un3, of env, unfolded sound_step_def, rule_format, OF conjunct1 [OF s2]]
    have "report_inv d' \<and> reports_le d3 d' \<and> published env d3 d'"
    proof (cases q)
      case (Inl e)
      then have "d' = d3" using assms 1 2 3 \<open>p = Inr pending\<close> by simp
      then show ?thesis using s3 reports_le_refl published_same by simp
    next
      case (Inr open_reports)
      have l': "listed support_status_open open_reports d3"
        using list_open_run [of _ 100 d2 open_reports d3] 3 Inr s2 un3 listed_same [of d3 d2] by (auto simp: untouched_def)
      have 4: "run_state (refresh_all g open_reports) d3 = (r, d')" using assms 1 2 3 \<open>p = Inr pending\<close> Inr by simp
      show ?thesis using refresh_progress [OF 4] s3 l' listed_in_status [OF l'] refresh_published [of env open_reports] 4
        by (auto simp: listed_def)
    qed
    then have "sound_step env d3 d'" by (simp add: sound_step_def)
    moreover have "sound_step env d1 d2" "sound_step env d d1" "sound_step env d2 d3"
      using s2 untouched_sound [OF un1] untouched_sound [OF un3] by (simp_all add: sound_step_def)
    ultimately have "sound_step env d d'" by (meson sound_trans)
    then show ?thesis using inv by (simp add: sound_step_def)
  qed
qed

lemma sync_sound:
  assumes "run_state (sync_once env) d = (r, d')" "gh env = Some g"
  shows "sound_step env d d'"
proof -
  let ?body = "andThen (list_pending 50) (\<lambda>pending. do {
      send_all env g pending; nw \<leftarrow> now; andThen (list_open_to_sync (nw - refresh_after) 100) (refresh_all g) })"
  obtain x where "run_state (with_sync_lock ?body) d = (x, d')"
    using assms by (auto simp: sync_once_def split: prod.splits)
  then show ?thesis
  proof (cases rule: lock_cases)
    case (busy e)
    then show ?thesis by (simp add: untouched_sound)
  next
    case (held d1 d2)
    then show ?thesis using worker_sound [OF held(2)] untouched_sound sound_trans by blast
  qed
qed

end


text \<open>A submission is refused without a trace, or stores one new pending report below the quota and tries to publish it.\<close>

definition fresh_report :: "report_input \<Rightarrow> user \<Rightarrow> db \<Rightarrow> support_report \<Rightarrow> bool" where
  "fresh_report inp u d rep \<longleftrightarrow> rp_id rep = serials d ''support_reports'' + 1 \<and> neutral (rp_ref rep) \<and> rp_user rep = u_id u
     \<and> rp_kind rep = in_kind inp \<and> rp_title rep = in_title inp \<and> rp_payload rep = Form (in_fields inp)
     \<and> rp_status rep = support_status_pending \<and> rp_created_at rep = clock d"

lemma create_report_cases:
  assumes "run_state (create_report ref i kind title p) d = (r, d')"
  obtains (failed) e where "r = Inl e" "untouched d d'"
        | (created) bs rep where "r = Inr rep" "rp_id rep = serials d ''support_reports'' + 1" "rp_ref rep = ref" "rp_user rep = i" "rp_kind rep = kind"
            "rp_title rep = title" "rp_payload rep = p" "rp_status rep = support_status_pending" "rp_created_at rep = clock d"
            "d' = (bump ''support_reports'' (d\<lparr>faults := bs\<rparr>))\<lparr>support_reports := support_reports d @ [rep]\<rparr>"
  using assms unfolding create_report_def
proof (cases rule: sql_cases)
  case (conn bs)
  then show thesis using failed by (auto simp: untouched_def)
next
  case (ran bs)
  then show thesis using failed created [where bs = bs]
    by (auto simp: untouched_def nextval_def Let_def split: if_splits)
qed

lemma submit_cases:
  assumes "run_state (submit env u inp0) d = (r, d')"
  obtains (refused) e where "r = Inl e" "support_reports d' = support_reports d" "serials d' = serials d" "api_calls d' = api_calls d"
        | (stored) inp rep d1 where "validate_report (closed_order env) inp0 = Inr inp" "fresh_report inp u d rep"
            "int (length (reports_since (u_id u) (clock d - st_window (settings env)) d)) < st_limit (settings env)"
            "support_reports d1 = support_reports d @ [rep]" "serials d1 ''support_reports'' = rp_id rep" "api_calls d1 = api_calls d"
            "clock d1 = clock d" "faults d = [] \<longrightarrow> faults d1 = []" "gh env = None \<and> r = Inr rep \<and> d' = d1
              \<or> (\<exists>g rep'. gh env = Some g \<and> run_state (send env g rep) d1 = (rep', d') \<and> r = Inr rep')"
proof (cases "validate_report (closed_order env) inp0")
  case (Inl e)
  then show thesis using assms refused [of e] by (simp add: submit_def)
next
  case valid: (Inr inp)
  let ?since = "clock d - st_window (settings env)"
  obtain c d1 where cnt: "run_state (count_since (u_id u) ?since) d = (c, d1)" by fastforce
  obtain bs where d1: "d1 = d\<lparr>faults := bs\<rparr>" and c: "c = Inl ConnError \<or> (\<exists>t. c = Inr (int (length (reports_since (u_id u) ?since d)), t))"
    using cnt unfolding count_since_def by (cases rule: query_cases) (auto simp: Let_def reports_since_def)
  show thesis
  proof (cases "\<exists>n t. c = Inr (n, t) \<and> n < st_limit (settings env)")
    case False
    then have "(\<exists>e. r = Inl e) \<and> d' = d1"
      using assms valid cnt by (auto simp: submit_def split: sum.splits prod.splits if_splits)
    then show thesis using refused d1 by auto
  next
    case True
    then obtain t where t: "c = Inr (int (length (reports_since (u_id u) ?since d)), t)"
      "int (length (reports_since (u_id u) ?since d)) < st_limit (settings env)" using c by auto
    define ref where "ref = ''R-'' @ b32_encode (take 5 (random d1 (draws d1) @ replicate 5 (CHR 0x00)))"
    define d2 where "d2 = d1\<lparr>draws := Suc (draws d1)\<rparr>"
    obtain k d3 where k: "run_state (create_report ref (u_id u) (in_kind inp) (in_title inp) (Form (in_fields inp))) d2 = (k, d3)" by fastforce
    have run: "run_state (case k of Inl e \<Rightarrow> State_Monad.return (Inl (StoreFailed e))
        | Inr rep \<Rightarrow> (case gh env of None \<Rightarrow> State_Monad.return (Inr rep)
          | Some g \<Rightarrow> do { rep' \<leftarrow> send env g rep; State_Monad.return (Inr rep') })) d3 = (r, d')"
      using assms valid cnt t k d1 by (simp add: submit_def new_report_ref_def ref_def d2_def)
    from k show thesis
    proof (cases rule: create_report_cases)
      case (failed e)
      then show thesis using run refused [of "StoreFailed e"] d1 by (auto simp: d2_def untouched_def)
    next
      case (created bs' rep)
      have "fresh_report inp u d rep" using created neutral_ref by (simp add: fresh_report_def ref_def d2_def d1)
      moreover have "support_reports d3 = support_reports d @ [rep]" "serials d3 ''support_reports'' = rp_id rep" "api_calls d3 = api_calls d"
        "clock d3 = clock d" using created by (simp_all add: bump_def nextval_def d2_def d1)
      moreover have "faults d = [] \<longrightarrow> faults d3 = []"
      proof
        assume f: "faults d = []"
        then have "d1 = d" using cnt by (simp add: count_since_def)
        then have "faults d2 = []" using f by (simp add: d2_def)
        then show "faults d3 = []" using k by (auto simp: create_report_def bump_def Let_def split: if_splits)
      qed
      moreover have "gh env = None \<and> r = Inr rep \<and> d' = d3
          \<or> (\<exists>g rep'. gh env = Some g \<and> run_state (send env g rep) d3 = (rep', d') \<and> r = Inr rep')"
        using run created(1) by (auto split: option.splits prod.splits)
      ultimately show thesis using stored [OF valid _ t(2)] by blast
    qed
  qed
qed

lemma stored_sound:
  assumes "fresh_report inp u d rep" "support_reports d1 = support_reports d @ [rep]" "serials d1 ''support_reports'' = rp_id rep"
    "api_calls d1 = api_calls d" "report_inv d"
  shows "report_inv d1" "reports_le d d1" "in_status support_status_pending (rp_id rep) d1"
proof -
  have new: "rp_id q < rp_id rep" if "q \<in> set (support_reports d)" for q
    using that assms(1,5) by (force simp: report_inv_def fresh_report_def list_all_iff)
  then show "report_inv d1" using assms
    by (force simp: report_inv_def fresh_report_def report_wf_def list_all_iff)
  show "reports_le d d1" using moved_refl by (auto simp: reports_le_def assms(2))
  show "in_status support_status_pending (rp_id rep) d1" using new assms(1,2) by (force simp: in_status_def fresh_report_def)
qed

lemma submit_sound:
  assumes run: "run_state (submit env u inp) d = (r, d')" and api: "\<And>g. gh env = Some g \<Longrightarrow> github_api g"
  shows "sound_step env d d'"
  using run
proof (cases rule: submit_cases)
  case (refused e)
  then show ?thesis by (simp add: sound_same)
next
  case (stored inp' rep d1)
  note new = stored_sound [OF stored(2,4-6)]
  show ?thesis unfolding sound_step_def
  proof
    assume inv: "report_inv d"
    show "report_inv d' \<and> reports_le d d' \<and> published env d d'"
      using stored(9)
    proof (elim disjE conjE exE)
      assume "d' = d1"
      then show ?thesis using new [OF inv] stored(6) published_same by simp
    next
      fix g rep' assume g: "gh env = Some g" "run_state (send env g rep) d1 = (rep', d')"
      then have "rewritten support_status_pending (rp_id rep) d1 d'"
        using api github_api.send_rewritten by blast
      note p = rewritten_progress [OF this new(1,3) [OF inv]]
      have "published env d1 d'"
        using github_api.send_published [OF api [OF g(1)], of rep env] g(2) stored(2) by (auto simp: fresh_report_def)
      then have "published env d d'" using stored(6) by (simp add: published_def)
      then show ?thesis using p new(2) [OF inv] reports_le_trans by blast
    qed
  qed
qed


section \<open>Properties\<close>

text \<open>The service works without GitHub, or with the client of the App.\<close>

definition wired :: "support_env \<Rightarrow> bool" where
  "wired env \<longleftrightarrow> gh env = None \<or> (\<exists>c. gh env = Some (app_github c))"

lemma wired_api: "wired env \<Longrightarrow> gh env = Some g \<Longrightarrow> github_api g"
  using app.github_api_axioms by (auto simp: wired_def)

text \<open>What happens to the reports: submissions, runs of the worker, and whatever leaves their table alone.\<close>

inductive support_step :: "db \<Rightarrow> db \<Rightarrow> bool" where
  submitted: "wired env \<Longrightarrow> run_state (submit env u inp) d = (r, d') \<Longrightarrow> support_step d d'"
| synced: "wired env \<Longrightarrow> run_state (sync_once env) d = (x, d') \<Longrightarrow> support_step d d'"
| elsewhere: "support_reports d' = support_reports d \<Longrightarrow> serials d' ''support_reports'' = serials d ''support_reports'' \<Longrightarrow> support_step d d'"

lemma sync_wired: "wired env \<Longrightarrow> run_state (sync_once env) d = (x, d') \<Longrightarrow> sound_step env d d'"
proof (cases "gh env")
  case None
  assume "run_state (sync_once env) d = (x, d')"
  then show ?thesis using None by (simp add: sync_once_def sound_same)
next
  case (Some g)
  assume "wired env" "run_state (sync_once env) d = (x, d')"
  then show ?thesis using github_api.sync_sound [OF wired_api [OF _ Some]] Some by blast
qed

lemma support_step_progress:
  assumes "support_step d d'" "report_inv d"
  shows "report_inv d' \<and> reports_le d d'"
  using assms(1)
proof cases
  case (submitted env u inp r)
  then show ?thesis using submit_sound [OF submitted(2) wired_api] assms(2) by (simp add: sound_step_def)
next
  case (synced env x)
  then show ?thesis using sync_wired assms(2) by (simp add: sound_step_def)
next
  case elsewhere
  then show ?thesis using assms(2) reports_le_refl [of d] by (simp add: report_inv_def reports_le_def)
qed

interpretation reports: monotone_system "\<lambda>d. support_reports d = []" support_step report_inv reports_le
proof
  show "report_inv s" if "support_reports s = []" for s using that by (simp add: report_inv_def)
qed (use support_step_progress reports_le_refl reports_le_trans in blast)+


text \<open>C34. What is published is safe to publish: in every reachable state, a submission or a run of the worker opens issues
  only in the private repository when the title says incident and in the public one otherwise, and neither title nor body holds
  an angle bracket or an at sign that is not followed by a zero-width space, so that no text of a user becomes HTML
  or a mention.\<close>

theorem published_text_is_neutral:
  assumes "support_reports d0 = []" "support_step\<^sup>*\<^sup>* d0 d" "wired env"
    and run: "snd (run_state (submit env u inp) d) = d' \<or> snd (run_state (sync_once env) d) = d'"
  shows "\<exists>cs. api_calls d' = api_calls d @ cs \<and> (\<forall>c ii. c \<in> set cs \<and> ac_body c = IssueCall ii \<longrightarrow>
    ac_path c = issues_path (if prefix ''[Incident] '' (ii_title ii) then private_repo (settings env) else public_repo (settings env))
    \<and> neutral (ii_title ii) \<and> neutral (ii_body ii))"
proof -
  have inv: "report_inv d" using reports.inv_reachable assms(1,2) by blast
  have "sound_step env d d'"
    using run submit_sound [OF _ wired_api [OF assms(3)], where u = u and inp = inp and d = d] sync_wired [OF assms(3), of d]
    by (metis prod.collapse)
  then show ?thesis using inv unfolding sound_step_def published_def proper_call_def list_all_iff by blast
qed

lemma rewritten_since: "rewritten s i d d' \<Longrightarrow> length (reports_since j t d') = length (reports_since j t d)"
  unfolding rewritten_def reports_since_def
proof (elim exE conjE)
  fix f assume f: "support_reports d' = update_rows (\<lambda>r. rp_id r = i) f (support_reports d)"
    "\<forall>r. rp_user (f r) = rp_user r \<and> rp_created_at (f r) = rp_created_at r"
  have "length (filter p (update_rows q f rs)) = length (filter p rs)" if "\<And>r. p (f r) = p r" for p q rs
    using that by (induction rs) (simp_all add: update_rows_def)
  then show "length (filter (\<lambda>r. rp_user r = j \<and> t < rp_created_at r) (support_reports d'))
      = length (filter (\<lambda>r. rp_user r = j \<and> t < rp_created_at r) (support_reports d))"
    unfolding f(1) using f(2) by simp
qed

text \<open>The quota holds: after a submission that is accepted, the account has at most the configured number of
  reports in the window that ends now; a submission by an account that has that many is refused with the instant at which the
  oldest leaves the window.\<close>

theorem report_quota:
  assumes "wired env" "run_state (submit env u inp) d = (r, d')"
  shows "(\<forall>rep. r = Inr rep \<longrightarrow>
      int (length (reports_since (u_id u) (clock d - st_window (settings env)) d')) \<le> st_limit (settings env))
    \<and> (\<forall>inp'. validate_report (closed_order env) inp = Inr inp' \<and> faults d = [] \<and> 0 < st_limit (settings env)
        \<and> st_limit (settings env) \<le> int (length (reports_since (u_id u) (clock d - st_window (settings env)) d)) \<longrightarrow>
      r = Inl (RateLimitError (Min (rp_created_at ` set (reports_since (u_id u) (clock d - st_window (settings env)) d))
        + st_window (settings env))))"
proof (intro conjI allI impI)
  fix rep assume "r = Inr rep"
  from assms(2) show "int (length (reports_since (u_id u) (clock d - st_window (settings env)) d')) \<le> st_limit (settings env)"
  proof (cases rule: submit_cases)
    case (refused e)
    then show ?thesis using \<open>r = Inr rep\<close> by simp
  next
    case (stored inp' rep' d1)
    let ?n = "\<lambda>d. int (length (reports_since (u_id u) (clock d1 - st_window (settings env)) d))"
    have "?n d1 \<le> st_limit (settings env)" using stored(3,4,7) by (simp add: reports_since_def)
    moreover have "?n d' = ?n d1"
      using stored(9) rewritten_since github_api.send_rewritten [OF wired_api [OF assms(1)]] by metis
    ultimately show ?thesis using stored(7) by simp
  qed
next
  fix inp' assume h: "validate_report (closed_order env) inp = Inr inp' \<and> faults d = [] \<and> 0 < st_limit (settings env)
    \<and> st_limit (settings env) \<le> int (length (reports_since (u_id u) (clock d - st_window (settings env)) d))"
  then have "reports_since (u_id u) (clock d - st_window (settings env)) d \<noteq> []" by auto
  then show "r = Inl (RateLimitError (Min (rp_created_at ` set (reports_since (u_id u) (clock d - st_window (settings env)) d))
        + st_window (settings env)))"
    using assms(2) h by (auto simp: submit_def count_since_def Let_def)
qed


text \<open>C35. Text that must not leave the portal does not: a submission whose title, once trimmed, or whose free text
  mentions an e-mail address or holds a run of forty characters of a key is refused as an invalid or
  sensitive field, before anything is stored or sent.\<close>

theorem sensitive_report_refused:
  assumes "s = trim_space (in_title inp) \<or> s \<in> snd ` set (free_texts (in_fields inp))" "mentions_email s \<or> mentions_key s"
  shows "\<exists>e. run_state (submit env u inp) d = (Inl e, d) \<and> ((\<exists>f r. e = FieldError f r) \<or> (\<exists>f c. e = SensitiveError f c))"
proof -
  have bad: "detect_sensitive s \<noteq> []" using assms(2) email_refused long_run_refused by blast
  let ?texts = "(''title'', trim_space (in_title inp)) # free_texts (in_fields inp)"
  have "\<exists>p \<in> set ?texts. snd p = s" using assms(1) by force
  then have "find (\<lambda>p. detect_sensitive (snd p) \<noteq> []) ?texts \<noteq> None" using bad unfolding find_None_iff by blast
  then have "\<exists>e. validate_report (closed_order env) inp = Inl e \<and> ((\<exists>f r. e = FieldError f r) \<or> (\<exists>f c. e = SensitiveError f c))"
    unfolding validate_report_def Let_def by (auto split: option.splits)
  then show ?thesis by (auto simp: submit_def)
qed

subsection \<open>Publication\<close>

text \<open>A GitHub that accepts every issue and grants a token when asked.\<close>

definition accepting :: "app_client \<Rightarrow> bool" where
  "accepting c \<longleftrightarrow> (\<forall>e i t. ap_sign c e i t \<noteq> None)
     \<and> (\<forall>n call. (\<forall>ii. ac_body call = IssueCall ii \<longrightarrow> (\<exists>iss. ap_http c n call = Reply 201 (IssueReply iss)))
       \<and> (ac_method call = ''POST'' \<and> ac_body call = NoCallBody \<longrightarrow> (\<exists>tok t. ap_http c n call = Reply 201 (TokenReply tok t))))"

lemma authed_faults: "faults (snd (run_state (authed c m path body) d)) = faults d"
  by (simp add: authed_def installation_token_def cached_token_def api_do_def store_token_def Let_def
      split: option.splits sum.splits prod.splits api_reply.splits api_body.splits if_splits)

lemma acceptingD:
  assumes "accepting c"
  shows "\<exists>signed. app_jwt c nw = Some signed"
    "\<exists>tok t d'. run_state (api_do c ''POST'' path b NoCallBody) d = (Inr (TokenReply tok t), d')"
    "\<exists>iss d'. run_state (api_do c m path b (IssueCall ii)) d = (Inr (IssueReply iss), d')"
proof -
  have acc: "\<And>e i t. ap_sign c e i t \<noteq> None"
    "\<And>n call ii. ac_body call = IssueCall ii \<Longrightarrow> \<exists>iss. ap_http c n call = Reply 201 (IssueReply iss)"
    "\<And>n call. ac_method call = ''POST'' \<Longrightarrow> ac_body call = NoCallBody \<Longrightarrow> \<exists>tok t. ap_http c n call = Reply 201 (TokenReply tok t)"
    using assms unfolding accepting_def by blast+
  show "\<exists>signed. app_jwt c nw = Some signed" using acc(1) by (auto simp: app_jwt_def)
  let ?call = "\<lambda>m body. \<lparr>ac_method = m, ac_path = path, ac_bearer = b, ac_body = body\<rparr>"
  obtain tok t where "ap_http c (length (api_calls d)) (?call ''POST'' NoCallBody) = Reply 201 (TokenReply tok t)"
    using acc(3) [of "?call ''POST'' NoCallBody" "length (api_calls d)"] by auto
  then show "\<exists>tok t d'. run_state (api_do c ''POST'' path b NoCallBody) d = (Inr (TokenReply tok t), d')"
    by (simp add: api_do_def Let_def)
  obtain iss where "ap_http c (length (api_calls d)) (?call m (IssueCall ii)) = Reply 201 (IssueReply iss)"
    using acc(2) [of "?call m (IssueCall ii)" ii "length (api_calls d)"] by auto
  then show "\<exists>iss d'. run_state (api_do c m path b (IssueCall ii)) d = (Inr (IssueReply iss), d')"
    by (simp add: api_do_def Let_def)
qed

lemma token_accepting:
  assumes "accepting c"
  shows "\<exists>tok d'. run_state (installation_token c) d = (Inr tok, d')"
proof (cases "fst (run_state (cached_token (clock d)) d)")
  case (Some tok)
  then show ?thesis by (simp add: installation_token_def case_prod_beta)
next
  case None
  obtain signed where s: "app_jwt c (clock d) = Some signed" using acceptingD(1) [OF assms] by blast
  have "snd (run_state (cached_token (clock d)) d) = d" by (simp add: cached_token_def)
  then show ?thesis using None s acceptingD(2) [OF assms, of "''/app/installations/'' @ ap_installation c @ ''/access_tokens''" signed d]
    by (auto simp: installation_token_def case_prod_beta store_token_def)
qed

lemma create_accepting:
  assumes "accepting c"
  shows "\<exists>iss d'. run_state (create_issue c repo inp) d = (Inr iss, d') \<and> faults d' = faults d"
proof -
  obtain tok d1 where t: "run_state (installation_token c) d = (Inr tok, d1)" using token_accepting [OF assms] by blast
  obtain iss d2 where i: "run_state (api_do c ''POST'' (issues_path repo) tok (IssueCall inp)) d1 = (Inr (IssueReply iss), d2)"
    using acceptingD(3) [OF assms] by blast
  have "run_state (authed c ''POST'' (issues_path repo) (IssueCall inp)) d = (Inr (IssueReply iss), d2)"
    using t i by (simp add: authed_def)
  then show ?thesis using authed_faults [of c "''POST''" "issues_path repo" "IssueCall inp" d] by (simp add: create_issue_def issue_of_def)
qed

lemma send_accepting:
  assumes "accepting c" "faults d = []" "rp_payload rep \<noteq> OtherJson" "run_state (send env (app_github c) rep) d = (x, d')"
  shows "in_status support_status_open (rp_id rep) d'" "faults d' = []"
proof -
  let ?repo = "repo_for (settings env) (rp_kind rep)"
  obtain f where f: "fields_of (rp_payload rep) = Some f" using assms(3) by (cases "rp_payload rep") (simp_all add: fields_of_def)
  obtain iss d1 where c: "run_state (create_issue c ?repo (issue_input_of env rep f)) d = (Inr iss, d1)" "faults d1 = []"
    using create_accepting [OF assms(1)] assms(2) by metis
  define d2 where "d2 = snd (run_state (if project_id (settings env) \<noteq> [] \<and> gi_node_id iss \<noteq> []
      then do { _ \<leftarrow> add_to_project c (project_id (settings env)) (gi_node_id iss); State_Monad.return () } else State_Monad.return ()) d1)"
  have d2: "faults d2 = []"
    using c(2) authed_faults [of c "''POST''" "''/graphql''" "GraphCall (project_id (settings env)) (gi_node_id iss)" d1]
    by (simp add: d2_def add_to_project_def case_prod_beta)
  have "d' = snd (run_state (mark_sent (rp_id rep) ?repo (gi_number iss) (gi_html_url iss)) d2)"
    using assms(4) f c(1)
    by (cases "project_id (settings env) \<noteq> [] \<and> gi_node_id iss \<noteq> []") (auto simp: send_def app_github_def Let_def case_prod_beta d2_def)
  then show "in_status support_status_open (rp_id rep) d'" "faults d' = []"
    using d2 by (auto simp: mark_sent_def set_report_def in_status_def update_rows_def split: if_splits)
qed

lemma send_all_accepting:
  assumes "accepting c" "faults d = []" "report_inv d" "distinct (map rp_id rs)" "list_all (\<lambda>r. rp_payload r \<noteq> OtherJson) rs"
    "list_all (\<lambda>r. in_status support_status_pending (rp_id r) d) rs" "run_state (send_all env (app_github c) rs) d = (x, d')"
  shows "list_all (\<lambda>r. in_status support_status_open (rp_id r) d') rs \<and> faults d' = []
    \<and> (\<forall>j. j \<notin> rp_id ` set rs \<longrightarrow> in_status support_status_open j d \<longrightarrow> in_status support_status_open j d')"
  using assms(2-)
proof (induction rs arbitrary: d)
  case (Cons r rs)
  obtain y d1 where s: "run_state (send env (app_github c) r) d = (y, d1)" by fastforce
  note opened = send_accepting [OF assms(1) Cons.prems(1) _ s]
  have pending: "in_status support_status_pending (rp_id r) d" using Cons.prems(5) by simp
  note step = rewritten_progress [OF app.send_rewritten [OF s] Cons.prems(2) pending]
  have "list_all (\<lambda>r. in_status support_status_pending (rp_id r) d1) rs"
    using Cons.prems(3,5) step(3) by (auto simp: list_all_iff image_iff)
  then have "list_all (\<lambda>r. in_status support_status_open (rp_id r) d') rs \<and> faults d' = []
      \<and> (\<forall>j. j \<notin> rp_id ` set rs \<longrightarrow> in_status support_status_open j d1 \<longrightarrow> in_status support_status_open j d')"
    using Cons.IH [OF opened(2) step(1)] Cons.prems s by simp
  then show ?case using opened(1) step(3) Cons.prems(3,4) by auto
qed simp

text \<open>C37. Reports reach GitHub: when GitHub accepts issues, the database answers and no other instance holds the lock, one run of the
  worker publishes every report that is waiting and due, as long as there are at most fifty of them: the report
  is then no longer pending.\<close>

theorem sync_publishes_due_reports:
  assumes reach: "support_reports d0 = []" "support_step\<^sup>*\<^sup>* d0 d"
    and env: "gh env = Some (app_github c)" "accepting c" "faults d = []" "\<not> sync_lock_held d"
    and due: "due = filter (\<lambda>r. rp_status r = ''pending'' \<and> rp_attempts r < 10
        \<and> (rp_attempts r = 0 \<or> rp_updated_at r < clock d - backoff (rp_attempts r))) (support_reports d)" "length due \<le> 50"
    and run: "run_state (sync_once env) d = (x, d')" "r \<in> set due"
  shows "\<exists>r' \<in> set (support_reports d'). rp_id r' = rp_id r \<and> rp_status r' \<noteq> ''pending''"
proof -
  have inv: "report_inv d" using reports.inv_reachable reach by blast
  let ?rs = "order_asc rp_created_at due"
  have list: "run_state (list_pending 50) d = (Inr ?rs, d)"
    using env(3) due by (simp add: list_pending_def limit_rows_def order_asc_def support_status_defs)
  have l: "listed support_status_pending ?rs d" using list_pending_run [OF list inv] .
  have form: "list_all (\<lambda>r. rp_payload r \<noteq> OtherJson) ?rs"
    using inv l by (auto simp: listed_def report_inv_def report_wf_def list_all_iff)
  obtain y d1 where s: "run_state (send_all env (app_github c) ?rs) d = (y, d1)" by (rule prod.exhaust)
  have sent: "list_all (\<lambda>r. in_status support_status_open (rp_id r) d1) ?rs" "faults d1 = []"
    using send_all_accepting [OF env(2,3) inv _ form listed_in_status [OF l inv] s] l by (auto simp: listed_def)
  have inv1: "report_inv d1" "reports_le d d1"
    using app.send_all_progress [OF s inv] l listed_in_status [OF l inv] by (auto simp: listed_def)
  obtain os d2 where o: "run_state (list_open_to_sync (clock d1 - refresh_after) 100) d1 = (Inr os, d2)" "d2 = d1"
    using sent(2) by (simp add: list_open_to_sync_def Let_def)
  note lo = list_open_run [OF o(1) inv1(1)]
  obtain z d3 where f: "run_state (refresh_all (app_github c) os) d1 = (z, d3)" by (rule prod.exhaust)
  have le3: "reports_le d1 d3" using app.refresh_progress [OF f inv1(1)] lo listed_in_status [OF lo inv1(1)] by (auto simp: listed_def)
  have "support_reports d' = support_reports d3"
    using run(1) env(1,3,4) list s o f
    by (auto simp: sync_once_def with_sync_lock_def exec_def sql_def split: list.splits if_splits)
  moreover obtain r1 where r1: "r1 \<in> set (support_reports d1)" "moved r r1"
    using inv1(2) run(2) due(1) unfolding reports_le_def by auto
  moreover have "rp_status r1 = support_status_open"
    using sent(1) r1 run(2) by (auto simp: list_all_iff in_status_def moved_def)
  moreover obtain r3 where "r3 \<in> set (support_reports d3)" "moved r1 r3" using le3 r1(1) unfolding reports_le_def by blast
  ultimately show ?thesis by (intro bexI [of _ r3]) (auto simp: moved_def status_le_def support_status_defs)
qed

section \<open>Witnesses\<close>

definition sample_client :: app_client where
  "sample_client = \<lparr>ap_app_id = ''1'', ap_installation = ''2'', ap_sign = (\<lambda>_ _ _. Some ''jwt''),
     ap_http = (\<lambda>n call. case ac_body call of
         NoCallBody \<Rightarrow> Reply 201 (TokenReply ''tok'' (60 * minute))
       | IssueCall _ \<Rightarrow> Reply 201 (IssueReply (zero_issue\<lparr>gi_number := 7, gi_html_url := ''url''\<rparr>))
       | GraphCall _ _ \<Rightarrow> Reply 200 (GraphReply []))\<rparr>"

definition sample_desk :: "github option \<Rightarrow> support_env" where
  "sample_desk g = \<lparr>settings = \<lparr>pseudonym_key = ''key'', public_repo = ''pub'', private_repo = ''priv'', project_id = [],
     st_limit = 5, st_window = 24 * hour\<rparr>, gh = g, hmac_sha256 = (\<lambda>k m. k @ m), closed_order = [''app'', ''mode'', ''impact'']\<rparr>"

definition sample_form :: "string \<Rightarrow> report_input" where
  "sample_form t = \<lparr>in_kind = kind_bug, in_title = t, in_fields = \<lparr>rf_app = ''web'', rf_version = [], rf_mode = [], rf_since = [],
     rf_impact = [], rf_actual = ''x'', rf_expected = [], rf_steps = [], rf_tried = []\<rparr>\<rparr>"

lemma sample_normalise: "normalise ''t'' = map byte ''t''" "normalise ''x'' = map byte ''x''" "normalise [] = []"
  "normalise ''a@b.fr'' = map byte ''a@b.fr''"
  by (simp_all add: normalise_ascii byte_def normalise_ascii [of "[]", simplified])

lemma sample_texts: "trim_space ''t'' = ''t''" "trim_space ''x'' = ''x''" "trim_space ''a@b.fr'' = ''a@b.fr''" "rune_count ''t'' = 1" "rune_count ''x'' = 1"
  "rune_count [] = 0"
  by code_simp+

lemma sample_form_valid: "validate_report [''app'', ''mode'', ''impact''] (sample_form ''t'') = Inr (sample_form ''t'')"
proof -
  have "detect_sensitive ''t'' = []" "detect_sensitive ''x'' = []" "detect_sensitive [] = []"
    by (rule short_text_safe, simp add: sample_normalise)+
  then show ?thesis
    by (simp add: validate_report_def sample_form_def sample_texts free_texts_def closed_value_def allowed_values_def kind_bug_def
        kind_incident_def max_title_len_def max_text_len_def)
qed

lemma sample_accepting: "accepting sample_client"
  by (auto simp: accepting_def sample_client_def)

lemma sample_wired: "wired (sample_desk None)" "wired (sample_desk (Some (app_github sample_client)))"
  by (auto simp: wired_def sample_desk_def)

definition sample_report :: support_report where
  "sample_report = \<lparr>rp_id = 2, rp_ref = ''R-'' @ b32_encode (take 5 (random sample_db (draws sample_db) @ replicate 5 (CHR 0x00))),
     rp_user = 1, rp_kind = kind_bug, rp_title = ''t'', rp_payload = Form (in_fields (sample_form ''t'')), rp_status = ''pending'',
     rp_repo = None, rp_issue_number = None, rp_issue_url = None, rp_attempts = 0, rp_last_error = None, rp_created_at = 0,
     rp_updated_at = 0, rp_synced_at = None\<rparr>"

lemma sample_submit:
  obtains d where "run_state (submit (sample_desk None) sample_user (sample_form ''t'')) sample_db = (Inr sample_report, d)"
    "support_reports d = [sample_report]" "faults d = []" "\<not> sync_lock_held d" "clock d = 0" "support_step sample_db d"
proof -
  let ?run = "run_state (submit (sample_desk None) sample_user (sample_form ''t'')) sample_db"
  have db: "faults sample_db = []" "support_reports sample_db = []" "clock sample_db = 0" "u_id sample_user = 1"
    "users sample_db = [sample_user]" "serials sample_db ''support_reports'' = 1" "\<not> sync_lock_held sample_db"
    by (simp_all add: sample_defs)
  have "fst ?run = Inr sample_report" "support_reports (snd ?run) = [sample_report]" "faults (snd ?run) = []"
    "\<not> sync_lock_held (snd ?run)" "clock (snd ?run) = 0"
    using db sample_form_valid
    by (simp_all add: submit_def sample_desk_def count_since_def reports_since_def Let_def new_report_ref_def create_report_def
        bump_def nextval_def sample_report_def sample_form_def support_status_defs)
  moreover have "support_step sample_db (snd ?run)" using submitted [OF sample_wired(1)] by (metis prod.collapse)
  ultimately show thesis using that [of "snd ?run"] by (metis prod.collapse)
qed


theorem published_text_is_neutral_witness:
  "\<exists>cs. api_calls (snd (run_state (submit (sample_desk (Some (app_github sample_client))) sample_user (sample_form ''t'')) sample_db)) = cs
    \<and> (\<forall>c ii. c \<in> set cs \<and> ac_body c = IssueCall ii \<longrightarrow>
      ac_path c = issues_path (if prefix ''[Incident] '' (ii_title ii) then ''priv'' else ''pub'') \<and> neutral (ii_title ii) \<and> neutral (ii_body ii))"
proof -
  let ?env = "sample_desk (Some (app_github sample_client))"
  have "support_reports sample_db = []" "api_calls sample_db = []" "private_repo (settings ?env) = ''priv''" "public_repo (settings ?env) = ''pub''"
    by (simp_all add: sample_defs sample_desk_def)
  then show ?thesis
    using published_text_is_neutral [OF _ rtranclp.rtrancl_refl sample_wired(2) disjI1 [OF refl], of sample_db sample_user "sample_form ''t''"]
    by simp
qed

theorem report_quota_witness:
  "\<exists>d'. run_state (submit (sample_desk None) sample_user (sample_form ''t'')) sample_db = (Inr sample_report, d')
    \<and> int (length (reports_since 1 (- 24 * hour) d')) \<le> 5"
proof -
  obtain d where d: "run_state (submit (sample_desk None) sample_user (sample_form ''t'')) sample_db = (Inr sample_report, d)"
    by (rule sample_submit)
  from report_quota [OF sample_wired(1) d] d show ?thesis by (auto simp: sample_desk_def sample_defs)
qed

theorem sensitive_report_refused_witness:
  "\<exists>e. run_state (submit (sample_desk None) sample_user (sample_form ''a@b.fr'')) sample_db = (Inl e, sample_db)"
proof -
  have "mentions_email ''a@b.fr''"
    unfolding mentions_email_def sample_normalise
    by (rule exI [of _ "[]"], rule exI [of _ "map byte ''a''"], rule exI [of _ "map byte ''b''"], rule exI [of _ "map byte ''fr''"],
        rule exI [of _ "[]"]) (simp add: az09_def either_of_def letter_rune_def range_of_def byte_def)
  moreover have "''a@b.fr'' = trim_space (in_title (sample_form ''a@b.fr''))" by (simp add: sample_form_def sample_texts)
  ultimately show ?thesis
    using sensitive_report_refused [of "''a@b.fr''" "sample_form ''a@b.fr''" "sample_desk None" sample_user sample_db] by blast
qed

theorem sync_publishes_due_reports_witness:
  "\<exists>d r'. support_reports d = [sample_report]
    \<and> r' \<in> set (support_reports (snd (run_state (sync_once (sample_desk (Some (app_github sample_client)))) d))) \<and> rp_status r' \<noteq> ''pending''"
proof -
  obtain d where d: "support_reports d = [sample_report]" "faults d = []" "\<not> sync_lock_held d" "support_step sample_db d"
    by (rule sample_submit)
  let ?env = "sample_desk (Some (app_github sample_client))"
  let ?due = "filter (\<lambda>r. rp_status r = ''pending'' \<and> rp_attempts r < 10
        \<and> (rp_attempts r = 0 \<or> rp_updated_at r < clock d - backoff (rp_attempts r))) (support_reports d)"
  have h: "support_reports sample_db = []" "support_step\<^sup>*\<^sup>* sample_db d" "gh ?env = Some (app_github sample_client)"
    "length ?due \<le> 50" "sample_report \<in> set ?due"
    using d by (auto simp: sample_defs sample_desk_def sample_report_def)
  obtain x d' where run: "run_state (sync_once ?env) d = (x, d')" by (rule prod.exhaust)
  from sync_publishes_due_reports [OF h(1-3) sample_accepting d(2,3) refl h(4) run h(5)]
  have "\<exists>r' \<in> set (support_reports (snd (run_state (sync_once ?env) d))). rp_status r' \<noteq> ''pending''" using run by auto
  then show ?thesis using d(1) by blast
qed

end
