(* ===== verification/Config.thy ===== *)
theory Config
  imports Support Identity
begin

text \<open>
  Configuration and wiring of the services (internal/config/config.go, internal/turnstile/verify.go,
  \<open>newSupportService\<close> of cmd/server/main.go and the first half of \<open>Mount\<close> in internal/identity/routes.go). The
  environment of the process is a function from names to values, the empty string for a variable that is not
  set. The site that checks captchas, the file system and the cryptography are arguments.
\<close>

section \<open>Configuration\<close>

record config =
  consolidated_mode :: bool
  exchange_stale_ttl :: duration
  db_host :: string
  db_port :: string
  db_user :: string
  db_password :: string
  db_name :: string
  port :: string
  migrations_dir :: string
  cors_origin :: string
  jwt_secret :: string
  admin_token_value :: string
  environment :: string
  turnstile_secret_key :: string
  turnstile_disabled :: bool
  register_rate_limit :: int
  register_rate_window :: duration
  support_pseudonym_key :: string
  support_public_repo :: string
  support_private_repo :: string
  support_project_id :: string
  github_app_id :: string
  github_installation :: string
  github_app_key_file :: string
  github_api_url :: string

type_synonym environ = "string \<Rightarrow> string"

definition env_str :: "environ \<Rightarrow> string \<Rightarrow> string \<Rightarrow> string" where
  "env_str getenv key fallback = (if getenv key \<noteq> [] then getenv key else fallback)"

definition env_bool :: "environ \<Rightarrow> string \<Rightarrow> bool \<Rightarrow> bool" where
  "env_bool getenv key fallback =
     (let v = to_lower (trim_space (getenv key)) in
      if v = [] then fallback else v = ''true'' \<or> v = ''1'' \<or> v = ''yes'')"

text \<open>A product of durations, at the width of \<open>int64\<close>.\<close>

definition seconds :: "int \<Rightarrow> duration" where
  "seconds n = signed_take_bit 63 (n * second)"

definition env_duration_seconds :: "environ \<Rightarrow> string \<Rightarrow> int \<Rightarrow> duration" where
  "env_duration_seconds getenv key fallback =
     (if getenv key = [] then seconds fallback
      else (case atoi (getenv key) of
          None \<Rightarrow> seconds fallback
        | Some n \<Rightarrow> if n \<le> 0 then seconds fallback else seconds n))"

definition env_int :: "environ \<Rightarrow> string \<Rightarrow> int \<Rightarrow> int" where
  "env_int getenv key fallback =
     (if getenv key = [] then fallback
      else (case atoi (getenv key) of
          None \<Rightarrow> fallback
        | Some n \<Rightarrow> if n \<le> 0 then fallback else n))"

definition load :: "environ \<Rightarrow> config" where
  "load getenv =
     (let env_name = (if env_str getenv ''ENV'' [] = [] then env_str getenv ''APP_ENV'' [] else env_str getenv ''ENV'' []) in
      \<lparr>consolidated_mode = env_bool getenv ''CONSOLIDATED_MODE'' False,
       exchange_stale_ttl = env_duration_seconds getenv ''EXCHANGE_STALE_TTL_SECONDS'' 120,
       db_host = env_str getenv ''DB_HOST'' ''127.0.0.1'',
       db_port = env_str getenv ''DB_PORT'' ''5432'',
       db_user = env_str getenv ''DB_USER'' ''essensys'',
       db_password = env_str getenv ''DB_PASSWORD'' [],
       db_name = env_str getenv ''DB_NAME'' ''essensys_db'',
       port = env_str getenv ''PORT'' ''8081'',
       migrations_dir = env_str getenv ''MIGRATIONS_DIR'' ''migrations'',
       cors_origin = env_str getenv ''CORS_ORIGIN'' ''https://mon.essensys.fr'',
       jwt_secret = env_str getenv ''JWT_SECRET'' [],
       admin_token_value = env_str getenv ''ADMIN_TOKEN'' [],
       environment = env_name,
       turnstile_secret_key = env_str getenv ''TURNSTILE_SECRET_KEY'' [],
       turnstile_disabled = env_bool getenv ''TURNSTILE_DISABLED'' False,
       register_rate_limit = env_int getenv ''REGISTER_RATE_LIMIT'' 5,
       register_rate_window = env_duration_seconds getenv ''REGISTER_RATE_WINDOW_SECONDS'' 3600,
       support_pseudonym_key = env_str getenv ''SUPPORT_PSEUDONYM_KEY'' [],
       support_public_repo = env_str getenv ''SUPPORT_PUBLIC_REPO'' ''essensys-hub/essensys-support-site'',
       support_private_repo = env_str getenv ''SUPPORT_PRIVATE_REPO'' ''essensys-hub/essensys-support'',
       support_project_id = env_str getenv ''SUPPORT_PROJECT_ID'' [],
       github_app_id = env_str getenv ''GITHUB_APP_ID'' [],
       github_installation = env_str getenv ''GITHUB_APP_INSTALLATION_ID'' [],
       github_app_key_file = env_str getenv ''GITHUB_APP_PRIVATE_KEY_FILE'' [],
       github_api_url = env_str getenv ''GITHUB_API_URL'' ''https://api.github.com''\<rparr>)"

definition min_secret_len :: nat where "min_secret_len = 16"

definition insecure_secrets :: "string list" where
  "insecure_secrets = [[], ''insecure-dev-secret'', ''default-insecure-jwt-secret-change-me'',
     ''essensys-admin-secret'', ''changeme_random_secret'', ''changeme'', ''1234567890'']"

definition check_secret :: "string \<Rightarrow> string \<Rightarrow> goerr option" where
  "check_secret name v =
     (if v \<in> set insecure_secrets
      then Some (Errorf (name @ '' is missing or set to a known-insecure default; set a strong unique value''))
      else if length v < min_secret_len
      then Some (Errorf (name @ '' is too short ('' @ itoa (int (length v)) @ '' chars); require at least ''
                         @ itoa (int min_secret_len)))
      else None)"

definition is_production :: "config \<Rightarrow> bool" where
  "is_production c =
     (let e = map (\<lambda>p. lower_case (fst p)) (runes (trim_space (environment c))) in
      e = map byte ''production'' \<or> e = map byte ''prod'')"

definition turnstile_required :: "config \<Rightarrow> bool" where
  "turnstile_required c = (if is_production c then True else if turnstile_disabled c then False else True)"

definition validate_config :: "config \<Rightarrow> goerr option" where
  "validate_config c =
     (case check_secret ''JWT_SECRET'' (jwt_secret c) of
        Some e \<Rightarrow> Some e
      | None \<Rightarrow> (case check_secret ''ADMIN_TOKEN'' (admin_token_value c) of
          Some e \<Rightarrow> Some e
        | None \<Rightarrow>
            if is_production c \<and> consolidated_mode c \<and> turnstile_disabled c
            then Some (Errorf ''TURNSTILE_DISABLED is not allowed when ENV=production'')
            else if is_production c \<and> consolidated_mode c \<and> trim_space (turnstile_secret_key c) = []
            then Some (Errorf ''TURNSTILE_SECRET_KEY is required when ENV=production and CONSOLIDATED_MODE=true'')
            else if is_production c \<and> consolidated_mode c
            then check_secret ''SUPPORT_PSEUDONYM_KEY'' (support_pseudonym_key c)
            else None))"

definition github_app_configured :: "config \<Rightarrow> bool" where
  "github_app_configured c \<longleftrightarrow> github_app_id c \<noteq> [] \<and> github_installation c \<noteq> [] \<and> github_app_key_file c \<noteq> []"

section \<open>The captcha client\<close>

text \<open>
  A reply of the site: none at all (no connection, a time-out, a body that breaks off), or a status with the
  decoded body, \<open>None\<close> for a text that is not the expected object.
\<close>

datatype site_reply = NoAnswer string | SiteReply int "(bool \<times> string list) option"

type_synonym site = "string \<Rightarrow> (string \<times> string) list \<Rightarrow> site_reply"

definition default_site_verify_url :: string where
  "default_site_verify_url = ''https://challenges.cloudflare.com/turnstile/v0/siteverify''"

record turnstile_client =
  tc_secret :: string
  tc_verify_url :: string

definition new_turnstile_client :: "string \<Rightarrow> turnstile_client" where
  "new_turnstile_client secret = \<lparr>tc_secret = secret, tc_verify_url = default_site_verify_url\<rparr>"

text \<open>The form in the order in which \<open>url.Values\<close> is encoded.\<close>

definition verify_form :: "string \<Rightarrow> string \<Rightarrow> string \<Rightarrow> (string \<times> string) list" where
  "verify_form secret token ip =
     (if ip \<noteq> [] then [(''remoteip'', ip)] else []) @ [(''response'', token), (''secret'', secret)]"

definition turnstile_verify :: "site \<Rightarrow> turnstile_client option \<Rightarrow> string \<Rightarrow> string \<Rightarrow> goerr option" where
  "turnstile_verify post c raw ip = (case c of
       None \<Rightarrow> Some (Errorf ''turnstile secret not configured'')
     | Some c \<Rightarrow>
         if trim_space (tc_secret c) = [] then Some (Errorf ''turnstile secret not configured'')
         else (let token = trim_space raw in
           if token = [] then Some (Errorf ''turnstile token missing'')
           else (let url = if tc_verify_url c = [] then default_site_verify_url else tc_verify_url c in
             (case post url (verify_form (tc_secret c) token ip) of
                NoAnswer e \<Rightarrow> Some (Errorf (''turnstile siteverify: '' @ e))
              | SiteReply code body \<Rightarrow>
                  if code \<noteq> 200 then Some (Errorf (''turnstile siteverify HTTP '' @ itoa code))
                  else (case body of
                      None \<Rightarrow> Some (Errorf ''turnstile decode'')
                    | Some (success, codes) \<Rightarrow>
                        if success then None
                        else if codes \<noteq> [] then Some (Errorf (''turnstile rejected: '' @ join '','' codes))
                        else Some (Errorf ''turnstile rejected''))))))"

section \<open>Wiring\<close>

definition identity_verifier :: "site \<Rightarrow> config \<Rightarrow> (string \<Rightarrow> string \<Rightarrow> bool) option" where
  "identity_verifier post cfg =
     (if trim_space (turnstile_secret_key cfg) \<noteq> []
      then Some (\<lambda>token ip. turnstile_verify post (Some (new_turnstile_client (turnstile_secret_key cfg))) token ip = None)
      else None)"

definition identity_of :: "site \<Rightarrow> config \<Rightarrow> identity_env \<Rightarrow> identity_env" where
  "identity_of post cfg env = env\<lparr>turnstile_enforced := turnstile_required cfg, turnstile := identity_verifier post cfg\<rparr>"

definition register_limiter :: "config \<Rightarrow> rate_limiter" where
  "register_limiter cfg =
     new_rate_limiter (if register_rate_limit cfg \<le> 0 then 5 else register_rate_limit cfg)
       (if register_rate_window cfg \<le> 0 then hour else register_rate_window cfg)"

record support_deps =
  sd_read_file :: "string \<Rightarrow> string option"
  sd_parse_key :: "string \<Rightarrow> (string \<Rightarrow> instant \<Rightarrow> instant \<Rightarrow> string option) option"
  sd_http :: "string \<Rightarrow> nat \<Rightarrow> api_call \<Rightarrow> api_reply"
  sd_sha256 :: "string \<Rightarrow> string"
  sd_hmac :: "string \<Rightarrow> string \<Rightarrow> string"
  sd_order :: "string list"

definition new_app_client ::
  "support_deps \<Rightarrow> string \<Rightarrow> string \<Rightarrow> (string \<Rightarrow> instant \<Rightarrow> instant \<Rightarrow> string option) \<Rightarrow> string \<Rightarrow> app_client" where
  "new_app_client deps app_id installation key base_url =
     (let base = trim_right_slash (if base_url = [] then ''https://api.github.com'' else base_url) in
      \<lparr>ap_app_id = app_id, ap_installation = installation, ap_sign = key, ap_http = sd_http deps base\<rparr>)"

definition support_github :: "support_deps \<Rightarrow> config \<Rightarrow> github option" where
  "support_github deps cfg =
     (if github_app_configured cfg
      then (case sd_read_file deps (github_app_key_file cfg) of
          None \<Rightarrow> None
        | Some pem \<Rightarrow> (case sd_parse_key deps pem of
            None \<Rightarrow> None
          | Some pk \<Rightarrow> Some (app_github (new_app_client deps (github_app_id cfg) (github_installation cfg) pk (github_api_url cfg)))))
      else None)"

definition support_key :: "support_deps \<Rightarrow> config \<Rightarrow> string" where
  "support_key deps cfg =
     (if support_pseudonym_key cfg = [] then sd_sha256 deps (''support-pseudonym:'' @ jwt_secret cfg)
      else support_pseudonym_key cfg)"

definition new_support_service :: "support_deps \<Rightarrow> config \<Rightarrow> support_env" where
  "new_support_service deps cfg = new_service
     \<lparr>settings = \<lparr>pseudonym_key = support_key deps cfg, public_repo = support_public_repo cfg,
        private_repo = support_private_repo cfg, project_id = support_project_id cfg, st_limit = 0, st_window = 0\<rparr>,
      gh = support_github deps cfg, hmac_sha256 = sd_hmac deps, closed_order = sd_order deps\<rparr>"

section \<open>Library: secrets and numbers\<close>

definition strong_secret :: "string \<Rightarrow> bool" where
  "strong_secret v \<longleftrightarrow> v \<notin> set insecure_secrets \<and> 16 \<le> length v"

lemma check_secret_None [simp]: "check_secret name v = None \<longleftrightarrow> strong_secret v"
  by (auto simp: check_secret_def strong_secret_def min_secret_len_def)

lemma validate_config_None:
  "validate_config c = None \<longleftrightarrow>
     strong_secret (jwt_secret c) \<and> strong_secret (admin_token_value c)
   \<and> (is_production c \<and> consolidated_mode c \<longrightarrow>
        \<not> turnstile_disabled c \<and> trim_space (turnstile_secret_key c) \<noteq> [] \<and> strong_secret (support_pseudonym_key c))"
proof -
  have first: "(case x of Some e \<Rightarrow> Some e | None \<Rightarrow> y) = None \<longleftrightarrow> x = None \<and> y = None" for x y :: "goerr option"
    by (cases x) simp_all
  show ?thesis unfolding validate_config_def first by auto
qed

lemma in_int64_seconds [simp]: "in_int64 (seconds n)"
  unfolding seconds_def by (simp add: in_int64_iff)

lemma seconds_exact: "\<bar>n\<bar> \<le> 9223372036 \<Longrightarrow> seconds n = n * second"
  using in_int64_iff [of "n * second"] by (auto simp: seconds_def in_int64_def duration_defs)

lemma in_int64_env_duration: "in_int64 (env_duration_seconds getenv key n)"
  by (simp add: env_duration_seconds_def split: option.splits)

lemma env_int_pos: "0 < n \<Longrightarrow> in_int64 n \<Longrightarrow> 0 < env_int getenv key n \<and> in_int64 (env_int getenv key n)"
  by (auto simp: env_int_def atoi_range split: option.splits)

lemma env_duration_set:
  assumes "0 < n" "n \<le> 9223372036" "getenv key = itoa n"
  shows "env_duration_seconds getenv key dflt = n * second"
proof -
  have "atoi (itoa n) = Some n" using assms by (intro atoi_itoa) (simp add: in_int64_def)
  moreover have "atoi [] = None" by (simp add: atoi_def)
  ultimately show ?thesis using assms seconds_exact [of n]
    by (cases "itoa n = []") (auto simp: env_duration_seconds_def)
qed

lemma env_str_default: "v \<noteq> [] \<Longrightarrow> env_str getenv key v \<noteq> []"
  by (simp add: env_str_def)

section \<open>Library: the captcha client fails closed\<close>

lemma turnstile_verify_None:
  "turnstile_verify post (Some c) raw ip = None \<longleftrightarrow>
     trim_space (tc_secret c) \<noteq> [] \<and> trim_space raw \<noteq> []
   \<and> (\<exists>codes. post (if tc_verify_url c = [] then default_site_verify_url else tc_verify_url c)
          (verify_form (tc_secret c) (trim_space raw) ip) = SiteReply 200 (Some (True, codes)))"
  by (auto simp: turnstile_verify_def Let_def split: site_reply.splits if_splits option.splits prod.splits)

definition site_accepts :: "site \<Rightarrow> config \<Rightarrow> string \<Rightarrow> string \<Rightarrow> bool" where
  "site_accepts post cfg token ip \<longleftrightarrow>
     (\<exists>codes. post default_site_verify_url (verify_form (turnstile_secret_key cfg) (trim_space (trim_space token)) ip)
        = SiteReply 200 (Some (True, codes)))"

lemma captcha_enforced:
  assumes "turnstile_required cfg" "check_captcha (identity_of post cfg env) token ip = None"
  shows "site_accepts post cfg token ip \<and> trim_space (turnstile_secret_key cfg) \<noteq> [] \<and> trim_space token \<noteq> []"
proof -
  have url: "default_site_verify_url \<noteq> []" by (simp add: default_site_verify_url_def)
  show ?thesis using assms
    by (auto simp: check_captcha_def identity_of_def identity_verifier_def Let_def turnstile_verify_None url
        new_turnstile_client_def site_accepts_def split: if_splits option.splits)
qed


section \<open>Properties\<close>

text \<open>C38. A production deployment that passes \<open>Validate\<close> serves its public forms behind the captcha, fail closed:
  the captcha check passes exactly for a token that is not blank and that the verification site, asked with the configured
  secret, answers with status 200 and success. Without such an answer for the token of the request, registration changes nothing
  in the database and \<open>forgot\<close> sends no mail.\<close>

theorem production_captcha:
  assumes valid: "validate_config cfg = None" "is_production cfg" "consolidated_mode cfg"
    and reg: "run_state (register (identity_of post cfg env) r body) d = (a, d')"
    and forgot: "run_state (forgot_password (identity_of post cfg env) r fbody) e = ((b, mail), e')"
  shows "(check_captcha (identity_of post cfg env) token ip = None
            \<longleftrightarrow> trim_space (trim_space token) \<noteq> [] \<and> site_accepts post cfg token ip)
       \<and> (untouched d d' \<or> (\<exists>req. body = Some req \<and> site_accepts post cfg (rr_turnstile_token req) (client_ip r)))
       \<and> (mail = None \<or> (\<exists>req. fbody = Some req \<and> site_accepts post cfg (fr_turnstile_token req) (client_ip r)))"
proof (intro conjI)
  have req: "turnstile_required cfg" using valid by (simp add: turnstile_required_def)
  have url: "default_site_verify_url \<noteq> []" by (simp add: default_site_verify_url_def)
  show "check_captcha (identity_of post cfg env) token ip = None
          \<longleftrightarrow> trim_space (trim_space token) \<noteq> [] \<and> site_accepts post cfg token ip"
    using valid req
    by (auto simp: check_captcha_def identity_of_def identity_verifier_def Let_def turnstile_verify_None url
        new_turnstile_client_def site_accepts_def validate_config_None split: if_splits option.splits)
  show "untouched d d' \<or> (\<exists>q. body = Some q \<and> site_accepts post cfg (rr_turnstile_token q) (client_ip r))"
  proof (cases body)
    case (Some q)
    then show ?thesis using reg captcha_enforced [OF req, of post env "rr_turnstile_token q" "client_ip r"]
      by (cases "check_captcha (identity_of post cfg env) (rr_turnstile_token q) (client_ip r)")
        (auto simp: register_def split: if_splits captcha_refusal.splits)
  qed (use reg in \<open>auto simp: register_def\<close>)
  show "mail = None \<or> (\<exists>q. fbody = Some q \<and> site_accepts post cfg (fr_turnstile_token q) (client_ip r))"
  proof (cases fbody)
    case (Some q)
    then show ?thesis using forgot captcha_enforced [OF req, of post env "fr_turnstile_token q" "client_ip r"]
      by (cases "check_captcha (identity_of post cfg env) (fr_turnstile_token q) (client_ip r)")
        (auto simp: forgot_password_def Let_def split: if_splits captcha_refusal.splits prod.splits)
  qed (use forgot in \<open>auto simp: forgot_password_def Let_def\<close>)
qed

text \<open>C39. A configuration read from any environment is well typed: numbers fit 64 bits, the limit on registrations is
  positive, names that have a default are never empty, and the limiter of registrations gets a
  positive limit and a positive window even where the product of the variable and a second wraps around; up
  to 9223372036 seconds the window is the one that the variable asks for.\<close>

theorem load_well_typed:
  "let cfg = load getenv in
       in_int64 (exchange_stale_ttl cfg) \<and> in_int64 (register_rate_window cfg) \<and> in_int64 (register_rate_limit cfg)
     \<and> 0 < register_rate_limit cfg
     \<and> [] \<notin> {db_host cfg, db_port cfg, db_user cfg, db_name cfg, port cfg, migrations_dir cfg, cors_origin cfg,
              support_public_repo cfg, support_private_repo cfg, github_api_url cfg}
     \<and> rl_limit (register_limiter cfg) = register_rate_limit cfg \<and> 0 < rl_window (register_limiter cfg)
     \<and> (\<forall>n. 0 < n \<and> n \<le> 9223372036 \<and> getenv ''REGISTER_RATE_WINDOW_SECONDS'' = itoa n
            \<longrightarrow> rl_window (register_limiter cfg) = n * second)"
proof -
  note fields = load_def Let_def
  have pos: "0 < rl_window (register_limiter c)" for c
    by (simp add: register_limiter_def new_rate_limiter_def duration_defs)
  have win: "rl_window (register_limiter (load getenv)) = n * second"
    if "0 < n" "n \<le> 9223372036" "getenv ''REGISTER_RATE_WINDOW_SECONDS'' = itoa n" for n
  proof -
    have "register_rate_window (load getenv) = n * second"
      using env_duration_set [of n getenv "''REGISTER_RATE_WINDOW_SECONDS''" 3600] that by (simp add: fields)
    then show ?thesis using that by (simp add: register_limiter_def new_rate_limiter_def duration_defs)
  qed
  have lim: "0 < register_rate_limit (load getenv) \<and> in_int64 (register_rate_limit (load getenv))"
    using env_int_pos [of 5 getenv "''REGISTER_RATE_LIMIT''"] by (simp add: fields in_int64_def)
  have "in_int64 (exchange_stale_ttl (load getenv)) \<and> in_int64 (register_rate_window (load getenv))"
    by (simp add: fields in_int64_env_duration)
  moreover have "rl_limit (register_limiter (load getenv)) = register_rate_limit (load getenv)"
    using lim by (simp add: register_limiter_def new_rate_limiter_def)
  moreover have "[] \<notin> {db_host (load getenv), db_port (load getenv), db_user (load getenv), db_name (load getenv),
      port (load getenv), migrations_dir (load getenv), cors_origin (load getenv), support_public_repo (load getenv),
      support_private_repo (load getenv), github_api_url (load getenv)}"
    using env_str_default by (auto simp: fields dest: sym)
  ultimately show ?thesis unfolding Let_def using lim pos win by blast
qed

text \<open>\<open>Validate\<close> accepts exactly the configurations with strong secrets: the key of the tokens and the
  administration token are at least 16 bytes long and none of the known placeholders, and in production with
  the account routes the captcha is on, has a key, and the pseudonym key is strong as well. The support service that is then built signs with
  that key, whatever the other secrets, grants five reports a day, and reaches GitHub only with all three settings of
  the application and a readable key.\<close>

theorem validate_config_spec:
  "(validate_config c = None \<longleftrightarrow>
      strong_secret (jwt_secret c) \<and> strong_secret (admin_token_value c)
    \<and> (is_production c \<and> consolidated_mode c \<longrightarrow>
         \<not> turnstile_disabled c \<and> trim_space (turnstile_secret_key c) \<noteq> [] \<and> strong_secret (support_pseudonym_key c)))
   \<and> (validate_config c = None \<and> is_production c \<and> consolidated_mode c \<longrightarrow>
        pseudonym_key (settings (new_support_service deps c)) = support_pseudonym_key c)
   \<and> st_limit (settings (new_support_service deps c)) = 5
   \<and> st_window (settings (new_support_service deps c)) = 24 * hour
   \<and> (gh (new_support_service deps c) \<noteq> None \<longleftrightarrow>
        github_app_id c \<noteq> [] \<and> github_installation c \<noteq> [] \<and> github_app_key_file c \<noteq> []
      \<and> (\<exists>pem key. sd_read_file deps (github_app_key_file c) = Some pem \<and> sd_parse_key deps pem = Some key))"
proof -
  have "strong_secret v \<Longrightarrow> v \<noteq> []" for v by (auto simp: strong_secret_def)
  then show ?thesis
    by (auto simp: validate_config_None new_support_service_def new_service_def Let_def support_key_def
        default_limit_def default_window_def support_github_def github_app_configured_def split: option.splits)
qed

section \<open>Witnesses\<close>

definition sample_environ :: environ where
  "sample_environ = (\<lambda>k.
     if k = ''ENV'' then ''Prod'' else if k = ''CONSOLIDATED_MODE'' then ''yes''
     else if k \<in> {''JWT_SECRET'', ''ADMIN_TOKEN'', ''SUPPORT_PSEUDONYM_KEY''} then ''0123456789abcdef''
     else if k = ''TURNSTILE_SECRET_KEY'' then ''site-key''
     else if k = ''REGISTER_RATE_WINDOW_SECONDS'' then ''60'' else [])"

definition sample_site :: site where
  "sample_site url form = SiteReply 200 (Some ((''response'', ''tok'') \<in> set form, []))"

lemma sample_production:
  "is_production (load sample_environ) \<and> consolidated_mode (load sample_environ)
   \<and> validate_config (load sample_environ) = None"
proof -
  note fields = load_def Let_def env_str_def env_bool_def sample_environ_def
  have trim: "trim_space ''Prod'' = ''Prod''" "trim_space ''yes'' = ''yes''" "trim_space ''site-key'' = ''site-key''"
    by (simp_all add: trim_space_solid solid_def byte_def)
  have "environment (load sample_environ) = ''Prod''" by (simp add: fields)
  then have prod: "is_production (load sample_environ)"
    by (simp add: is_production_def Let_def trim runes_ascii lower_case_def byte_def)
  have "strong_secret ''0123456789abcdef''" by (simp add: strong_secret_def insecure_secrets_def)
  then show ?thesis unfolding validate_config_None using prod by (simp add: fields trim to_lower_def lower_char_def byte_def)
qed

theorem load_well_typed_witness:
  "rl_window (register_limiter (load sample_environ)) = 60 * second"
proof -
  have "sample_environ ''REGISTER_RATE_WINDOW_SECONDS'' = itoa 60" by code_simp
  then show ?thesis using load_well_typed [of sample_environ] unfolding Let_def by (auto dest: spec [of _ 60])
qed

theorem validate_config_spec_witness:
  "strong_secret (jwt_secret (load sample_environ))
   \<and> pseudonym_key (settings (new_support_service
        \<lparr>sd_read_file = \<lambda>_. None, sd_parse_key = \<lambda>_. None, sd_http = \<lambda>_ _ _. NoReply NoRows, sd_sha256 = \<lambda>s. s,
         sd_hmac = \<lambda>k s. k @ s, sd_order = []\<rparr> (load sample_environ)))
      = ''0123456789abcdef''"
proof -
  have key: "support_pseudonym_key (load sample_environ) = ''0123456789abcdef''"
    by (simp add: load_def Let_def env_str_def sample_environ_def)
  show ?thesis using validate_config_spec [of "load sample_environ"] sample_production unfolding key by blast
qed

theorem production_captcha_witness:
  "check_captcha (identity_of sample_site (load sample_environ) sample_env) '' tok '' [] = None
   \<and> fst (run_state (register (identity_of sample_site (load sample_environ) sample_env) sample_request None) empty_db)
      = Answer 400 (MessageJson ''Invalid request body'')"
proof -
  obtain a d where reg:
    "run_state (register (identity_of sample_site (load sample_environ) sample_env) sample_request None) empty_db = (a, d)"
    by (rule prod.exhaust)
  obtain b m e where forgot:
    "run_state (forgot_password (identity_of sample_site (load sample_environ) sample_env) sample_request None) empty_db
       = ((b, m), e)"
    by (metis prod.exhaust)
  have tok: "trim_space (trim_space '' tok '') = ''tok''" by code_simp
  have "site_accepts sample_site (load sample_environ) '' tok '' []"
    by (simp add: site_accepts_def sample_site_def tok verify_form_def)
  then show ?thesis
    using production_captcha [OF _ _ _ reg forgot, of "'' tok ''" "[]"] sample_production tok
    by (simp add: register_def)
qed

end
