(* ===== verification/Routes.thy ===== *)
theory Routes
  imports GatewayHandlers LegacyIot Admin Config
begin

text \<open>
  The tables of routes (internal/api/router.go and the file routes.go of internal/portal, internal/gateway,
  internal/identity, internal/admin, internal/legacyiot and internal/support). A route is a constructor that
  carries the decoded parts of the request (path parameters and body); its entry gives the method, the pattern under
  \<open>/api\<close> and the guard, in the order of the source. Choosing the entry for a path is the work of the router library, \<open>chi\<close>;
  the request that a guard sees is the one that the library's \<open>RealIP\<close> has completed. The environment gathers what
  \<open>NewRouter\<close> is given: configuration, verified tokens, the environments of the handlers.
\<close>

section \<open>Environment\<close>

record server_env =
  cfg :: config
  jwt :: jwt_parser
  token_digest :: "string \<Rightarrow> string"
  ident_env :: identity_env
  adm :: admin_env
  json :: json_lib
  support :: "support_env option"

section \<open>Rate limits\<close>

definition default_inject_limiter :: rate_limiter where
  "default_inject_limiter = new_rate_limiter 30 minute"

definition reset_limiter :: rate_limiter where "reset_limiter = new_rate_limiter 10 hour"
definition forgot_limiter :: rate_limiter where "forgot_limiter = new_rate_limiter 5 hour"
definition change_limiter :: rate_limiter where "change_limiter = new_rate_limiter 10 hour"
definition remember_limiter :: rate_limiter where "remember_limiter = new_rate_limiter 60 hour"

text \<open>The hits of every limiter are part of the state, under the limiter's name.\<close>

definition hit :: "string \<Rightarrow> rate_limiter \<Rightarrow> string \<Rightarrow> bool io" where
  "hit name rl key = State (\<lambda>d. case allow (rl\<lparr>rl_counts := limiter_hits d name\<rparr>) key (clock d) of
     (ok, rl') \<Rightarrow> (ok, d\<lparr>limiter_hits := (limiter_hits d)(name := rl_counts rl')\<rparr>))"

definition limited :: "string \<Rightarrow> rate_limiter \<Rightarrow> (http_request \<Rightarrow> string) \<Rightarrow> 'b answer \<Rightarrow> 'b handler \<Rightarrow> 'b handler" where
  "limited name rl key refusal next r c = do {
     ok \<leftarrow> hit name rl (key r);
     if ok then next r c else State_Monad.return refusal }"

definition caller_key :: "http_request \<Rightarrow> string" where
  "caller_key r = (if header r ''Authorization'' = [] then remote_addr r else header r ''Authorization'')"

definition email_of :: "req_context \<Rightarrow> string" where
  "email_of c = str_claim (ctx_email c)"

definition gateway_of :: "req_context \<Rightarrow> string" where
  "gateway_of c = str_claim (ctx_gateway c)"

section \<open>Portal\<close>

datatype portal_guard = Open | User | UserLimited | UserAdmin

definition portal_guarded :: "server_env \<Rightarrow> portal_guard \<Rightarrow> portal_json handler \<Rightarrow> portal_json handler" where
  "portal_guarded env g h = (case g of
       Open \<Rightarrow> h
     | User \<Rightarrow> user_jwt_with_store (jwt env) (Some get_user_by_email) h
     | UserLimited \<Rightarrow> user_jwt_with_store (jwt env) (Some get_user_by_email)
         (limited ''inject'' default_inject_limiter caller_key rate_limit_exceeded h)
     | UserAdmin \<Rightarrow> user_jwt_with_store (jwt env) (Some get_user_by_email)
         (admin_jwt_with_store (jwt env) (Some get_user_by_email) h))"

datatype (plugins only: code) portal_route =
    HealthR
  | LinkRequestR "link_request_body option"
  | LinkStatusR
  | SessionR
  | GatewayStatusR
  | InjectR "inject_body option"
  | InjectBatchR "inject_body list option"
  | ExchangeR
  | HistoryR
  | WebActionsR "(string \<times> string) option"
  | LightTimersR
  | LightNamesR
  | ScenariosR
  | BitmasksR
  | ScenarioR string
  | PutScenarioR string "definition_params option"
  | LaunchR string
  | RestoreR string
  | LinkRequestsR
  | ReviewR string "string option"
  | GatewaySessionsR
  | RegisterGatewayR "gateway_registration option"
  | PutLightTimerR string "string option"
  | PutLightNameR string "json_name option"

fun portal_entry :: "portal_route \<Rightarrow> string \<times> string \<times> portal_guard" where
  "portal_entry HealthR = (''GET'', ''/portal/health'', Open)"
| "portal_entry (LinkRequestR _) = (''POST'', ''/portal/link-request'', User)"
| "portal_entry LinkStatusR = (''GET'', ''/portal/link-request/status'', User)"
| "portal_entry SessionR = (''GET'', ''/portal/session'', User)"
| "portal_entry GatewayStatusR = (''GET'', ''/portal/gateway/status'', User)"
| "portal_entry (InjectR _) = (''POST'', ''/portal/inject'', UserLimited)"
| "portal_entry (InjectBatchR _) = (''POST'', ''/portal/inject/batch'', UserLimited)"
| "portal_entry ExchangeR = (''GET'', ''/portal/exchange'', User)"
| "portal_entry HistoryR = (''GET'', ''/portal/history/latest'', User)"
| "portal_entry (WebActionsR _) = (''POST'', ''/portal/web/actions'', User)"
| "portal_entry LightTimersR = (''GET'', ''/portal/lights/timers'', User)"
| "portal_entry LightNamesR = (''GET'', ''/portal/lights/names'', User)"
| "portal_entry ScenariosR = (''GET'', ''/portal/scenarios'', User)"
| "portal_entry BitmasksR = (''GET'', ''/portal/scenarios/meta/bitmasks'', User)"
| "portal_entry (ScenarioR _) = (''GET'', ''/portal/scenarios/{slot}'', User)"
| "portal_entry (PutScenarioR _ _) = (''PUT'', ''/portal/scenarios/{slot}'', User)"
| "portal_entry (LaunchR _) = (''POST'', ''/portal/scenarios/{slot}/launch'', UserLimited)"
| "portal_entry (RestoreR _) = (''POST'', ''/portal/scenarios/{slot}/restore'', UserLimited)"
| "portal_entry LinkRequestsR = (''GET'', ''/portal/admin/link-requests'', UserAdmin)"
| "portal_entry (ReviewR _ _) = (''PUT'', ''/portal/admin/link-requests/{id}'', UserAdmin)"
| "portal_entry GatewaySessionsR = (''GET'', ''/portal/admin/gateway-sessions'', UserAdmin)"
| "portal_entry (RegisterGatewayR _) = (''POST'', ''/portal/admin/gateways/register'', UserAdmin)"
| "portal_entry (PutLightTimerR _ _) = (''PUT'', ''/portal/admin/lights/timers/{id}'', UserAdmin)"
| "portal_entry (PutLightNameR _ _) = (''PUT'', ''/portal/admin/lights/names/{id}'', UserAdmin)"

fun portal_handler :: "server_env \<Rightarrow> portal_route \<Rightarrow> portal_json handler" where
  "portal_handler env HealthR r c = health"
| "portal_handler env (LinkRequestR body) r c = h_create_link_request (email_of c) body"
| "portal_handler env LinkStatusR r c = link_request_status (email_of c)"
| "portal_handler env SessionR r c = portal_session (email_of c)"
| "portal_handler env GatewayStatusR r c = gateway_status_handler (email_of c)"
| "portal_handler env (InjectR body) r c = inject r (email_of c) body"
| "portal_handler env (InjectBatchR body) r c = inject_batch r (email_of c) body"
| "portal_handler env ExchangeR r c = get_exchange (exchange_stale_ttl (cfg env)) (email_of c) (query_param r ''keys'')"
| "portal_handler env HistoryR r c = get_history_latest (email_of c)"
| "portal_handler env (WebActionsR body) r c = post_web_actions r (email_of c) body"
| "portal_handler env LightTimersR r c = get_light_timers (email_of c)"
| "portal_handler env LightNamesR r c = get_light_names (email_of c)"
| "portal_handler env ScenariosR r c = list_scenarios (email_of c)"
| "portal_handler env BitmasksR r c = get_scenario_bitmasks (email_of c)"
| "portal_handler env (ScenarioR slot) r c = get_scenario (email_of c) slot"
| "portal_handler env (PutScenarioR slot body) r c = put_scenario r (email_of c) slot body"
| "portal_handler env (LaunchR slot) r c = launch_scenario r (email_of c) slot"
| "portal_handler env (RestoreR slot) r c = restore_scenario r (email_of c) slot"
| "portal_handler env LinkRequestsR r c = list_pending_link_requests (query_param r ''status'')"
| "portal_handler env (ReviewR i body) r c = review_link_request i (email_of c) body"
| "portal_handler env GatewaySessionsR r c = h_list_gateway_sessions"
| "portal_handler env (RegisterGatewayR body) r c = register_gateway (token_digest env) body"
| "portal_handler env (PutLightTimerR i body) r c = put_light_timer r (email_of c) i body"
| "portal_handler env (PutLightNameR i body) r c = put_light_name r (email_of c) i body"

definition serve_portal :: "server_env \<Rightarrow> http_request \<Rightarrow> portal_route \<Rightarrow> portal_answer io" where
  "serve_portal env r q = portal_guarded env (snd (snd (portal_entry q))) (portal_handler env q) r background"

section \<open>Gateways\<close>

datatype (plugins only: code) gateway_route =
    PendingActionsR
  | ActionDoneR string
  | HeartbeatR
  | PushExchangeR "exchange_kv list option"
  | SyncConfigR
  | SyncRunCreateR "create_sync_run_request option"
  | SyncRunStartR string
  | SyncRunProgressR string "sync_run_progress_request option"
  | SyncLightNamesR "light_name_sync_entry list option"
  | PatchScenariosR "bool option"

fun gateway_entry :: "gateway_route \<Rightarrow> string \<times> string" where
  "gateway_entry PendingActionsR = (''GET'', ''/gateway/pending-actions'')"
| "gateway_entry (ActionDoneR _) = (''POST'', ''/gateway/actions/{guid}/done'')"
| "gateway_entry HeartbeatR = (''POST'', ''/gateway/heartbeat'')"
| "gateway_entry (PushExchangeR _) = (''POST'', ''/gateway/exchange'')"
| "gateway_entry SyncConfigR = (''GET'', ''/gateway/sync-config'')"
| "gateway_entry (SyncRunCreateR _) = (''POST'', ''/gateway/sync-runs'')"
| "gateway_entry (SyncRunStartR _) = (''POST'', ''/gateway/sync-runs/{id}/start'')"
| "gateway_entry (SyncRunProgressR _ _) = (''POST'', ''/gateway/sync-runs/{id}/progress'')"
| "gateway_entry (SyncLightNamesR _) = (''POST'', ''/gateway/lights/names/sync'')"
| "gateway_entry (PatchScenariosR _) = (''PATCH'', ''/gateway/sync-profiles/scenarios'')"

fun gateway_handler :: "gateway_route \<Rightarrow> portal_json handler" where
  "gateway_handler PendingActionsR r c = pending_actions (gateway_of c)"
| "gateway_handler (ActionDoneR guid) r c = action_done guid"
| "gateway_handler HeartbeatR r c = heartbeat (gateway_of c)"
| "gateway_handler (PushExchangeR body) r c = push_exchange (gateway_of c) body"
| "gateway_handler SyncConfigR r c = sync_config (gateway_of c)"
| "gateway_handler (SyncRunCreateR body) r c = sync_run_create (gateway_of c) body"
| "gateway_handler (SyncRunStartR i) r c = sync_run_start (gateway_of c) i"
| "gateway_handler (SyncRunProgressR i body) r c = sync_run_progress (gateway_of c) i body"
| "gateway_handler (SyncLightNamesR body) r c = sync_light_names (gateway_of c) body"
| "gateway_handler (PatchScenariosR body) r c = patch_scenarios_sync_profile ''PATCH'' (gateway_of c) body"

definition serve_gateway :: "server_env \<Rightarrow> http_request \<Rightarrow> gateway_route \<Rightarrow> portal_answer io" where
  "serve_gateway env r q = gateway_auth (validate_gateway_request (token_digest env)) (gateway_handler q) r background"

section \<open>Accounts\<close>

datatype (plugins only: code) identity_route =
    RegisterR "register_request option"
  | LoginR "login_request option"
  | ForgotR "forgot_request option"
  | ResetValidateR
  | ResetR "(string \<times> string) option"
  | LogoutR "string option"
  | RememberR "string option"
  | GoogleLoginR
  | GoogleCallbackR oauth_callback_request
  | AppleLoginR
  | AppleCallbackR oauth_callback_request
  | ProfileR
  | PutProfileR "profile_request option"
  | DeleteProfileR
  | ProfileLinksR "(int option \<times> string option) option"
  | NearbyR
  | ChangePasswordR "(string \<times> string) option"

datatype identity_guard = Public | SignedIn | PasswordChange

fun identity_entry :: "identity_route \<Rightarrow> string \<times> string \<times> identity_guard" where
  "identity_entry (RegisterR _) = (''POST'', ''/auth/register'', Public)"
| "identity_entry (LoginR _) = (''POST'', ''/auth/login'', Public)"
| "identity_entry (ForgotR _) = (''POST'', ''/auth/password/forgot'', Public)"
| "identity_entry ResetValidateR = (''GET'', ''/auth/password/reset/validate'', Public)"
| "identity_entry (ResetR _) = (''POST'', ''/auth/password/reset'', Public)"
| "identity_entry (LogoutR _) = (''POST'', ''/auth/logout'', Public)"
| "identity_entry (RememberR _) = (''POST'', ''/auth/remember/refresh'', Public)"
| "identity_entry GoogleLoginR = (''GET'', ''/auth/google/login'', Public)"
| "identity_entry (GoogleCallbackR _) = (''GET'', ''/auth/google/callback'', Public)"
| "identity_entry AppleLoginR = (''GET'', ''/auth/apple/login'', Public)"
| "identity_entry (AppleCallbackR _) = (''POST'', ''/auth/apple/callback'', Public)"
| "identity_entry ProfileR = (''GET'', ''/profile'', SignedIn)"
| "identity_entry (PutProfileR _) = (''PUT'', ''/profile'', SignedIn)"
| "identity_entry DeleteProfileR = (''DELETE'', ''/profile'', SignedIn)"
| "identity_entry (ProfileLinksR _) = (''PUT'', ''/profile/links'', SignedIn)"
| "identity_entry NearbyR = (''GET'', ''/devices/nearby'', SignedIn)"
| "identity_entry (ChangePasswordR _) = (''POST'', ''/auth/password/change'', PasswordChange)"

text \<open>
  The limits on the public forms count the address of the client and answer in the words of the form. The mail that \<open>forgot\<close>
  hands to the mailer is not part of its answer.
\<close>

definition try_later :: string where
  "try_later = ''Trop de tentatives. Merci de r'' @ [CHR 0xC3, CHR 0xA9] @ ''essayer plus tard.''"

definition register_rate_limited :: "config \<Rightarrow> identity_json handler \<Rightarrow> identity_json handler" where
  "register_rate_limited c = limited ''register'' (register_limiter c) client_ip
     (Answer 429 (MessageJson ''Too many registration attempts. Please try again later.''))"

definition reset_rate_limited :: "string \<Rightarrow> rate_limiter \<Rightarrow> identity_json handler \<Rightarrow> identity_json handler" where
  "reset_rate_limited name rl = limited name rl client_ip (Answer 429 (MessageJson try_later))"

definition change_password_rate_limited :: "identity_json handler \<Rightarrow> identity_json handler" where
  "change_password_rate_limited = limited ''change'' change_limiter client_ip (Answer 429 (MessageJson try_later))"

definition remember_rate_limited :: "identity_json handler \<Rightarrow> identity_json handler" where
  "remember_rate_limited = limited ''remember'' remember_limiter client_ip (ErrorJson 429 ''rate_limited'')"

definition answer_only :: "('a \<times> 'b) io \<Rightarrow> 'a io" where
  "answer_only m = do { res \<leftarrow> m; State_Monad.return (fst res) }"

fun identity_handler :: "server_env \<Rightarrow> identity_route \<Rightarrow> identity_json handler" where
  "identity_handler env (RegisterR body) r c =
     register_rate_limited (cfg env) (\<lambda>r _. register (ident_env env) r body) r c"
| "identity_handler env (LoginR body) r c = login (ident_env env) r body"
| "identity_handler env (ForgotR body) r c =
     reset_rate_limited ''forgot'' forgot_limiter (\<lambda>r _. answer_only (forgot_password (ident_env env) r body)) r c"
| "identity_handler env ResetValidateR r c = validate_reset_token (ident_env env) (query_param r ''token'')"
| "identity_handler env (ResetR body) r c =
     reset_rate_limited ''reset'' reset_limiter (\<lambda>r _. reset_password (ident_env env) r body) r c"
| "identity_handler env (LogoutR body) r c = logout (ident_env env) r body"
| "identity_handler env (RememberR body) r c = remember_rate_limited (\<lambda>r _. remember_refresh (ident_env env) r body) r c"
| "identity_handler env GoogleLoginR r c = oauth_login (ident_env env)"
| "identity_handler env (GoogleCallbackR q) r c = google_callback (ident_env env) q"
| "identity_handler env AppleLoginR r c = oauth_login (ident_env env)"
| "identity_handler env (AppleCallbackR q) r c = apple_callback (ident_env env) q"
| "identity_handler env ProfileR r c = get_profile (email_of c)"
| "identity_handler env (PutProfileR body) r c = update_profile (ident_env env) (email_of c) body"
| "identity_handler env DeleteProfileR r c = delete_profile (email_of c)"
| "identity_handler env (ProfileLinksR body) r c = update_profile_links (email_of c) body"
| "identity_handler env NearbyR r c = nearby_devices r"
| "identity_handler env (ChangePasswordR body) r c = change_password (ident_env env) r (email_of c) body"

definition identity_guarded :: "server_env \<Rightarrow> identity_guard \<Rightarrow> identity_json handler \<Rightarrow> identity_json handler" where
  "identity_guarded env g h = (case g of
       Public \<Rightarrow> h
     | SignedIn \<Rightarrow> user_jwt_with_store (jwt env) (Some get_user_by_email) h
     | PasswordChange \<Rightarrow> change_password_rate_limited (user_jwt_allow_password_change (jwt env) (Some get_user_by_email) h))"

definition serve_identity :: "server_env \<Rightarrow> http_request \<Rightarrow> identity_route \<Rightarrow> identity_answer io" where
  "serve_identity env r q = identity_guarded env (snd (snd (identity_entry q))) (identity_handler env q) r background"

section \<open>Administration\<close>

datatype (plugins only: code) admin_route =
    SubscribeR "string option"
  | AdminLoginR "string option"
  | StatsR
  | AuditR
  | MachinesR
  | GatewaysR
  | SubscribersR
  | AddSubscriberR "string option"
  | DeleteSubscriberR
  | NewslettersR
  | CreateNewsletterR
  | UpdateNewsletterR string "newsletter_request option"
  | DeleteNewsletterR string
  | SendNewsletterR string
  | UsersR
  | CreateUserR "register_request option"
  | UserRoleR string "string option"
  | UserLinksR string "(int option \<times> string option \<times> int option) option"
  | ForbidR string
  | UnforbidR string
  | DeleteUserR string
  | ResendEmailR string "(string \<times> string) option"
  | PasswordResetR string
  | TemporaryPasswordR string bool
  | EmailHealthR
  | TemplatesR
  | TemplateR string
  | PutTemplateR string "email_template option"
  | PreviewR string template_vars
  | TestTemplateR "string option"
  | ProfilesR
  | CreateSyncProfileR "upsert_sync_profile_request option"
  | UpdateSyncProfileR string "upsert_sync_profile_request option"
  | DeleteSyncProfileR string
  | RunProfileR string
  | ProfileRunsR string
  | SyncRunR string

fun admin_entry :: "admin_route \<Rightarrow> string \<times> string \<times> bool" where
  "admin_entry (SubscribeR _) = (''POST'', ''/newsletter/subscribe'', False)"
| "admin_entry (AdminLoginR _) = (''POST'', ''/admin/login'', False)"
| "admin_entry StatsR = (''GET'', ''/admin/stats'', True)"
| "admin_entry AuditR = (''GET'', ''/admin/audit'', True)"
| "admin_entry MachinesR = (''GET'', ''/admin/machines'', True)"
| "admin_entry GatewaysR = (''GET'', ''/admin/gateways'', True)"
| "admin_entry SubscribersR = (''GET'', ''/admin/subscribers'', True)"
| "admin_entry (AddSubscriberR _) = (''POST'', ''/admin/subscribers'', True)"
| "admin_entry DeleteSubscriberR = (''DELETE'', ''/admin/subscribers'', True)"
| "admin_entry NewslettersR = (''GET'', ''/admin/newsletters'', True)"
| "admin_entry CreateNewsletterR = (''POST'', ''/admin/newsletters'', True)"
| "admin_entry (UpdateNewsletterR _ _) = (''PUT'', ''/admin/newsletters/{id}'', True)"
| "admin_entry (DeleteNewsletterR _) = (''DELETE'', ''/admin/newsletters/{id}'', True)"
| "admin_entry (SendNewsletterR _) = (''POST'', ''/admin/newsletters/{id}/send'', True)"
| "admin_entry UsersR = (''GET'', ''/admin/users'', True)"
| "admin_entry (CreateUserR _) = (''POST'', ''/admin/users'', True)"
| "admin_entry (UserRoleR _ _) = (''PUT'', ''/admin/users/{id}/role'', True)"
| "admin_entry (UserLinksR _ _) = (''PUT'', ''/admin/users/{id}/links'', True)"
| "admin_entry (ForbidR _) = (''POST'', ''/admin/users/{id}/forbid'', True)"
| "admin_entry (UnforbidR _) = (''POST'', ''/admin/users/{id}/unforbid'', True)"
| "admin_entry (DeleteUserR _) = (''DELETE'', ''/admin/users/{id}'', True)"
| "admin_entry (ResendEmailR _ _) = (''POST'', ''/admin/users/{id}/resend-email'', True)"
| "admin_entry (PasswordResetR _) = (''POST'', ''/admin/users/{id}/password-reset'', True)"
| "admin_entry (TemporaryPasswordR _ _) = (''POST'', ''/admin/users/{id}/temporary-password'', True)"
| "admin_entry EmailHealthR = (''GET'', ''/admin/email/health'', True)"
| "admin_entry TemplatesR = (''GET'', ''/admin/email-templates'', True)"
| "admin_entry (TemplateR _) = (''GET'', ''/admin/email-templates/{slug}'', True)"
| "admin_entry (PutTemplateR _ _) = (''PUT'', ''/admin/email-templates/{slug}'', True)"
| "admin_entry (PreviewR _ _) = (''POST'', ''/admin/email-templates/{slug}/preview'', True)"
| "admin_entry (TestTemplateR _) = (''POST'', ''/admin/email-templates/test'', True)"
| "admin_entry ProfilesR = (''GET'', ''/admin/sync-profiles'', True)"
| "admin_entry (CreateSyncProfileR _) = (''POST'', ''/admin/sync-profiles'', True)"
| "admin_entry (UpdateSyncProfileR _ _) = (''PUT'', ''/admin/sync-profiles/{id}'', True)"
| "admin_entry (DeleteSyncProfileR _) = (''DELETE'', ''/admin/sync-profiles/{id}'', True)"
| "admin_entry (RunProfileR _) = (''POST'', ''/admin/sync-profiles/{id}/run'', True)"
| "admin_entry (ProfileRunsR _) = (''GET'', ''/admin/sync-profiles/{id}/runs'', True)"
| "admin_entry (SyncRunR _) = (''GET'', ''/admin/sync-runs/{runId}'', True)"

fun admin_handler :: "admin_env \<Rightarrow> admin_route \<Rightarrow> admin_json handler" where
  "admin_handler env (SubscribeR body) r c = subscribe env body"
| "admin_handler env (AdminLoginR body) r c = admin_login env body"
| "admin_handler env StatsR r c = stats env"
| "admin_handler env AuditR r c = h_audit_logs env r (email_of c)"
| "admin_handler env MachinesR r c = h_machines env"
| "admin_handler env GatewaysR r c = h_gateways env"
| "admin_handler env SubscribersR r c = list_subscribers env"
| "admin_handler env (AddSubscriberR body) r c = h_add_subscriber env body"
| "admin_handler env DeleteSubscriberR r c = h_delete_subscriber env r"
| "admin_handler env NewslettersR r c = list_newsletters env"
| "admin_handler env CreateNewsletterR r c = create_newsletter env"
| "admin_handler env (UpdateNewsletterR i body) r c = update_newsletter env i body"
| "admin_handler env (DeleteNewsletterR i) r c = h_delete_newsletter env i"
| "admin_handler env (SendNewsletterR i) r c = send_newsletter env i"
| "admin_handler env UsersR r c = get_users (ctx_email c)"
| "admin_handler env (CreateUserR body) r c = admin_create_user env r (email_of c) body"
| "admin_handler env (UserRoleR i body) r c = h_update_user_role env r (email_of c) i body"
| "admin_handler env (UserLinksR i body) r c = h_update_user_links env r (email_of c) i body"
| "admin_handler env (ForbidR i) r c = h_forbid_user env r (email_of c) i"
| "admin_handler env (UnforbidR i) r c = h_unforbid_user env r (email_of c) i"
| "admin_handler env (DeleteUserR i) r c = h_delete_user env r (email_of c) i"
| "admin_handler env (ResendEmailR i body) r c = resend_user_email env r (email_of c) i body"
| "admin_handler env (PasswordResetR i) r c = send_password_reset env r (email_of c) i"
| "admin_handler env (TemporaryPasswordR i send_email) r c = issue_temporary_password env r (email_of c) i send_email"
| "admin_handler env EmailHealthR r c = email_health env"
| "admin_handler env TemplatesR r c = list_email_templates env (email_of c)"
| "admin_handler env (TemplateR slug) r c = get_email_template env (email_of c) slug"
| "admin_handler env (PutTemplateR slug body) r c = put_email_template env (email_of c) slug body"
| "admin_handler env (PreviewR slug vars) r c = preview_email_template env (email_of c) slug vars"
| "admin_handler env (TestTemplateR slug) r c = test_email_template env (email_of c) slug"
| "admin_handler env ProfilesR r c = h_list_sync_profiles env r (email_of c)"
| "admin_handler env (CreateSyncProfileR body) r c = h_create_sync_profile env (email_of c) body"
| "admin_handler env (UpdateSyncProfileR i body) r c = h_update_sync_profile env (email_of c) i body"
| "admin_handler env (DeleteSyncProfileR i) r c = h_delete_sync_profile env (email_of c) i"
| "admin_handler env (RunProfileR i) r c = run_sync_profile env r (email_of c) i"
| "admin_handler env (ProfileRunsR i) r c = list_sync_profile_runs env r (email_of c) i"
| "admin_handler env (SyncRunR i) r c = h_get_sync_run env (email_of c) i"

definition serve_admin :: "server_env \<Rightarrow> http_request \<Rightarrow> admin_route \<Rightarrow> admin_answer io" where
  "serve_admin env r q =
     (if snd (snd (admin_entry q))
      then admin_auth_with_store (admin_token (adm env)) (jwt env) (Some get_user_by_email) (admin_handler (adm env) q) r background
      else admin_handler (adm env) q r background)"

section \<open>Cabinets and support\<close>

datatype (plugins only: code) legacy_route =
    MyActionsR
  | DoneR string
  | ServerInfosR
  | MyStatusR string
  | InfosR "(string \<times> geo_doc) option"

fun legacy_entry :: "legacy_route \<Rightarrow> string \<times> string \<times> bool" where
  "legacy_entry MyActionsR = (''GET'', ''/myactions'', True)"
| "legacy_entry (DoneR _) = (''POST'', ''/done/{guid}'', True)"
| "legacy_entry ServerInfosR = (''GET'', ''/serverinfos'', False)"
| "legacy_entry (MyStatusR _) = (''POST'', ''/mystatus'', False)"
| "legacy_entry (InfosR _) = (''POST'', ''/infos'', False)"

definition next_server_infos :: "legacy_json answer io" where
  "next_server_infos = State (\<lambda>d. case server_infos (new_info_rotator\<lparr>ir_slot := rotor d\<rparr>) of
     (a, rot) \<Rightarrow> (a, d\<lparr>rotor := ir_slot rot\<rparr>))"

fun legacy_handler :: "json_lib \<Rightarrow> legacy_route \<Rightarrow> legacy_json legacy_handler" where
  "legacy_handler lib MyActionsR r c = my_actions r c"
| "legacy_handler lib (DoneR guid) r c = legacy_done guid r c"
| "legacy_handler lib ServerInfosR r c = next_server_infos"
| "legacy_handler lib (MyStatusR body) r c = my_status lib body r c"
| "legacy_handler lib (InfosR body) r c = gateway_infos body r c"

definition serve_legacy :: "server_env \<Rightarrow> http_request \<Rightarrow> legacy_route \<Rightarrow> legacy_json answer io" where
  "serve_legacy env r q = basic_auth iot_store (snd (snd (legacy_entry q))) (legacy_handler (json env) q) r"

datatype (plugins only: code) support_route = CreateReportR "report_input option" | ListReportsR

fun support_handler :: "support_env \<Rightarrow> support_route \<Rightarrow> support_json handler" where
  "support_handler svc (CreateReportR body) r c = h_create_report svc (email_of c) body"
| "support_handler svc ListReportsR r c = h_list_reports (email_of c)"

definition serve_support :: "server_env \<Rightarrow> support_env \<Rightarrow> http_request \<Rightarrow> support_route \<Rightarrow> support_json answer io" where
  "serve_support env svc r q = user_jwt_with_store (jwt env) (Some get_user_by_email) (support_handler svc q) r background"

section \<open>The router\<close>

datatype (plugins only: code) request =
    ToPortal portal_route
  | ToGateway gateway_route
  | ToIdentity identity_route
  | ToAdmin admin_route
  | ToLegacy legacy_route
  | ToSupport support_route

datatype (plugins only: code) reply =
    FromPortal portal_answer
  | FromIdentity identity_answer
  | FromAdmin admin_answer
  | FromLegacy "legacy_json answer"
  | FromSupport "support_json answer"
  | NotFound

definition map_io :: "('a \<Rightarrow> 'b) \<Rightarrow> 'a io \<Rightarrow> 'b io" where
  "map_io f m = do { x \<leftarrow> m; State_Monad.return (f x) }"

fun serve :: "server_env \<Rightarrow> http_request \<Rightarrow> request \<Rightarrow> reply io" where
  "serve env r (ToPortal q) = map_io FromPortal (serve_portal env r q)"
| "serve env r (ToGateway q) = map_io FromPortal (serve_gateway env r q)"
| "serve env r (ToIdentity q) =
     (if consolidated_mode (cfg env) then map_io FromIdentity (serve_identity env r q) else State_Monad.return NotFound)"
| "serve env r (ToAdmin q) =
     (if consolidated_mode (cfg env) then map_io FromAdmin (serve_admin env r q) else State_Monad.return NotFound)"
| "serve env r (ToLegacy q) =
     (if consolidated_mode (cfg env) then map_io FromLegacy (serve_legacy env r q) else State_Monad.return NotFound)"
| "serve env r (ToSupport q) =
     (if consolidated_mode (cfg env)
      then (case support env of
          None \<Rightarrow> State_Monad.return NotFound
        | Some svc \<Rightarrow> map_io FromSupport (serve_support env svc r q))
      else State_Monad.return NotFound)"


end
