(* ===== verification/Frames.thy ===== *)
theory Frames
  imports Routes
begin

text \<open>
  What every operation of the server keeps: one relation for the invariants of all stores, proved for each store, each
  handler and each guard, and so for every request that the router serves. The ordering requests are those that may add
  rows to the queue of orders.
\<close>

section \<open>Library: one relation for all stores\<close>

definition queue_ok :: "db \<Rightarrow> db \<Rightarrow> bool" where
  "queue_ok d d' \<longleftrightarrow> (action_inv d \<longrightarrow> action_inv d' \<and> actions_le d d')"

definition report_ok :: "db \<Rightarrow> db \<Rightarrow> bool" where
  "report_ok d d' \<longleftrightarrow> (report_inv d \<longrightarrow> report_inv d')"

text \<open>Who ordered what: of the rows of the queue, the part that never changes. New rows are among those that \<open>P\<close> allows.\<close>

definition order_key :: "cloud_action \<Rightarrow> string \<times> int \<times> int option" where
  "order_key a = (ca_guid a, ca_user a, ca_machine a)"

definition new_orders :: "(string \<times> int \<times> int option \<Rightarrow> bool) \<Rightarrow> db \<Rightarrow> db \<Rightarrow> bool" where
  "new_orders P d d' \<longleftrightarrow> (\<exists>new. map order_key (cloud_actions d') = map order_key (cloud_actions d) @ new \<and> list_all P new)"

definition system_ok :: "(string \<times> int \<times> int option \<Rightarrow> bool) \<Rightarrow> db \<Rightarrow> db \<Rightarrow> bool" where
  "system_ok P d d' \<longleftrightarrow> account_ok d d' \<and> queue_ok d d' \<and> sync_ok d d' \<and> report_ok d d' \<and> new_orders P d d'"

definition system_inv :: "db \<Rightarrow> bool" where
  "system_inv d \<longleftrightarrow> account_inv d \<and> action_inv d \<and> sync_inv d \<and> report_inv d"

text \<open>The part of the state that the invariants speak of.\<close>

definition core_tables :: "db \<Rightarrow> _" where
  "core_tables d = (remember_sessions d, reset_tokens d, session_serial d, token_serial d, cloud_actions d,
     sync_runs d, support_reports d, serials d ''support_reports'')"

lemma queue_same: "cloud_actions d' = cloud_actions d \<Longrightarrow> queue_ok d d'"
  using action_step_inv [OF _ action_step.unrelated] by (simp add: queue_ok_def)

lemma report_same:
  "support_reports d' = support_reports d \<Longrightarrow> serials d' ''support_reports'' = serials d ''support_reports'' \<Longrightarrow> report_ok d d'"
  by (simp add: report_ok_def report_inv_def)

lemma new_orders_same: "map order_key (cloud_actions d') = map order_key (cloud_actions d) \<Longrightarrow> new_orders P d d'"
  by (simp add: new_orders_def)

lemma system_same: "core_tables d' = core_tables d \<Longrightarrow> system_ok P d d'"
  unfolding system_ok_def core_tables_def
  by (intro conjI account_ok_same queue_same sync_ok_same report_same new_orders_same) auto

lemma queue_ok_pre: "preorder_rel queue_ok"
proof
  show "queue_ok d1 d3" if "queue_ok d1 d2" "queue_ok d2 d3" for d1 d2 d3
    using that actions_le_trans by (auto simp: queue_ok_def)
qed (simp_all add: queue_same)

lemma new_orders_pre: "preorder_rel (new_orders P)"
proof
  show "new_orders P d1 d3" if o: "new_orders P d1 d2" "new_orders P d2 d3" for d1 d2 d3
  proof -
    obtain as bs where "map order_key (cloud_actions d2) = map order_key (cloud_actions d1) @ as" "list_all P as"
      "map order_key (cloud_actions d3) = map order_key (cloud_actions d2) @ bs" "list_all P bs"
      using o unfolding new_orders_def by blast
    then show ?thesis unfolding new_orders_def by (intro exI [of _ "as @ bs"]) simp
  qed
qed (simp_all add: new_orders_same)

lemma report_ok_pre: "preorder_rel report_ok"
  by (rule preorder_relI) (auto simp: report_ok_def report_inv_def)

lemma preorder_rel_conj: "preorder_rel R \<Longrightarrow> preorder_rel S \<Longrightarrow> preorder_rel (\<lambda>d d'. R d d' \<and> S d d')"
  unfolding preorder_rel_def by blast

lemma system_pre: "preorder_rel (system_ok P)"
proof -
  have "system_ok P = (\<lambda>d d'. account_ok d d' \<and> queue_ok d d' \<and> sync_ok d d' \<and> report_ok d d' \<and> new_orders P d d')"
    by (intro ext) (simp add: system_ok_def)
  then show ?thesis
    using account_ok_preorder queue_ok_pre sync_ok_preorder report_ok_pre new_orders_pre
    by (auto intro!: preorder_rel_conj)
qed

lemma systemI:
  assumes "state_io_rel account_ok m" "state_io_rel queue_ok m" "state_io_rel sync_ok m" "state_io_rel report_ok m"
    "state_io_rel (new_orders P) m"
  shows "state_io_rel (system_ok P) m"
  using assms by (simp add: system_ok_def state_io_rel_def)

text \<open>Programs that leave the tables of some stores alone.\<close>

lemma keeps_system: "keeps core_tables m \<Longrightarrow> state_io_rel (system_ok P) m"
  by (simp add: keeps_def state_io_rel_def system_same)

definition not_accounts :: "db \<Rightarrow> _" where
  "not_accounts d = (cloud_actions d, sync_runs d, support_reports d, serials d ''support_reports'')"

definition not_runs :: "db \<Rightarrow> _" where
  "not_runs d = (remember_sessions d, reset_tokens d, session_serial d, token_serial d, cloud_actions d,
     support_reports d, serials d ''support_reports'')"

definition not_queue :: "db \<Rightarrow> _" where
  "not_queue d = (remember_sessions d, reset_tokens d, session_serial d, token_serial d, sync_runs d,
     support_reports d, serials d ''support_reports'')"

definition not_reports :: "db \<Rightarrow> _" where
  "not_reports d = (remember_sessions d, reset_tokens d, session_serial d, token_serial d, cloud_actions d, sync_runs d)"

lemma system_of_account:
  assumes "state_io_rel account_ok m" "keeps not_accounts m"
  shows "state_io_rel (system_ok P) m"
  using assms by (intro systemI) (simp_all add: keeps_def state_io_rel_def new_orders_same not_accounts_def queue_same sync_ok_same report_same)

lemma system_of_run:
  assumes "state_io_rel sync_ok m" "keeps not_runs m"
  shows "state_io_rel (system_ok P) m"
  using assms by (intro systemI) (simp_all add: keeps_def state_io_rel_def new_orders_same not_runs_def queue_same account_ok_same report_same)

lemma system_of_queue:
  assumes "state_io_rel queue_ok m" "state_io_rel (new_orders P) m" "keeps not_queue m"
  shows "state_io_rel (system_ok P) m"
  using assms by (intro systemI) (simp_all add: keeps_def state_io_rel_def not_queue_def sync_ok_same account_ok_same report_same)

lemma system_of_report:
  assumes "state_io_rel report_ok m" "keeps not_reports m"
  shows "state_io_rel (system_ok P) m"
  using assms by (intro systemI) (simp_all add: keeps_def state_io_rel_def new_orders_same not_reports_def sync_ok_same account_ok_same queue_same)

named_theorems system_intros \<open>programs that keep the invariants of the system\<close>

lemmas core_defs = core_tables_def not_accounts_def not_runs_def not_queue_def not_reports_def bump_def nextval_def
  put_exchange_cache_def put_gateway_session_def insert_unknown_def update_user_row_def revoke_all_remember_def
  invalidate_tokens_def consume_token_def insert_session_def revoke_excess_def set_report_def Let_def

lemma core_pre:
  "preorder_rel (\<lambda>d d'. core_tables d' = core_tables d)" "preorder_rel (\<lambda>d d'. not_accounts d' = not_accounts d)"
  "preorder_rel (\<lambda>d d'. not_runs d' = not_runs d)" "preorder_rel (\<lambda>d d'. not_queue d' = not_queue d)"
  "preorder_rel (\<lambda>d d'. not_reports d' = not_reports d)"
  by (rule keeps_preorder; simp add: core_defs)+

section \<open>Library: the statements of the stores\<close>

lemma portal_store [system_intros]:
  "state_io_rel (system_ok P) (get_gateway_exchange m)"
  "state_io_rel (system_ok P) (upsert_gateway_exchange m keys)"
  "state_io_rel (system_ok P) (get_machine_telemetry client)"
  "state_io_rel (system_ok P) (machine_id_for_gateway g)"
  "state_io_rel (system_ok P) (get_profile_by_email email)"
  "state_io_rel (system_ok P) (create_link_request i serial msg)"
  "state_io_rel (system_ok P) (get_latest_link_request i)"
  "state_io_rel (system_ok P) (list_link_requests_by_status st)"
  "state_io_rel (system_ok P) (list_link_requests_admin flt lim)"
  "state_io_rel (system_ok P) (update_link_request_status j st who)"
  "state_io_rel (system_ok P) (user_has_approved_link i)"
  "state_io_rel (system_ok P) (get_last_cloud_action_for_user i)"
  "state_io_rel (system_ok P) (get_gateway_session g)"
  "state_io_rel (system_ok P) (register_gateway_session hash reg)"
  "state_io_rel (system_ok P) (validate_gateway_request hash g tok e0 e1)"
  "state_io_rel (system_ok P) list_gateway_sessions"
  "state_io_rel (system_ok P) (touch_gateway_heartbeat g)"
  "state_io_rel (system_ok P) (is_gateway_online g timeout)"
  "state_io_rel (system_ok P) (audit_log_portal email action)"
  "state_io_rel (system_ok P) (list_light_names m)"
  "state_io_rel (system_ok P) (set_light_name m light name who)"
  "state_io_rel (system_ok P) (put_light_name_exact m light row)"
  unfolding get_gateway_exchange_def upsert_gateway_exchange_def get_machine_telemetry_def machine_id_for_gateway_def
    get_profile_by_email_def create_link_request_def get_latest_link_request_def list_link_requests_by_status_def
    list_link_requests_admin_def update_link_request_status_def user_has_approved_link_def
    get_last_cloud_action_for_user_def get_gateway_session_def register_gateway_session_def validate_gateway_request_def
    list_gateway_sessions_def touch_gateway_heartbeat_def is_gateway_online_def audit_log_portal_def list_light_names_def
    set_light_name_def put_light_name_exact_def Let_def
  by (intro io_intros system_pre system_same; simp add: core_defs)+

lemma inventory_store [system_intros]:
  "state_io_rel (system_ok P) get_stats"
  "state_io_rel (system_ok P) (hashed_pkey_by_inventory_id i)"
  "state_io_rel (system_ok P) (get_machine_by_id i)"
  "state_io_rel (system_ok P) get_gateways"
  "state_io_rel (system_ok P) (get_machine_by_hashed_pkey k)"
  "state_io_rel (system_ok P) (register_unknown_machine k)"
  "state_io_rel (system_ok P) (update_machine_status k ip raw cred)"
  "state_io_rel (system_ok P) (save_client_data client k version ek)"
  "state_io_rel (system_ok P) (save_gateway gw)"
  "state_io_rel (system_ok P) (bind_machine_for_portal_delivery k j)"
  "state_io_rel (system_ok P) (portal_machine_id_from_hashed_pkey k)"
  "state_io_rel (system_ok P) backfill_missing_machine_geo"
  "state_io_rel (system_ok P) (resolve_and_save_machine_geo site k ip)"
  "state_io_rel (system_ok P) (resolve_and_save_gateway_geo site host ip)"
proof -
  have go: "state_io_rel (system_ok P) (go job)" for job
    by (simp add: go_def state_io_rel_def system_same core_defs)
  note defs = get_stats_def count_or_zero_def hashed_pkey_by_inventory_id_def get_machine_by_id_def get_gateways_def
    get_machine_by_hashed_pkey_def register_unknown_machine_def update_machine_status_def save_client_data_def
    persist_machine_mac_def save_gateway_def bind_machine_for_portal_delivery_def portal_machine_id_from_hashed_pkey_def
    resolve_and_save_machine_geo_def resolve_and_save_gateway_geo_def Let_def
  show "state_io_rel (system_ok P) get_stats"
    "state_io_rel (system_ok P) (hashed_pkey_by_inventory_id i)"
    "state_io_rel (system_ok P) (get_machine_by_id i)"
    "state_io_rel (system_ok P) get_gateways"
    "state_io_rel (system_ok P) (get_machine_by_hashed_pkey k)"
    "state_io_rel (system_ok P) (register_unknown_machine k)"
    "state_io_rel (system_ok P) (update_machine_status k ip raw cred)"
    "state_io_rel (system_ok P) (save_client_data client k version ek)"
    "state_io_rel (system_ok P) (save_gateway gw)"
    "state_io_rel (system_ok P) (bind_machine_for_portal_delivery k j)"
    "state_io_rel (system_ok P) (portal_machine_id_from_hashed_pkey k)"
    "state_io_rel (system_ok P) (resolve_and_save_machine_geo site k ip)"
    "state_io_rel (system_ok P) (resolve_and_save_gateway_geo site host ip)"
    unfolding defs
    by (intro io_intros system_pre system_same go; simp add: core_defs)+
  have "state_io_rel (system_ok P) (State (\<lambda>d. ((), d\<lparr>geo_jobs := geo_jobs d @ js\<rparr>)))" for js
    by (simp add: state_io_rel_def system_same core_defs)
  then show "state_io_rel (system_ok P) backfill_missing_machine_geo"
    unfolding backfill_missing_machine_geo_def by (intro io_intros system_pre)
qed


lemma machines_store [system_intros]: "state_io_rel (system_ok P) get_machines"
proof -
  have mac: "state_io_rel (system_ok P) (backfill_mac i keys)" for i keys
    by (induction keys) (auto intro!: io_intros system_pre system_same simp: core_defs)
  have "state_io_rel (system_ok P) (backfill_missing_macs rows)" for rows
  proof (induction rows)
    case (Cons row rows)
    obtain m det where "row = (m, det)" by (cases row)
    then show ?case using Cons by (auto intro!: io_intros system_pre mac)
  qed (simp add: io_return [OF system_pre])
  then show ?thesis unfolding get_machines_def by (intro io_intros system_pre)
qed

lemma mail_store [system_intros]:
  "state_io_rel (system_ok P) list_templates"
  "state_io_rel (system_ok P) (get_template slug)"
  "state_io_rel (system_ok P) (upsert_template t)"
  "state_io_rel (system_ok P) (send_mail env slug recipient vars actor enabled)"
  "state_io_rel (system_ok P) (add_subscriber email)"
  "state_io_rel (system_ok P) (delete_subscriber email)"
  "state_io_rel (system_ok P) get_subscribers"
  "state_io_rel (system_ok P) get_newsletters"
  "state_io_rel (system_ok P) (get_newsletter i)"
  "state_io_rel (system_ok P) (save_newsletter n)"
  "state_io_rel (system_ok P) (delete_newsletter i)"
  unfolding list_templates_def get_template_def upsert_template_def send_mail_def log_failure_def log_send_def
    add_subscriber_def delete_subscriber_def get_subscribers_def get_newsletters_def get_newsletter_def
    save_newsletter_def delete_newsletter_def Let_def
  by (intro io_intros system_pre system_same; simp add: core_defs)+

lemma account_queries [system_intros]:
  "state_io_rel (system_ok P) (get_user_by_email email)"
  "state_io_rel (system_ok P) (get_user_by_id i)"
  "state_io_rel (system_ok P) count_admin_global"
  "state_io_rel (system_ok P) get_all_users"
  "state_io_rel (system_ok P) (get_users_by_machine_id m)"
  "state_io_rel (system_ok P) (get_reset_token_by_hash th)"
  "state_io_rel (system_ok P) (count_recent_for_user i window)"
  "state_io_rel (system_ok P) (get_remember_session_by_hash th)"
  "state_io_rel (system_ok P) (create_audit_log l)"
  "state_io_rel (system_ok P) (get_audit_logs flt)"
  "state_io_rel (system_ok P) draw"
  unfolding get_user_by_email_def get_user_by_id_def count_admin_global_def get_all_users_def get_users_by_machine_id_def
    get_reset_token_by_hash_def count_recent_for_user_def get_remember_session_by_hash_def create_audit_log_def
    get_audit_logs_def Let_def
  by (intro io_intros system_pre system_same; simp add: core_defs)+

lemma account_store [system_intros]:
  "state_io_rel (system_ok P) (create_user u)"
  "state_io_rel (system_ok P) (update_last_login i)"
  "state_io_rel (system_ok P) (update_user i fn ln h)"
  "state_io_rel (system_ok P) (update_password_hash i h)"
  "state_io_rel (system_ok P) (forbid_user i)"
  "state_io_rel (system_ok P) (unforbid_user i)"
  "state_io_rel (system_ok P) (update_user_links i m g a)"
  "state_io_rel (system_ok P) (set_temporary_password i h t j)"
  "state_io_rel (system_ok P) (clear_password_change_required i h)"
  "state_io_rel (system_ok P) (update_user_role i role)"
  "state_io_rel (system_ok P) (invalidate_for_user i)"
  "state_io_rel (system_ok P) (issue_reset_token hsh i ip)"
  "state_io_rel (system_ok P) (consume_and_set_password th h ip)"
  "state_io_rel (system_ok P) (create_remember_session i th t ua nw)"
  "state_io_rel (system_ok P) (touch_remember_session j nw)"
  "state_io_rel (system_ok P) (revoke_by_hash th nw)"
proof -
  have ok: "state_io_rel account_ok m" if "account_op (ignore m)" for m :: "'x dbop"
    using account_op_ok [OF that] by (simp add: io_ignore_iff)
  note defs = create_user_def update_last_login_def update_user_def update_password_hash_def forbid_user_def
    unforbid_user_def update_user_links_def set_temporary_password_def clear_password_change_required_def
    update_user_role_def issue_reset_token_def consume_and_set_password_def create_remember_session_def
    touch_remember_session_def revoke_by_hash_def write_credential_def invalidate_for_user_def create_reset_token_def
    purge_older_than_def
  show
    "state_io_rel (system_ok P) (create_user u)"
    "state_io_rel (system_ok P) (update_last_login i)"
    "state_io_rel (system_ok P) (update_user i fn ln h)"
    "state_io_rel (system_ok P) (update_password_hash i h)"
    "state_io_rel (system_ok P) (forbid_user i)"
    "state_io_rel (system_ok P) (unforbid_user i)"
    "state_io_rel (system_ok P) (update_user_links i m g a)"
    "state_io_rel (system_ok P) (set_temporary_password i h t j)"
    "state_io_rel (system_ok P) (clear_password_change_required i h)"
    "state_io_rel (system_ok P) (update_user_role i role)"
    "state_io_rel (system_ok P) (invalidate_for_user i)"
    "state_io_rel (system_ok P) (issue_reset_token hsh i ip)"
    "state_io_rel (system_ok P) (consume_and_set_password th h ip)"
    "state_io_rel (system_ok P) (create_remember_session i th t ua nw)"
    "state_io_rel (system_ok P) (touch_remember_session j nw)"
    "state_io_rel (system_ok P) (revoke_by_hash th nw)"
    by (rule system_of_account, rule ok, rule account_op.intros, rule keepsI, unfold defs Let_def,
        intro io_intros core_pre; simp add: core_defs split: option.splits)+
qed


lemma delete_store [system_intros]: "state_io_rel (system_ok P) (delete_user i)"
proof (rule systemI)
  show "state_io_rel account_ok (delete_user i)"
    using account_op_ok [OF account_op.intros(5)] by (simp add: io_ignore_iff)
  show "state_io_rel queue_ok (delete_user i)"
    unfolding delete_user_def by (rule io_exec [OF queue_ok_pre]) (simp add: queue_same)
  show "state_io_rel (new_orders P) (delete_user i)"
    unfolding delete_user_def by (rule io_exec [OF new_orders_pre]) (simp add: new_orders_same)
  show "state_io_rel sync_ok (delete_user i)"
    unfolding delete_user_def by (rule io_exec [OF sync_ok_preorder]) (simp add: sync_ok_same)
  show "state_io_rel report_ok (delete_user i)"
    unfolding delete_user_def
    by (rule io_exec [OF report_ok_pre]) (auto simp: report_ok_def report_inv_def list_all_iff distinct_map inj_on_def)
qed

lemma sync_store [system_intros]:
  "state_io_rel (system_ok P) (list_sync_profiles g)"
  "state_io_rel (system_ok P) (get_sync_profile pid)"
  "state_io_rel (system_ok P) (list_sync_profiles_for_gateway g)"
  "state_io_rel (system_ok P) (get_sync_profile_by_name_for_gateway g name)"
  "state_io_rel (system_ok P) (list_pending_sync_runs g)"
  "state_io_rel (system_ok P) (get_sync_run rid)"
  "state_io_rel (system_ok P) (list_sync_runs_for_profile pid n)"
  "state_io_rel (system_ok P) (create_sync_profile req)"
  "state_io_rel (system_ok P) (update_sync_profile pid req)"
  "state_io_rel (system_ok P) (delete_sync_profile pid)"
  "state_io_rel (system_ok P) (set_sync_profile_enabled pid g b)"
  "state_io_rel (system_ok P) (create_sync_run pid g n msg)"
  "state_io_rel (system_ok P) (start_sync_run rid g)"
  "state_io_rel (system_ok P) (append_sync_run_progress rid g preq)"
proof -
  have ok: "state_io_rel sync_ok m" if "sync_op (ignore m)" for m :: "'x dbop"
    using sync_op_ok [OF that] by (simp add: io_ignore_iff)
  note queries = list_sync_profiles_def get_sync_profile_def list_sync_profiles_for_gateway_def
    get_sync_profile_by_name_for_gateway_def list_pending_sync_runs_def get_sync_run_def list_sync_runs_for_profile_def
  note defs = create_sync_profile_def update_sync_profile_def delete_sync_profile_def set_sync_profile_enabled_def
    create_sync_run_def start_sync_run_def append_sync_run_progress_def update_profiles_def
    maybe_alert_consecutive_failures_def store_progress_def
  show "state_io_rel (system_ok P) (list_sync_profiles g)"
    "state_io_rel (system_ok P) (get_sync_profile pid)"
    "state_io_rel (system_ok P) (list_sync_profiles_for_gateway g)"
    "state_io_rel (system_ok P) (get_sync_profile_by_name_for_gateway g name)"
    "state_io_rel (system_ok P) (list_pending_sync_runs g)"
    "state_io_rel (system_ok P) (get_sync_run rid)"
    "state_io_rel (system_ok P) (list_sync_runs_for_profile pid n)"
    unfolding queries Let_def by (intro io_intros system_pre system_same; simp add: core_defs)+
  show "state_io_rel (system_ok P) (create_sync_profile req)"
    "state_io_rel (system_ok P) (update_sync_profile pid req)"
    "state_io_rel (system_ok P) (delete_sync_profile pid)"
    "state_io_rel (system_ok P) (set_sync_profile_enabled pid g b)"
    "state_io_rel (system_ok P) (create_sync_run pid g n msg)"
    "state_io_rel (system_ok P) (start_sync_run rid g)"
    "state_io_rel (system_ok P) (append_sync_run_progress rid g preq)"
    by (rule system_of_run, rule ok, rule sync_op.intros, rule keepsI, unfold defs queries Let_def,
        intro io_intros core_pre; simp add: core_defs split: option.splits)+
qed

lemma mark_delivered_others: "state_io_rel (\<lambda>d d'. not_queue d' = not_queue d) (mark_delivered as)"
proof (induction as)
  case (Cons a as)
  show ?case unfolding mark_delivered.simps
    by (intro io_intros core_pre Cons) (simp add: core_defs set_delivered_def)
qed (simp add: io_return [OF core_pre(4)])

lemma order_keys_update:
  "(\<And>a. order_key (f a) = order_key a) \<Longrightarrow> map order_key (update_rows p f as) = map order_key as"
  by (rule map_update_rows)

lemma mark_delivered_orders: "state_io_rel (new_orders P) (mark_delivered as)"
proof (induction as)
  case (Cons a as)
  show ?case unfolding mark_delivered.simps
    by (intro io_intros new_orders_pre new_orders_same Cons)
      (simp add: set_delivered_def order_keys_update order_key_def)
qed (simp add: io_return [OF new_orders_pre])

lemma queue_step: "(\<And>r d d'. run_state p d = (r, d') \<Longrightarrow> action_step d d') \<Longrightarrow> state_io_rel queue_ok p"
  using action_step_inv by (intro io_relI) (auto simp: queue_ok_def)

lemma enqueue_store [system_intros]:
  assumes "P (guid, uid, m)"
  shows "state_io_rel (system_ok P) (enqueue_cloud_action guid uid m params)"
proof (rule system_of_queue)
  show "state_io_rel queue_ok (enqueue_cloud_action guid uid m params)"
    by (rule queue_step) (erule action_step.enqueued)
  show "state_io_rel (new_orders P) (enqueue_cloud_action guid uid m params)"
    unfolding enqueue_cloud_action_def
    by (rule io_exec [OF new_orders_pre]) (auto simp: new_orders_def order_key_def assms)
  show "keeps not_queue (enqueue_cloud_action guid uid m params)"
    unfolding enqueue_cloud_action_def by (intro keepsI io_intros core_pre) (simp add: core_defs)
qed

lemma queue_store [system_intros]:
  "state_io_rel (system_ok P) (fetch_pending_actions_for_machine mid lim)"
  "state_io_rel (system_ok P) (fetch_pending_actions_for_gateway g lim)"
  "state_io_rel (system_ok P) (mark_action_done guid)"
proof -
  note defs = fetch_pending_actions_for_machine_def fetch_pending_actions_for_gateway_def
    mark_action_done_def get_gateway_session_def set_done_def
  have orders: "state_io_rel (new_orders P) (fetch_pending_actions_for_machine mid lim)"
    "state_io_rel (new_orders P) (fetch_pending_actions_for_gateway g lim)"
    "state_io_rel (new_orders P) (mark_action_done guid)" for mid lim g guid
    unfolding defs Let_def
    by (intro io_intros new_orders_pre mark_delivered_orders new_orders_same;
        simp add: order_keys_update order_key_def)+
  show "state_io_rel (system_ok P) (fetch_pending_actions_for_machine mid lim)"
    "state_io_rel (system_ok P) (fetch_pending_actions_for_gateway g lim)"
    "state_io_rel (system_ok P) (mark_action_done guid)"
    by (rule system_of_queue, rule queue_step, erule action_step.intros, rule orders, rule keepsI, unfold defs Let_def,
        intro io_intros core_pre mark_delivered_others; simp add: core_defs split: option.splits)+
qed

text \<open>Reports: what the service and its client of GitHub do stays away from the other stores.\<close>

lemma github_others:
  "state_io_rel (\<lambda>d d'. not_reports d' = not_reports d) (create_issue c repo inp)"
  "state_io_rel (\<lambda>d d'. not_reports d' = not_reports d) (add_to_project c project node)"
  "state_io_rel (\<lambda>d d'. not_reports d' = not_reports d) (get_issue c repo number)"
proof -
  have steps: "state_io_rel (\<lambda>d d'. not_reports d' = not_reports d) (api_do c meth path tok body)"
    "state_io_rel (\<lambda>d d'. not_reports d' = not_reports d) (cached_token nw)"
    "state_io_rel (\<lambda>d d'. not_reports d' = not_reports d) (store_token tok' expires)" for meth path tok body nw tok' expires
    by (simp_all add: api_do_def cached_token_def store_token_def state_io_rel_def core_defs)
  have authed: "state_io_rel (\<lambda>d d'. not_reports d' = not_reports d) (authed c meth path body)" for meth path body
    unfolding authed_def installation_token_def Let_def
    by (intro io_intros core_pre steps io_api_body)
  show "state_io_rel (\<lambda>d d'. not_reports d' = not_reports d) (create_issue c repo inp)"
    "state_io_rel (\<lambda>d d'. not_reports d' = not_reports d) (add_to_project c project node)"
    "state_io_rel (\<lambda>d d'. not_reports d' = not_reports d) (get_issue c repo number)"
    unfolding create_issue_def add_to_project_def get_issue_def by (intro io_intros core_pre authed)+
qed

lemma send_others: "state_io_rel (\<lambda>d d'. not_reports d' = not_reports d) (send env (app_github c) rep)"
  unfolding send_def Let_def mark_failed_def mark_sent_def app_github_def github.simps
  by (intro io_intros core_pre github_others; simp add: core_defs)

lemma send_all_others: "state_io_rel (\<lambda>d d'. not_reports d' = not_reports d) (send_all env (app_github c) reps)"
  by (induction reps) (auto intro!: io_intros core_pre send_others)

lemma refresh_all_others: "state_io_rel (\<lambda>d d'. not_reports d' = not_reports d) (refresh_all (app_github c) reps)"
proof (induction reps)
  case (Cons rep reps)
  have upd: "state_io_rel (\<lambda>d d'. not_reports d' = not_reports d) (update_report_status i st)" for i st
    unfolding update_report_status_def by (intro io_intros core_pre) (simp add: core_defs)
  show ?case unfolding refresh_all.simps app_github_def github.simps
    by (cases "rp_repo rep"; cases "rp_issue_number rep")
      (auto intro!: io_intros core_pre github_others upd Cons [unfolded app_github_def])
qed (simp add: io_return [OF core_pre(5)])

lemma report_store:
  assumes "wired env"
  shows "state_io_rel (system_ok P) (submit env u inp)" "state_io_rel (system_ok P) (sync_once env)"
proof -
  have sound: "state_io_rel report_ok m" if "\<And>r d d'. run_state m d = (r, d') \<Longrightarrow> sound_step env d d'" for m :: "'x io"
    using that by (intro io_relI) (auto simp: sound_step_def report_ok_def)
  have store: "state_io_rel (\<lambda>d d'. not_reports d' = not_reports d) (count_since i t)"
    "state_io_rel (\<lambda>d d'. not_reports d' = not_reports d) new_report_ref"
    "state_io_rel (\<lambda>d d'. not_reports d' = not_reports d) (create_report ref i kind title payload)"
    "state_io_rel (\<lambda>d d'. not_reports d' = not_reports d) (list_pending n)"
    "state_io_rel (\<lambda>d d'. not_reports d' = not_reports d) (list_open_to_sync t n)" for i t ref kind title payload n
    unfolding count_since_def new_report_ref_def create_report_def list_pending_def list_open_to_sync_def
    by (intro io_intros core_pre; simp add: core_defs)+
  have calls: "state_io_rel (\<lambda>d d'. not_reports d' = not_reports d) (send env g rep)"
    "state_io_rel (\<lambda>d d'. not_reports d' = not_reports d) (send_all env g reps)"
    "state_io_rel (\<lambda>d d'. not_reports d' = not_reports d) (refresh_all g reps)" if "gh env = Some g" for g rep reps
    using assms that send_others send_all_others refresh_all_others by (auto simp: wired_def)
  have others: "state_io_rel (\<lambda>d d'. not_reports d' = not_reports d) (submit env u inp)"
    "state_io_rel (\<lambda>d d'. not_reports d' = not_reports d) (sync_once env)"
    unfolding submit_def sync_once_def with_sync_lock_def by (intro io_intros core_pre store calls; simp)+
  show "state_io_rel (system_ok P) (submit env u inp)" "state_io_rel (system_ok P) (sync_once env)"
    using others submit_sound wired_api [OF assms] sync_wired [OF assms]
    by (auto intro!: system_of_report sound keepsI)
qed


section \<open>Library: the handlers\<close>

lemma portal_steps [system_intros]:
  "state_io_rel (system_ok P) (user_portal_access p)"
  "state_io_rel (system_ok P) (require_portal_access email)"
  "state_io_rel (system_ok P) (online_or_false g)"
  "state_io_rel (system_ok P) (resolve_gateway g)"
  "state_io_rel (system_ok P) (machine_or_none i)"
  "state_io_rel (system_ok P) (resolve_armoire a b)"
  "state_io_rel (system_ok P) (portal_gateway p)"
  "state_io_rel (system_ok P) (cache_or_nil m)"
  unfolding require_portal_access_def user_portal_access_def online_or_false_def resolve_gateway_def machine_or_none_def
    resolve_armoire_def portal_gateway_def cache_or_nil_def Let_def
  by (intro io_intros system_pre system_intros)+

abbreviation anything :: "string \<times> int \<times> int option \<Rightarrow> bool" where
  "anything \<equiv> \<lambda>_. True"

lemma chunks_step [system_intros]: "state_io_rel (system_ok anything) (enqueue_chunks uid m chunks)"
proof (induction chunks)
  case (Cons c cs)
  show ?case unfolding enqueue_chunks.simps by (intro io_intros system_pre system_intros Cons TrueI)
qed (simp add: io_return [OF system_pre])

lemma names_step [system_intros]: "state_io_rel (system_ok P) (sync_names_loop m g nw es rows)"
proof (induction es arbitrary: rows)
  case (Cons e es)
  show ?case unfolding sync_names_loop.simps Let_def by (intro io_intros system_pre system_intros Cons)
qed (simp add: io_return [OF system_pre])

lemma portal_user_step [system_intros]:
  "(\<And>p. state_io_rel (system_ok P) (body p)) \<Longrightarrow> state_io_rel (system_ok P) (with_portal_user email body)"
  unfolding with_portal_user_def answer_defs by (intro io_intros system_pre system_intros)

lemma portal_handlers [system_intros]:
  "state_io_rel (system_ok P) health"
  "state_io_rel (system_ok P) (h_create_link_request email body1)"
  "state_io_rel (system_ok P) (link_request_status email)"
  "state_io_rel (system_ok P) (portal_session email)"
  "state_io_rel (system_ok P) (gateway_status_handler email)"
  "state_io_rel (system_ok P) (get_exchange ttl email keys)"
  "state_io_rel (system_ok P) (get_history_latest email)"
  "state_io_rel (system_ok P) (list_pending_link_requests flt)"
  "state_io_rel (system_ok P) (review_link_request i email body5)"
  unfolding health_def h_create_link_request_def link_request_status_def portal_session_def gateway_status_handler_def
    get_exchange_def get_history_latest_def list_pending_link_requests_def
    review_link_request_def answer_defs Let_def
  by (intro io_intros system_pre system_intros)+


lemma device_handlers [system_intros]:
  "state_io_rel (system_ok P) (list_scenarios email)"
  "state_io_rel (system_ok P) (get_scenario email slot)"
  "state_io_rel (system_ok P) (get_scenario_bitmasks email)"
  "state_io_rel (system_ok P) (get_light_timers email)"
  "state_io_rel (system_ok P) (get_light_names email)"
  "state_io_rel (system_ok P) (put_light_name r email light body3)"
  unfolding list_scenarios_def get_scenario_def scenario_detail_def
    get_scenario_bitmasks_def get_light_timers_def get_light_names_def
    put_light_name_def answer_defs Let_def
  by (intro io_intros system_pre system_intros)+

lemma ordering_handlers [system_intros]:
  "state_io_rel (system_ok anything) (inject r email body1)"
  "state_io_rel (system_ok anything) (inject_batch r email body2)"
  "state_io_rel (system_ok anything) (post_web_actions r email body3)"
  "state_io_rel (system_ok anything) (put_scenario r email slot body4)"
  "state_io_rel (system_ok anything) (launch_scenario r email slot)"
  "state_io_rel (system_ok anything) (restore_scenario r email slot)"
  "state_io_rel (system_ok anything) (put_light_timer r email light body5)"
  unfolding inject_def inject_batch_def post_web_actions_def put_scenario_def launch_scenario_def restore_scenario_def
    scenario_action_def put_light_timer_def answer_defs Let_def
  by (intro io_intros system_pre system_intros TrueI)+

lemma gateway_handlers [system_intros]:
  "state_io_rel (system_ok P) (pending_actions g)"
  "state_io_rel (system_ok P) (action_done guid)"
  "state_io_rel (system_ok P) (heartbeat g)"
  "state_io_rel (system_ok P) (push_exchange g body1)"
  "state_io_rel (system_ok P) (register_gateway hash body2)"
  "state_io_rel (system_ok P) h_list_gateway_sessions"
  "state_io_rel (system_ok P) (sync_config g)"
  "state_io_rel (system_ok P) (sync_run_start g i)"
  "state_io_rel (system_ok P) (sync_run_progress g i body3)"
  "state_io_rel (system_ok P) (sync_run_create g body4)"
  "state_io_rel (system_ok P) (patch_scenarios_sync_profile meth g body5)"
  "state_io_rel (system_ok P) (sync_light_names g body6)"
  unfolding pending_actions_def action_done_def heartbeat_def push_exchange_def register_gateway_def
    h_list_gateway_sessions_def sync_config_def sync_run_start_def sync_run_progress_def sync_run_create_def
    patch_scenarios_sync_profile_def sync_light_names_def answer_defs Let_def
  by (intro io_intros system_pre system_intros)+

text \<open>Case distinctions of the account handlers.\<close>

lemma draws_step [system_intros]: "system_ok P d (d\<lparr>draws := n\<rparr>)"
  by (simp add: system_same core_defs)

lemma case_steps [system_intros]:
  "(x = CaptchaMissing \<Longrightarrow> state_io_rel R m1) \<Longrightarrow> (x = CaptchaNotConfigured \<Longrightarrow> state_io_rel R m2)
    \<Longrightarrow> (x = CaptchaFailed \<Longrightarrow> state_io_rel R m3)
    \<Longrightarrow> state_io_rel R (case x of CaptchaMissing \<Rightarrow> m1 | CaptchaNotConfigured \<Rightarrow> m2 | CaptchaFailed \<Rightarrow> m3)"
  "(o' = ExchangeFailed \<Longrightarrow> state_io_rel R n1) \<Longrightarrow> (o' = UndecodableData \<Longrightarrow> state_io_rel R n2)
    \<Longrightarrow> (\<And>e i. o' = OauthUser e i \<Longrightarrow> state_io_rel R (f e i))
    \<Longrightarrow> state_io_rel R (case o' of ExchangeFailed \<Rightarrow> n1 | UndecodableData \<Rightarrow> n2 | OauthUser e i \<Rightarrow> f e i)"
  "(t = TokenValid \<Longrightarrow> state_io_rel R k1) \<Longrightarrow> (t = TokenExpired \<Longrightarrow> state_io_rel R k2)
    \<Longrightarrow> (t = TokenUsed \<Longrightarrow> state_io_rel R k3) \<Longrightarrow> (t = TokenInvalidated \<Longrightarrow> state_io_rel R k4)
    \<Longrightarrow> state_io_rel R (case t of TokenValid \<Rightarrow> k1 | TokenExpired \<Rightarrow> k2 | TokenUsed \<Rightarrow> k3 | TokenInvalidated \<Rightarrow> k4)"
  by (simp split: captcha_refusal.split) (simp_all split: oauth_result.split reset_state.split)

lemma identity_steps [system_intros]:
  "state_io_rel (system_ok P) (audit_entry env uid email action ip details)"
  "state_io_rel (system_ok P) (generate_token env)"
  "state_io_rel (system_ok P) burn"
  "state_io_rel (system_ok P) (generate_from_password env password)"
  "state_io_rel (system_ok P) (issue_remember_session env uid r)"
  "state_io_rel (system_ok P) (issue_reset_if_eligible env email ip)"
  unfolding audit_entry_def generate_token_def burn_def generate_from_password_def issue_remember_session_def
    issue_reset_if_eligible_def dispatch_mail_def audit_reset_def Let_def
  by (intro io_intros system_pre system_intros)+

lemma identity_handlers [system_intros]:
  "state_io_rel (system_ok P) (register env r body1)"
  "state_io_rel (system_ok P) (login env r body2)"
  "state_io_rel (system_ok P) (remember_refresh env r body3)"
  "state_io_rel (system_ok P) (logout env r body3)"
  "state_io_rel (system_ok P) (get_profile email)"
  "state_io_rel (system_ok P) (update_profile env email body4)"
  "state_io_rel (system_ok P) (delete_profile email)"
  "state_io_rel (system_ok P) (update_profile_links email body5)"
  "state_io_rel (system_ok P) (nearby_devices r)"
  "state_io_rel (system_ok P) (forgot_password env r body6)"
  "state_io_rel (system_ok P) (validate_reset_token env tok)"
  "state_io_rel (system_ok P) (reset_password env r body7)"
  "state_io_rel (system_ok P) (change_password env r email body7)"
  "state_io_rel (system_ok P) (oauth_login env)"
  "state_io_rel (system_ok P) (google_callback env q)"
  "state_io_rel (system_ok P) (apple_callback env q)"
  unfolding register_def login_def remember_refresh_def logout_def get_profile_def update_profile_def delete_profile_def
    update_profile_links_def nearby_devices_def forgot_password_def validate_reset_token_def reset_password_def
    change_password_def oauth_login_def google_callback_def apple_callback_def oauth_finish_def with_account_def
    remember_invalid_def audit_remember_def audit_reset_def audit_password_changed_def Let_def
  by (intro io_intros system_pre system_intros)+


lemma admin_steps [system_intros]:
  "state_io_rel (system_ok P) (log_audit env uid who action kind rid ip details)"
  "state_io_rel (system_ok P) (enrich_device_vars env u vars)"
  "state_io_rel (system_ok P) (build_template_vars env u pw)"
  "state_io_rel (system_ok P) (send_template_email_with_vars env slug u pw extra aid aemail ip enabled)"
  "state_io_rel (system_ok P) (send_template_email env slug u pw aid aemail ip enabled)"
  "state_io_rel (system_ok P) (try_auto_send env slug u pw aid aemail ip)"
  "state_io_rel (system_ok P) (bind_armoire_for_portal_delivery env m a g)"
  "state_io_rel (system_ok P) temppass_generate"
  unfolding log_audit_def enrich_device_vars_def build_template_vars_def send_template_email_with_vars_def
    send_template_email_def try_auto_send_def bind_armoire_for_portal_delivery_def
    temppass_generate_def Let_def
  by (intro io_intros system_pre system_intros)+

lemma authorize_step [system_intros]: "state_io_rel (system_ok P) (authorize_admin_target caller target act role)"
  unfolding authorize_admin_target_def Let_def
  by (cases act; simp only: admin_action.case; intro io_intros system_pre system_intros)

lemma caller_steps [system_intros]:
  "(\<And>u. state_io_rel (system_ok P) (body u)) \<Longrightarrow> state_io_rel (system_ok P) (with_caller email body)"
  "(\<And>u. state_io_rel (system_ok P) (body u)) \<Longrightarrow> state_io_rel (system_ok P) (require_admin_global email body)"
  "(\<And>u v. state_io_rel (system_ok P) (act u v)) \<Longrightarrow> state_io_rel (system_ok P) (authorize_user_action email i action act)"
  "state_io_rel (system_ok P) m \<Longrightarrow> state_io_rel (system_ok P) (users_answer m)"
  unfolding with_caller_def require_admin_global_def authorize_user_action_def users_answer_def internal_error_def Let_def
  by (intro io_intros system_pre system_intros; assumption)+

lemma admin_mail_handlers [system_intros]:
  "state_io_rel (system_ok P) (email_health env)"
  "state_io_rel (system_ok P) (list_email_templates env email)"
  "state_io_rel (system_ok P) (get_email_template env email slug)"
  "state_io_rel (system_ok P) (put_email_template env email slug body1)"
  "state_io_rel (system_ok P) (preview_email_template env email slug vars)"
  "state_io_rel (system_ok P) (test_email_template env email slugo)"
  "state_io_rel (system_ok P) (resend_user_email env r email i body2)"
  "state_io_rel (system_ok P) (subscribe env body3)"
  "state_io_rel (system_ok P) (list_subscribers env)"
  "state_io_rel (system_ok P) (h_add_subscriber env body3)"
  "state_io_rel (system_ok P) (h_delete_subscriber env r)"
  "state_io_rel (system_ok P) (list_newsletters env)"
  "state_io_rel (system_ok P) (create_newsletter env)"
  "state_io_rel (system_ok P) (update_newsletter env i body4)"
  "state_io_rel (system_ok P) (h_delete_newsletter env i)"
  "state_io_rel (system_ok P) (send_newsletter env i)"
  unfolding email_health_def list_email_templates_def get_email_template_def put_email_template_def
    preview_email_template_def test_email_template_def resend_user_email_def subscribe_def list_subscribers_def
    h_add_subscriber_def h_delete_subscriber_def list_newsletters_def create_newsletter_def update_newsletter_def
    h_delete_newsletter_def send_newsletter_def internal_error_def Let_def
  by (intro io_intros system_pre system_intros)+

lemma admin_handlers [system_intros]:
  "state_io_rel (system_ok P) (admin_login env body1)"
  "state_io_rel (system_ok P) (stats env)"
  "state_io_rel (system_ok P) (h_machines env)"
  "state_io_rel (system_ok P) (h_gateways env)"
  "state_io_rel (system_ok P) (get_users ctx)"
  "state_io_rel (system_ok P) (h_update_user_role env r email i body1)"
  "state_io_rel (system_ok P) (admin_create_user env r email body2)"
  "state_io_rel (system_ok P) (h_update_user_links env r email i body3)"
  "state_io_rel (system_ok P) (h_forbid_user env r email i)"
  "state_io_rel (system_ok P) (h_unforbid_user env r email i)"
  "state_io_rel (system_ok P) (h_delete_user env r email i)"
  "state_io_rel (system_ok P) (h_audit_logs env r email)"
  "state_io_rel (system_ok P) (issue_temporary_password env r email i send_email)"
  "state_io_rel (system_ok P) (send_password_reset env r email i)"
  "state_io_rel (system_ok P) (h_list_sync_profiles env r email)"
  "state_io_rel (system_ok P) (h_create_sync_profile env email body4)"
  "state_io_rel (system_ok P) (h_update_sync_profile env email i body4)"
  "state_io_rel (system_ok P) (h_delete_sync_profile env email i)"
  "state_io_rel (system_ok P) (run_sync_profile env r email i)"
  "state_io_rel (system_ok P) (list_sync_profile_runs env r email i)"
  "state_io_rel (system_ok P) (h_get_sync_run env email i)"
  unfolding admin_login_def stats_def h_machines_def h_gateways_def get_users_def h_update_user_role_def
    admin_create_user_def h_update_user_links_def h_forbid_user_def h_unforbid_user_def h_delete_user_def
    h_audit_logs_def issue_temporary_password_def send_password_reset_def h_list_sync_profiles_def
    h_create_sync_profile_def h_update_sync_profile_def h_delete_sync_profile_def run_sync_profile_def
    list_sync_profile_runs_def h_get_sync_run_def internal_error_def account_forbidden_conflict_def Let_def
  by (intro io_intros system_pre system_intros)+


lemma limited_step [system_intros]:
  assumes "\<And>c. state_io_rel (system_ok P) (h r c)"
  shows "state_io_rel (system_ok P) (limited name rl key refusal h r c)"
proof -
  have "state_io_rel (system_ok P) (hit name rl k)" for k
    by (simp add: hit_def state_io_rel_def case_prod_beta system_same core_defs)
  then show ?thesis unfolding limited_def by (intro io_intros system_pre assms)
qed

lemma guard_steps [system_intros]:
  assumes h: "\<And>c. state_io_rel (system_ok P) (h r c)"
  shows "state_io_rel (system_ok P) (user_jwt_with_store parse (Some get_user_by_email) h r c)"
    "state_io_rel (system_ok P) (admin_jwt_with_store parse (Some get_user_by_email) h r c)"
    "state_io_rel (system_ok P) (user_jwt_allow_password_change parse (Some get_user_by_email) h r c)"
    "state_io_rel (system_ok P) (admin_auth_with_store expected parse (Some get_user_by_email) h r c)"
    "state_io_rel (system_ok P) (gateway_auth (validate_gateway_request hash) h r c)"
  unfolding guard_defs gateway_auth_def Let_def option.case
  by (intro io_intros system_pre system_intros h)+

lemma legacy_steps [system_intros]:
  "state_io_rel (system_ok P) (my_actions r c)"
  "state_io_rel (system_ok P) (legacy_done guid r c)"
  "state_io_rel (system_ok P) next_server_infos"
  "state_io_rel (system_ok P) (my_status lib body1 r c)"
  "state_io_rel (system_ok P) (gateway_infos body2 r c)"
proof -
  show "state_io_rel (system_ok P) next_server_infos"
    by (simp add: next_server_infos_def state_io_rel_def case_prod_beta system_same core_defs)
qed (unfold my_actions_def legacy_done_def my_status_def gateway_infos_def Let_def,
    (intro io_intros system_pre system_intros)+)

lemma basic_auth_step [system_intros]:
  assumes "\<And>c. state_io_rel (system_ok P) (h r c)"
  shows "state_io_rel (system_ok P) (basic_auth iot_store strict h r)"
  unfolding basic_auth_def iot_store_def legacy_store.simps Let_def
  by (intro io_intros system_pre system_intros assms)

lemma support_steps:
  "state_io_rel (system_ok P) (h_list_reports email)"
  "wired svc \<Longrightarrow> state_io_rel (system_ok P) (h_create_report svc email body)"
  unfolding h_list_reports_def h_create_report_def with_current_user_def list_by_user_def
  by (intro io_intros system_pre system_intros report_store; assumption?)+

lemma map_io_step [system_intros]: "state_io_rel (system_ok P) m \<Longrightarrow> state_io_rel (system_ok P) (map_io f m)"
  unfolding map_io_def by (intro io_intros system_pre)

fun ordering :: "portal_route \<Rightarrow> bool" where
  "ordering (InjectR _) = True"
| "ordering (InjectBatchR _) = True"
| "ordering (WebActionsR _) = True"
| "ordering (PutScenarioR _ _) = True"
| "ordering (LaunchR _) = True"
| "ordering (RestoreR _) = True"
| "ordering (PutLightTimerR _ _) = True"
| "ordering _ = False"

lemma portal_handler_step:
  "state_io_rel (system_ok anything) (portal_handler env q r c)"
  "\<not> ordering q \<Longrightarrow> state_io_rel (system_ok P) (portal_handler env q r c)"
  by (cases q; simp add: portal_handlers device_handlers gateway_handlers ordering_handlers)+

lemma gateway_handler_step [system_intros]: "state_io_rel (system_ok P) (gateway_handler q r c)"
  by (cases q) (simp_all add: gateway_handlers)

lemma identity_handler_step [system_intros]: "state_io_rel (system_ok P) (identity_handler env q r c)"
  by (cases q) (auto simp: answer_only_def register_rate_limited_def reset_rate_limited_def remember_rate_limited_def
      intro!: io_intros system_pre system_intros)

lemma admin_handler_step [system_intros]: "state_io_rel (system_ok P) (admin_handler env q r c)"
  by (cases q) (simp_all add: admin_handlers admin_mail_handlers)

lemma legacy_handler_step [system_intros]: "state_io_rel (system_ok P) (legacy_handler lib q r c)"
  by (cases q) (simp_all add: legacy_steps)

definition wired_env :: "server_env \<Rightarrow> bool" where
  "wired_env env \<longleftrightarrow> (\<forall>svc. support env = Some svc \<longrightarrow> wired svc)"

lemma portal_guarded_step:
  assumes "\<And>r c. state_io_rel (system_ok P) (h r c)"
  shows "state_io_rel (system_ok P) (portal_guarded env g h r c)"
  using assms by (cases g) (auto simp: portal_guarded_def intro!: system_intros)

definition ordering_request :: "request \<Rightarrow> bool" where
  "ordering_request q = (case q of ToPortal p \<Rightarrow> ordering p | _ \<Rightarrow> False)"

lemma serve_others:
  assumes "wired_env env" "\<And>p. q \<noteq> ToPortal p"
  shows "state_io_rel (system_ok P) (serve env r q)"
proof (cases q)
  case (ToIdentity p)
  then show ?thesis
    by (cases "snd (snd (identity_entry p))")
      (auto simp: serve_identity_def identity_guarded_def change_password_rate_limited_def intro!: io_intros system_pre system_intros)
next
  case (ToSupport p)
  have "state_io_rel (system_ok P) (support_handler svc p r c)" if "support env = Some svc" for svc c
    using support_steps assms(1) that by (cases p) (simp_all add: wired_env_def)
  then show ?thesis using ToSupport
    by (auto simp: serve_support_def split: option.split intro!: io_intros system_pre system_intros)
qed (use assms(2) in \<open>auto simp: serve_gateway_def serve_admin_def serve_legacy_def intro!: io_intros system_pre system_intros\<close>)

lemma serve_ok:
  assumes "wired_env env"
  shows "state_io_rel (system_ok anything) (serve env r q)"
    "\<not> ordering_request q \<Longrightarrow> state_io_rel (system_ok P) (serve env r q)"
proof -
  have portal: "state_io_rel (system_ok Q) (serve env r (ToPortal p))"
    if "\<And>r c. state_io_rel (system_ok Q) (portal_handler env p r c)" for Q p
    unfolding serve.simps serve_portal_def by (intro map_io_step portal_guarded_step that)
  show "state_io_rel (system_ok anything) (serve env r q)"
    using serve_others [OF assms] portal portal_handler_step(1) by (cases "\<exists>p. q = ToPortal p") auto
  show "state_io_rel (system_ok P) (serve env r q)" if "\<not> ordering_request q"
    using serve_others [OF assms] portal portal_handler_step(2) that
    by (cases "\<exists>p. q = ToPortal p") (auto simp: ordering_request_def)
qed

end
