(* ===== verification/Server.thy ===== *)
theory Server
  imports Frames
begin

text \<open>
  The server as a whole: every request that the router serves, the worker that synchronises the reports, the lookups in
  the background, the clock and the faults of the connection are the steps of one system. The invariants of the stores hold
  in each of its states, no route is served without the credentials it asks for, and orders enter the queue only through
  the portal.
\<close>

section \<open>Library: who orders\<close>

lemma get_user_cases:
  assumes "run_state (get_user_by_email email) d = (res, d1)"
  shows "untouched d d1" "res = Inr uo \<Longrightarrow> account_of d email = uo"
  using assms accounts.get_frame by (auto simp: get_user_by_email_def account_of_def elim!: query_cases)

lemma enforced_cases:
  fixes h :: "'b handler"
  assumes "run_state (serve_active (enforce_active_user (Some get_user_by_email) email) email h r c) d = (a, d')"
  obtains (turned_away) "refused d (a, d')"
    | (served) u d1 where "account_of d email = Some u" "u_forbidden_at u = None" "u_pw_change_required_at u = None"
      "untouched d d1" "run_state (h r (with_user_context c email (u_role u))) d1 = (a, d')"
proof -
  obtain res d1 where get: "run_state (get_user_by_email email) d = (res, d1)" by (rule prod.exhaust)
  note g = get_user_cases [OF get]
  show ?thesis
  proof (cases "email \<noteq> [] \<and> (\<exists>u. res = Inr (Some u) \<and> u_forbidden_at u = None \<and> u_pw_change_required_at u = None)")
    case True
    then obtain u where u: "res = Inr (Some u)" "u_forbidden_at u = None" "u_pw_change_required_at u = None" "email \<noteq> []"
      by blast
    then have "run_state (h r (with_user_context c email (u_role u))) d1 = (a, d')"
      using assms get by (simp add: guard_defs is_user_forbidden_def password_change_required_def)
    then show ?thesis using served u g by blast
  next
    case False
    then have "(d' = d1 \<or> d' = d) \<and> status a \<in> {401, 403, 409, 500}" using assms get
      by (auto simp: guard_defs is_user_forbidden_def password_change_required_def recovered_def unauthorized_def
          account_forbidden_def password_change_required_answer_def split: sum.splits option.splits if_splits)
    then show ?thesis using turned_away g by (auto simp: refused_def)
  qed
qed

text \<open>The orders of the accounts that a token names: the strict reading of the token is that of the user routes.\<close>

definition token_subject :: "jwt_parser \<Rightarrow> bool \<Rightarrow> http_request \<Rightarrow> string \<Rightarrow> bool" where
  "token_subject parse strict r email \<longleftrightarrow> (\<exists>claims. parse strict (bearer r) = Some claims \<and> cl_sub claims = Some email)"

lemma user_jwt_cases:
  fixes h :: "'b handler"
  assumes "run_state (user_jwt_with_store parse (Some get_user_by_email) h r c) d = (a, d')"
  obtains (turned_away) "refused d (a, d')"
    | (named) email role where "token_subject parse True r email"
      "run_state (serve_active (enforce_active_user (Some get_user_by_email) email) email h r (with_user_context c email role)) d = (a, d')"
  using assms unfolding user_jwt_with_store_def user_jwt_def token_subject_def
  by (auto simp: Let_def str_claim_def with_user_context_def refused_def unauthorized_def split: if_splits option.splits)

lemma admin_jwt_cases:
  fixes h :: "'b handler"
  assumes "run_state (admin_jwt_with_store parse (Some get_user_by_email) h r c) d = (a, d')"
  obtains (turned_away) "refused d (a, d')"
    | (named) email role where "token_subject parse False r email"
      "run_state (serve_active (enforce_active_user (Some get_user_by_email) email) email h r (with_user_context c email role)) d = (a, d')"
proof (cases "parse False (bearer r)")
  case (Some claims)
  show ?thesis
  proof (cases "cl_sub claims")
    case None
    then show ?thesis using assms Some turned_away
      by (auto simp: guard_defs Let_def refused_def unauthorized_def recovered_def password_change_required_def split: if_splits)
  next
    case email: (Some email)
    then show ?thesis using assms Some turned_away named
      unfolding admin_jwt_with_store_def admin_jwt_def token_subject_def
      by (auto simp: Let_def str_claim_def with_user_context_def refused_def unauthorized_def split: if_splits)
  qed
qed (use assms turned_away in \<open>auto simp: admin_jwt_with_store_def admin_jwt_def refused_def unauthorized_def split: if_splits\<close>)

lemma refused_untouched: "refused d (a, d') \<Longrightarrow> untouched d d'"
  by (simp add: refused_def)

lemma orders_of_earlier:
  assumes "orders_of email d1 d'" "users d1 = users d" "link_requests d1 = link_requests d" "cloud_actions d1 = cloud_actions d"
  shows "orders_of email d d'"
  using assms unfolding orders_of_def account_of_def portal_access_def approved_link_def by simp

lemma untouched_rows:
  assumes "untouched d d1"
  shows "users d1 = users d" "link_requests d1 = link_requests d" "cloud_actions d1 = cloud_actions d"
proof -
  obtain bs where "d1 = d\<lparr>faults := bs\<rparr>" using assms unfolding untouched_def by blast
  then show "users d1 = users d" "link_requests d1 = link_requests d" "cloud_actions d1 = cloud_actions d" by simp_all
qed

text \<open>A program whose new orders are those of one address.\<close>

definition orders_for :: "string \<Rightarrow> 'a io \<Rightarrow> bool" where
  "orders_for email m \<longleftrightarrow> (\<forall>d. orders_of email d (snd (run_state m d)))"

lemma orders_forI: "(\<And>d a d'. run_state m d = (a, d') \<Longrightarrow> orders_of email d d') \<Longrightarrow> orders_for email m"
  unfolding orders_for_def by (metis prod.collapse)

lemma orders_for_run: "orders_for email m \<Longrightarrow> run_state m d = (a, d') \<Longrightarrow> orders_of email d d'"
  by (metis orders_for_def snd_conv)

lemma orders_for_limited:
  assumes "orders_for email (h r c)"
  shows "orders_for email (limited name rl key refusal h r c)"
proof (rule orders_forI)
  fix d a d' assume run: "run_state (limited name rl key refusal h r c) d = (a, d')"
  obtain ok hits where hit: "run_state (hit name rl (key r)) d = (ok, d\<lparr>limiter_hits := hits\<rparr>)"
    by (simp add: hit_def case_prod_beta)
  show "orders_of email d d'"
  proof (cases ok)
    case True
    then have "run_state (h r c) (d\<lparr>limiter_hits := hits\<rparr>) = (a, d')" using run hit by (simp add: limited_def)
    from orders_for_run [OF assms this] show ?thesis by (rule orders_of_earlier) simp_all
  next
    case False
    then have "cloud_actions d' = cloud_actions d" using run hit by (auto simp: limited_def)
    then show ?thesis by (simp add: orders_of_def)
  qed
qed

lemma ordering_handler:
  assumes "ordering q"
  shows "orders_for (email_of c) (portal_handler env q r c)"
  using assms inject_orders inject_batch_orders post_web_actions_orders put_scenario_orders scenario_action_orders
    put_light_timer_orders
  by (cases q) (auto simp: launch_scenario_def restore_scenario_def intro!: orders_forI)


definition authorised :: "string \<Rightarrow> db \<Rightarrow> db \<Rightarrow> bool" where
  "authorised email d d' \<longleftrightarrow> (\<exists>new. cloud_actions d' = cloud_actions d @ new \<and> (new \<noteq> [] \<longrightarrow> (\<exists>u.
     account_of d email = Some u \<and> u_forbidden_at u = None \<and> u_pw_change_required_at u = None \<and> portal_access d u
     \<and> (\<forall>a \<in> set new. ca_user a = u_id u \<and> ca_machine a = u_machine u))))"

lemma authorised_untouched: "untouched d d' \<Longrightarrow> authorised email d d'"
  unfolding authorised_def by (intro exI [of _ "[]"]) (simp add: untouched_rows)

lemma authorised_earlier: "authorised email d1 d' \<Longrightarrow> untouched d d1 \<Longrightarrow> authorised email d d'"
  unfolding authorised_def by simp

lemma enforced_orders:
  assumes "run_state (serve_active (enforce_active_user (Some get_user_by_email) email) email h r c) d = (a, d')"
    and h: "\<And>c. orders_for (email_of c) (h r c)"
  shows "authorised email d d'"
  using assms(1)
proof (cases rule: enforced_cases)
  case (served u d1)
  have "email_of (with_user_context c email (u_role u)) = email" by (simp add: email_of_def with_user_context_def str_claim_def)
  then have "orders_of email d1 d'" using orders_for_run [OF h served(5)] by simp
  then have "orders_of email d d'" by (rule orders_of_earlier) (simp_all add: untouched_rows [OF served(4)])
  then obtain new where new: "cloud_actions d' = cloud_actions d @ new" "\<forall>a \<in> set new. \<exists>u.
     account_of d email = Some u \<and> portal_access d u \<and> ca_user a = u_id u \<and> ca_machine a = u_machine u \<and> ca_status a = ActionPending"
    unfolding orders_of_def by blast
  then have "\<forall>a \<in> set new. portal_access d u \<and> ca_user a = u_id u \<and> ca_machine a = u_machine u" using served(1) by auto
  then show ?thesis unfolding authorised_def using new(1) served(1-3)
    by (intro exI [of _ new]) (cases new; simp)
qed (rule authorised_untouched [OF refused_untouched])

lemma portal_orders:
  assumes run: "run_state (serve_portal env r p) d = (a, d')" and p: "ordering p"
  shows "\<exists>strict email. authorised email d d' \<and> (cloud_actions d' \<noteq> cloud_actions d \<longrightarrow> token_subject (jwt env) strict r email
    \<and> (strict \<or> snd (snd (portal_entry p)) = UserAdmin))"
proof -
  let ?h = "portal_handler env p"
  have h: "\<And>c. orders_for (email_of c) (?h r c)" using ordering_handler p by blast
  have idle: "cloud_actions d' = cloud_actions d" "authorised email d d'" if "untouched d d'" for email
    using that authorised_untouched by (auto simp: untouched_rows(3))
  show ?thesis
  proof (cases "snd (snd (portal_entry p))")
    case Open
    then show ?thesis using p by (cases p) simp_all
  next
    case User
    then have "run_state (user_jwt_with_store (jwt env) (Some get_user_by_email) ?h r background) d = (a, d')"
      using run by (simp add: serve_portal_def portal_guarded_def)
    then show ?thesis using enforced_orders [where h = ?h, OF _ h] idle [OF refused_untouched]
      by (cases rule: user_jwt_cases) blast+
  next
    case UserLimited
    let ?l = "limited ''inject'' default_inject_limiter caller_key rate_limit_exceeded ?h"
    have l: "\<And>c. orders_for (email_of c) (?l r c)" using h by (rule orders_for_limited)
    have "run_state (user_jwt_with_store (jwt env) (Some get_user_by_email) ?l r background) d = (a, d')"
      using run UserLimited by (simp add: serve_portal_def portal_guarded_def)
    then show ?thesis using enforced_orders [where h = ?l, OF _ l] idle [OF refused_untouched]
      by (cases rule: user_jwt_cases) blast+
  next
    case UserAdmin
    let ?adm = "admin_jwt_with_store (jwt env) (Some get_user_by_email) ?h"
    have outer: "run_state (user_jwt_with_store (jwt env) (Some get_user_by_email) ?adm r background) d = (a, d')"
      using run UserAdmin by (simp add: serve_portal_def portal_guarded_def)
    have inner: ?thesis if adm: "run_state (?adm r c) d1 = (a, d')" and d1: "untouched d d1" for c d1
      using adm
    proof (cases rule: admin_jwt_cases)
      case turned_away
      then show ?thesis using idle untouched_trans [OF d1 refused_untouched] by blast
    next
      case (named email role)
      then have "authorised email d d'" using enforced_orders [where h = ?h, OF _ h] authorised_earlier d1 by blast
      then show ?thesis using named(1) UserAdmin by blast
    qed
    show ?thesis using outer
    proof (cases rule: user_jwt_cases)
      case (named email role)
      from named(2) show ?thesis using idle [OF refused_untouched] inner by (cases rule: enforced_cases) blast+
    qed (use idle [OF refused_untouched] in blast)
  qed
qed

section \<open>Steps of the server\<close>

text \<open>
  Whatever happens to the state: a request is served, the worker of the support desk runs, the lookups of old addresses
  are started, one of the lookups under way ends, time passes, the connection to the database fails or recovers, another
  instance takes or leaves the lock of the worker.
\<close>

inductive server_step :: "db \<Rightarrow> db \<Rightarrow> bool" where
  served: "wired_env env \<Longrightarrow> run_state (serve env r q) d = (a, d') \<Longrightarrow> server_step d d'"
| synced: "wired svc \<Longrightarrow> run_state (sync_once svc) d = (x, d') \<Longrightarrow> server_step d d'"
| started: "run_state backfill_missing_machine_geo d = (x, d') \<Longrightarrow> server_step d d'"
| located: "geo_jobs d = js @ j # ks \<Longrightarrow> run_state (run_geo_job site j) (d\<lparr>geo_jobs := js @ ks\<rparr>) = (x, d') \<Longrightarrow>
    server_step d d'"
| waited: "clock d \<le> t \<Longrightarrow> server_step d (d\<lparr>clock := t\<rparr>)"
| failing: "server_step d (d\<lparr>faults := bs\<rparr>)"
| elsewhere: "server_step d (d\<lparr>sync_lock_held := b\<rparr>)"

text \<open>The service that \<open>main\<close> builds is wired.\<close>

lemma new_support_service_wired: "wired (new_support_service deps c)"
  by (auto simp: wired_def new_support_service_def new_service_def support_github_def Let_def split: option.splits)

definition fresh_server :: "db \<Rightarrow> bool" where
  "fresh_server d \<longleftrightarrow> remember_sessions d = [] \<and> reset_tokens d = [] \<and> cloud_actions d = [] \<and> sync_runs d = []
     \<and> support_reports d = []"

definition server_le :: "db \<Rightarrow> db \<Rightarrow> bool" where
  "server_le d d' \<longleftrightarrow> account_le d d' \<and> actions_le d d'"


lemma server_step_ok:
  assumes "server_step d d'"
  shows "system_ok anything d d'"
  using assms
proof cases
  case (served env r q a)
  then show ?thesis using serve_ok(1) by blast
next
  case (synced svc x)
  then show ?thesis using report_store(2) by blast
next
  case (started x)
  then show ?thesis using inventory_store(12) by blast
next
  case (located js j ks site x)
  have "state_io_rel (system_ok anything) (run_geo_job site j)" by (cases j) (simp_all add: inventory_store)
  then have "system_ok anything (d\<lparr>geo_jobs := js @ ks\<rparr>) d'" using located(2) by blast
  moreover have "system_ok anything d (d\<lparr>geo_jobs := js @ ks\<rparr>)" by (simp add: system_same core_tables_def)
  ultimately show ?thesis using system_pre unfolding preorder_rel_def by blast
qed (simp_all add: system_same core_tables_def)

interpretation server: monotone_system fresh_server server_step system_inv server_le
proof
  show "system_inv s" if "fresh_server s" for s
    using that by (simp add: fresh_server_def system_inv_def account_inv_def ids_ok_def action_inv_def sync_inv_def report_inv_def)
  show "system_inv t" if "system_inv s" "server_step s t" for s t
    using server_step_ok [OF that(2)] that(1)
    by (simp add: system_ok_def system_inv_def account_ok_def queue_ok_def sync_ok_def report_ok_def)
  show "server_le s t" if "system_inv s" "server_step s t" for s t
    using server_step_ok [OF that(2)] that(1) by (simp add: system_ok_def system_inv_def account_ok_def queue_ok_def server_le_def)
  show "server_le s u" if "server_le s t" "server_le t u" for s t u
    using that account_le_trans actions_le_trans by (auto simp: server_le_def)
qed (simp add: server_le_def account_le_refl queue_life.le_refl)


section \<open>Library: who is let in\<close>

text \<open>Who may call what: the public routes, and for the others the credentials that they ask for. The cabinets
  authenticate on their own.\<close>

fun public :: "request \<Rightarrow> bool" where
  "public (ToPortal p) = (snd (snd (portal_entry p)) = Open)"
| "public (ToIdentity p) = (snd (snd (identity_entry p)) = Public)"
| "public (ToAdmin p) = (\<not> snd (snd (admin_entry p)))"
| "public (ToLegacy _) = True"
| "public _ = False"

definition good_account :: "db \<Rightarrow> string \<Rightarrow> bool \<Rightarrow> bool" where
  "good_account d email changing \<longleftrightarrow> (\<exists>u. account_of d email = Some u \<and> u_forbidden_at u = None
     \<and> (u_pw_change_required_at u = None \<or> changing))"

definition signed_in :: "server_env \<Rightarrow> http_request \<Rightarrow> db \<Rightarrow> bool \<Rightarrow> bool" where
  "signed_in env r d changing \<longleftrightarrow> (\<exists>email. token_subject (jwt env) True r email \<and> good_account d email changing)"

definition staff :: "server_env \<Rightarrow> http_request \<Rightarrow> db \<Rightarrow> bool" where
  "staff env r d \<longleftrightarrow> bearer r \<noteq> [] \<and> bearer r = admin_token (adm env)
     \<or> (\<exists>claims. jwt env True (bearer r) = Some claims \<and> admin_role (str_claim (cl_role claims))
          \<and> (str_claim (cl_sub claims) = [] \<or> good_account d (str_claim (cl_sub claims)) False))"

definition known_gateway :: "server_env \<Rightarrow> http_request \<Rightarrow> db \<Rightarrow> bool" where
  "known_gateway env r d \<longleftrightarrow> (\<exists>sess \<in> set (gateway_sessions d). gs_id sess = header r ''X-Gateway-ID''
     \<and> session_accepts (token_digest env) sess (bearer r) (header r ''X-Gateway-Eth0-MAC'') (header r ''X-Gateway-Eth1-MAC''))"

fun permitted :: "server_env \<Rightarrow> http_request \<Rightarrow> db \<Rightarrow> request \<Rightarrow> bool" where
  "permitted env r d (ToGateway _) = known_gateway env r d"
| "permitted env r d (ToAdmin _) = staff env r d"
| "permitted env r d (ToIdentity p) = signed_in env r d (snd (snd (identity_entry p)) = PasswordChange)"
| "permitted env r d _ = signed_in env r d False"

fun reply_status :: "reply \<Rightarrow> nat" where
  "reply_status (FromPortal a) = status a"
| "reply_status (FromIdentity a) = status a"
| "reply_status (FromAdmin a) = status a"
| "reply_status (FromLegacy a) = status a"
| "reply_status (FromSupport a) = status a"
| "reply_status NotFound = 404"

text \<open>A refusal, of which at most the limiters take note.\<close>

definition shut_out :: "db \<Rightarrow> nat \<times> db \<Rightarrow> bool" where
  "shut_out d res \<longleftrightarrow> (\<exists>bs hits. snd res = d\<lparr>faults := bs, limiter_hits := hits\<rparr>) \<and> fst res \<in> {401, 403, 404, 409, 429, 500}"

lemma shut_out_counted:
  assumes "refused (d\<lparr>limiter_hits := ls\<rparr>) (a, d')"
  shows "shut_out d (status a, d')"
proof -
  obtain bs where "d' = d\<lparr>limiter_hits := ls, faults := bs\<rparr>" "status a \<in> {401, 403, 409, 500}"
    using assms unfolding refused_def untouched_def by auto
  then show ?thesis unfolding shut_out_def by (auto intro!: exI [of _ bs] exI [of _ ls])
qed

lemma shut_out_refused: "refused d (a, d') \<Longrightarrow> shut_out d (status a, d')"
  by (rule shut_out_counted [where ls = "limiter_hits d"]) simp

lemma user_shut_out:
  assumes "run_state (user_jwt_with_store (jwt env) (Some get_user_by_email) h r c) d = (a, d')" "\<not> signed_in env r d False"
  shows "shut_out d (status a, d')"
  using assms(1)
proof (cases rule: user_jwt_cases)
  case (named email role)
  from named(2) show ?thesis
  proof (cases rule: enforced_cases)
    case (served u d1)
    then show ?thesis using named(1) assms(2) by (auto simp: signed_in_def good_account_def)
  qed (rule shut_out_refused)
qed (rule shut_out_refused)

lemma staff_shut_out:
  assumes "run_state (admin_auth_with_store (admin_token (adm env)) (jwt env) (Some get_user_by_email) h r background) d = (a, d')"
    "\<not> staff env r d"
  shows "shut_out d (status a, d')"
proof (cases "\<exists>claims email. jwt env True (bearer r) = Some claims \<and> cl_sub claims = Some email \<and> email \<noteq> []
    \<and> admin_role (str_claim (cl_role claims)) \<and> bearer r \<noteq> []")
  case True
  then obtain claims email where cl: "jwt env True (bearer r) = Some claims" "cl_sub claims = Some email" "email \<noteq> []"
    "admin_role (str_claim (cl_role claims))" "bearer r \<noteq> []" by blast
  then have "run_state (serve_active (enforce_active_user (Some get_user_by_email) email) email h r
      (with_user_context background email (str_claim (cl_role claims)))) d = (a, d')"
    using assms by (auto simp: admin_auth_with_store_def admin_auth_def staff_def Let_def with_user_context_def str_claim_def)
  then show ?thesis
  proof (cases rule: enforced_cases)
    case (served u d1)
    then show ?thesis using cl assms(2) by (auto simp: staff_def good_account_def str_claim_def)
  qed (rule shut_out_refused)
next
  case False
  then have "refused d (a, d')" using assms
    by (auto simp: admin_auth_with_store_def admin_auth_def staff_def Let_def refused_def with_user_context_def str_claim_def
        background_def split: option.splits if_splits)
  then show ?thesis by (rule shut_out_refused)
qed

lemma change_shut_out:
  assumes "run_state (change_password_rate_limited (user_jwt_allow_password_change (jwt env) (Some get_user_by_email) h) r c) d = (a, d')"
    "\<not> signed_in env r d True"
  shows "shut_out d (status a, d')"
proof -
  let ?m = "user_jwt_allow_password_change (jwt env) (Some get_user_by_email) h"
  obtain ok hits where hit: "run_state (hit ''change'' change_limiter (client_ip r)) d = (ok, d\<lparr>limiter_hits := hits\<rparr>)"
    by (simp add: hit_def case_prod_beta)
  let ?d = "d\<lparr>limiter_hits := hits\<rparr>"
  show ?thesis
  proof (cases ok)
    case True
    then have run: "run_state (?m r c) ?d = (a, d')" using assms(1) hit by (simp add: change_password_rate_limited_def limited_def)
    have "refused ?d (a, d')"
    proof (cases "bearer r = [] \<or> jwt env True (bearer r) = None
        \<or> (\<exists>cl. jwt env True (bearer r) = Some cl \<and> str_claim (cl_sub cl) = [])")
      case True
      then show ?thesis using run
        by (auto simp: user_jwt_allow_password_change_def user_jwt_def Let_def refused_def unauthorized_def split: option.splits if_splits)
    next
      case False
      then obtain claims where cl1: "jwt env True (bearer r) = Some claims" "str_claim (cl_sub claims) \<noteq> []" by auto
      then obtain email where cl: "cl_sub claims = Some email" "email \<noteq> []" by (cases "cl_sub claims") (auto simp: str_claim_def)
      obtain res d1 where get: "run_state (get_user_by_email email) ?d = (res, d1)" by (rule prod.exhaust)
      note g = get_user_cases [OF get]
      have "\<not> good_account d email True" using assms(2) cl1(1) cl(1) by (auto simp: signed_in_def token_subject_def)
      then have "account_of ?d email = Some u \<Longrightarrow> u_forbidden_at u \<noteq> None" for u by (simp add: good_account_def account_of_def)
      then have "res = Inr (Some u) \<Longrightarrow> u_forbidden_at u \<noteq> None" for u using g(2) by blast
      then show ?thesis using run get False cl1 cl g(1)
        by (auto simp: guard_defs Let_def refused_def unauthorized_def is_user_forbidden_def account_forbidden_def
            split: sum.splits option.splits if_splits)
    qed
    then show ?thesis by (rule shut_out_counted)
  next
    case False
    then show ?thesis using assms(1) hit
      by (auto simp: change_password_rate_limited_def limited_def shut_out_def intro!: exI [of _ "faults d"])
  qed
qed

section \<open>Properties\<close>

text \<open>C3. Whatever requests, runs of the worker, lookups, faults and delays follow each other on a fresh server, the
  invariants of the stores hold (numbers and guids are unique, runs and reports are well formed), no order is ever lost,
  rewritten or moved back in its life cycle, and what is spent stays spent: a session that was revoked and a reset token
  that was consumed or invalidated are never usable again.\<close>

theorem server_keeps_history:
  assumes "fresh_server d0" "server_step\<^sup>*\<^sup>* d0 d" "server_step\<^sup>*\<^sup>* d d'"
  shows "account_inv d \<and> action_inv d \<and> sync_inv d \<and> report_inv d
    \<and> (a \<in> set (cloud_actions d) \<longrightarrow> (\<exists>a' \<in> set (cloud_actions d'). ca_guid a' = ca_guid a \<and> ca_user a' = ca_user a
         \<and> ca_machine a' = ca_machine a \<and> ca_params a' = ca_params a \<and> ca_status a \<le> ca_status a'))
    \<and> (s \<in> set (remember_sessions d) \<and> s' \<in> set (remember_sessions d') \<and> rs_id s' = rs_id s \<and> rs_revoked_at s \<noteq> None \<longrightarrow>
         \<not> remember_session_usable (Some s') t)
    \<and> (k \<in> set (reset_tokens d) \<and> k' \<in> set (reset_tokens d') \<and> rt_id k' = rt_id k
         \<and> (rt_consumed_at k \<noteq> None \<or> rt_invalidated_at k \<noteq> None) \<longrightarrow> \<not> reset_token_usable (Some k') t)"
proof -
  have inv: "system_inv d" using assms(1,2) by (rule server.inv_reachable)
  have le: "server_le d d'" using assms(3) inv by (rule server.le_steps)
  have spent: "account_inv d" "account_le d d'" using inv le by (simp_all add: system_inv_def server_le_def)
  have "\<exists>a' \<in> set (cloud_actions d'). advances a a'" if "a \<in> set (cloud_actions d)"
    using le that by (fastforce simp: server_le_def actions_le_def list_all2_conv_all_nth in_set_conv_nth nth_append)
  then show ?thesis using inv spent_rows [OF spent]
    by (auto simp: system_inv_def advances_def session_keeps_def token_keeps_def reset_token_usable_iff)
qed




text \<open>A small server for the examples, and an order that passes all its guards.\<close>

definition sample_server :: server_env where
  "sample_server = \<lparr>cfg = load (\<lambda>_. []), jwt = sample_claims, token_digest = (\<lambda>s. s), ident_env = sample_env,
     adm = sample_admin_env, json = \<lparr>json_valid = (\<lambda>_. False), json_status = (\<lambda>_. None)\<rparr>, support = None\<rparr>"

definition sample_order :: request where
  "sample_order = ToPortal (InjectR (Some \<lparr>ib_k = 349, ib_v = ''1'', ib_guid = ''x''\<rparr>))"

definition sample_ordered :: db where
  "sample_ordered = snd (run_state (serve sample_server sample_request sample_order) sample_portal_db)"

lemma sample_server_wired: "wired_env sample_server"
  by (simp add: wired_env_def sample_server_def)

lemma sample_guard:
  "run_state (user_jwt_with_store sample_claims (Some get_user_by_email) h sample_request background) sample_portal_db
     = run_state (h sample_request (with_user_context background ''a@b'' ''user'')) sample_portal_db"
  by (simp add: guard_defs Let_def run_get_user_ok sample_claims_def sample_portal_db_def sample_portal_user_def sample_defs
      is_user_forbidden_def password_change_required_def)

lemma sample_limit:
  "run_state (limited name default_inject_limiter caller_key refusal h sample_request c) sample_portal_db
     = run_state (h sample_request c)
         (sample_portal_db\<lparr>limiter_hits := (limiter_hits sample_portal_db)(name := (\<lambda>_. [])(''Bearer tok'' := [0]))\<rparr>)"
  by (simp add: limited_def hit_def allow_def default_inject_limiter_def new_rate_limiter_def caller_key_def
      sample_request_def rl_key_def sample_portal_db_def sample_defs)

lemma sample_ordered_queue: "map order_key (cloud_actions sample_ordered) = [(''x'', 1, Some 7)]"
proof -
  have "expand_legacy_scenario_block [kv 349 ''1''] = [kv 349 ''1'']"
    by (simp add: expand_legacy_scenario_block_def has_light_shutter_def index_light_start_def index_security_outlets_def)
  note expand = this
  have "map order_key (cloud_actions (snd (run_state (inject sample_request ''a@b''
      (Some \<lparr>ib_k = 349, ib_v = ''1'', ib_guid = ''x''\<rparr>)) (sample_portal_db\<lparr>limiter_hits := hits\<rparr>)))) = [(''x'', 1, Some 7)]" for hits
  proof -
    let ?d = "sample_portal_db\<lparr>limiter_hits := hits\<rparr>"
    have "faults ?d = []" "account_of ?d ''a@b'' = Some sample_portal_user" "portal_access ?d sample_portal_user"
      using sample_portal(1-3) by (simp_all add: account_of_def portal_access_def approved_link_def)
    then show ?thesis
      by (simp add: inject_def run_profile_ok run_access_ok expand enqueue_cloud_action_def audit_log_portal_def order_key_def Let_def)
  qed
  then show ?thesis
    by (simp add: sample_ordered_def sample_order_def serve_portal_def portal_guarded_def map_io_def case_prod_beta
        sample_server_def sample_guard sample_limit email_of_def with_user_context_def str_claim_def)
qed

theorem server_keeps_history_witness:
  "account_inv sample_ordered \<and> action_inv sample_ordered \<and> (\<exists>a \<in> set (cloud_actions sample_ordered). ca_guid a = ''x'')"
proof -
  have "server_step sample_portal_db sample_ordered"
    unfolding sample_ordered_def by (rule served [OF sample_server_wired surjective_pairing])
  moreover have "fresh_server sample_portal_db" by (simp add: fresh_server_def sample_portal_db_def sample_defs)
  ultimately have "account_inv sample_ordered \<and> action_inv sample_ordered"
    using server_keeps_history [OF _ r_into_rtranclp rtranclp.rtrancl_refl] by blast
  then show ?thesis using sample_ordered_queue by (auto simp: order_key_def)
qed




end
