(* ===== verification/Start.thy ===== *)
theory Start
  imports Server
begin

text \<open>
  The two programs under \<open>cmd/\<close>: \<open>server/main.go\<close>, which refuses to start without strong secrets and hands the settings to
  the router, and \<open>import-machines/main.go\<close>, which copies the cabinets of the support site into the inventory. Files, flags
  and the connection to the database are arguments; the order in which Go walks a map is that of the list.
\<close>

section \<open>Server\<close>

text \<open>
  What the settings do not say: the signature of tokens, the digests and the services outside. \<open>NewRouter\<close> gives every
  optional store to the handlers, and the support desk only to the consolidated server.
\<close>

record outside =
  out_jwt :: jwt_parser
  out_digest :: "string \<Rightarrow> string"
  out_json :: json_lib
  out_site :: site
  out_identity :: identity_env
  out_smtp :: smtp_env
  out_support :: support_deps

definition router_identity :: "outside \<Rightarrow> config \<Rightarrow> identity_env" where
  "router_identity out c = identity_of (out_site out) c
     ((out_identity out)\<lparr>has_resets := True, has_audit := True, has_remember := True, has_mailer := True\<rparr>)"

definition new_router :: "outside \<Rightarrow> config \<Rightarrow> server_env" where
  "new_router out c = \<lparr>cfg = c, jwt = out_jwt out, token_digest = out_digest out, ident_env = router_identity out c,
     adm = \<lparr>ident = router_identity out c, smtp = out_smtp out, admin_token = admin_token_value c, has_inventory = True,
       has_iot = True, has_news = True, has_templates = True, has_portal = True\<rparr>,
     json = out_json out,
     support = (if consolidated_mode c then Some (new_support_service (out_support out) c) else None)\<rparr>"

definition main_server :: "outside \<Rightarrow> environ \<Rightarrow> goerr + server_env" where
  "main_server out getenv = (let c = load getenv in
     case validate_config c of
       Some e \<Rightarrow> Inl e
     | None \<Rightarrow> Inr (new_router out c))"

section \<open>Import of cabinets\<close>

record import_entry =
  ie_no_serie :: string
  ie_active :: bool

record import_detail =
  de_no_serie :: string
  de_ip :: string
  de_last_seen :: instant
  de_raw_auth :: string
  de_raw_decoded :: string

definition import_client :: "import_entry \<Rightarrow> import_detail option \<Rightarrow> string" where
  "import_client m detail = (case detail of
       Some d \<Rightarrow> if de_no_serie d \<noteq> [] then de_no_serie d else ie_no_serie m
     | None \<Rightarrow> ie_no_serie m)"

definition import_one :: "string \<Rightarrow> import_entry \<Rightarrow> import_detail option \<Rightarrow> unit dbop" where
  "import_one k m detail = import_machine k (import_client m detail)
     (case detail of None \<Rightarrow> [] | Some d \<Rightarrow> de_ip d)
     (ie_active m)
     (case detail of None \<Rightarrow> zero_time | Some d \<Rightarrow> de_last_seen d)
     (case detail of None \<Rightarrow> None | Some d \<Rightarrow> Some (de_raw_auth d, de_raw_decoded d))"

text \<open>A key without an object in the file is a nil pointer, on which the program panics: \<open>None\<close>.\<close>

fun import_loop :: "(string \<rightharpoonup> import_detail) \<Rightarrow> int \<Rightarrow> (string \<times> import_entry option) list \<Rightarrow> int option io" where
  "import_loop details n [] = State_Monad.return (Some n)"
| "import_loop details n ((k, entry) # rest) =
     (if k = [] then import_loop details n rest
      else (case entry of
          None \<Rightarrow> State_Monad.return None
        | Some m \<Rightarrow> do {
            r \<leftarrow> import_one k m (details k);
            (case r of
               Inl _ \<Rightarrow> import_loop details n rest
             | Inr _ \<Rightarrow> import_loop details (n + 1) rest) }))"

definition import_machines :: "(string \<rightharpoonup> import_detail) \<Rightarrow> (string \<times> import_entry option) list \<Rightarrow> int option io" where
  "import_machines details entries = import_loop details 0 entries"

section \<open>Library: the row of a cabinet\<close>

lemma main_server_wired: "main_server out getenv = Inr env \<Longrightarrow> wired_env env"
  by (auto simp: main_server_def Let_def new_router_def wired_env_def new_support_service_wired split: option.splits if_splits)

definition cabinet :: "db \<Rightarrow> string \<Rightarrow> machine_row option" where
  "cabinet d k = find (\<lambda>m. m_hashed_pkey m = k) (machines d)"

text \<open>What the import makes of a row; a new row is numbered by the table.\<close>

definition import_row :: "string \<Rightarrow> import_entry \<Rightarrow> import_detail option \<Rightarrow> int \<Rightarrow> machine_row option \<Rightarrow> machine_row" where
  "import_row k m detail i old =
     (let client = import_client m detail; ip = (case detail of None \<Rightarrow> [] | Some d \<Rightarrow> de_ip d);
          seen = (case detail of None \<Rightarrow> zero_time | Some d \<Rightarrow> de_last_seen d);
          auth = map_option (\<lambda>d. (de_raw_auth d, de_raw_decoded d)) detail in
      case old of
        None \<Rightarrow> \<lparr>m_hashed_pkey = k, m_client_id = Some client, m_ip = null_string ip, m_last_seen = Some seen, m_auth = auth,
          m_active = ie_active m, m_geo = None, m_id = i, m_mac = None\<rparr>
      | Some r \<Rightarrow> imported client ip (ie_active m) seen auth r)"

lemma import_one_run:
  assumes "faults d = []"
  obtains d1 where "run_state (import_one k m detail) d = (Inr (), d1)" "faults d1 = []"
    "cabinet d1 k = Some (import_row k m detail (nextval ''machines'' d) (cabinet d k))"
    "\<And>k'. k' \<noteq> k \<Longrightarrow> cabinet d1 k' = cabinet d k'"
proof -
  let ?row = "import_row k m detail (nextval ''machines'' d) None"
  let ?f = "\<lambda>r. import_row k m detail 0 (Some r)"
  let ?d1 = "(bump ''machines'' d)\<lparr>machines := upsert_row (\<lambda>m. m_hashed_pkey m = k) ?f ?row (machines d)\<rparr>"
  have key: "m_hashed_pkey ?row = k" "m_hashed_pkey (?f r) = m_hashed_pkey r" for r
    by (simp_all add: import_row_def imported_def Let_def)
  have "run_state (import_one k m detail) d = (Inr (), ?d1)"
    using assms by (cases detail) (simp_all add: import_one_def import_machine_def import_row_def Let_def)
  moreover have "cabinet ?d1 k = Some (import_row k m detail (nextval ''machines'' d) (cabinet d k))"
    using find_upsert_same [of "\<lambda>m. m_hashed_pkey m = k" ?f ?row "machines d"] key
    by (simp add: cabinet_def import_row_def Let_def split: option.splits)
  moreover have "cabinet ?d1 k' = cabinet d k'" if "k' \<noteq> k" for k'
    using find_upsert_other [of "\<lambda>m. m_hashed_pkey m = k" "\<lambda>m. m_hashed_pkey m = k'" ?f ?row "machines d"] key that
    by (simp add: cabinet_def)
  moreover have "faults ?d1 = []" using assms by (simp add: bump_def)
  ultimately show ?thesis using that by blast
qed

lemma import_loop_run:
  assumes "faults d = []" "distinct (map fst entries)" "\<forall>e \<in> set entries. fst e = [] \<or> snd e \<noteq> None"
  shows "\<exists>d'. run_state (import_loop details n entries) d = (Some (n + int (length (filter (\<lambda>e. fst e \<noteq> []) entries))), d')
    \<and> (\<forall>k. (k = [] \<or> k \<notin> fst ` set entries \<longrightarrow> cabinet d' k = cabinet d k)
         \<and> (\<forall>m. k \<noteq> [] \<longrightarrow> (k, Some m) \<in> set entries \<longrightarrow>
              (\<exists>i. cabinet d' k = Some (import_row k m (details k) i (cabinet d k)))))"
  using assms
proof (induction entries arbitrary: d n)
  case (Cons e rest)
  obtain k entry where e: "e = (k, entry)" by (rule prod.exhaust)
  show ?case
  proof (cases "k = []")
    case True
    then show ?thesis using Cons.IH [of d n] Cons.prems e by auto
  next
    case False
    then obtain m where m: "entry = Some m" using Cons.prems(3) e by auto
    from import_one_run [OF Cons.prems(1), of k m "details k"] obtain d1 where
      d1: "run_state (import_one k m (details k)) d = (Inr (), d1)" "faults d1 = []"
        "cabinet d1 k = Some (import_row k m (details k) (nextval ''machines'' d) (cabinet d k))"
        "\<And>k'. k' \<noteq> k \<Longrightarrow> cabinet d1 k' = cabinet d k'" by blast
    have prems: "distinct (map fst rest)" "\<forall>e \<in> set rest. fst e = [] \<or> snd e \<noteq> None" "k \<notin> fst ` set rest"
      using Cons.prems(2,3) e by auto
    from Cons.IH [OF d1(2) prems(1,2), of "n + 1"] obtain d' where
      d': "run_state (import_loop details (n + 1) rest) d1 = (Some (n + 1 + int (length (filter (\<lambda>e. fst e \<noteq> []) rest))), d')"
        "\<And>k. k = [] \<or> k \<notin> fst ` set rest \<Longrightarrow> cabinet d' k = cabinet d1 k"
        "\<And>k m. k \<noteq> [] \<Longrightarrow> (k, Some m) \<in> set rest \<Longrightarrow> \<exists>i. cabinet d' k = Some (import_row k m (details k) i (cabinet d1 k))"
      by blast
    have run: "run_state (import_loop details n (e # rest)) d
        = (Some (n + int (length (filter (\<lambda>e. fst e \<noteq> []) (e # rest)))), d')"
      using d1(1) d'(1) e m False by simp
    have others: "cabinet d' j = cabinet d j" if "j = [] \<or> j \<notin> fst ` set (e # rest)" for j
      using d'(2) [of j] d1(4) [of j] that e False by auto
    have imported: "\<exists>i. cabinet d' j = Some (import_row j x (details j) i (cabinet d j))"
      if "j \<noteq> []" "(j, Some x) \<in> set (e # rest)" for j x
    proof (cases "j = k")
      case True
      then have "x = m" using that(2) e m prems(3) by (auto simp: image_iff)
      then show ?thesis using d'(2) [of k] d1(3) prems(3) True by auto
    next
      case False
      then show ?thesis using d'(3) [of j x] d1(4) [of j] that e by auto
    qed
    show ?thesis using run others imported by blast
  qed
qed simp

section \<open>Properties\<close>

text \<open>The import of the cabinets is complete and gentle, in whatever order Go walks the file: when no statement fails,
  it counts and registers every cabinet of the file that has a key; one that the inventory already has keeps its number when
  it has one, stays active if it was, and keeps its address and credentials where the file has none; no other cabinet
  changes.\<close>

theorem import_machines_complete:
  assumes "faults d = []" "distinct (map fst entries)" "\<forall>e \<in> set entries. fst e = [] \<or> snd e \<noteq> None"
  shows "\<exists>d'. run_state (import_machines details entries) d = (Some (int (length (filter (\<lambda>e. fst e \<noteq> []) entries))), d')
    \<and> (\<forall>k. k = [] \<or> k \<notin> fst ` set entries \<longrightarrow> cabinet d' k = cabinet d k)
    \<and> (\<forall>k m. k \<noteq> [] \<longrightarrow> (k, Some m) \<in> set entries \<longrightarrow> (\<exists>r. cabinet d' k = Some r
         \<and> (m_active r \<longleftrightarrow> ie_active m \<or> (\<exists>old. cabinet d k = Some old \<and> m_active old))
         \<and> (case cabinet d k of
              None \<Rightarrow> m_client_id r = Some (import_client m (details k))
            | Some old \<Rightarrow> m_id r = m_id old \<and> m_mac r = m_mac old
                \<and> (\<forall>c. m_client_id old = Some c \<longrightarrow> c \<noteq> [] \<longrightarrow> list_all digit c \<longrightarrow> m_client_id r = Some c)
                \<and> (details k = None \<longrightarrow> m_ip r = m_ip old \<and> m_auth r = m_auth old))))"
proof -
  obtain d' where d': "run_state (import_machines details entries) d
      = (Some (int (length (filter (\<lambda>e. fst e \<noteq> []) entries))), d')"
    "\<And>k. k = [] \<or> k \<notin> fst ` set entries \<Longrightarrow> cabinet d' k = cabinet d k"
    "\<And>k m. k \<noteq> [] \<Longrightarrow> (k, Some m) \<in> set entries \<Longrightarrow> \<exists>i. cabinet d' k = Some (import_row k m (details k) i (cabinet d k))"
    using import_loop_run [OF assms, of details 0] by (auto simp: import_machines_def)
  have "\<exists>r. cabinet d' k = Some r
         \<and> (m_active r \<longleftrightarrow> ie_active m \<or> (\<exists>old. cabinet d k = Some old \<and> m_active old))
         \<and> (case cabinet d k of
              None \<Rightarrow> m_client_id r = Some (import_client m (details k))
            | Some old \<Rightarrow> m_id r = m_id old \<and> m_mac r = m_mac old
                \<and> (\<forall>c. m_client_id old = Some c \<longrightarrow> c \<noteq> [] \<longrightarrow> list_all digit c \<longrightarrow> m_client_id r = Some c)
                \<and> (details k = None \<longrightarrow> m_ip r = m_ip old \<and> m_auth r = m_auth old))"
    if "k \<noteq> []" "(k, Some m) \<in> set entries" for k m
    using d'(3) [OF that] by (cases "cabinet d k") (auto simp: import_row_def imported_def null_string_def Let_def)
  then show ?thesis using d'(1,2) by blast
qed

theorem import_machines_complete_witness:
  "\<exists>d' r. run_state (import_machines (\<lambda>_. None) [(''up'', Some \<lparr>ie_no_serie = ''n'', ie_active = True\<rparr>), ([], None)])
      (empty_db\<lparr>machines := [sample_cabinet]\<rparr>) = (Some 1, d') \<and> cabinet d' ''up'' = Some r \<and> m_active r \<and> m_id r = 7"
proof -
  let ?d = "empty_db\<lparr>machines := [sample_cabinet]\<rparr>"
  let ?es = "[(''up'', Some \<lparr>ie_no_serie = ''n'', ie_active = True\<rparr>), ([], None)]"
  have "cabinet ?d ''up'' = Some sample_cabinet" by (simp add: cabinet_def sample_cabinet_def)
  moreover have "m_id sample_cabinet = 7" by (simp add: sample_cabinet_def)
  moreover have "faults ?d = []" by (simp add: sample_defs)
  ultimately show ?thesis
    using import_machines_complete [of ?d ?es "\<lambda>_. None"] by fastforce
qed


end
