(* ===== verification/Worker.thy ===== *)
theory Worker
  imports Support
begin

text \<open>
  The loop of the support worker (\<open>Run\<close> in internal/support/syncer.go): a run of \<open>SyncOnce\<close>, then one more at every tick until the
  context is cancelled. The loop itself never ends; what ends is its work. Each report carries the number of attempts, and a
  potential on them pays for every issue that the worker asks GitHub to open.
\<close>

definition tick :: "instant \<Rightarrow> unit io" where
  "tick t = State (\<lambda>d. ((), d\<lparr>clock := max (clock d) t\<rparr>))"

fun run_worker :: "support_env \<Rightarrow> instant list \<Rightarrow> unit io" where
  "run_worker env [] = ignore (sync_once env)"
| "run_worker env (t # ts) = do { ignore (sync_once env); tick t; run_worker env ts }"

section \<open>Library: the potential\<close>

definition issue_calls :: "db \<Rightarrow> nat" where
  "issue_calls d = length (filter (\<lambda>c. \<not> no_issue c) (api_calls d))"

definition tries :: "support_report \<Rightarrow> nat" where
  "tries r = (if rp_status r = support_status_pending then nat (10 - rp_attempts r) else 0)"

definition tries_left :: "db \<Rightarrow> nat" where
  "tries_left d = sum_list (map tries (support_reports d))"

text \<open>Programs that keep the connection up and pay for the issues they ask for.\<close>

definition pays :: "nat \<Rightarrow> db \<Rightarrow> db \<Rightarrow> bool" where
  "pays n d d' \<longleftrightarrow> faults d' = faults d \<and> tries_left d' + n \<le> tries_left d
     \<and> issue_calls d' + 2 * tries_left d' \<le> issue_calls d + 2 * tries_left d"

lemma pays_refl: "pays 0 d d"
  by (simp add: pays_def)

lemma pays_trans: "pays m d e \<Longrightarrow> pays n e f \<Longrightarrow> pays (m + n) d f"
  by (simp add: pays_def)

lemma pays_same:
  "faults d' = faults d \<Longrightarrow> support_reports d' = support_reports d \<Longrightarrow> api_calls d' = api_calls d \<Longrightarrow> pays 0 d d'"
  by (simp add: pays_def tries_left_def issue_calls_def)

lemma called_no_issue: "called no_issue d d' \<Longrightarrow> issue_calls d' = issue_calls d"
  using calledD(6) [of no_issue d d'] by (auto simp: issue_calls_def list_all_iff)

lemma called_pays: "called no_issue d d' \<Longrightarrow> faults d' = faults d \<Longrightarrow> pays 0 d d'"
  using called_no_issue calledD(1) by (auto simp: pays_def tries_left_def)

lemma tries_update:
  assumes "distinct (map rp_id rs)"
  shows "sum_list (map tries (update_rows (\<lambda>r. rp_id r = i) f rs)) + (case find (\<lambda>r. rp_id r = i) rs of None \<Rightarrow> 0 | Some r \<Rightarrow> tries r)
    = sum_list (map tries rs) + (case find (\<lambda>r. rp_id r = i) rs of None \<Rightarrow> 0 | Some r \<Rightarrow> tries (f r))"
  using assms
proof (induction rs)
  case (Cons r rs)
  show ?case
  proof (cases "rp_id r = i")
    case True
    then have "update_rows (\<lambda>r. rp_id r = i) f rs = rs"
      using Cons.prems unfolding update_rows_def by (intro map_idI) (force simp: image_iff)
    then show ?thesis using True by (simp add: update_rows_def)
  next
    case False
    then show ?thesis using Cons by (simp add: update_rows_def)
  qed
qed (simp add: update_rows_def)

lemma report_row:
  assumes "report_inv d" "r \<in> set (support_reports d)"
  shows "find (\<lambda>q. rp_id q = rp_id r) (support_reports d) = Some r"
proof -
  have "find (\<lambda>q. rp_id q = rp_id r) rs = Some r" if "distinct (map rp_id rs)" "r \<in> set rs" for rs
    using that by (induction rs) (auto simp: image_iff)
  then show ?thesis using assms by (simp add: report_inv_def)
qed

lemma set_report_pays:
  assumes "report_inv d" "r \<in> set (support_reports d)" "tries (f r) + n \<le> tries r"
  shows "tries_left (set_report (rp_id r) f d) + n \<le> tries_left d"
  using tries_update [of "support_reports d" "rp_id r" f] report_row [OF assms(1,2)] assms(1,3)
  by (simp add: tries_left_def set_report_def report_inv_def)

text \<open>Whatever GitHub answers, one attempt costs the report one of its tries, and at most two requests.\<close>

lemma attempt_pays:
  assumes "report_inv d" "r \<in> set (support_reports d)" "tries (f r) + 1 \<le> tries r"
    and d1: "support_reports d1 = support_reports d" "faults d1 = faults d" "issue_calls d1 \<le> issue_calls d + 2"
    and d': "d' = set_report (rp_id r) f d1"
  shows "pays 1 d d'"
proof -
  have "tries_left d' = tries_left (set_report (rp_id r) f d)" using d' d1(1) by (simp add: tries_left_def set_report_def)
  then have "tries_left d' + 1 \<le> tries_left d" using set_report_pays [where f = f, OF assms(1-3)] by simp
  moreover have "issue_calls d' = issue_calls d1" "faults d' = faults d1" using d' by (simp_all add: set_report_def issue_calls_def)
  ultimately show ?thesis using d1 by (simp add: pays_def)
qed

locale paced_github = github_api +
  assumes create_faults: "run_state (gh_create g repo inp) d = (r, d') \<Longrightarrow> faults d' = faults d"
    and create_twice: "run_state (gh_create g repo inp) d = (r, d') \<Longrightarrow> issue_calls d' \<le> issue_calls d + 2"
    and project_faults: "run_state (gh_project g p n) d = (e, d') \<Longrightarrow> faults d' = faults d"
    and get_faults: "run_state (gh_get g repo k) d = (r, d') \<Longrightarrow> faults d' = faults d"
begin

lemma send_pays:
  assumes ok: "faults d = []" "report_inv d" and row: "r \<in> set (support_reports d)" "rp_status r = support_status_pending" "rp_attempts r < 10"
    and run: "run_state (send env g r) d = (x, d')"
  shows "pays 1 d d'"
proof (cases "fields_of (rp_payload r)")
  case None
  then have "d' = set_report (rp_id r) (\<lambda>q. q\<lparr>rp_attempts := rp_attempts q + 1, rp_last_error := Some (take 300 ''payload: unreadable''),
      rp_updated_at := clock d\<rparr>) d"
    using run ok(1) by (auto simp: send_def mark_failed_def)
  then show ?thesis using row ok by (intro attempt_pays [of d r _ d]) (simp_all add: tries_def)
next
  case (Some f)
  let ?repo = "repo_for (settings env) (rp_kind r)"
  obtain created d1 where c: "run_state (gh_create g ?repo (issue_input_of env r f)) d = (created, d1)" by (rule prod.exhaust)
  note call = calledD [OF create_run [OF c]] create_faults [OF c] create_twice [OF c]
  show ?thesis
  proof (cases created)
    case (Inl e)
    then have "d' = set_report (rp_id r) (\<lambda>q. q\<lparr>rp_attempts := rp_attempts q + 1, rp_last_error := Some (take 300 (error_summary e)),
        rp_updated_at := clock d1\<rparr>) d1"
      using run ok(1) c Some call by (auto simp: send_def Let_def mark_failed_def)
    then show ?thesis using row ok call by (intro attempt_pays [of d r _ d1]) (simp_all add: tries_def)
  next
    case (Inr iss)
    obtain d2 where d2: "snd (run_state (if project_id (settings env) \<noteq> [] \<and> gi_node_id iss \<noteq> []
        then do { _ \<leftarrow> gh_project g (project_id (settings env)) (gi_node_id iss); State_Monad.return () }
        else State_Monad.return ()) d1) = d2" by blast
    then have p: "called no_issue d1 d2" "faults d2 = faults d1"
      using project_run [of "project_id (settings env)" "gi_node_id iss" d1] called_pre [of no_issue]
        project_faults [of "project_id (settings env)" "gi_node_id iss" d1]
      by (auto simp: preorder_rel_def split: prod.splits if_splits)
    have "d' = set_report (rp_id r) (\<lambda>q. q\<lparr>rp_status := support_status_open, rp_repo := Some ?repo,
       rp_issue_number := Some (gi_number iss), rp_issue_url := Some (gi_html_url iss), rp_payload := Cleared, rp_last_error := None,
       rp_attempts := rp_attempts q + 1, rp_updated_at := clock d2, rp_synced_at := Some (clock d2)\<rparr>) d2"
      using run ok(1) c Some Inr call d2 p(2) by (auto simp: send_def Let_def mark_sent_def split: prod.splits)
    then show ?thesis using row ok call calledD(1) [OF p(1)] called_no_issue [OF p(1)] p(2)
      by (intro attempt_pays [of d r _ d2]) (simp_all add: tries_def support_status_defs)
  qed
qed

lemma send_all_pays:
  assumes "faults d = []" "report_inv d" "listed support_status_pending rs d" "list_all (\<lambda>r. rp_attempts r < 10) rs"
    "run_state (send_all env g rs) d = (x, d')"
  shows "pays (length rs) d d'"
  using assms
proof (induction rs arbitrary: d)
  case Nil
  then show ?case by (simp add: pays_refl)
next
  case (Cons r rs)
  obtain y d1 where s: "run_state (send env g r) d = (y, d1)" by (rule prod.exhaust)
  have p: "pays 1 d d1"
    using Cons.prems by (intro send_pays [OF _ _ _ _ _ s]) (auto simp: listed_def)
  have w: "rewritten support_status_pending (rp_id r) d d1" by (rule send_rewritten [OF s])
  have inv: "report_inv d1"
    using rewritten_progress(1) [OF w Cons.prems(2)] listed_in_status [OF Cons.prems(3,2)] by simp
  have "q \<in> set (support_reports d1)" if "q \<in> set (support_reports d)" "rp_id q \<noteq> rp_id r" for q
    using w that unfolding rewritten_def by (force simp: update_rows_def)
  then have l: "listed support_status_pending rs d1" using Cons.prems(3) unfolding listed_def by (auto simp: image_iff subset_iff)
  have "faults d1 = []" "list_all (\<lambda>r. rp_attempts r < 10) rs" "run_state (send_all env g rs) d1 = (x, d')"
    using p Cons.prems s by (simp_all add: pays_def)
  then have "pays (length rs) d1 d'" using Cons.IH inv l by blast
  then show ?case using pays_trans [OF p] by simp
qed

lemma refresh_pays:
  assumes "faults d = []" "report_inv d" "listed support_status_open rs d" "run_state (refresh_all g rs) d = (x, d')"
  shows "pays 0 d d'"
  using assms
proof (induction rs arbitrary: d)
  case Nil
  then show ?case by (simp add: pays_refl)
next
  case (Cons r rs)
  show ?case
  proof (cases "\<exists>repo n. rp_repo r = Some repo \<and> rp_issue_number r = Some n")
    case False
    then have "run_state (refresh_all g rs) d = (x, d')" using Cons.prems(4) by (auto split: option.splits)
    then show ?thesis using Cons.IH [of d] Cons.prems by (simp add: listed_def)
  next
    case True
    then obtain repo n where rn: "rp_repo r = Some repo" "rp_issue_number r = Some n" by blast
    obtain iss d1 where get: "run_state (gh_get g repo n) d = (iss, d1)" by (rule prod.exhaust)
    note c = calledD [OF get_run [OF get]] get_faults [OF get]
    have p1: "pays 0 d d1" using called_pays [OF get_run [OF get] get_faults [OF get]] .
    have inv1: "report_inv d1" "listed support_status_open (r # rs) d1" "faults d1 = []"
      using Cons.prems c by (simp_all add: report_inv_def listed_def)
    show ?thesis
    proof (cases iss)
      case (Inl e)
      then have "run_state (refresh_all g rs) d1 = (x, d')" using Cons.prems(4) rn get by simp
      then have "pays 0 d1 d'" using Cons.IH [of d1] inv1 by (simp add: listed_def)
      then show ?thesis using pays_trans [OF p1] by simp
    next
      case (Inr i)
      let ?f = "\<lambda>q. q\<lparr>rp_status := status_from_issue i, rp_synced_at := Some (clock d1),
        rp_updated_at := if rp_status q = status_from_issue i then rp_updated_at q else clock d1\<rparr>"
      have upd: "run_state (update_report_status (rp_id r) (status_from_issue i)) d1 = (Inr (), set_report (rp_id r) ?f d1)"
        using inv1(3) by (simp add: update_report_status_def)
      let ?d2 = "set_report (rp_id r) ?f d1"
      have row: "r \<in> set (support_reports d1)" "tries (?f r) + 0 \<le> tries r"
        using inv1(2) by (auto simp: listed_def tries_def status_from_issue_def support_status_defs)
      have p2: "pays 0 d1 ?d2"
        using set_report_pays [where f = ?f, OF inv1(1) row] by (simp add: pays_def set_report_def issue_calls_def)
      have w: "rewritten support_status_open (rp_id r) d1 ?d2" by (rule update_status_rewritten [OF upd])
      have inv2: "report_inv ?d2"
        using rewritten_progress(1) [OF w inv1(1)] listed_in_status [OF inv1(2,1)] by simp
      have "q \<in> set (support_reports ?d2)" if "q \<in> set (support_reports d1)" "rp_id q \<noteq> rp_id r" for q
        using that by (force simp: set_report_def update_rows_def)
      then have "listed support_status_open rs ?d2" using inv1(2) unfolding listed_def by (auto simp: image_iff subset_iff)
      moreover have "run_state (refresh_all g rs) ?d2 = (x, d')" "faults ?d2 = []"
        using Cons.prems(4) rn get Inr upd inv1(3) by (simp_all add: set_report_def)
      ultimately have "pays 0 ?d2 d'" using Cons.IH [of ?d2] inv2 by simp
      then show ?thesis using pays_trans [OF p1 pays_trans [OF p2]] by simp
    qed
  qed
qed

end

lemma authed_faults_run: "run_state (authed c m path body) d = (r, d') \<Longrightarrow> faults d' = faults d"
  using authed_faults [of c m path body d] by simp

interpretation paced: paced_github "app_github c" for c
proof
  have authed: "issue_calls (snd (run_state (authed c m path body) d)) \<le> issue_calls d + 1" for m path body d
  proof -
    obtain tok d1 where t: "run_state (installation_token c) d = (tok, d1)" by (rule prod.exhaust)
    have "state_io_rel (called no_issue) (installation_token c)" by (rule installation_token_called) (simp add: no_issue_def)
    then have "issue_calls d1 = issue_calls d" using t called_no_issue by blast
    then show ?thesis using t by (cases tok) (simp_all add: authed_def api_do_def Let_def issue_calls_def)
  qed
  show "issue_calls d' \<le> issue_calls d + 2" if "run_state (gh_create (app_github c) repo inp) d = (r, d')" for repo inp d r d'
  proof -
    obtain r1 d1 where 1: "run_state (authed c ''POST'' (issues_path repo) (IssueCall inp)) d = (r1, d1)" by (rule prod.exhaust)
    have "issue_calls d1 \<le> issue_calls d + 1" using authed [of "''POST''" "issues_path repo" "IssueCall inp" d] 1 by simp
    then show ?thesis using that 1 authed [of "''POST''" "issues_path repo" "IssueCall (inp\<lparr>ii_type := []\<rparr>)" d1]
      by (auto simp: app_github_def create_issue_def split: prod.splits if_splits)
  qed
qed (auto simp: app_github_def create_issue_def add_to_project_def get_issue_def split: prod.splits if_splits dest!: authed_faults_run)

text \<open>The reports that a run of the worker tries to publish.\<close>

definition due_reports :: "db \<Rightarrow> support_report list" where
  "due_reports d = limit_rows 50 (order_asc rp_created_at (filter (\<lambda>r. rp_status r = support_status_pending \<and> rp_attempts r < 10
     \<and> (rp_attempts r = 0 \<or> rp_updated_at r < clock d - backoff (rp_attempts r))) (support_reports d)))"

lemma due_reports_run: "faults d = [] \<Longrightarrow> run_state (list_pending 50) d = (Inr (due_reports d), d)"
  by (simp add: list_pending_def due_reports_def)

lemma due_attempts: "list_all (\<lambda>r. rp_attempts r < 10) (due_reports d)"
  by (auto simp: due_reports_def list_all_iff order_asc_def dest!: set_limit)

context paced_github
begin

lemma worker_pays:
  assumes ok: "faults d = []" "report_inv d"
    and run: "run_state (andThen (list_pending 50) (\<lambda>pending. do {
      send_all env g pending; nw \<leftarrow> now; andThen (list_open_to_sync (nw - refresh_after) 100) (refresh_all g) })) d = (r, d')"
  shows "pays (length (due_reports d)) d d'"
proof -
  note list = due_reports_run [OF ok(1)]
  have l: "listed support_status_pending (due_reports d) d" by (rule list_pending_run [OF list ok(2)])
  obtain y d1 where s: "run_state (send_all env g (due_reports d)) d = (y, d1)" by (rule prod.exhaust)
  have p: "pays (length (due_reports d)) d d1" by (rule send_all_pays [OF ok l due_attempts s])
  have inv: "report_inv d1"
    using send_all_progress [OF s ok(2)] l listed_in_status [OF l ok(2)] by (simp add: listed_def)
  have f: "faults d1 = []" using p ok(1) by (simp add: pays_def)
  obtain os where o: "run_state (list_open_to_sync (clock d1 - refresh_after) 100) d1 = (Inr os, d1)"
    using f by (simp add: list_open_to_sync_def Let_def)
  have "run_state (refresh_all g os) d1 = (r, d')" using run list s o by simp
  then have "pays 0 d1 d'" using refresh_pays f inv list_open_run [OF o inv] by blast
  then show ?thesis using pays_trans [OF p, of 0 d'] by simp
qed

lemma sync_pays:
  assumes ok: "faults d = []" "report_inv d" "gh env = Some g" and run: "run_state (sync_once env) d = (x, d')"
  shows "pays (if sync_lock_held d then 0 else length (due_reports d)) d d'"
proof (cases "sync_lock_held d")
  case True
  then have "d' = d" using run ok by (auto simp: sync_once_def with_sync_lock_def)
  then show ?thesis using True pays_refl by simp
next
  case False
  let ?body = "andThen (list_pending 50) (\<lambda>pending. do {
      send_all env g pending; nw \<leftarrow> now; andThen (list_open_to_sync (nw - refresh_after) 100) (refresh_all g) })"
  obtain r d1 where b: "run_state ?body d = (r, d1)" by (rule prod.exhaust)
  note p = worker_pays [OF ok(1,2) b]
  then have "faults d1 = []" using ok(1) by (simp add: pays_def)
  then have "d' = d1" using run ok False b by (auto simp: sync_once_def with_sync_lock_def)
  then show ?thesis using p False by simp
qed

end

lemma sync_pays_wired:
  assumes "faults d = []" "report_inv d" "wired env" "run_state (sync_once env) d = (x, d')"
  shows "pays 0 d d'" "report_inv d'"
proof -
  show "report_inv d'" using sync_wired assms by (simp add: sound_step_def)
  show "pays 0 d d'"
  proof (cases "gh env")
    case None
    then show ?thesis using assms(4) pays_refl by (simp add: sync_once_def)
  next
    case (Some g)
    then obtain c where "g = app_github c" using assms(3) by (auto simp: wired_def)
    then show ?thesis using paced.sync_pays [of d env c x d'] assms Some by (auto simp: pays_def split: if_splits)
  qed
qed

lemma run_worker_pays:
  assumes "faults d = []" "report_inv d" "wired env" "run_state (run_worker env ts) d = (x, d')"
  shows "pays 0 d d'"
  using assms
proof (induction ts arbitrary: d)
  case Nil
  then show ?case using sync_pays_wired(1) [OF Nil(1-3) surjective_pairing] by simp
next
  case (Cons t ts)
  obtain y d1 where s: "run_state (sync_once env) d = (y, d1)" by (rule prod.exhaust)
  note p = sync_pays_wired [OF Cons.prems(1-3) s]
  let ?d2 = "d1\<lparr>clock := max (clock d1) t\<rparr>"
  have "pays 0 d1 ?d2" by (rule pays_same) simp_all
  moreover have "pays 0 ?d2 d'"
    using Cons.IH [of ?d2] Cons.prems s p by (simp add: tick_def report_inv_def pays_def)
  ultimately show ?case using pays_trans [OF p(1)] pays_trans by fastforce
qed

text \<open>The number of attempts only grows from zero.\<close>

definition attempts_ok :: "db \<Rightarrow> bool" where
  "attempts_ok d \<longleftrightarrow> list_all (\<lambda>r. 0 \<le> rp_attempts r) (support_reports d)"

definition attempts_le :: "db \<Rightarrow> db \<Rightarrow> bool" where
  "attempts_le d d' \<longleftrightarrow> (attempts_ok d \<longrightarrow> attempts_ok d')"

lemma attempts_pre: "preorder_rel attempts_le"
  by (rule preorder_relI) (auto simp: attempts_le_def attempts_ok_def)

lemma io_attempts: "state_io_rel (called P) m \<Longrightarrow> state_io_rel attempts_le m"
  unfolding state_io_rel_def attempts_le_def attempts_ok_def using calledD(1) by metis

lemma attempts_set_report: "(\<And>r. 0 \<le> rp_attempts r \<Longrightarrow> 0 \<le> rp_attempts (f r)) \<Longrightarrow> attempts_le d (set_report i f d)"
  by (auto simp: attempts_le_def attempts_ok_def set_report_def update_rows_def list_all_iff)

lemma store_attempts:
  "state_io_rel attempts_le (mark_failed i msg)" "state_io_rel attempts_le (mark_sent i repo n url)"
  "state_io_rel attempts_le (update_report_status i st)" "state_io_rel attempts_le (count_since u t)"
  "state_io_rel attempts_le (list_pending k)" "state_io_rel attempts_le (list_open_to_sync t k)"
  "state_io_rel attempts_le new_report_ref" "state_io_rel attempts_le (create_report ref u kind title payload)"
proof -
  show "state_io_rel attempts_le new_report_ref" unfolding new_report_ref_def
    by (intro io_intros attempts_pre) (simp add: attempts_le_def attempts_ok_def)
  show "state_io_rel attempts_le (create_report ref u kind title payload)" unfolding create_report_def
    by (intro io_intros attempts_pre) (auto simp: attempts_le_def attempts_ok_def bump_def Let_def)
qed (unfold mark_failed_def mark_sent_def update_report_status_def count_since_def list_pending_def list_open_to_sync_def,
    (intro io_intros attempts_pre attempts_set_report; simp)+)

context github_api
begin

lemma send_attempts: "state_io_rel attempts_le (send env g rep)"
  unfolding send_def Let_def
  by (intro io_intros attempts_pre store_attempts io_attempts [OF create_calls] io_attempts [OF project_calls])

lemma send_all_attempts: "state_io_rel attempts_le (send_all env g rs)"
  by (induction rs) (auto intro!: io_intros attempts_pre send_attempts)

lemma refresh_attempts: "state_io_rel attempts_le (refresh_all g rs)"
proof (induction rs)
  case (Cons r rs)
  show ?case unfolding refresh_all.simps
    by (intro io_intros attempts_pre store_attempts Cons io_attempts [OF get_calls])
qed (simp add: attempts_pre io_return)

end

lemma service_attempts:
  assumes "wired env"
  shows "state_io_rel attempts_le (submit env u inp)" "state_io_rel attempts_le (sync_once env)"
proof -
  have g: "gh env = Some g \<Longrightarrow> github_api g" for g using wired_api [OF assms] .
  have send: "gh env = Some g \<Longrightarrow> state_io_rel attempts_le (send env g rep)"
    "gh env = Some g \<Longrightarrow> state_io_rel attempts_le (send_all env g rs)" "gh env = Some g \<Longrightarrow> state_io_rel attempts_le (refresh_all g rs)" for g rep rs
    using g github_api.send_attempts github_api.send_all_attempts github_api.refresh_attempts by blast+
  show "state_io_rel attempts_le (submit env u inp)" unfolding submit_def
    by (intro io_intros attempts_pre store_attempts send; assumption)
  show "state_io_rel attempts_le (sync_once env)" unfolding sync_once_def with_sync_lock_def
    by (intro io_intros attempts_pre store_attempts send; (assumption | simp add: attempts_le_def))
qed

interpretation counted: transition_system "\<lambda>d. support_reports d = []" support_step attempts_ok
proof
  show "attempts_ok s" if "support_reports s = []" for s using that by (simp add: attempts_ok_def)
  show "attempts_ok t" if "attempts_ok s" "support_step s t" for s t
    using that(2)
  proof cases
    case (submitted env u inp r)
    then have "attempts_le s t" using service_attempts(1) by blast
    then show ?thesis using that(1) by (simp add: attempts_le_def)
  next
    case (synced env x)
    then have "attempts_le s t" using service_attempts(2) by blast
    then show ?thesis using that(1) by (simp add: attempts_le_def)
  next
    case elsewhere
    then show ?thesis using that(1) by (simp add: attempts_ok_def)
  qed
qed

lemma tries_left_bound: "attempts_ok d \<Longrightarrow> tries_left d \<le> 10 * length (filter (\<lambda>r. rp_status r = support_status_pending) (support_reports d))"
proof -
  have "sum_list (map tries rs) \<le> 10 * length (filter (\<lambda>r. rp_status r = support_status_pending) rs)"
    if "list_all (\<lambda>r. 0 \<le> rp_attempts r) rs" for rs
    using that by (induction rs) (auto simp: tries_def)
  then show "attempts_ok d \<Longrightarrow> ?thesis" by (simp add: attempts_ok_def tries_left_def)
qed

section \<open>Properties\<close>



end
