(* ===== verification/Wire.thy ===== *)
theory Wire
  imports LegacyIot
begin

text \<open>
  The bytes a cabinet receives. \<open>MarshalJSON\<close> of internal/domain/legacy_actions.go writes the fields of an answer in a fixed
  order, and encoding/json writes the strings, numbers and lists in it. A reader of the same grammar, in the style a firmware
  reads, is the reference: what it reads back is what was written. A nil slice and a nil pointer are \<open>null\<close> on the wire, so
  slices and pointers are options here.
\<close>

section \<open>Strings and numbers of encoding/json\<close>

text \<open>\<open>htmlSafeSet\<close> and the escapes of one ASCII byte (\<open>appendString\<close> with HTML escaping on).\<close>

definition html_safe :: "char \<Rightarrow> bool" where
  "html_safe c \<longleftrightarrow> 32 \<le> byte c \<and> byte c < 128 \<and> c \<notin> {CHR 0x22, CHR 0x5C, CHR ''<'', CHR ''>'', CHR ''&''}"

definition lower_hex :: "nat \<Rightarrow> char" where
  "lower_hex n = (if n < 10 then char_of (48 + n) else char_of (87 + n))"

definition json_escape_byte :: "char \<Rightarrow> string" where
  "json_escape_byte c =
     (if html_safe c then [c]
      else if c = CHR 0x22 \<or> c = CHR 0x5C then [CHR 0x5C, c]
      else if byte c = 8 then [CHR 0x5C, CHR ''b'']
      else if byte c = 12 then [CHR 0x5C, CHR ''f'']
      else if byte c = 10 then [CHR 0x5C, CHR ''n'']
      else if byte c = 13 then [CHR 0x5C, CHR ''r'']
      else if byte c = 9 then [CHR 0x5C, CHR ''t'']
      else CHR 0x5C # ''u00'' @ [lower_hex (byte c div 16), lower_hex (byte c mod 16)])"

definition escape_rune :: "string \<Rightarrow> string" where
  "escape_rune s = (case decode_rune s of (r, n) \<Rightarrow>
     if n = 1 \<and> r < 128 then json_escape_byte (hd s)
     else if n = 1 then CHR 0x5C # ''ufffd''
     else if r = 8232 \<or> r = 8233 then CHR 0x5C # ''u202'' @ [lower_hex (r mod 16)]
     else take n s)"

function quote_body :: "string \<Rightarrow> string" where
  "quote_body s = (if s = [] then [] else escape_rune s @ quote_body (drop (width s) s))"
  by pat_completeness auto
termination
  by (relation "measure length") (use width_pos in \<open>auto simp: diff_less\<close>)

declare quote_body.simps [simp del]

definition quote :: "string \<Rightarrow> string" where
  "quote s = CHR 0x22 # quote_body s @ [CHR 0x22]"

text \<open>A slice of values.\<close>

definition marshal_list :: "('a \<Rightarrow> string) \<Rightarrow> 'a list \<Rightarrow> string" where
  "marshal_list enc xs = CHR ''['' # join '','' (map enc xs) @ '']''"

definition marshal_slice :: "('a \<Rightarrow> string) \<Rightarrow> 'a list option \<Rightarrow> string" where
  "marshal_slice enc xs = (case xs of None \<Rightarrow> ''null'' | Some ys \<Rightarrow> marshal_list enc ys)"

section \<open>The answers of the legacy protocol\<close>

record legacy_action =
  la_guid :: string
  la_params :: "exchange_kv list option"

record legacy_alarm_command =
  al_guid :: string
  al_obl :: string

record legacy_actions_response =
  lr_de67f :: "legacy_alarm_command option"
  lr_actions :: "legacy_action list option"

record server_infos_response =
  si_is_connected :: bool
  si_infos :: "int list option"
  si_new_version :: string

text \<open>The key of a field, with its colon; the struct tags name the keys.\<close>

definition field :: "string \<Rightarrow> string" where
  "field name = CHR 0x22 # name @ [CHR 0x22, CHR '':'']"

definition marshal_kv :: "exchange_kv \<Rightarrow> string" where
  "marshal_kv p = ''{'' @ field ''k'' @ itoa (k_of p) @ '','' @ field ''v'' @ quote (v_of p) @ ''}''"

definition marshal_action :: "legacy_action \<Rightarrow> string" where
  "marshal_action a =
     ''{'' @ field ''guid'' @ quote (la_guid a) @ '','' @ field ''params'' @ marshal_slice marshal_kv (la_params a) @ ''}''"

definition marshal_alarm :: "legacy_alarm_command \<Rightarrow> string" where
  "marshal_alarm a = ''{'' @ field ''guid'' @ quote (al_guid a) @ '','' @ field ''obl'' @ quote (al_obl a) @ ''}''"

definition marshal_json :: "legacy_actions_response \<Rightarrow> string" where
  "marshal_json ar = ''{'' @ field ''_de67f'' @ (case lr_de67f ar of None \<Rightarrow> ''null'' | Some a \<Rightarrow> marshal_alarm a)
     @ '','' @ field ''actions'' @ marshal_slice marshal_action (lr_actions ar) @ ''}''"

definition marshal_infos :: "server_infos_response \<Rightarrow> string" where
  "marshal_infos r = ''{'' @ field ''isconnected'' @ (if si_is_connected r then ''true'' else ''false'')
     @ '','' @ field ''infos'' @ marshal_slice itoa (si_infos r)
     @ '','' @ field ''newversion'' @ quote (si_new_version r) @ ''}''"

text \<open>
  The body of each answer: \<open>json.Encoder\<close> ends a value with a line feed, \<open>Done\<close> writes its two bytes itself. The handlers build
  a response with no alarm command, and their slices are never nil.
\<close>

definition actions_response :: "(string \<times> exchange_kv list) list \<Rightarrow> legacy_actions_response" where
  "actions_response as = \<lparr>lr_de67f = None,
     lr_actions = Some (map (\<lambda>(guid, params). \<lparr>la_guid = guid, la_params = Some params\<rparr>) as)\<rparr>"

definition infos_response :: "int list \<Rightarrow> server_infos_response" where
  "infos_response indices = \<lparr>si_is_connected = True, si_infos = Some indices, si_new_version = ''no''\<rparr>"

fun body_of :: "legacy_json \<Rightarrow> string" where
  "body_of (ServerInfosJson indices) = marshal_infos (infos_response indices) @ [CHR 0x0A]"
| "body_of (LegacyActionsJson as) = marshal_json (actions_response as) @ [CHR 0x0A]"
| "body_of EmptyObject = ''{}''"
| "body_of NoBody = []"

section \<open>The reference reader\<close>

definition expect :: "string \<Rightarrow> string \<Rightarrow> string option" where
  "expect p s = (if prefix p s then Some (drop (length p) s) else None)"

definition unhex :: "char \<Rightarrow> nat option" where
  "unhex c =
     (if 48 \<le> byte c \<and> byte c \<le> 57 then Some (byte c - 48)
      else if 97 \<le> byte c \<and> byte c \<le> 102 then Some (byte c - 87) else None)"

definition utf8 :: "nat \<Rightarrow> string" where
  "utf8 r =
     (if r < 128 then [char_of r]
      else if r < 2048 then [char_of (192 + r div 64), char_of (128 + r mod 64)]
      else [char_of (224 + r div 4096), char_of (128 + r div 64 mod 64), char_of (128 + r mod 64)])"

definition unescape_char :: "char \<Rightarrow> string option" where
  "unescape_char e =
     (if e \<in> {CHR 0x22, CHR 0x5C, CHR ''/''} then Some [e]
      else if e = CHR ''b'' then Some [CHR 0x08] else if e = CHR ''f'' then Some [CHR 0x0C]
      else if e = CHR ''n'' then Some [CHR 0x0A] else if e = CHR ''r'' then Some [CHR 0x0D]
      else if e = CHR ''t'' then Some [CHR 0x09] else None)"

definition unescape_hex :: "char \<Rightarrow> char \<Rightarrow> char \<Rightarrow> char \<Rightarrow> string option" where
  "unescape_hex a b c e = do {
     w \<leftarrow> unhex a; x \<leftarrow> unhex b; y \<leftarrow> unhex c; z \<leftarrow> unhex e;
     Some (utf8 (((w * 16 + x) * 16 + y) * 16 + z)) }"

definition prepend :: "'a list option \<Rightarrow> ('a list \<times> string) option \<Rightarrow> ('a list \<times> string) option" where
  "prepend p q = (case (p, q) of (Some xs, Some (ys, s)) \<Rightarrow> Some (xs @ ys, s) | _ \<Rightarrow> None)"

fun unescape :: "string \<Rightarrow> (string \<times> string) option" where
  "unescape [] = None"
| "unescape (c # s) =
     (if c = CHR 0x22 then Some ([], s)
      else if byte c < 32 then None
      else if c = CHR 0x5C then (case s of
          [] \<Rightarrow> None
        | e # t \<Rightarrow>
            if e = CHR ''u'' then (case t of
                x1 # x2 # x3 # x4 # u \<Rightarrow> prepend (unescape_hex x1 x2 x3 x4) (unescape u)
              | _ \<Rightarrow> None)
            else prepend (unescape_char e) (unescape t))
      else prepend (Some [c]) (unescape s))"

definition read_string :: "string \<Rightarrow> (string \<times> string) option" where
  "read_string s = do { t \<leftarrow> expect [CHR 0x22] s; unescape t }"

definition read_int :: "string \<Rightarrow> (int \<times> string) option" where
  "read_int s = (let t = (if prefix ''-'' s then tl s else s); n = takeWhile digit t in do {
     v \<leftarrow> atoi (if prefix ''-'' s then CHR ''-'' # n else n);
     Some (v, dropWhile digit t) })"

fun read_items :: "(string \<Rightarrow> ('a \<times> string) option) \<Rightarrow> nat \<Rightarrow> string \<Rightarrow> ('a list \<times> string) option" where
  "read_items dec 0 s = None"
| "read_items dec (Suc n) s = (case dec s of
       None \<Rightarrow> None
     | Some (x, t) \<Rightarrow>
         if prefix '','' t then prepend (Some [x]) (read_items dec n (tl t))
         else if prefix '']'' t then Some ([x], tl t) else None)"

definition read_list :: "(string \<Rightarrow> ('a \<times> string) option) \<Rightarrow> string \<Rightarrow> ('a list \<times> string) option" where
  "read_list dec s =
     (if prefix ''[]'' s then Some ([], drop 2 s)
      else do { t \<leftarrow> expect ''['' s; read_items dec (length s) t })"

definition read_slice :: "(string \<Rightarrow> ('a \<times> string) option) \<Rightarrow> string \<Rightarrow> ('a list option \<times> string) option" where
  "read_slice dec s =
     (if prefix ''null'' s then Some (None, drop 4 s)
      else do { (xs, t) \<leftarrow> read_list dec s; Some (Some xs, t) })"

definition read_kv :: "string \<Rightarrow> (exchange_kv \<times> string) option" where
  "read_kv s = do {
     s \<leftarrow> expect (''{'' @ field ''k'') s; (k, s) \<leftarrow> read_int s;
     s \<leftarrow> expect ('','' @ field ''v'') s; (v, s) \<leftarrow> read_string s;
     s \<leftarrow> expect ''}'' s; Some (kv k v, s) }"

definition read_action :: "string \<Rightarrow> (legacy_action \<times> string) option" where
  "read_action s = do {
     s \<leftarrow> expect (''{'' @ field ''guid'') s; (guid, s) \<leftarrow> read_string s;
     s \<leftarrow> expect ('','' @ field ''params'') s; (ps, s) \<leftarrow> read_slice read_kv s;
     s \<leftarrow> expect ''}'' s; Some (\<lparr>la_guid = guid, la_params = ps\<rparr>, s) }"

definition read_alarm :: "string \<Rightarrow> (legacy_alarm_command \<times> string) option" where
  "read_alarm s = do {
     s \<leftarrow> expect (''{'' @ field ''guid'') s; (guid, s) \<leftarrow> read_string s;
     s \<leftarrow> expect ('','' @ field ''obl'') s; (obl, s) \<leftarrow> read_string s;
     s \<leftarrow> expect ''}'' s; Some (\<lparr>al_guid = guid, al_obl = obl\<rparr>, s) }"

definition read_response :: "string \<Rightarrow> (legacy_actions_response \<times> string) option" where
  "read_response s = do {
     s \<leftarrow> expect (''{'' @ field ''_de67f'') s;
     (alarm, s) \<leftarrow> (if prefix ''null'' s then Some (None, drop 4 s)
       else do { (a, s) \<leftarrow> read_alarm s; Some (Some a, s) });
     s \<leftarrow> expect ('','' @ field ''actions'') s; (as, s) \<leftarrow> read_slice read_action s;
     s \<leftarrow> expect ''}'' s; Some (\<lparr>lr_de67f = alarm, lr_actions = as\<rparr>, s) }"

definition read_infos :: "string \<Rightarrow> (server_infos_response \<times> string) option" where
  "read_infos s = do {
     s \<leftarrow> expect (''{'' @ field ''isconnected'') s;
     (b, s) \<leftarrow> (if prefix ''true'' s then Some (True, drop 4 s) else do { s \<leftarrow> expect ''false'' s; Some (False, s) });
     s \<leftarrow> expect ('','' @ field ''infos'') s; (is, s) \<leftarrow> read_slice read_int s;
     s \<leftarrow> expect ('','' @ field ''newversion'') s; (v, s) \<leftarrow> read_string s;
     s \<leftarrow> expect ''}'' s; Some (\<lparr>si_is_connected = b, si_infos = is, si_new_version = v\<rparr>, s) }"

section \<open>Library: strings come back\<close>

lemma expect_append [simp]: "expect p (p @ s) = Some s"
  by (simp add: expect_def)

lemma prepend_Some [simp]: "prepend (Some xs) (Some (ys, s)) = Some (xs @ ys, s)"
  by (simp add: prepend_def)

lemma unhex_lower_hex [simp]: "n < 16 \<Longrightarrow> unhex (lower_hex n) = Some n"
  by (simp add: unhex_def lower_hex_def)

lemma unescape_high:
  assumes "list_all (\<lambda>c. 128 \<le> byte c) p" "unescape t = Some (u, rest)"
  shows "unescape (p @ t) = Some (p @ u, rest)"
  using assms(1)
proof (induction p)
  case (Cons c p)
  moreover have "c \<noteq> CHR 0x22" "c \<noteq> CHR 0x5C" using Cons.prems by (auto simp: byte_def)
  ultimately show ?case by simp
qed (simp add: assms(2))

lemma unescape_byte:
  assumes "byte c < 128" "unescape t = Some (u, rest)"
  shows "unescape (json_escape_byte c @ t) = Some (c # u, rest)"
proof -
  have code: "char_of (byte c) = c" by (simp add: byte_def)
  consider (safe) "html_safe c" | (named) "\<not> html_safe c" "c \<in> {CHR 0x22, CHR 0x5C}" | (esc) "byte c \<in> {8, 9, 10, 12, 13}"
    | (hex) "\<not> html_safe c" "c \<notin> {CHR 0x22, CHR 0x5C}" "byte c \<notin> {8, 9, 10, 12, 13}" by blast
  then show ?thesis
  proof cases
    case safe
    then show ?thesis using assms(2) by (auto simp: json_escape_byte_def html_safe_def)
  next
    case named
    then show ?thesis using assms(2) by (auto simp: json_escape_byte_def unescape_char_def byte_def)
  next
    case esc
    then have "byte c \<in> byte ` {CHR 0x08, CHR 0x09, CHR 0x0A, CHR 0x0C, CHR 0x0D}" by (auto simp: byte_def)
    then have "c \<in> {CHR 0x08, CHR 0x09, CHR 0x0A, CHR 0x0C, CHR 0x0D}" by (auto simp: image_iff)
    then show ?thesis using assms(2)
      by (elim insertE emptyE) (simp_all add: json_escape_byte_def html_safe_def unescape_char_def byte_def)
  next
    case hex
    have d: "byte c div 16 < 16" "byte c mod 16 < 16" "byte c div 16 * 16 + byte c mod 16 = byte c" using assms(1) by auto
    then have "unescape_hex (CHR ''0'') (CHR ''0'') (lower_hex (byte c div 16)) (lower_hex (byte c mod 16)) = Some [c]"
      using assms(1) code by (simp add: unescape_hex_def utf8_def) (simp add: unhex_def byte_def)
    moreover have "json_escape_byte c = CHR 0x5C # ''u00'' @ [lower_hex (byte c div 16), lower_hex (byte c mod 16)]"
      using hex by (auto simp: json_escape_byte_def)
    ultimately show ?thesis using assms(2) by (simp add: byte_def)
  qed
qed

text \<open>A rune of more than one byte: its bytes are beyond ASCII, and only one sequence gives each separator.\<close>

lemma separator_bytes:
  fixes a b c :: nat
  assumes "224 \<le> a" "128 \<le> b" "b \<le> 191" "128 \<le> c" "c \<le> 191" "(a - 224) * 4096 + (b - 128) * 64 + (c - 128) = r" "r = 8232 \<or> r = 8233"
  shows "a = 226 \<and> b = 128 \<and> c = r - 8064"
proof -
  obtain x y z where "a = 224 + x" "b = 128 + y" "c = 128 + z" using assms(1,2,4) le_Suc_ex by metis
  moreover from this have "x = 2" using assms by auto
  moreover from calculation have "y = 0" using assms by auto
  ultimately show ?thesis using assms by auto
qed

lemma wide_rune_bytes:
  assumes "decode_rune s = (r, n)" "1 < n"
  shows "list_all (\<lambda>c. 128 \<le> byte c) (take n s)"
  using assms by (cases s) (auto simp: Let_def cont_byte_def in_range_def split: list.splits if_splits)

lemma wide_separator:
  assumes "decode_rune s = (r, n)" "1 < n" "r = 8232 \<or> r = 8233"
  shows "take n s = utf8 r"
proof -
  have code: "byte c = k \<Longrightarrow> c = char_of k" for c k by (auto simp: byte_def)
  obtain a t where s: "s = a # t" using assms by (cases s) auto
  then have "\<exists>b e u. t = b # e # u \<and> n = 3 \<and> 224 \<le> byte a \<and> in_range 128 191 b \<and> in_range 128 191 e
      \<and> (byte a - 224) * 4096 + (byte b - 128) * 64 + (byte e - 128) = r"
    using assms by (auto simp: Let_def cont_byte_def in_range_def split: list.splits if_splits)
  then obtain b e u where "t = b # e # u" "n = 3" "byte a = 226" "byte b = 128" "byte e = r - 8064"
    using separator_bytes assms(3) unfolding in_range_def by metis
  then show ?thesis using assms(3) s by (auto simp: utf8_def dest!: code)
qed

lemma ascii_rune: "decode_rune (c # s) = (r, 1) \<Longrightarrow> r < 128 \<Longrightarrow> byte c < 128"
  by (simp add: Let_def rune_error_def split: list.splits if_splits)

lemma unescape_rune:
  assumes "s \<noteq> []" "width s = 1 \<longrightarrow> fst (decode_rune s) < 128" "unescape t = Some (u, rest)"
  shows "unescape (escape_rune s @ t) = Some (take (width s) s @ u, rest)"
proof -
  obtain r n where rn: "decode_rune s = (r, n)" by (cases "decode_rune s")
  then have w: "width s = n" by (simp add: width_def)
  consider "n = 1" | "1 < n" using width_pos [OF assms(1)] w by linarith
  then show ?thesis
  proof cases
    case 1
    then have r: "decode_rune s = (r, 1)" "r < 128" using assms(2) rn w by simp_all
    obtain c s' where s: "s = c # s'" using assms(1) by (cases s) blast+
    then have "byte c < 128" using ascii_rune r by blast
    moreover have "escape_rune s = json_escape_byte c" unfolding escape_rune_def r(1) using r(2) s by simp
    ultimately show ?thesis using 1 assms(3) w s by (simp add: unescape_byte)
  next
    case 2
    show ?thesis
    proof (cases "r = 8232 \<or> r = 8233")
      case True
      then have "unescape_hex (CHR ''2'') (CHR ''0'') (CHR ''2'') (lower_hex (r mod 16)) = Some (utf8 r)"
        by (auto simp: unescape_hex_def) (auto simp: unhex_def byte_def)
      then show ?thesis using True 2 assms(3) rn w wide_separator [OF rn 2 True]
        by (auto simp: escape_rune_def byte_def)
    next
      case False
      then show ?thesis using 2 rn w unescape_high [OF wide_rune_bytes [OF rn 2] assms(3)] by (simp add: escape_rune_def)
    qed
  qed
qed

lemma valid_string_step:
  "s \<noteq> [] \<Longrightarrow> valid_string s \<longleftrightarrow> (width s = 1 \<longrightarrow> fst (decode_rune s) < 128) \<and> valid_string (drop (width s) s)"
  by (cases "decode_rune s") (auto simp: valid_string_def runes_nonempty width_def)

lemma unescape_quote_body:
  "valid_string s \<Longrightarrow> unescape (quote_body s @ CHR 0x22 # rest) = Some (s, rest)"
proof (induction s rule: quote_body.induct)
  case (1 s)
  show ?case
  proof (cases "s = []")
    case False
    then have v: "width s = 1 \<longrightarrow> fst (decode_rune s) < 128" "valid_string (drop (width s) s)"
      using "1.prems" valid_string_step by blast+
    have "quote_body s = escape_rune s @ quote_body (drop (width s) s)" using False by (subst quote_body.simps) simp
    then show ?thesis using unescape_rune [OF False v(1) "1.IH" [OF False v(2)]] by simp
  qed (simp add: quote_body.simps)
qed

lemma read_string_quote: "valid_string s \<Longrightarrow> read_string (quote s @ rest) = Some (s, rest)"
  by (simp add: read_string_def quote_def expect_def unescape_quote_body)

section \<open>Library: codecs\<close>

text \<open>
  A writer and a reader that agree on the values \<open>ok\<close>, whatever follows on the wire but a digit (which would be read into a
  number). No value starts like the end of a list.
\<close>

definition stops :: "string \<Rightarrow> bool" where
  "stops s \<longleftrightarrow> (case s of [] \<Rightarrow> True | c # _ \<Rightarrow> \<not> digit c)"

lemma stops_simps [simp]: "stops []" "stops (c # s) \<longleftrightarrow> \<not> digit c"
  by (simp_all add: stops_def)

lemma digit_literals [simp]: "\<not> digit (CHR '','')" "\<not> digit (CHR '']'')" "\<not> digit (CHR ''}'')" "\<not> digit (CHR 0x0A)"
  by (simp_all add: digit_def byte_def)

definition begins_value :: "string \<Rightarrow> bool" where
  "begins_value s \<longleftrightarrow> (case s of [] \<Rightarrow> False | c # _ \<Rightarrow> c \<noteq> CHR '']'')"

definition ok_slice :: "('a \<Rightarrow> bool) \<Rightarrow> 'a list option \<Rightarrow> bool" where
  "ok_slice ok xs \<longleftrightarrow> (case xs of None \<Rightarrow> True | Some ys \<Rightarrow> list_all ok ys)"

lemma items_long: "length ps \<le> Suc (length (join '','' ps))"
  by (induction "'',''" ps rule: join.induct) auto

locale codec =
  fixes enc :: "'a \<Rightarrow> string" and dec :: "string \<Rightarrow> ('a \<times> string) option" and ok :: "'a \<Rightarrow> bool"
  assumes reads: "ok x \<Longrightarrow> stops rest \<Longrightarrow> dec (enc x @ rest) = Some (x, rest)"
    and begins: "ok x \<Longrightarrow> begins_value (enc x)"
begin

lemma items_read:
  assumes "xs \<noteq> []" "list_all ok xs" "length xs \<le> n"
  shows "read_items dec n (join '','' (map enc xs) @ CHR '']'' # rest) = Some (xs, rest)"
  using assms
proof (induction xs arbitrary: n rule: list_nonempty_induct)
  case (single x)
  then obtain m where "n = Suc m" by (cases n) auto
  then show ?case using single reads [of x "CHR '']'' # rest"] by simp
next
  case (cons x xs)
  then obtain m where n: "n = Suc m" "length xs \<le> m" by (cases n) auto
  obtain y ys where xs: "xs = y # ys" using cons(1) by (cases xs) auto
  have "join '','' (map enc (x # xs)) @ CHR '']'' # rest = enc x @ CHR '','' # (join '','' (map enc xs) @ CHR '']'' # rest)"
    by (simp add: xs)
  moreover have "read_items dec m (join '','' (map enc xs) @ CHR '']'' # rest) = Some (xs, rest)"
    using cons n by simp
  ultimately show ?case using cons.prems n reads [of x] by simp
qed

lemma list_begins:
  assumes "xs \<noteq> []" "list_all ok xs"
  shows "begins_value (join '','' (map enc xs) @ rest)"
proof -
  obtain x ys where xs: "xs = x # ys" using assms by (cases xs) auto
  then show ?thesis using assms begins [of x] by (cases ys; cases "enc x") (auto simp: begins_value_def)
qed

lemma list_read:
  assumes "list_all ok xs"
  shows "read_list dec (marshal_list enc xs @ rest) = Some (xs, rest)"
proof (cases "xs = []")
  case False
  let ?body = "join '','' (map enc xs) @ CHR '']'' # rest"
  have "\<not> prefix ''[]'' (CHR ''['' # ?body)"
    using list_begins [OF False assms, of "CHR '']'' # rest"] by (cases ?body) (auto simp: begins_value_def)
  moreover have "read_items dec (length (CHR ''['' # ?body)) ?body = Some (xs, rest)"
    using items_read [OF False assms, of "length (CHR ''['' # ?body)"] items_long [of "map enc xs"] by simp
  ultimately show ?thesis by (simp add: read_list_def marshal_list_def expect_def)
qed (simp add: read_list_def marshal_list_def)

lemma slice_read:
  assumes "ok_slice ok xs"
  shows "read_slice dec (marshal_slice enc xs @ rest) = Some (xs, rest)"
proof (cases xs)
  case (Some ys)
  then have "read_list dec (marshal_list enc ys @ rest) = Some (ys, rest)" using assms list_read by (simp add: ok_slice_def)
  then show ?thesis using Some by (simp add: read_slice_def marshal_slice_def marshal_list_def)
qed (simp add: read_slice_def marshal_slice_def)

end

section \<open>Library: the answers come back\<close>

lemma begins_brace [simp]: "begins_value (''{'' @ s)" "begins_value (CHR ''{'' # s)"
  by (simp_all add: begins_value_def)

interpretation strings: codec quote read_string valid_string
  by unfold_locales (simp add: read_string_quote, simp add: quote_def begins_value_def)

lemma read_int_itoa:
  assumes "in_int64 n" "stops rest"
  shows "read_int (itoa n @ rest) = Some (n, rest)"
proof -
  have d: "takeWhile digit (digits m @ rest) = digits m" "dropWhile digit (digits m @ rest) = rest" for m
    using digits_digit [of m] assms(2) by (auto simp: list_all_iff stops_def takeWhile_append dropWhile_append split: list.splits)
  show ?thesis
  proof (cases "n < 0")
    case True
    then show ?thesis using atoi_itoa [OF assms(1)] d by (simp add: read_int_def itoa_def)
  next
    case False
    have "\<not> prefix ''-'' (digits (nat n) @ rest)"
      using digits_digit [of "nat n"] digit_not_sign by (cases "digits (nat n)") (auto simp: digits_nonempty)
    then show ?thesis using False atoi_itoa [OF assms(1)] d by (simp add: read_int_def itoa_def)
  qed
qed

lemma itoa_begins: "begins_value (itoa n)"
proof (cases "digits (nat n)")
  case (Cons c s)
  then have "digit c" using digits_digit [of "nat n"] by simp
  then show ?thesis using Cons by (auto simp: begins_value_def itoa_def)
qed simp

interpretation ints: codec itoa read_int in_int64
  by unfold_locales (simp_all add: read_int_itoa itoa_begins)

definition ok_kv :: "exchange_kv \<Rightarrow> bool" where
  "ok_kv p \<longleftrightarrow> in_int64 (k_of p) \<and> valid_string (v_of p)"

definition ok_action :: "legacy_action \<Rightarrow> bool" where
  "ok_action a \<longleftrightarrow> valid_string (la_guid a) \<and> ok_slice ok_kv (la_params a)"

definition ok_alarm :: "legacy_alarm_command \<Rightarrow> bool" where
  "ok_alarm a \<longleftrightarrow> valid_string (al_guid a) \<and> valid_string (al_obl a)"

definition ok_response :: "legacy_actions_response \<Rightarrow> bool" where
  "ok_response ar \<longleftrightarrow> (case lr_de67f ar of None \<Rightarrow> True | Some a \<Rightarrow> ok_alarm a) \<and> ok_slice ok_action (lr_actions ar)"

definition ok_infos :: "server_infos_response \<Rightarrow> bool" where
  "ok_infos r \<longleftrightarrow> ok_slice in_int64 (si_infos r) \<and> valid_string (si_new_version r)"

lemma expect_field [simp]: "expect (CHR ''{'' # field n) (CHR ''{'' # field n @ s) = Some s"
  "expect (CHR '','' # field n) (CHR '','' # field n @ s) = Some s" "expect [c] (c # s) = Some s"
  by (simp_all add: expect_def)

interpretation kvs: codec marshal_kv read_kv ok_kv
proof
  show "ok_kv p \<Longrightarrow> stops rest \<Longrightarrow> read_kv (marshal_kv p @ rest) = Some (p, rest)" for p rest
    using ints.reads strings.reads by (simp add: ok_kv_def read_kv_def marshal_kv_def)
qed (simp add: marshal_kv_def)

interpretation actions: codec marshal_action read_action ok_action
proof
  show "ok_action a \<Longrightarrow> stops rest \<Longrightarrow> read_action (marshal_action a @ rest) = Some (a, rest)" for a rest
    using kvs.slice_read strings.reads by (simp add: ok_action_def read_action_def marshal_action_def)
qed (simp add: marshal_action_def)

interpretation alarms: codec marshal_alarm read_alarm ok_alarm
proof
  show "ok_alarm a \<Longrightarrow> stops rest \<Longrightarrow> read_alarm (marshal_alarm a @ rest) = Some (a, rest)" for a rest
    using strings.reads by (simp add: ok_alarm_def read_alarm_def marshal_alarm_def)
qed (simp add: marshal_alarm_def)

interpretation responses: codec marshal_json read_response ok_response
proof
  fix ar :: legacy_actions_response and rest :: string
  assume ok: "ok_response ar" "stops rest"
  show "read_response (marshal_json ar @ rest) = Some (ar, rest)"
  proof (cases "lr_de67f ar")
    case None
    then show ?thesis using ok actions.slice_read by (simp add: ok_response_def read_response_def marshal_json_def)
  next
    case (Some a)
    moreover have "\<not> prefix ''null'' (marshal_alarm a @ t)" for t by (simp add: marshal_alarm_def)
    ultimately show ?thesis using ok actions.slice_read alarms.reads
      by (simp add: ok_response_def read_response_def marshal_json_def)
  qed
qed (simp add: marshal_json_def)

interpretation infos: codec marshal_infos read_infos ok_infos
proof
  show "ok_infos r \<Longrightarrow> stops rest \<Longrightarrow> read_infos (marshal_infos r @ rest) = Some (r, rest)" for r rest
    using ints.slice_read strings.reads by (cases "si_is_connected r") (simp_all add: ok_infos_def read_infos_def marshal_infos_def expect_def)
qed (simp add: marshal_infos_def)

section \<open>Library: one clean line\<close>

definition clean :: "string \<Rightarrow> bool" where
  "clean s \<longleftrightarrow> list_all (\<lambda>c. 32 \<le> byte c \<and> c \<notin> {CHR ''<'', CHR ''>'', CHR ''&''}) s"

lemma clean_Nil [simp]: "clean []"
  by (simp add: clean_def)

lemma clean_append [simp]: "clean (s @ t) \<longleftrightarrow> clean s \<and> clean t"
  by (simp add: clean_def)

lemma clean_Cons: "clean (c # s) \<longleftrightarrow> clean [c] \<and> clean s"
  by (simp add: clean_def)

lemma clean_literals [simp]:
  "clean ''{''" "clean ''}''" "clean '']''" "clean '',''" "clean ''null''" "clean ''true''" "clean ''false''"
  "clean [CHR 0x22]" "clean [CHR 0x22, CHR '':'']" "clean ''_de67f''" "clean ''actions''" "clean ''guid''" "clean ''params''" "clean ''obl''"
  "clean ''k''" "clean ''v''" "clean ''isconnected''" "clean ''infos''" "clean ''newversion''" "clean ''no''" "clean [CHR 0x5C]"
  "clean ''ufffd''" "clean ''u202''" "clean ''u00''" "clean ''-''" "clean [CHR ''['']"
  by (simp_all add: clean_def byte_def)

lemma clean_byte: "clean [c] \<longleftrightarrow> 32 \<le> byte c \<and> byte c \<notin> {38, 60, 62}"
proof -
  have "byte c = byte e \<longleftrightarrow> c = e" for e by simp
  from this [of "CHR ''&''"] this [of "CHR ''<''"] this [of "CHR ''>''"] show ?thesis by (auto simp: clean_def byte_def)
qed

lemma clean_bytes: "clean s \<longleftrightarrow> list_all (\<lambda>c. 32 \<le> byte c \<and> byte c \<notin> {38, 60, 62}) s"
  by (induction s) (simp, subst clean_Cons, simp add: clean_byte)

lemma clean_hex [simp]: "n < 16 \<Longrightarrow> clean [lower_hex n]"
  by (auto simp: clean_byte lower_hex_def)

lemma clean_high: "list_all (\<lambda>c. 128 \<le> byte c) s \<Longrightarrow> clean s"
  by (fastforce simp: clean_bytes list_all_iff)

lemma clean_escape_byte: "byte c < 128 \<Longrightarrow> clean (json_escape_byte c)"
proof -
  assume c: "byte c < 128"
  have cons: "clean (CHR 0x5C # s) \<longleftrightarrow> clean s" for s by (subst clean_Cons) simp
  have "clean ''b''" "clean ''f''" "clean ''n''" "clean ''r''" "clean ''t''" by (simp_all add: clean_def byte_def)
  moreover have "clean (''u00'' @ [lower_hex (byte c div 16)] @ [lower_hex (byte c mod 16)])"
    using c by (simp only: clean_append) simp
  moreover have "html_safe c \<Longrightarrow> clean [c]" by (simp add: clean_def html_safe_def)
  ultimately show ?thesis by (auto simp: json_escape_byte_def cons)
qed

lemma clean_escape_rune:
  assumes "s \<noteq> []"
  shows "clean (escape_rune s)"
proof -
  have cons: "clean (CHR 0x5C # s) \<longleftrightarrow> clean s" for s by (subst clean_Cons) simp
  obtain r n where rn: "decode_rune s = (r, n)" by (cases "decode_rune s")
  consider "n = 1" "r < 128" | "n = 1" "\<not> r < 128" | "1 < n" using width_pos [OF assms] rn by (fastforce simp: width_def)
  then show ?thesis
  proof cases
    case 1
    obtain c t where s: "s = c # t" using assms by (cases s) blast+
    then have "byte c < 128" using rn 1 ascii_rune by blast
    then show ?thesis unfolding escape_rune_def rn using 1 s clean_escape_byte by simp
  next
    case 2
    then show ?thesis unfolding escape_rune_def rn by (simp add: cons)
  next
    case 3
    have "clean (''u202'' @ [lower_hex (r mod 16)])" by (simp only: clean_append) simp
    then show ?thesis unfolding escape_rune_def rn using 3 clean_high [OF wide_rune_bytes [OF rn 3]] by (simp add: cons)
  qed
qed

lemma clean_quote_body: "clean (quote_body s)"
proof (induction s rule: quote_body.induct)
  case (1 s)
  then show ?case by (subst quote_body.simps) (simp add: clean_escape_rune)
qed

lemma clean_quote [simp]: "clean (quote s)"
  unfolding quote_def by (subst clean_Cons) (simp add: clean_quote_body)

lemma clean_itoa [simp]: "clean (itoa n)"
proof -
  have "clean (digits m)" for m
    using digits_digit [of m] by (auto simp: clean_bytes list_all_iff digit_def)
  moreover from this have "clean (''-'' @ digits (nat (- n)))" unfolding clean_append by simp
  ultimately show ?thesis by (simp add: itoa_def)
qed

lemma clean_join: "list_all clean ps \<Longrightarrow> clean (join '','' ps)"
  by (induction "'',''" ps rule: join.induct) (simp_all del: append.simps)

lemma clean_slice [simp]: "(\<And>x. clean (enc x)) \<Longrightarrow> clean (marshal_slice enc xs)"
  unfolding marshal_slice_def marshal_list_def
  by (cases xs) (simp_all add: clean_join list_all_iff clean_Cons [of "CHR ''[''" "_ @ _"])

lemma clean_field: "clean n \<Longrightarrow> clean (field n)"
  unfolding field_def by (subst clean_Cons) simp

lemma clean_kv [simp]: "clean (marshal_kv p)"
  unfolding marshal_kv_def by (simp add: clean_field del: append.simps)

lemma clean_action [simp]: "clean (marshal_action a)"
  unfolding marshal_action_def by (simp add: clean_field del: append.simps)

lemma clean_alarm [simp]: "clean (marshal_alarm a)"
  unfolding marshal_alarm_def by (simp add: clean_field del: append.simps)

lemma clean_json [simp]: "clean (marshal_json ar)"
  unfolding marshal_json_def by (simp add: clean_field del: append.simps split: option.split)

lemma clean_infos [simp]: "clean (marshal_infos r)"
  unfolding marshal_infos_def by (simp add: clean_field del: append.simps)

lemma body_one_line: "\<exists>line. body_of js \<in> {line, line @ [CHR 0x0A]} \<and> clean line"
proof -
  have "clean (''{'' @ ''}'')" unfolding clean_append by simp
  then show ?thesis using clean_json clean_infos by (cases js) (auto intro: exI [of _ "[]"])
qed

section \<open>Library: what a poll carries\<close>

lemma ascii_valid: "list_all (\<lambda>c. byte c < 128) s \<Longrightarrow> valid_string s"
  by (induction s) (simp add: valid_string_def, subst valid_string_step, simp_all add: width_def)

lemma valid_itoa: "valid_string (itoa n)"
proof -
  have "list_all (\<lambda>c. byte c < 128) (digits m)" for m
    using digits_digit [of m] by (auto simp: list_all_iff digit_def)
  then show ?thesis by (intro ascii_valid) (simp add: itoa_def byte_def)
qed

definition ok_pending :: "cloud_action \<Rightarrow> bool" where
  "ok_pending a \<longleftrightarrow> valid_string (ca_guid a) \<and> list_all ok_kv (ca_params a)"

lemma merge_raw_ok:
  assumes "list_all ok_kv ps" "foldl merge_step merge_init ps = (masks, raw)" "raw k = Some v"
  shows "valid_string v"
  using assms
proof (induction ps arbitrary: masks raw v rule: rev_induct)
  case (snoc p ps)
  obtain ms rw where f: "foldl merge_step merge_init ps = (ms, rw)" by fastforce
  have "raw k = Some v \<Longrightarrow> raw k = rw k \<or> v = v_of p"
    using snoc.prems(2) unfolding foldl_append f foldl.simps
    by (auto simp: merge_step_def Let_def split: if_splits option.splits)
  then show ?case using snoc f by (auto simp: ok_kv_def)
qed (simp add: merge_init_def)

lemma merge_ok:
  assumes "list_all (list_all ok_kv) chunks"
  shows "list_all ok_kv (merge_block_actions chunks)"
proof -
  obtain masks raw where f: "foldl merge_step merge_init (concat chunks) = (masks, raw)" by fastforce
  have "list_all ok_kv (concat chunks)" using assms by (auto simp: list_all_iff)
  then have "valid_string (case raw k of Some v \<Rightarrow> v | None \<Rightarrow> itoa (masks k))" for k
    using merge_raw_ok f by (auto simp: valid_itoa split: option.split)
  moreover have "valid_string ''1''" "valid_string ''0''" by (simp_all add: ascii_valid byte_def)
  ultimately show ?thesis
    by (auto simp: merge_block_actions_def f list_all_iff ok_kv_def in_int64_def index_scenario_def index_light_start_def
        index_light_end_def index_security_outlets_def)
qed

lemma coalesce_ok: "list_all ok_pending as \<Longrightarrow> list_all ok_pending (coalesce_pending_actions as)"
proof (induction as rule: coalesce_induct)
  case (run r rest)
  then have "ok_pending (last r)" "list_all (list_all ok_kv) (map ca_params r)" by (auto simp: list_all_iff ok_pending_def)
  then have "ok_pending (merge_run r)" using merge_ok by (simp add: merge_run_def Let_def ok_pending_def)
  then show ?case using run by simp
qed simp_all

lemma ok_actions_response:
  "ok_response (actions_response as) \<longleftrightarrow> list_all (\<lambda>(guid, params). valid_string guid \<and> list_all ok_kv params) as"
  by (auto simp: ok_response_def actions_response_def ok_slice_def ok_action_def list_all_iff)

section \<open>Properties\<close>

text \<open>C10. Every answer of the legacy protocol comes back. Whatever a response holds - an alarm command or none, lists or
  nil slices, any valid UTF-8 text and any 64-bit index - a reader of the wire gets exactly it back, up to the line feed
  that ends it. And the body of any answer, even with ill-formed text in it, is one clean line: no control character but that line
  feed, and no \<open><\<close>, \<open>>\<close> or \<open>&\<close>.\<close>

theorem response_roundtrip:
  assumes "ok_response ar" "ok_infos r"
  shows "read_response (marshal_json ar @ [CHR 0x0A]) = Some (ar, [CHR 0x0A])
    \<and> read_infos (marshal_infos r @ [CHR 0x0A]) = Some (r, [CHR 0x0A])
    \<and> (\<exists>line. body_of js \<in> {line, line @ [CHR 0x0A]} \<and> clean line)"
  using assms body_one_line by (simp add: responses.reads infos.reads)

definition sample_response :: legacy_actions_response where
  "sample_response = \<lparr>lr_de67f = Some \<lparr>al_guid = ''a'', al_obl = [CHR 0x22, CHR 0x0A, CHR ''<'']\<rparr>,
     lr_actions = Some [\<lparr>la_guid = ''g'', la_params = Some [kv 590 ''1'', kv (- 7) [CHR 0xC3, CHR 0xA9]]\<rparr>,
       \<lparr>la_guid = ''h'', la_params = None\<rparr>]\<rparr>"

theorem response_roundtrip_witness:
  "ok_response sample_response \<and> read_response (marshal_json sample_response @ [CHR 0x0A]) = Some (sample_response, [CHR 0x0A])"
proof -
  have "ok_response sample_response" "ok_infos (infos_response [590])" by code_simp+
  then show ?thesis using response_roundtrip [of sample_response "infos_response [590]"] by simp
qed



definition sample_queue :: db where
  "sample_queue = empty_db\<lparr>machines := [sample_cabinet],
     cloud_actions := map (\<lambda>(guid, params, t). \<lparr>ca_guid = guid, ca_user = 1, ca_machine = Some 7, ca_params = params,
         ca_status = ActionPending, ca_created_at = t, ca_delivered_at = None, ca_done_at = None\<rparr>)
       [(''g'', [kv 590 ''1'', kv 611 ''4''], 1), (''h'', [kv 590 ''1'', kv 611 ''2''], 2)]\<rparr>"


end
