(* ===== verification/Boot.thy ===== *)
theory Boot
  imports Start Worker Wire "HOL-Library.Multiset"
begin

text \<open>
  The two \<open>main\<close> functions from the first line to the last (cmd/server/main.go, cmd/import-machines/main.go), with the migrations
  (\<open>RunMigrations\<close> in internal/data/store.go), the schemas that the stores make sure of, and the start of the New Relic agent
  (internal/observability/newrelic.go). What the operating system and the database answer is the record \<open>os\<close>: directories,
  files, the connection, and the effect of a script of SQL, which the server refuses as a whole or carries out as a whole.
\<close>

section \<open>Paths\<close>

text \<open>\<open>filepath.Ext\<close>: from the last dot of the last element.\<close>

definition path_ext :: "string \<Rightarrow> string" where
  "path_ext name = (let r = takeWhile (\<lambda>c. c \<noteq> CHR ''/'') (rev name); e = takeWhile (\<lambda>c. c \<noteq> CHR ''.'') r in
     if length e < length r then rev (take (Suc (length e)) r) else [])"

text \<open>\<open>filepath.Clean\<close>: elements on a stack, innermost first; \<open>..\<close> takes one off, stays when nothing is left of a relative path, and
  vanishes at the root.\<close>

fun clean_elem :: "bool \<Rightarrow> string list \<Rightarrow> string \<Rightarrow> string list" where
  "clean_elem rooted out e =
     (if e = [] \<or> e = ''.'' then out
      else if e = ''..'' then
        (if out \<noteq> [] \<and> hd out \<noteq> ''..'' then tl out else if rooted then out else e # out)
      else e # out)"

definition clean_path :: "string \<Rightarrow> string" where
  "clean_path p = (let rooted = prefix ''/'' p; out = join ''/'' (rev (foldl (clean_elem rooted) [] (split_on (CHR ''/'') p))) in
     if rooted then CHR ''/'' # out else if out = [] then ''.'' else out)"

definition path_join :: "string \<Rightarrow> string \<Rightarrow> string" where
  "path_join dir name =
     (if dir \<noteq> [] then clean_path (dir @ CHR ''/'' # name) else if name \<noteq> [] then clean_path name else [])"

section \<open>The machine the programs run on\<close>

record nr_config =
  nr_app_name :: string
  nr_license :: string
  nr_distributed_tracer :: bool

record os =
  os_read_dir :: "string \<Rightarrow> (string \<times> bool) list option"
  os_read_file :: "string \<Rightarrow> string option"
  os_script :: "string \<Rightarrow> db \<Rightarrow> goerr + db"
  os_connect :: "string \<Rightarrow> bool"
  os_new_application :: "nr_config \<Rightarrow> bool"

definition dsn :: "string \<Rightarrow> string \<Rightarrow> string \<Rightarrow> string \<Rightarrow> string \<Rightarrow> string" where
  "dsn host pt user pw name = ''host='' @ host @ '' port='' @ pt @ '' user='' @ user @ '' password='' @ pw
     @ '' dbname='' @ name @ '' sslmode=disable''"

section \<open>Migrations\<close>

text \<open>A directory entry is a name and whether it is a directory itself.\<close>

definition is_sql :: "string \<times> bool \<Rightarrow> bool" where
  "is_sql e \<longleftrightarrow> \<not> (snd e \<or> path_ext (fst e) \<noteq> ''.sql'')"

definition sorted_sql_migrations :: "os \<Rightarrow> string \<Rightarrow> string list option" where
  "sorted_sql_migrations os dir = (case os_read_dir os dir of
       None \<Rightarrow> None
     | Some entries \<Rightarrow> Some (sort (map (\<lambda>e. path_join dir (fst e)) (filter is_sql entries))))"

definition exec_script :: "os \<Rightarrow> string \<Rightarrow> unit dbop" where
  "exec_script os s = sql (\<lambda>d. case os_script os s d of Inl e \<Rightarrow> (Inl e, d) | Inr d' \<Rightarrow> (Inr (), d'))"

fun run_migrations :: "os \<Rightarrow> string list \<Rightarrow> unit dbop" where
  "run_migrations os [] = State_Monad.return (Inr ())"
| "run_migrations os (path # paths) = (case os_read_file os path of
       None \<Rightarrow> State_Monad.return (Inl (Errorf path))
     | Some s \<Rightarrow> do {
         r \<leftarrow> exec_script os s;
         case r of
           Inl e \<Rightarrow> State_Monad.return (Inl e)
         | Inr _ \<Rightarrow> run_migrations os paths })"

definition migrate :: "os \<Rightarrow> string \<Rightarrow> unit io" where
  "migrate os dir = (case sorted_sql_migrations os dir of
       None \<Rightarrow> State_Monad.return ()
     | Some paths \<Rightarrow> if paths \<noteq> [] then ignore (run_migrations os paths) else State_Monad.return ())"

section \<open>Schemas\<close>

text \<open>
  The tables of the model are always there, with every column. \<open>CREATE TABLE IF NOT EXISTS\<close>, \<open>ADD COLUMN IF NOT EXISTS\<close> with a null
  default and \<open>CREATE INDEX IF NOT EXISTS\<close> leave the rows of such tables alone: one statement that can fail, and changes no row.
\<close>

definition if_not_exists :: "unit dbop" where
  "if_not_exists = exec (\<lambda>d. d)"

definition ensure_users :: "unit dbop" where
  "ensure_users = if_not_exists"

definition ensure_audit_logs :: "unit dbop" where
  "ensure_audit_logs = if_not_exists"

definition ensure_newsletters :: "unit dbop" where
  "ensure_newsletters = if_not_exists"

definition ensure_email_templates :: "unit dbop" where
  "ensure_email_templates = if_not_exists"

definition ensure_reset_tokens :: "unit dbop" where
  "ensure_reset_tokens = if_not_exists"

section \<open>Observability\<close>

text \<open>\<open>strings.EqualFold\<close> with \<open>true\<close>: no letter of it folds with one beyond ASCII.\<close>

definition equal_fold_true :: "string \<Rightarrow> bool" where
  "equal_fold_true v \<longleftrightarrow> to_lower v = ''true''"

definition nr_enabled :: "environ \<Rightarrow> bool" where
  "nr_enabled getenv \<longleftrightarrow> equal_fold_true (getenv ''NEW_RELIC_ENABLED'')"

definition distributed_tracing_enabled :: "environ \<Rightarrow> bool" where
  "distributed_tracing_enabled getenv = (let v = getenv ''NEW_RELIC_DISTRIBUTED_TRACING_ENABLED'' in
     if v = [] then True else equal_fold_true v)"

text \<open>The agent is known by the options it was created with.\<close>

definition init_new_relic :: "os \<Rightarrow> environ \<Rightarrow> nr_config option" where
  "init_new_relic os getenv =
     (if \<not> nr_enabled getenv then None
      else if getenv ''NEW_RELIC_LICENSE_KEY'' = [] then None
      else (let app_name = (if getenv ''NEW_RELIC_APP_NAME'' = [] then ''essensys-user-portal-backend''
                            else getenv ''NEW_RELIC_APP_NAME'');
                opts = \<lparr>nr_app_name = app_name, nr_license = getenv ''NEW_RELIC_LICENSE_KEY'',
                        nr_distributed_tracer = distributed_tracing_enabled getenv\<rparr> in
            if os_new_application os opts then Some opts else None))"

section \<open>Server\<close>

text \<open>What is running when \<open>main\<close> listens: the handlers, the agent around them, the worker if any, the address.\<close>

record running =
  rn_router :: server_env
  rn_agent :: "nr_config option"
  rn_worker :: "support_env option"
  rn_addr :: string

definition ensure_schemas :: "unit io" where
  "ensure_schemas = do {
     ignore ensure_users;
     ignore ensure_audit_logs;
     ignore ensure_newsletters;
     ignore ensure_email_templates;
     ignore ensure_reset_tokens;
     backfill_missing_machine_geo }"

definition boot :: "os \<Rightarrow> outside \<Rightarrow> environ \<Rightarrow> (goerr + running) io" where
  "boot os out getenv = (case main_server out getenv of
       Inl e \<Rightarrow> State_Monad.return (Inl e)
     | Inr env \<Rightarrow>
         (let c = cfg env in
          if \<not> os_connect os (dsn (db_host c) (db_port c) (db_user c) (db_password c) (db_name c))
          then State_Monad.return (Inl ConnError)
          else do {
            migrate os (migrations_dir c);
            (if consolidated_mode c then ensure_schemas else State_Monad.return ());
            State_Monad.return (Inr \<lparr>rn_router = env, rn_agent = init_new_relic os getenv,
              rn_worker = support env, rn_addr = CHR '':'' # port c\<rparr>) }))"

section \<open>Import program\<close>

text \<open>
  The flags \<open>-input\<close> and \<open>-dsn\<close>, empty when not given a value; the file decoded, or not; an early end is an error.
\<close>

record persistence_data =
  pd_machines :: "(string \<times> import_entry option) list"
  pd_details :: "string \<rightharpoonup> import_detail"

definition import_dsn :: "environ \<Rightarrow> string \<Rightarrow> string" where
  "import_dsn getenv flag =
     (if flag \<noteq> [] then flag
      else dsn (env_str getenv ''DB_HOST'' ''127.0.0.1'') (env_str getenv ''DB_PORT'' ''5432'')
        (env_str getenv ''DB_USER'' ''essensys'') (env_str getenv ''DB_PASSWORD'' [])
        (env_str getenv ''DB_NAME'' ''essensys_db''))"

definition import_main :: "os \<Rightarrow> (string \<Rightarrow> persistence_data option) \<Rightarrow> environ \<Rightarrow> string \<Rightarrow> string \<Rightarrow> (goerr + int option) io" where
  "import_main os decode getenv input dsn_flag = (case os_read_file os input of
       None \<Rightarrow> State_Monad.return (Inl (Errorf ''open input''))
     | Some text \<Rightarrow> (case decode text of
         None \<Rightarrow> State_Monad.return (Inl (Errorf ''decode json''))
       | Some pd \<Rightarrow>
           if \<not> os_connect os (import_dsn getenv dsn_flag) then State_Monad.return (Inl (Errorf ''db connect''))
           else do {
             n \<leftarrow> import_machines (pd_details pd) (pd_machines pd);
             State_Monad.return (Inr n) }))"

section \<open>Library: migrations\<close>

text \<open>The scripts of a list of files, one after the other; \<open>None\<close> when one cannot be read or is refused.\<close>

fun apply_paths :: "os \<Rightarrow> string list \<Rightarrow> db \<Rightarrow> db option" where
  "apply_paths os [] d = Some d"
| "apply_paths os (p # ps) d = do {
     s \<leftarrow> os_read_file os p;
     e \<leftarrow> (case os_script os s d of Inl _ \<Rightarrow> None | Inr e \<Rightarrow> Some e);
     apply_paths os ps e }"

text \<open>A script works on tables: what it does depends on no failure of the connection that is still to come.\<close>

definition keeps_connection :: "os \<Rightarrow> bool" where
  "keeps_connection os \<longleftrightarrow> (\<forall>s d bs. os_script os s (d\<lparr>faults := bs\<rparr>) = map_sum id (\<lambda>e. e\<lparr>faults := bs\<rparr>) (os_script os s d))"

lemma script_faults:
  "keeps_connection os \<Longrightarrow> os_script os s (d\<lparr>faults := bs\<rparr>) = map_sum id (\<lambda>e. e\<lparr>faults := bs\<rparr>) (os_script os s d)"
  by (simp add: keeps_connection_def)

lemma apply_paths_faults:
  assumes "keeps_connection os"
  shows "apply_paths os ps (d\<lparr>faults := bs\<rparr>) = map_option (\<lambda>e. e\<lparr>faults := bs\<rparr>) (apply_paths os ps d)"
proof (induction ps arbitrary: d)
  case (Cons p ps)
  show ?case
  proof (cases "os_read_file os p")
    case (Some s)
    then show ?thesis using Cons script_faults [OF assms, of s bs d] by (cases "os_script os s d") simp_all
  qed simp
qed simp

lemma exec_script_cases:
  assumes "keeps_connection os" "run_state (exec_script os s) d = (r, d')"
  obtains (refused) e bs where "r = Inl e" "d' = d\<lparr>faults := bs\<rparr>"
        | (carried) e bs where "r = Inr ()" "os_script os s d = Inr e" "d' = e\<lparr>faults := bs\<rparr>"
proof -
  have d: "d = d\<lparr>faults := faults d\<rparr>" by simp
  show thesis
  proof (cases "faults d")
    case Nil
    then show ?thesis using assms(2) that(1) [of _ "faults d"] that(2) [of d' "faults d'"]
      by (cases "os_script os s d") (auto simp: exec_script_def sql_def)
  next
    case (Cons b bs)
    then show ?thesis using assms(2) that(1) [of _ bs] that(2) [of _ bs] script_faults [OF assms(1), of s bs d]
      by (cases "os_script os s d") (auto simp: exec_script_def sql_def split: if_splits)
  qed
qed

lemma run_migrations_prefix:
  assumes "keeps_connection os" "run_state (run_migrations os ps) d = (r, d')"
  shows "\<exists>n e bs. n \<le> length ps \<and> apply_paths os (take n ps) d = Some e \<and> d' = e\<lparr>faults := bs\<rparr>"
  using assms(2)
proof (induction ps arbitrary: d)
  case Nil
  then show ?case by (auto intro!: exI [of _ "faults d"])
next
  case (Cons p ps)
  have none: ?case if "d' = d\<lparr>faults := bs\<rparr>" for bs using that by (auto intro!: exI [of _ "0::nat"])
  show ?case
  proof (cases "os_read_file os p")
    case None
    then show ?thesis using Cons.prems none [of "faults d"] by simp
  next
    case (Some s)
    obtain q d1 where q: "run_state (exec_script os s) d = (q, d1)" by fastforce
    from assms(1) q show ?thesis
    proof (cases rule: exec_script_cases)
      case (refused e bs)
      then have "d' = d\<lparr>faults := bs\<rparr>" using Cons.prems Some q by simp
      then show ?thesis by (rule none)
    next
      case (carried e bs)
      then have "run_state (run_migrations os ps) (e\<lparr>faults := bs\<rparr>) = (r, d')" using Cons.prems Some q by simp
      then obtain n e' bs' where n: "n \<le> length ps" "apply_paths os (take n ps) (e\<lparr>faults := bs\<rparr>) = Some e'" "d' = e'\<lparr>faults := bs'\<rparr>"
        using Cons.IH by blast
      then obtain e'' where "apply_paths os (take n ps) e = Some e''" "e' = e''\<lparr>faults := bs\<rparr>"
        using apply_paths_faults [OF assms(1), of "take n ps" bs e] by auto
      then show ?thesis using n carried Some by (intro exI [of _ "Suc n"] exI [of _ e''] exI [of _ bs']) simp
    qed
  qed
qed

lemma run_migrations_all:
  assumes "keeps_connection os" "faults d = []" "apply_paths os ps d = Some e"
  shows "run_state (run_migrations os ps) d = (Inr (), e)"
  using assms(2,3)
proof (induction ps arbitrary: d)
  case (Cons p ps)
  obtain s where s: "os_read_file os p = Some s" using Cons.prems by (cases "os_read_file os p") auto
  obtain e1 where e1: "os_script os s d = Inr e1" "apply_paths os ps e1 = Some e"
    using Cons.prems s by (cases "os_script os s d") auto
  have d: "d\<lparr>faults := []\<rparr> = d" using Cons.prems(1) by simp
  then have "e1\<lparr>faults := []\<rparr> = e1" using script_faults [OF assms(1), of s "[]" d] e1(1) by simp
  then have "faults e1 = []" by (metis conn.select_convs(2) conn.surjective conn.update_convs(2))
  then show ?case using Cons s e1 by (simp add: exec_script_def sql_def)
qed simp

lemma run_ensure_schemas:
  obtains bs js where "run_state ensure_schemas d = ((), d\<lparr>faults := bs, geo_jobs := js\<rparr>)"
proof -
  have s: "\<exists>bs. snd (run_state if_not_exists e) = e\<lparr>faults := bs\<rparr>" for e :: db
  proof (cases "faults e")
    case Nil
    then show ?thesis by (auto simp: if_not_exists_def exec_def sql_def intro: exI [of _ "[]"])
  next
    case (Cons b bs)
    then show ?thesis by (auto simp: if_not_exists_def exec_def sql_def intro: exI [of _ bs])
  qed
  have b: "\<exists>bs js. run_state backfill_missing_machine_geo e = ((), e\<lparr>faults := bs, geo_jobs := js\<rparr>)" for e :: db
  proof (cases "faults e")
    case Nil
    then have "\<exists>js. run_state backfill_missing_machine_geo e = ((), e\<lparr>geo_jobs := js\<rparr>)"
      by (auto simp: backfill_missing_machine_geo_def query_def sql_def)
    moreover have "e\<lparr>faults := faults e, geo_jobs := js\<rparr> = e\<lparr>geo_jobs := js\<rparr>" for js by simp
    ultimately show ?thesis by metis
  next
    case (Cons f bs)
    then have "\<exists>js. run_state backfill_missing_machine_geo e = ((), e\<lparr>faults := bs, geo_jobs := js\<rparr>)"
      by (cases f) (auto simp: backfill_missing_machine_geo_def query_def sql_def intro: exI [of _ "geo_jobs e"])
    then show ?thesis by blast
  qed
  let ?n = "\<lambda>e. snd (run_state if_not_exists e)"
  obtain bs where n: "?n (?n (?n (?n (?n d)))) = d\<lparr>faults := bs\<rparr>"
    using s [of d] s [of "?n d"] s [of "?n (?n d)"] s [of "?n (?n (?n d))"] s [of "?n (?n (?n (?n d)))"] by auto
  have "run_state ensure_schemas d = run_state backfill_missing_machine_geo (d\<lparr>faults := bs\<rparr>)"
    by (simp add: ensure_schemas_def ensure_users_def ensure_audit_logs_def ensure_newsletters_def
        ensure_email_templates_def ensure_reset_tokens_def n)
  then show thesis using b [of "d\<lparr>faults := bs\<rparr>"] that by auto
qed

definition migration_paths :: "os \<Rightarrow> string \<Rightarrow> string list" where
  "migration_paths os dir = (case sorted_sql_migrations os dir of None \<Rightarrow> [] | Some ps \<Rightarrow> ps)"

lemma migration_paths_sorted: "sorted (migration_paths os dir)"
  by (simp add: migration_paths_def sorted_sql_migrations_def split: option.split)

lemma run_migrate: "run_state (migrate os dir) d = ((), snd (run_state (run_migrations os (migration_paths os dir)) d))"
  by (auto simp: migrate_def migration_paths_def split: option.split)

lemma unchanged: "\<exists>bs js. d = d\<lparr>faults := bs, geo_jobs := js\<rparr>" for d :: db
  by (intro exI [of _ "faults d"] exI [of _ "geo_jobs d"]) simp

lemma boot_run:
  assumes "main_server out getenv = Inr env" "cfg env = c"
    "os_connect os (dsn (db_host c) (db_port c) (db_user c) (db_password c) (db_name c))"
  shows "\<exists>bs js. run_state (boot os out getenv) d =
    (Inr \<lparr>rn_router = env, rn_agent = init_new_relic os getenv, rn_worker = support env, rn_addr = CHR '':'' # port c\<rparr>,
     (snd (run_state (run_migrations os (migration_paths os (migrations_dir c))) d))\<lparr>faults := bs, geo_jobs := js\<rparr>)"
proof -
  let ?e = "snd (run_state (run_migrations os (migration_paths os (migrations_dir c))) d)"
  obtain bs js where "run_state ensure_schemas ?e = ((), ?e\<lparr>faults := bs, geo_jobs := js\<rparr>)" by (rule run_ensure_schemas)
  then have "\<exists>bs js. run_state (if consolidated_mode c then ensure_schemas else State_Monad.return ()) ?e
      = ((), ?e\<lparr>faults := bs, geo_jobs := js\<rparr>)"
    using unchanged [of ?e] by (cases "consolidated_mode c") auto
  then obtain bs js where "run_state (if consolidated_mode c then ensure_schemas else State_Monad.return ()) ?e
      = ((), ?e\<lparr>faults := bs, geo_jobs := js\<rparr>)" by blast
  then show ?thesis using assms by (intro exI [of _ bs] exI [of _ js]) (simp add: boot_def run_migrate)
qed

section \<open>Properties\<close>



definition sample_os :: os where
  "sample_os = \<lparr>os_read_dir = (\<lambda>dir. Some [(''002_b.sql'', False), (''old.sql'', True), (''notes.txt'', False), (''001_a.sql'', False)]),
     os_read_file = (\<lambda>p. Some p),
     os_script = (\<lambda>s d. if s = ''migrations/002_b.sql'' then Inl (Errorf ''syntax error'') else Inr (d\<lparr>serials := (serials d)(''m'' := 1)\<rparr>)),
     os_connect = (\<lambda>_. True), os_new_application = (\<lambda>_. True)\<rparr>"

lemma sample_migrations: "migration_paths sample_os ''migrations'' = [''migrations/001_a.sql'', ''migrations/002_b.sql'']"
  by code_simp

lemma sample_settings: "validate_config (load sample_environ) = None" "port (load sample_environ) = ''8081''"
  using sample_production by (simp, simp add: load_def Let_def env_str_def sample_environ_def)


end
