(* ===== verification/Secrets.thy ===== *)
theory Secrets
  imports Boot
begin

text \<open>
  What the program makes of random bytes and signatures: the tokens of internal/remember and internal/pwreset, the identifiers of
  orders (\<open>newGUID\<close> in internal/handlers/portal.go), session tokens (internal/middleware/jwt.go) and the exchange with Google and
  Apple (internal/identity/oauth.go). The handlers take such strings from the stream \<open>random\<close> of the database record and from the
  fields of \<open>identity_env\<close>; here those are built from bytes. Hashing, signing, parsing of keys and the two providers are arguments.
\<close>

section \<open>Random strings\<close>

definition hex_encode :: "string \<Rightarrow> string" where
  "hex_encode s = concat (map (\<lambda>c. [lower_hex (byte c div 16), lower_hex (byte c mod 16)]) s)"

definition url_char :: "nat \<Rightarrow> char" where
  "url_char n = (if n = 62 then CHR ''-'' else if n = 63 then CHR ''_'' else b64_char n)"

text \<open>\<open>base64.RawURLEncoding\<close>, and \<open>base64.URLEncoding\<close>, which pads to a multiple of four.\<close>

fun raw_url_encode :: "string \<Rightarrow> string" where
  "raw_url_encode [] = []"
| "raw_url_encode [a] = [url_char (byte a div 4), url_char (byte a mod 4 * 16)]"
| "raw_url_encode [a, b] = [url_char (byte a div 4), url_char (byte a mod 4 * 16 + byte b div 16), url_char (byte b mod 16 * 4)]"
| "raw_url_encode (a # b # c # s) = url_char (byte a div 4) # url_char (byte a mod 4 * 16 + byte b div 16)
     # url_char (byte b mod 16 * 4 + byte c div 64) # url_char (byte c mod 64) # raw_url_encode s"

definition url_encode :: "string \<Rightarrow> string" where
  "url_encode s = raw_url_encode s @ replicate ((3 - length s mod 3) mod 3) (CHR ''='')"

definition token_bytes :: nat where "token_bytes = 32"

definition hash_token :: "(string \<Rightarrow> string) \<Rightarrow> string \<Rightarrow> string" where
  "hash_token sha256 plain = hex_encode (sha256 plain)"

text \<open>\<open>Generate\<close> on the bytes that \<open>rand.Read\<close> filled in, or its error.\<close>

definition generate_secret :: "(string \<Rightarrow> string) \<Rightarrow> string option \<Rightarrow> (string \<times> string) option" where
  "generate_secret sha256 buf = (case buf of
       None \<Rightarrow> None
     | Some b \<Rightarrow> (let plain = raw_url_encode b in Some (plain, hash_token sha256 plain)))"

definition new_guid :: "string \<Rightarrow> string" where
  "new_guid b = hex_encode (take 4 b) @ ''-'' @ hex_encode (take 2 (drop 4 b)) @ ''-'' @ hex_encode (take 2 (drop 6 b))
     @ ''-'' @ hex_encode (take 2 (drop 8 b)) @ ''-'' @ hex_encode (drop 10 b)"

section \<open>Session tokens\<close>

record signed_claims =
  sc_sub :: string
  sc_role :: string
  sc_exp :: int
  sc_iss :: string

definition jwt_key :: "environ \<Rightarrow> string" where
  "jwt_key getenv = getenv ''JWT_SECRET''"

definition unix :: "instant \<Rightarrow> int" where
  "unix t = t div second"

definition generate_jwt :: "(string \<Rightarrow> signed_claims \<Rightarrow> string option) \<Rightarrow> environ \<Rightarrow> string \<Rightarrow> string \<Rightarrow> instant \<Rightarrow> string option" where
  "generate_jwt sign getenv email role expiration =
     sign (jwt_key getenv) \<lparr>sc_sub = email, sc_role = role, sc_exp = unix expiration, sc_iss = ''essensys-backend''\<rparr>"

text \<open>What the guards read of a token at a time: the claims of a valid one.\<close>

definition session_parser :: "(string \<Rightarrow> instant \<Rightarrow> string \<Rightarrow> signed_claims option) \<Rightarrow> environ \<Rightarrow> instant \<Rightarrow> jwt_parser" where
  "session_parser verify getenv t hmac tok =
     map_option (\<lambda>cl. \<lparr>cl_sub = Some (sc_sub cl), cl_role = Some (sc_role cl)\<rparr>) (verify (jwt_key getenv) t tok)"

section \<open>Google and Apple\<close>

record oauth_config =
  oa_redirect_url :: string
  oa_client_id :: string
  oa_client_secret :: string
  oa_scopes :: "string list"
  oa_auth_url :: string
  oa_token_url :: string

record state_cookie =
  ck_name :: string
  ck_value :: string
  ck_expires :: instant
  ck_http_only :: bool
  ck_secure :: bool
  ck_same_site_none :: bool
  ck_path :: string

definition get_oauth_config :: "string \<times> string \<Rightarrow> environ \<Rightarrow> oauth_config" where
  "get_oauth_config endpoint getenv = \<lparr>oa_redirect_url = getenv ''GOOGLE_REDIRECT_URL'', oa_client_id = getenv ''GOOGLE_CLIENT_ID'',
     oa_client_secret = getenv ''GOOGLE_CLIENT_SECRET'', oa_scopes = [''https://www.googleapis.com/auth/userinfo.email''],
     oa_auth_url = fst endpoint, oa_token_url = snd endpoint\<rparr>"

definition get_apple_oauth_config :: "environ \<Rightarrow> oauth_config" where
  "get_apple_oauth_config getenv = \<lparr>oa_redirect_url = getenv ''APPLE_REDIRECT_URL'', oa_client_id = getenv ''APPLE_CLIENT_ID'',
     oa_client_secret = [], oa_scopes = [''name'', ''email''],
     oa_auth_url = ''https://appleid.apple.com/auth/authorize'', oa_token_url = ''https://appleid.apple.com/auth/token''\<rparr>"

definition generate_state_oauth_cookie :: "string \<Rightarrow> instant \<Rightarrow> state_cookie" where
  "generate_state_oauth_cookie b nw = \<lparr>ck_name = ''oauthstate'', ck_value = url_encode b, ck_expires = nw + 20 * minute,
     ck_http_only = True, ck_secure = True, ck_same_site_none = True, ck_path = ''/''\<rparr>"

text \<open>
  The services: \<open>Exchange\<close> of a code for an access token, a GET and a POST of a form with the status and the body of the answer, the
  decoding of their documents.
\<close>

record providers =
  pr_exchange :: "oauth_config \<Rightarrow> string \<Rightarrow> string option"
  pr_get :: "string \<Rightarrow> string option"
  pr_post_form :: "string \<Rightarrow> (string \<times> string) list \<Rightarrow> (nat \<times> string option) option"
  pr_google_user :: "string \<Rightarrow> (string \<times> string) option"
  pr_id_token :: "string \<Rightarrow> string option"
  pr_unverified_email :: "string \<Rightarrow> string option option"
  pr_google_endpoint :: "string \<times> string"
  pr_pem_decode :: "string \<Rightarrow> string option"
  pr_parse_pkcs8 :: "string \<Rightarrow> string option"
  pr_sign_es256 :: "string \<Rightarrow> string \<Rightarrow> (string \<times> string) list \<Rightarrow> int \<times> int \<Rightarrow> string option"
  pr_auth_code_url :: "oauth_config \<Rightarrow> string \<Rightarrow> (string \<times> string) list \<Rightarrow> string"

definition get_user_data_from_google :: "providers \<Rightarrow> environ \<Rightarrow> string \<Rightarrow> string option" where
  "get_user_data_from_google p getenv code = (case pr_exchange p (get_oauth_config (pr_google_endpoint p) getenv) code of
       None \<Rightarrow> None
     | Some access \<Rightarrow> pr_get p (''https://www.googleapis.com/oauth2/v2/userinfo?access_token='' @ access))"

definition google_exchange :: "providers \<Rightarrow> environ \<Rightarrow> string \<Rightarrow> oauth_result" where
  "google_exchange p getenv code = (case get_user_data_from_google p getenv code of
       None \<Rightarrow> ExchangeFailed
     | Some body \<Rightarrow> (case pr_google_user p body of
         None \<Rightarrow> UndecodableData
       | Some (email, i) \<Rightarrow> OauthUser email i))"

text \<open>The client secret that Apple asks for: a token signed with the key of the team, good for five minutes.\<close>

definition generate_apple_client_secret :: "providers \<Rightarrow> os \<Rightarrow> environ \<Rightarrow> instant \<Rightarrow> string option" where
  "generate_apple_client_secret p os getenv nw = do {
     key_bytes \<leftarrow> os_read_file os (getenv ''APPLE_KEY_FILE'');
     block \<leftarrow> pr_pem_decode p key_bytes;
     private_key \<leftarrow> pr_parse_pkcs8 p block;
     pr_sign_es256 p private_key (getenv ''APPLE_KEY_ID'')
       [(''iss'', getenv ''APPLE_TEAM_ID''), (''aud'', ''https://appleid.apple.com''), (''sub'', getenv ''APPLE_CLIENT_ID'')]
       (unix nw, unix (nw + 5 * minute)) }"

definition apple_exchange :: "providers \<Rightarrow> environ \<Rightarrow> string \<Rightarrow> string \<Rightarrow> oauth_result" where
  "apple_exchange p getenv client_secret code = (let conf = get_apple_oauth_config getenv in
     case pr_post_form p (oa_token_url conf)
         [(''client_id'', oa_client_id conf), (''client_secret'', client_secret), (''code'', code),
          (''grant_type'', ''authorization_code''), (''redirect_uri'', oa_redirect_url conf)] of
       None \<Rightarrow> ExchangeFailed
     | Some (code, body) \<Rightarrow> (case body of
         None \<Rightarrow> UndecodableData
       | Some b \<Rightarrow> if code \<noteq> 200 then UndecodableData
           else (case pr_id_token p b of
             None \<Rightarrow> UndecodableData
           | Some tok \<Rightarrow> (case pr_unverified_email p tok of
               None \<Rightarrow> UndecodableData
             | Some email \<Rightarrow> OauthUser (str_claim email) []))))"

text \<open>The environment of the handlers for each provider.\<close>

definition google_env :: "providers \<Rightarrow> environ \<Rightarrow> identity_env \<Rightarrow> identity_env" where
  "google_env p getenv env = env\<lparr>oauth_exchange := google_exchange p getenv,
     auth_code_url := (\<lambda>st. pr_auth_code_url p (get_oauth_config (pr_google_endpoint p) getenv) st [])\<rparr>"

definition apple_env :: "providers \<Rightarrow> os \<Rightarrow> environ \<Rightarrow> instant \<Rightarrow> identity_env \<Rightarrow> identity_env" where
  "apple_env p os getenv nw env = (let secret = generate_apple_client_secret p os getenv nw in env\<lparr>
     oauth_exchange := (\<lambda>code. case secret of None \<Rightarrow> ExchangeFailed | Some s \<Rightarrow> apple_exchange p getenv s code),
     apple_secret_ok := (secret \<noteq> None),
     auth_code_url := (\<lambda>st. pr_auth_code_url p (get_apple_oauth_config getenv) st [(''response_mode'', ''form_post'')])\<rparr>)"

section \<open>Library: no byte is lost\<close>

lemma lower_hex_inj: "m < 16 \<Longrightarrow> n < 16 \<Longrightarrow> lower_hex m = lower_hex n \<longleftrightarrow> m = n"
  using unhex_lower_hex by (metis option.inject)

lemma hex_encode_simps [simp]: "hex_encode [] = []"
  "hex_encode (c # s) = lower_hex (byte c div 16) # lower_hex (byte c mod 16) # hex_encode s"
  by (simp_all add: hex_encode_def)

lemma length_hex_encode [simp]: "length (hex_encode s) = 2 * length s"
  by (induction s) simp_all

lemma byte_halves: "byte a div 16 = byte b div 16 \<Longrightarrow> byte a mod 16 = byte b mod 16 \<Longrightarrow> a = b"
  by (metis byte_inject div_mult_mod_eq)

lemma hex_encode_inj: "hex_encode s = hex_encode t \<Longrightarrow> s = t"
proof (induction s arbitrary: t)
  case Nil
  then show ?case by (cases t) simp_all
next
  case (Cons a s)
  then obtain b u where t: "t = b # u" by (cases t) auto
  have "byte a div 16 < 16" "byte b div 16 < 16" using byte_lt [of a] byte_lt [of b] by auto
  then show ?case using Cons lower_hex_inj byte_halves by (auto simp: t)
qed

text \<open>Back to the alphabet of the padded encoding, of which the reader is known.\<close>

definition from_url :: "char \<Rightarrow> char" where
  "from_url c = (if c = CHR ''-'' then b64_char 62 else if c = CHR ''_'' then b64_char 63 else c)"

lemma from_url_char: "n < 64 \<Longrightarrow> from_url (url_char n) = b64_char n"
proof -
  assume n: "n < 64"
  have "byte (CHR ''-'') = 45" "byte (CHR ''_'') = 95" by (simp_all add: byte_def)
  then have "n < 62 \<Longrightarrow> b64_char n \<noteq> CHR ''-'' \<and> b64_char n \<noteq> CHR ''_''"
    using byte_b64_char [of n] byte_inject [of "b64_char n"] by (auto simp del: byte_inject split: if_splits)
  then show ?thesis using n by (auto simp: from_url_def url_char_def)
qed

lemma digit_bounds: "byte a div 4 < 64" "byte a mod 4 * 16 < 64" "byte a mod 4 * 16 + byte b div 16 < 64" "byte b mod 16 * 4 < 64"
  "byte b mod 16 * 4 + byte c div 64 < 64" "byte c mod 64 < 64"
  using byte_lt [of a] byte_lt [of b] byte_lt [of c] by auto

lemma b64_of_raw: "b64_encode s = map from_url (raw_url_encode s) @ replicate ((3 - length s mod 3) mod 3) (CHR ''='')"
proof (induction s rule: b64_encode.induct)
  case (4 a b c s)
  have "length (a # b # c # s) mod 3 = length s mod 3" by (simp add: numeral_3_eq_3 [symmetric])
  then show ?case using 4 by (simp add: from_url_char digit_bounds)
qed (simp_all add: from_url_char digit_bounds numeral_2_eq_2)

lemma raw_url_encode_inj:
  assumes "raw_url_encode s = raw_url_encode t" "length s = length t"
  shows "s = t"
proof -
  have "b64_encode s = b64_encode t" using assms by (simp add: b64_of_raw)
  then show ?thesis by (metis b64_decode_encode option.inject)
qed

lemma length_raw_url_encode: "length (raw_url_encode s) = (4 * length s + 2) div 3"
  by (induction s rule: raw_url_encode.induct) simp_all

lemma url_char_plain: "n < 64 \<Longrightarrow> escape_byte (url_char n) = [url_char n]"
proof -
  assume "n < 64"
  then have "n = 62 \<or> n = 63 \<or> n < 26 \<or> 26 \<le> n \<and> n < 52 \<or> 52 \<le> n \<and> n < 62" by auto
  then show ?thesis by (elim disjE) (auto simp: url_char_def b64_char_def escape_byte_def digit_def less_eq_char_def byte_def)
qed

lemma raw_url_plain: "query_escape (raw_url_encode s) = raw_url_encode s"
  by (induction s rule: raw_url_encode.induct) (simp_all add: query_escape_def url_char_plain digit_bounds)

lemma guid_parts:
  shows "take 4 b @ take 2 (drop 4 b) @ take 2 (drop 6 b) @ take 2 (drop 8 b) @ drop 10 b = b"
proof -
  have "take 2 (drop 8 b) @ drop 10 b = drop 8 b" using append_take_drop_id [of 2 "drop 8 b"] by simp
  moreover have "take 2 (drop 6 b) @ drop 8 b = drop 6 b" using append_take_drop_id [of 2 "drop 6 b"] by simp
  moreover have "take 2 (drop 4 b) @ drop 6 b = drop 4 b" using append_take_drop_id [of 2 "drop 4 b"] by simp
  ultimately show ?thesis by (simp only: append_take_drop_id)
qed

lemma new_guid_inj:
  assumes "length a = 16" "length b = 16" "new_guid a = new_guid b"
  shows "a = b"
proof -
  have "hex_encode (take 4 a) = hex_encode (take 4 b) \<and> hex_encode (take 2 (drop 4 a)) = hex_encode (take 2 (drop 4 b))
      \<and> hex_encode (take 2 (drop 6 a)) = hex_encode (take 2 (drop 6 b))
      \<and> hex_encode (take 2 (drop 8 a)) = hex_encode (take 2 (drop 8 b)) \<and> hex_encode (drop 10 a) = hex_encode (drop 10 b)"
    using assms unfolding new_guid_def by simp
  then have p: "take 4 a = take 4 b" "take 2 (drop 4 a) = take 2 (drop 4 b)" "take 2 (drop 6 a) = take 2 (drop 6 b)"
    "take 2 (drop 8 a) = take 2 (drop 8 b)" "drop 10 a = drop 10 b"
    using hex_encode_inj by blast+
  have "a = take 4 a @ take 2 (drop 4 a) @ take 2 (drop 6 a) @ take 2 (drop 8 a) @ drop 10 a" by (rule guid_parts [symmetric])
  also have "\<dots> = b" unfolding p by (rule guid_parts)
  finally show ?thesis .
qed

section \<open>Library: sessions\<close>

text \<open>
  What golang-jwt documents of tokens signed and checked with one key: the check gives back the claims that were signed, as long as
  the expiry, in whole seconds, lies in the future.
\<close>

definition jwt_contract :: "(string \<Rightarrow> signed_claims \<Rightarrow> string option) \<Rightarrow> (string \<Rightarrow> instant \<Rightarrow> string \<Rightarrow> signed_claims option) \<Rightarrow> bool" where
  "jwt_contract sign verify \<longleftrightarrow> (\<forall>key cl tok t. sign key cl = Some tok \<longrightarrow>
     tok \<noteq> [] \<and> verify key t tok = (if t < sc_exp cl * second then Some cl else None))"

lemma session_parser_signed:
  assumes "jwt_contract sign verify" "generate_jwt sign getenv email role expiration = Some tok"
  shows "tok \<noteq> []" "session_parser verify getenv t hmac tok =
    (if t < unix expiration * second then Some \<lparr>cl_sub = Some email, cl_role = Some role\<rparr> else None)"
  using assms by (auto simp: jwt_contract_def generate_jwt_def session_parser_def)

lemma unix_seconds: "unix t * second = t - t mod second"
  by (simp add: unix_def minus_mod_eq_div_mult)

section \<open>Library: signing in with a provider\<close>

text \<open>The role a session starts with, and where it comes from: a live account, or the account that the sign-in makes.\<close>

definition session_role :: "identity_env \<Rightarrow> db \<Rightarrow> db \<Rightarrow> string \<Rightarrow> string \<Rightarrow> string \<Rightarrow> bool" where
  "session_role env d d' provider email role \<longleftrightarrow>
     (\<exists>u. live_account d email u \<and> role = u_role u)
     \<or> account_of d email = None \<and> role = (if is_admin_email email (admin_emails env) then role_admin_global else role_user)
       \<and> (\<exists>u. account_of d' email = Some u \<and> u_role u = role \<and> u_provider u = provider)"

definition token_url :: "identity_env \<Rightarrow> string \<Rightarrow> string \<Rightarrow> string" where
  "token_url env tok role = (if frontend_url env = [] then ''/'' else frontend_url env) @ ''admin#token='' @ tok @ ''&role='' @ role"

definition turned_back :: "identity_answer \<Rightarrow> bool" where
  "turned_back a \<longleftrightarrow> (\<exists>k m. a = HttpError k m) \<or> (\<exists>k u. u \<in> {''/'', forbidden_redirect_path} \<and> a = Answer k (Redirect u))"

lemma turned_back_simps [simp]: "turned_back (HttpError k m)" "turned_back (Answer k (Redirect ''/''))"
  "turned_back (Answer k (Redirect forbidden_redirect_path))"
  by (simp_all add: turned_back_def)

lemma oauth_finish_cases:
  assumes "run_state (oauth_finish env code provider email pid) d = (a, d')"
  obtains "turned_back a"
    | role tok where "a = Answer code (Redirect (token_url env tok role))"
        "sign_jwt env email role (clock d + jwt_lifetime) = Some tok" "session_role env d d' provider email role"
proof -
  obtain res d1 where get: "run_state (get_user_by_email email) d = (res, d1)" by fastforce
  then obtain bs where d1: "d1 = d\<lparr>faults := bs\<rparr>" "res = Inl ConnError \<or> res = Inr (account_of d email)"
    unfolding get_user_by_email_def by (elim query_cases) (auto simp: account_of_def)
  consider (err) "res = Inl ConnError" | (fresh) "res = Inr None" "account_of d email = None"
    | (known) u where "res = Inr (Some u)" "account_of d email = Some u" using d1(2) by (cases "account_of d email") auto
  then show thesis
  proof cases
    case err
    then show thesis using assms get that(1) by (auto simp: oauth_finish_def)
  next
    case known
    then have live: "\<not> is_user_forbidden (Some u) \<Longrightarrow> live_account d email u"
      by (auto simp: live_account_def is_user_forbidden_def account_of_def find_Some_iff)
    obtain q d2 where l: "run_state (update_last_login (u_id u)) d1 = (q, d2)" by fastforce
    then have "clock d2 = clock d" using d1(1) unfolding update_last_login_def by (elim exec_cases) (auto simp: update_user_row_def)
    then show thesis using assms get known l live that
      by (auto simp: oauth_finish_def Let_def token_url_def session_role_def split: if_splits option.splits)
  next
    case fresh
    let ?role = "if is_admin_email email (admin_emails env) then role_admin_global else role_user"
    let ?new = "new_account (clock d) email [] ?role [] [] provider pid"
    obtain q d2 where c: "run_state (create_user ?new) d1 = (q, d2)" by fastforce
    then have ok: "q = Inr i \<Longrightarrow> clock d2 = clock d \<and> (\<exists>u. account_of d2 email = Some u \<and> u_role u = ?role \<and> u_provider u = provider)" for i
      using d1(1) fresh(2) unfolding create_user_def
      by (elim sql_cases) (auto simp: Let_def bump_def new_account_def account_of_def find_append split: if_splits)
    show thesis using assms get fresh c d1(1) ok that
      by (auto simp: oauth_finish_def Let_def token_url_def session_role_def split: sum.splits option.splits)
  qed
qed

text \<open>A provider names an address for a code: the chain of answers from its endpoints.\<close>

definition google_vouches :: "providers \<Rightarrow> environ \<Rightarrow> string \<Rightarrow> string \<Rightarrow> bool" where
  "google_vouches p getenv code email \<longleftrightarrow> (\<exists>access body i.
     pr_exchange p (get_oauth_config (pr_google_endpoint p) getenv) code = Some access
     \<and> pr_get p (''https://www.googleapis.com/oauth2/v2/userinfo?access_token='' @ access) = Some body
     \<and> pr_google_user p body = Some (email, i))"

definition apple_vouches :: "providers \<Rightarrow> os \<Rightarrow> environ \<Rightarrow> instant \<Rightarrow> string \<Rightarrow> string \<Rightarrow> bool" where
  "apple_vouches p os getenv t code email \<longleftrightarrow> (\<exists>secret body idt claim.
     generate_apple_client_secret p os getenv t = Some secret
     \<and> pr_post_form p ''https://appleid.apple.com/auth/token''
         [(''client_id'', getenv ''APPLE_CLIENT_ID''), (''client_secret'', secret), (''code'', code),
          (''grant_type'', ''authorization_code''), (''redirect_uri'', getenv ''APPLE_REDIRECT_URL'')] = Some (200, Some body)
     \<and> pr_id_token p body = Some idt \<and> pr_unverified_email p idt = Some claim \<and> email = str_claim claim)"

lemma google_exchange_user: "google_exchange p getenv code = OauthUser email i \<Longrightarrow> google_vouches p getenv code email"
  by (auto simp: google_exchange_def get_user_data_from_google_def google_vouches_def split: option.splits)

lemma apple_exchange_user:
  "oauth_exchange (apple_env p os getenv t env) code = OauthUser email i \<Longrightarrow> apple_vouches p os getenv t code email"
  by (auto simp: apple_env_def apple_exchange_def get_apple_oauth_config_def apple_vouches_def Let_def
      split: option.splits if_splits)

definition opens_session :: "identity_env \<Rightarrow> nat \<Rightarrow> string \<Rightarrow> string \<Rightarrow> db \<Rightarrow> identity_answer \<Rightarrow> db \<Rightarrow> bool" where
  "opens_session env code provider email d a d' \<longleftrightarrow> (\<exists>role tok. sign_jwt env email role (clock d + jwt_lifetime) = Some tok
     \<and> a = Answer code (Redirect (token_url env tok role)) \<and> session_role env d d' provider email role)"

lemma provider_env [simp]:
  "opens_session (google_env p getenv env) = opens_session env" "opens_session (apple_env p os getenv t env) = opens_session env"
  by (simp_all add: google_env_def apple_env_def Let_def opens_session_def token_url_def session_role_def fun_eq_iff)

lemma oauth_finish_opens:
  "run_state (oauth_finish env code provider email pid) d = (a, d') \<Longrightarrow> turned_back a \<or> opens_session env code provider email d a d'"
  by (erule oauth_finish_cases) (auto simp: opens_session_def)

section \<open>Properties\<close>

text \<open>C15. Secrets keep their bytes. A token of \<open>remember\<close> and \<open>pwreset\<close> is 43 characters that a link carries as they are, with a
  digest for the database; the identifier of an order has the 36 characters of a GUID. Two different draws of random bytes
  never give the same token or the same identifier.\<close>

theorem secrets_keep_entropy:
  assumes "length b = token_bytes" "generate_secret sha256 (Some b) = Some (plain, dig)" "length g = 16"
  shows "length plain = 43 \<and> query_escape plain = plain \<and> dig = hash_token sha256 plain
    \<and> (\<forall>b'. length b' = token_bytes \<and> b' \<noteq> b \<longrightarrow> fst (the (generate_secret sha256 (Some b'))) \<noteq> plain)
    \<and> length (new_guid g) = 36 \<and> (\<forall>g'. length g' = 16 \<and> g' \<noteq> g \<longrightarrow> new_guid g' \<noteq> new_guid g)"
proof -
  have p: "plain = raw_url_encode b" "dig = hash_token sha256 plain" using assms(2) by (auto simp: generate_secret_def Let_def)
  have "fst (the (generate_secret sha256 (Some b'))) = raw_url_encode b'" for b' by (simp add: generate_secret_def Let_def)
  moreover have "length (new_guid g) = 36" using assms(3) by (simp add: new_guid_def)
  ultimately show ?thesis
    using p assms(1,3) raw_url_plain raw_url_encode_inj [of _ b] new_guid_inj [of _ g]
    by (auto simp: length_raw_url_encode token_bytes_def)
qed

theorem secrets_keep_entropy_witness:
  "new_guid (map char_of [0::nat..<16]) = ''00010203-0405-0607-0809-0a0b0c0d0e0f''
   \<and> length (fst (the (generate_secret id (Some (replicate 32 (CHR 0xFF)))))) = 43"
proof -
  have "length (replicate 32 (CHR 0xFF)) = token_bytes" "length (map char_of [0::nat..<16] :: string) = 16" by (simp_all add: token_bytes_def)
  then have "length (raw_url_encode (replicate 32 (CHR 0xFF))) = 43"
    using secrets_keep_entropy [of "replicate 32 (CHR 0xFF)" id "raw_url_encode (replicate 32 (CHR 0xFF))" _ "map char_of [0::nat..<16]"]
    by (simp add: generate_secret_def Let_def)
  moreover have "new_guid (map char_of [0::nat..<16]) = ''00010203-0405-0607-0809-0a0b0c0d0e0f''" by code_simp
  ultimately show ?thesis by (simp add: generate_secret_def Let_def)
qed

text \<open>C12. How long a session lasts. The token that a sign-in at \<open>t0\<close> issues opens every user route, with the role that the account
  has now, up to the whole second in which its 24 hours end, and from then on the route answers 401 and nothing changes.\<close>

theorem session_lifetime:
  assumes "jwt_contract sign verify" "generate_jwt sign getenv email role (t0 + jwt_lifetime) = Some tok"
    "header r ''Authorization'' = ''Bearer '' @ tok" "email \<noteq> []" "faults d = []"
    "account_of d email = Some u" "u_forbidden_at u = None" "u_pw_change_required_at u = None"
  shows "run_state (user_jwt_with_store (session_parser verify getenv t) (Some get_user_by_email) h r c) d
    = (if t < t0 + 24 * hour - (t0 + 24 * hour) mod second then run_state (h r (with_user_context c email (u_role u))) d
       else (unauthorized, d))"
proof -
  have b: "bearer r = tok" using assms(3) by (simp add: bearer_def trim_prefix_def)
  have u: "find (\<lambda>u. u_email u = email) (users d) = Some u" using assms(6) by (simp add: account_of_def)
  note s = session_parser_signed(1) [OF assms(1,2)] session_parser_signed(2) [OF assms(1,2), of t True]
  show ?thesis
    using s assms(4,5,7,8) u
    by (simp add: user_jwt_with_store_def user_jwt_def b str_claim_def serve_active_def enforce_active_user_def
        resolve_active_user_def get_user_by_email_def is_user_forbidden_def password_change_required_def unix_seconds
        jwt_lifetime_def with_user_context_def)
qed


definition sample_session :: signed_claims where
  "sample_session = \<lparr>sc_sub = ''a@b'', sc_role = ''user'', sc_exp = 86400, sc_iss = ''essensys-backend''\<rparr>"

definition sample_sign :: "string \<Rightarrow> signed_claims \<Rightarrow> string option" where
  "sample_sign key cl = (if cl = sample_session then Some ''tok'' else None)"

definition sample_verify :: "string \<Rightarrow> instant \<Rightarrow> string \<Rightarrow> signed_claims option" where
  "sample_verify key t tok = (if tok = ''tok'' \<and> t < 86400 * second then Some sample_session else None)"

theorem session_lifetime_witness:
  "jwt_contract sample_sign sample_verify
   \<and> run_state (user_jwt_with_store (session_parser sample_verify (\<lambda>_. []) (24 * hour)) (Some get_user_by_email)
       (\<lambda>_ c. State_Monad.return (Answer 200 (ctx_role c))) sample_request background) sample_db = (unauthorized, sample_db)
   \<and> run_state (user_jwt_with_store (session_parser sample_verify (\<lambda>_. []) (24 * hour - 1)) (Some get_user_by_email)
       (\<lambda>_ c. State_Monad.return (Answer 200 (ctx_role c))) sample_request background) sample_db = (Answer 200 (Some ''user''), sample_db)"
proof -
  have k: "jwt_contract sample_sign sample_verify"
    by (simp add: jwt_contract_def sample_sign_def sample_verify_def sample_session_def)
  have g: "generate_jwt sample_sign (\<lambda>_. []) ''a@b'' ''user'' (0 + jwt_lifetime) = Some ''tok''" by code_simp
  have r: "header sample_request ''Authorization'' = ''Bearer '' @ ''tok''" by (simp add: sample_request_def)
  have d: "faults sample_db = []" "account_of sample_db ''a@b'' = Some sample_user" "u_forbidden_at sample_user = None"
    "u_pw_change_required_at sample_user = None" "u_role sample_user = ''user''" by code_simp+
  have t: "\<not> (24 * hour :: int) < 0 + 24 * hour - (0 + 24 * hour) mod second" "(24 * hour - 1 :: int) < 0 + 24 * hour - (0 + 24 * hour) mod second"
    by code_simp+
  note s = session_lifetime [OF k g r _ d(1-4), where c = background and h = "\<lambda>_ c. State_Monad.return (Answer 200 (ctx_role c))"]
  show ?thesis using k s [of "24 * hour"] s [of "24 * hour - 1"] t d(5) by (simp add: with_user_context_def)
qed




definition sample_providers :: providers where
  "sample_providers = \<lparr>pr_exchange = (\<lambda>_ code. if code = ''c'' then Some ''at'' else None), pr_get = (\<lambda>url. Some ''doc''),
     pr_post_form = (\<lambda>_ _. None), pr_google_user = (\<lambda>doc. if doc = ''doc'' then Some (''a@b'', ''1'') else None),
     pr_id_token = (\<lambda>_. None), pr_unverified_email = (\<lambda>_. None), pr_google_endpoint = ([], []), pr_pem_decode = (\<lambda>_. None),
     pr_parse_pkcs8 = (\<lambda>_. None), pr_sign_es256 = (\<lambda>_ _ _ _. None), pr_auth_code_url = (\<lambda>_ st _. st)\<rparr>"

definition sample_callback :: oauth_callback_request where
  "sample_callback = \<lparr>oc_cookie = Some ''s'', oc_state = ''s'', oc_code = ''c''\<rparr>"


end
