(* ===== verification/Spec2Isabelle.thy ===== *)
theory Spec2Isabelle
  imports Secrets
begin

text \<open>
  A verification development of the backend of the Essensys user portal.

  \<^bold>\<open>The program.\<close> The backend (Go, under src/) lets the owner of an electrical cabinet (an \<open>armoire\<close>) drive its
  lights, shutters and scenarios from a web site. Orders are written to a queue of cloud actions in PostgreSQL;
  a gateway next to the cabinet, or the cabinet itself with the legacy protocol, polls the queue, executes
  the orders and acknowledges them, and pushes a copy of the exchange table back. Around this core
  stand the accounts (registration, sign in, password resets, remembered sessions, OAuth), the middlewares
  that decide whether a request is served, the inventory, the synchronisation profiles, the mail templates and newsletters, the
  administration, and the support desk, which turns the reports of users into issues on GitHub.

  \<^bold>\<open>The model.\<close> All tables are fields of one record \<open>db\<close> (theory Database), which also holds the clock, the stream of
  random draws, the counters of the rate limiters, the lookups under way and a list of faults: each statement consumes one entry and fails with \<open>ConnError\<close> when it is
  true, so every theorem that does not assume \<open>faults d = []\<close> covers every way in which the connection may
  fail. A store method is a \<open>dbop\<close>, a state monad whose result is an error or a value; a handler is
  a program in the same monad that ends with an \<open>answer\<close> (an error text, an error object, or a status with a body), with the decoded
  body as argument. A panic is the answer \<open>recovered\<close>. Code outside the repository is an argument: bcrypt, JWT,
  SHA-256, HMAC, the answers of the captcha service, of GitHub and of ip-api.com, OAuth providers, SMTP and the JSON decoder of the legacy protocol; what
  the theorems need of it is a named hypothesis (for example \<open>bcrypt_law\<close>).

  \<^bold>\<open>The theories.\<close>
  \<^item> Prelude: results, faults and the monad with its frame rules (\<open>state_io_rel\<close>, \<open>io_intros\<close>), the contracts shared
    as locales (\<open>preorder_rel\<close>, \<open>monotone_system\<close>), lists and tables. GoText: the parts of Go's string
    functions that the source uses (\<open>strings\<close>, \<open>strconv\<close>, \<open>fmt\<close>, \<open>utf8\<close>).
  \<^item> Exchange (internal/domain: order_expansion.go, action_chunk.go, merge_params.go): commands for the exchange
    table. The merge of pending blocks has the effect of executing them one after the other.
  \<^item> Scenario (internal/domain/scenario): slots, launch, restore and write of a definition.
  \<^item> Lights (lights_timers.go, lights_names.go): catalogues, bounds, the order on the states of a name.
  \<^item> Accounts (user.go, auth.go, gateway.go, user_links.go, portal_session.go and others of internal/domain):
    records and the decisions on them.
  \<^item> Database: rows, tables, sequences, draws.
  \<^item> PortalStore (internal/data: store.go, exchange.go, exchange_mac.go, mac.go, light_names_store.go): the
    queue refines an abstract queue, first in first out; an action goes from pending to delivered to done and never back.
  \<^item> UserStore (user_store.go, password_reset_store.go, remember_session_store.go, audit_store.go): credentials,
    single use of tokens, the cap on sessions, invariants over all reachable states.
  \<^item> SyncStore (sync_profile_store.go, sync_alert.go, internal/syncprofile): ranges, profiles, runs.
  \<^item> Middleware (internal/middleware): the rate limiter refines a sliding window; the guards on user,
    administration and gateway routes, with the stores behind them as locales.
  \<^item> Inventory (admin_inventory.go), PortalHandlers, DeviceHandlers and GatewayHandlers (internal/handlers): orders need
    access, reach the queue complete and in order, dry runs change nothing, light names merge.
  \<^item> Identity (internal/identity, internal/pwreset, internal/remember): sign in, resets, changes of password.
  \<^item> Geo (internal/geo, legacy_iot_geo.go): which addresses are looked up, with \<open>net.ParseIP\<close> written out, and the jobs in the background.
  \<^item> LegacyIot (internal/legacyiot, legacy_iot_store.go, basic_auth.go): cabinets that poll directly.
  \<^item> Mail, AdminMail, Admin (internal/notify, internal/mailtpl, internal/admin, internal/temppass, the stores
    of templates and newsletters): mail and administration.
  \<^item> Regexp, Sensitive, Reports and Support (internal/support, support_report_store.go): the regular expressions of the filter
    with a matcher that agrees with their meaning, the filter of sensitive texts, the store of reports, and the service: what is
    published is neutral, what is sensitive is refused, and the worker publishes the reports that are due.
  \<^item> Config (internal/config, internal/turnstile, the wiring of identity/routes.go and cmd/server/main.go): settings, the
    checks at the start, the client of the captcha service.
  \<^item> Routes (internal/api/router.go and the routes.go of every package): each route with its method, path, guards and limits, and \<open>serve\<close>,
    which runs the handler of a request behind its guards.
  \<^item> Frames: every store, handler and guard keeps the invariants of all tables, and only the seven ordering requests
    add orders. Server: the steps of the whole system (requests, the worker, lookups, time, faults), its invariants, the guards of every
    route, and who may order. Start (cmd/): the wiring of the server and the import of cabinets.
  \<^item> Worker (\<open>Run\<close> in internal/support/syncer.go): the loop of the worker over its ticks; a potential on the attempts of the reports
    bounds the issues it ever asks GitHub to open, however long it runs.
  \<^item> Wire (internal/domain/legacy_actions.go, legacy_iot.go): the bytes of the answers of the legacy protocol, as encoding/json writes
    them, with a reader that gets every answer back. The locale \<open>codec\<close> is the contract of a writer and its reader, interpreted for
    strings, numbers, parameters, actions, alarm commands and whole responses.
  \<^item> Boot (cmd/server/main.go, cmd/import-machines/main.go, \<open>RunMigrations\<close>, \<open>EnsureTableExists\<close> of the stores,
    internal/observability): both \<open>main\<close> functions; what stops the server, what does not, and the order of the migrations.
  \<^item> Secrets (internal/remember, internal/pwreset, \<open>newGUID\<close>, internal/middleware/jwt.go, internal/identity/oauth.go): random
    bytes as tokens and identifiers, session tokens with their expiry, the exchange with Google and Apple.

  \<^bold>\<open>Bounds.\<close> No definition that models code needs fuel: every loop of the source runs over a list or a counter (the
  worker over its ticks) and is a total function here; only the reader of theory Wire counts down the length of its input, which bounds the items of a list. Go's \<open>int\<close> is unbounded in the model, except where the code relies on its width: block
  masks are 8-bit words, and parsed numbers are limited to 64 bits. Times are integers of nanoseconds.

  \<^bold>\<open>Interleaving.\<close> A statement or transaction is atomic and handlers run one at a time, in any order and number: the steps of
  theory Server are whole requests, runs of the worker and single lookups. What two requests do to each other between two
  statements of one of them is outside the model, save where a theorem quantifies over all sequences of store operations (the
  reachability theorems of PortalStore, UserStore and SyncStore).

  \<^bold>\<open>Not modelled.\<close> Logs, the New Relic agent beyond its options, the matching of paths and the middlewares of chi (RealIP, Recoverer
  beyond its answer, CORS), and what PostgreSQL makes of a script: a migration is any function on the tables, refused or carried out as
  a whole, and statements of the form \<open>IF NOT EXISTS\<close> change no row, since the tables of the model are always there with
  every column. JSON is written out for the legacy protocol only: the other handlers work on decoded bodies and answer with
  typed values. Limits on the length of columns and collations are not part of the tables.
\<close>

end
